(* ===== verification/Prelude.thy ===== *)
theory Prelude
  imports Main "HOL-Library.Word"
begin

text \<open>
  The shared vocabulary of the FuriOS verification library: the machine integer types of
  \<^verbatim>\<open>src/include/types.h\<close>, the constants of \<^verbatim>\<open>src/include/config.h\<close>, the named collections
  of simplification rules, and the generic lemmas on words, lists, function updates and
  ring indices that the component theories share.
\<close>

unbundle bit_operations_syntax

section \<open>Machine types and configuration constants\<close>

type_synonym u8 = "8 word"
type_synonym u16 = "16 word"
type_synonym u32 = "32 word"
type_synonym u64 = "64 word"

text \<open>\<^verbatim>\<open>src/include/config.h\<close>: page size and the RAM window.\<close>

abbreviation (input) PAGE_SIZE :: u64 where "PAGE_SIZE \<equiv> 4096"
abbreviation (input) PHYS_RAM_BASE :: u64 where "PHYS_RAM_BASE \<equiv> 0x40000000"
abbreviation (input) PHYS_RAM_SIZE :: u64 where "PHYS_RAM_SIZE \<equiv> 0x10000000"
abbreviation (input) USER_VA_BASE :: u64 where "USER_VA_BASE \<equiv> 0x00400000"
abbreviation (input) USER_VA_LIMIT :: u64 where "USER_VA_LIMIT \<equiv> 0x00800000"

section \<open>Rule collections\<close>

named_theorems word_nat \<comment> \<open>moving word comparisons and arithmetic to the natural numbers\<close>
named_theorems ring_simps \<comment> \<open>index arithmetic of the ring buffers\<close>

declare word_less_nat_alt [word_nat] word_le_nat_alt [word_nat]

section \<open>Words\<close>

lemma unat_u64 [simp]: "unat (x :: u64) < 18446744073709551616"
  using unsigned_less [where ?'a = nat and ?'b = 64, of x] by simp

lemma unat_u32 [simp]: "unat (x :: u32) < 4294967296"
  using unsigned_less [where ?'a = nat and ?'b = 32, of x] by simp

lemma unat_of_nat_small:
  "n < 2 ^ LENGTH('a) \<Longrightarrow> unat (of_nat n :: 'a::len word) = n"
  by (simp add: unat_of_nat)

lemma unat_ucast_32_64 [simp]: "unat (ucast (x :: u32) :: u64) = unat x"
proof -
  have "unat x < 2 ^ 64" using unat_u32 [of x] by (simp del: unat_u32)
  then show ?thesis by (simp add: unsigned_ucast_eq take_bit_nat_eq_self)
qed

lemma of_nat_unat_32_64: "(of_nat (unat (x :: u32)) :: u64) = ucast x"
proof -
  have "unat x < 2 ^ 64" using unat_u32 [of x] by (simp del: unat_u32)
  then show ?thesis by (simp add: word_unat_eq_iff unat_of_nat_small)
qed

lemma unat_and_not_mask:
  fixes x :: "'a::len word"
  shows "unat (x AND NOT (mask k)) = unat x div 2 ^ k * 2 ^ k"
proof -
  have split: "(x AND NOT (mask k)) + (x AND mask k) = x"
    by (subst disjunctive_add) (auto simp: bit_simps intro!: bit_eqI)
  have low: "unat (x AND mask k) = unat x mod 2 ^ k"
    by (simp only: take_bit_eq_mask [symmetric] unsigned_take_bit_eq take_bit_nat_def)
  have le: "x AND NOT (mask k) \<le> x"
    by (simp add: word_and_le1 word_and_le2)
  have "unat (x AND mask k) = unat (x - (x AND NOT (mask k)))"
    using split by (metis add_diff_cancel_left')
  also have "\<dots> = unat x - unat (x AND NOT (mask k))"
    using le by (rule unat_sub)
  finally have "unat x mod 2 ^ k = unat x - unat (x AND NOT (mask k))"
    using low by simp
  moreover have "unat (x AND NOT (mask k)) \<le> unat x"
    using le by (simp add: word_le_nat_alt)
  ultimately show ?thesis
    by (metis diff_diff_cancel minus_mod_eq_div_mult)
qed

section \<open>Natural number alignment\<close>

lemma aligned_step:
  fixes a b m :: nat
  assumes "a mod m = 0" "b mod m = 0" "a < b"
  shows "a + m \<le> b"
proof -
  from assms obtain x y where "a = m * x" "b = m * y"
    by (auto simp: mod_eq_0_iff_dvd elim!: dvdE)
  with assms(3) have "x < y" by simp
  then have "m * Suc x \<le> m * y" by (intro mult_le_mono) auto
  with \<open>a = m * x\<close> \<open>b = m * y\<close> show ?thesis by simp
qed

lemma aligned_le_cases:
  fixes a b m :: nat
  assumes "a mod m = 0" "b mod m = 0"
  shows "a \<le> b \<longleftrightarrow> a = b \<or> a + m \<le> b"
  using aligned_step [OF assms] by linarith

section \<open>Ring buffers\<close>

text \<open>
  The kernel keeps several byte and frame queues in fixed arrays (pipe data, TCP receive data,
  the received-frame queue): \<open>count\<close> elements starting at \<open>start\<close>, indices modulo the
  capacity. Their abstract value is a list.
\<close>

definition ring_list :: "nat \<Rightarrow> (nat \<Rightarrow> 'a) \<Rightarrow> nat \<Rightarrow> nat \<Rightarrow> 'a list" where
  "ring_list cap d start count = map (\<lambda>i. d ((start + i) mod cap)) [0..<count]"

lemma ring_list_length [simp]: "length (ring_list cap d start count) = count"
  by (simp add: ring_list_def)

lemma ring_list_0 [simp]: "ring_list cap d start 0 = []"
  by (simp add: ring_list_def)

lemma ring_list_head:
  "0 < cap \<Longrightarrow> start < cap \<Longrightarrow> ring_list cap d start (Suc n)
     = d start # ring_list cap d ((start + 1) mod cap) n"
  by (simp add: ring_list_def map_upt_Suc mod_simps del: upt_Suc)

lemma ring_list_snoc:
  "ring_list cap d start (Suc n) = ring_list cap d start n @ [d ((start + n) mod cap)]"
  by (simp add: ring_list_def)

lemma ring_index_distinct:
  fixes cap :: nat
  assumes "i < n" "n < cap"
  shows "(start + i) mod cap \<noteq> (start + n) mod cap"
proof
  assume "(start + i) mod cap = (start + n) mod cap"
  then have "cap dvd (start + n) - (start + i)"
    using assms(1) by (metis add_le_cancel_left less_imp_le mod_eq_dvd_iff_nat)
  then have "cap dvd n - i" by simp
  with assms show False by (metis dvd_imp_le diff_le_self leD le_less_trans zero_less_diff)
qed

lemma ring_list_store:
  "n < cap \<Longrightarrow> ring_list cap (d((start + n) mod cap := x)) start (Suc n)
     = ring_list cap d start n @ [x]"
  using ring_index_distinct [of _ n cap start]
  by (auto simp: ring_list_snoc ring_list_def intro!: map_cong)

lemma ring_list_drop:
  "0 < cap \<Longrightarrow> start < cap \<Longrightarrow> k \<le> n \<Longrightarrow>
     ring_list cap d ((start + k) mod cap) (n - k) = drop k (ring_list cap d start n)"
  by (rule nth_equalityI) (simp_all add: ring_list_def mod_add_left_eq add.assoc)

end
