(* ===== verification/Pmm.thy ===== *)
theory Pmm
  imports Prelude
begin

text \<open>
  The physical memory manager, \<^verbatim>\<open>src/kernel/pmm.c\<close>: a bump pointer over the heap window,
  a LIFO stack of freed pages, and one reference count per page of RAM. The state is the
  file's static variables, with the RAM the functions clear as one more field. A null
  pointer is the address 0.
\<close>

section \<open>State and operations\<close>

abbreviation (input) RAM_PAGES :: nat where "RAM_PAGES \<equiv> 65536" \<comment> \<open>PHYS_RAM_SIZE / PAGE_SIZE\<close>

record pmm =
  pmm_cur :: u64
  pmm_end :: u64
  free_pages :: "nat \<Rightarrow> u64"
  page_refs :: "nat \<Rightarrow> u32"
  free_top :: nat
  owned_pages :: nat
  ram :: "u64 \<Rightarrow> u8"

definition align_up :: "u64 \<Rightarrow> u64 \<Rightarrow> u64" where
  "align_up x align = (x + align - 1) AND NOT (align - 1)"

definition align_down :: "u64 \<Rightarrow> u64 \<Rightarrow> u64" where
  "align_down x align = x AND NOT (align - 1)"

text \<open>\<^verbatim>\<open>page_index\<close>: the value written to \<^verbatim>\<open>*idx_out\<close>, or \<open>None\<close> for the return value -1.\<close>

definition page_index :: "u64 \<Rightarrow> nat option" where
  "page_index p =
     (if p AND (PAGE_SIZE - 1) \<noteq> 0 then None
      else if p < PHYS_RAM_BASE \<or> p \<ge> PHYS_RAM_BASE + PHYS_RAM_SIZE then None
      else Some (unat ((p - PHYS_RAM_BASE) div PAGE_SIZE)))"

definition mark_page_owned :: "u64 \<Rightarrow> pmm \<Rightarrow> pmm" where
  "mark_page_owned p s =
     (case page_index p of
        None \<Rightarrow> s
      | Some idx \<Rightarrow>
          if page_refs s idx = 0
          then s\<lparr>page_refs := (page_refs s)(idx := 1), owned_pages := owned_pages s + 1\<rparr>
          else s)"

text \<open>
  The loop of \<^verbatim>\<open>mark_range_owned\<close>. The second guard only serves termination: the loop's
  bounds are page aligned, so that \<open>p + PAGE_SIZE\<close> never wraps while \<open>p < limit\<close>
  (\<open>mark_pages_no_wrap\<close> below).
\<close>

function mark_pages :: "u64 \<Rightarrow> u64 \<Rightarrow> pmm \<Rightarrow> pmm" where
  "mark_pages p limit s =
     (if p < limit \<and> p < p + PAGE_SIZE
      then mark_pages (p + PAGE_SIZE) limit (mark_page_owned p s)
      else s)"
  by pat_completeness auto
termination
proof (relation "measure (\<lambda>(p, limit, s). unat limit - unat p)")
  fix p limit :: u64 and s :: pmm
  assume "p < limit \<and> p < p + PAGE_SIZE"
  then show "((p + PAGE_SIZE, limit, mark_page_owned p s), (p, limit, s))
      \<in> measure (\<lambda>(p, limit, s). unat limit - unat p)"
    by (auto simp: word_less_nat_alt)
qed simp

declare mark_pages.simps [simp del]

definition mark_range_owned :: "u64 \<Rightarrow> u64 \<Rightarrow> pmm \<Rightarrow> pmm" where
  "mark_range_owned base bytes s =
     (if bytes = 0 then s
      else let e = base + bytes in
        if e < base then s
        else mark_pages (align_up base PAGE_SIZE) (align_down e PAGE_SIZE) s)"

definition pmm_init :: "u64 \<Rightarrow> u64 \<Rightarrow> pmm \<Rightarrow> pmm" where
  "pmm_init start fin s =
     s\<lparr>pmm_cur := align_up start 16, pmm_end := fin, free_top := 0, owned_pages := 0,
       page_refs := (\<lambda>_. 0)\<rparr>"

text \<open>\<^verbatim>\<open>memset((void *)base, 0, n)\<close> on the RAM.\<close>

definition ram_clear :: "u64 \<Rightarrow> u64 \<Rightarrow> (u64 \<Rightarrow> u8) \<Rightarrow> u64 \<Rightarrow> u8" where
  "ram_clear base n m = (\<lambda>a. if a - base < n then 0 else m a)"

definition pmm_alloc :: "u64 \<Rightarrow> u64 \<Rightarrow> pmm \<Rightarrow> u64 \<times> pmm" where
  "pmm_alloc bytes align s =
     (let cur = align_up (pmm_cur s) align; nxt = cur + bytes in
      if nxt > pmm_end s \<or> nxt < cur then (0, s)
      else let s1 = mark_range_owned cur bytes (s\<lparr>pmm_cur := nxt\<rparr>)
           in (cur, s1\<lparr>ram := ram_clear cur bytes (ram s1)\<rparr>))"

definition pmm_alloc_page :: "pmm \<Rightarrow> u64 \<times> pmm" where
  "pmm_alloc_page s =
     (if free_top s > 0 then
        let top = free_top s - 1;
            p = free_pages s top;
            s1 = s\<lparr>free_top := top\<rparr>;
            s2 = (case page_index p of
                    None \<Rightarrow> s1
                  | Some idx \<Rightarrow> s1\<lparr>page_refs := (page_refs s1)(idx := 1),
                                   owned_pages := owned_pages s1 + 1\<rparr>)
        in (p, s2\<lparr>ram := ram_clear p PAGE_SIZE (ram s2)\<rparr>)
      else pmm_alloc 4096 4096 s)"

definition pmm_ref_page :: "u64 \<Rightarrow> pmm \<Rightarrow> pmm" where
  "pmm_ref_page p s =
     (case page_index p of
        None \<Rightarrow> s
      | Some idx \<Rightarrow>
          if page_refs s idx = 0
          then s\<lparr>page_refs := (page_refs s)(idx := 1), owned_pages := owned_pages s + 1\<rparr>
          else s\<lparr>page_refs := (page_refs s)(idx := page_refs s idx + 1)\<rparr>)"

definition pmm_page_refcount :: "u64 \<Rightarrow> pmm \<Rightarrow> u32" where
  "pmm_page_refcount p s =
     (case page_index p of None \<Rightarrow> 0 | Some idx \<Rightarrow> page_refs s idx)"

definition pmm_free_page :: "u64 \<Rightarrow> pmm \<Rightarrow> pmm" where
  "pmm_free_page p s =
     (if p = 0 then s
      else case page_index p of
        None \<Rightarrow> s
      | Some idx \<Rightarrow>
          if page_refs s idx = 0 then s
          else let s1 = s\<lparr>page_refs := (page_refs s)(idx := page_refs s idx - 1)\<rparr> in
            if page_refs s1 idx \<noteq> 0 then s1
            else let s2 = (if owned_pages s1 > 0
                           then s1\<lparr>owned_pages := owned_pages s1 - 1\<rparr> else s1) in
              if free_top s2 < RAM_PAGES
              then s2\<lparr>free_pages := (free_pages s2)(free_top s2 := p),
                      free_top := free_top s2 + 1\<rparr>
              else s2)"

definition pmm_total_pages :: nat where
  "pmm_total_pages = unat (PHYS_RAM_SIZE div PAGE_SIZE)"

definition pmm_used_pages :: "pmm \<Rightarrow> nat" where
  "pmm_used_pages s = owned_pages s"

definition pmm_available_pages :: "pmm \<Rightarrow> nat" where
  "pmm_available_pages s =
     (let cur = align_up (pmm_cur s) PAGE_SIZE;
          bump_pages = (if cur < pmm_end s then unat ((pmm_end s - cur) div PAGE_SIZE) else 0)
      in free_top s + bump_pages)"

section \<open>Alignment and page indices\<close>

lemma page_mask: "(0xFFF :: u64) = mask 12"
  by (simp add: mask_eq_exp_minus_1)

lemma align_down_page [word_nat]: "unat (align_down x PAGE_SIZE) = unat x div 4096 * 4096"
  using unat_and_not_mask [of x 12] by (simp add: align_down_def page_mask)

lemma align_up_page:
  assumes "unat x + 4095 < 2 ^ 64"
  shows "unat (align_up x PAGE_SIZE) = (unat x + 4095) div 4096 * 4096"
proof -
  have "unat (x + 4095) = unat x + 4095"
    using assms by (simp add: unat_word_ariths)
  then show ?thesis
    using unat_and_not_mask [of "x + 4095" 12] by (simp add: align_up_def page_mask add.commute)
qed

lemma page_aligned_iff: "p AND 4095 = 0 \<longleftrightarrow> unat p mod 4096 = 0" for p :: u64
proof -
  have "unat (p AND 4095) = unat p mod 4096"
    by (simp only: page_mask take_bit_eq_mask [symmetric] unsigned_take_bit_eq take_bit_nat_def)
      simp
  then show ?thesis by (metis unat_eq_zero)
qed

lemma page_index_iff:
  "page_index p = Some i \<longleftrightarrow> i < RAM_PAGES \<and> unat p = 0x40000000 + 4096 * i"
proof -
  have "p < 0x40000000 \<or> page_index p = Some i \<longleftrightarrow>
      p < 0x40000000 \<or> (unat p mod 4096 = 0 \<and> unat p < 0x50000000
        \<and> i = (unat p - 0x40000000) div 4096)"
    by (auto simp: page_index_def page_aligned_iff word_le_nat_alt word_less_nat_alt
        unat_sub unat_div_distrib)
  moreover have "p < 0x40000000 \<Longrightarrow> page_index p = None"
    by (simp add: page_index_def)
  ultimately show ?thesis
    by (cases "p < 0x40000000") (auto simp: word_less_nat_alt)
qed

lemma page_index_inj: "page_index p = Some i \<Longrightarrow> page_index q = Some i \<Longrightarrow> p = q"
  by (simp add: page_index_iff word_unat_eq_iff)

text \<open>The termination guard of the marking loop never cuts it short on aligned bounds.\<close>

lemma mark_pages_no_wrap:
  assumes "unat p mod 4096 = 0" "unat limit mod 4096 = 0" "p < limit"
  shows "p < p + PAGE_SIZE" and "unat (p + PAGE_SIZE) = unat p + 4096"
proof -
  have "unat p + 4096 \<le> unat limit"
    using aligned_step [of "unat p" 4096 "unat limit"] assms by (simp add: word_less_nat_alt)
  then have "unat p + 4096 < 2 ^ 64"
    using unat_u64 [of limit] by (simp del: unat_u64)
  then show "unat (p + PAGE_SIZE) = unat p + 4096"
    by (simp add: unat_word_ariths)
  then show "p < p + PAGE_SIZE"
    by (simp add: word_less_nat_alt)
qed

section \<open>The invariant\<close>

text \<open>The address one past page \<open>i\<close>.\<close>

abbreviation (input) page_limit :: "nat \<Rightarrow> nat" where "page_limit i \<equiv> 0x40000000 + 4096 * Suc i"

definition live :: "pmm \<Rightarrow> nat set" where
  "live s = {i. page_refs s i \<noteq> 0}"

definition free_stack_ok :: "pmm \<Rightarrow> bool" where
  "free_stack_ok s \<longleftrightarrow> inj_on (free_pages s) {..<free_top s} \<and>
     (\<forall>k < free_top s. \<exists>i. page_index (free_pages s k) = Some i \<and> i \<notin> live s
        \<and> page_limit i \<le> unat (pmm_cur s))"

definition pmm_inv :: "pmm \<Rightarrow> bool" where
  "pmm_inv s \<longleftrightarrow>
     0x40000000 \<le> unat (pmm_cur s) \<and> unat (pmm_cur s) \<le> unat (pmm_end s) \<and>
     unat (pmm_end s) \<le> 0x50000000 \<and>
     (\<forall>i \<in> live s. page_limit i \<le> unat (pmm_cur s)) \<and>
     free_stack_ok s \<and> owned_pages s = card (live s)"

lemma page_limit_RAM: "page_limit i \<le> 0x50000000 \<longleftrightarrow> i < RAM_PAGES"
  by auto

lemma live_bounded: "pmm_inv s \<Longrightarrow> live s \<subseteq> {..<RAM_PAGES}"
  by (fastforce simp: pmm_inv_def)

lemma live_finite: "pmm_inv s \<Longrightarrow> finite (live s)"
  using live_bounded finite_subset by blast

lemma live_simps [simp]:
  "live (s\<lparr>pmm_cur := a\<rparr>) = live s" "live (s\<lparr>ram := r\<rparr>) = live s"
  "live (s\<lparr>free_top := n\<rparr>) = live s" "live (s\<lparr>owned_pages := m\<rparr>) = live s"
  "live (s\<lparr>free_pages := f\<rparr>) = live s"
  by (simp_all add: live_def)

lemma pmm_inv_ram [simp]: "pmm_inv (s\<lparr>ram := r\<rparr>) = pmm_inv s"
  by (simp add: pmm_inv_def free_stack_ok_def live_def)

lemma pmm_init_inv:
  assumes "0x40000000 \<le> unat (align_up start 16)" "unat (align_up start 16) \<le> unat fin"
    "unat fin \<le> 0x50000000"
  shows "pmm_inv (pmm_init start fin s)"
  using assms by (simp add: pmm_inv_def pmm_init_def live_def free_stack_ok_def)

text \<open>The stack holds distinct unowned pages of RAM, so it cannot be full while a page is live.\<close>

lemma free_stack_room:
  assumes inv: "pmm_inv s" and i: "i \<in> live s"
  shows "free_top s < RAM_PAGES"
proof -
  define f where "f k = the (page_index (free_pages s k))" for k
  have idx: "page_index (free_pages s k) = Some (f k) \<and> f k \<notin> live s \<and> f k < RAM_PAGES"
    if "k < free_top s" for k
    using inv that unfolding pmm_inv_def free_stack_ok_def f_def
    by (metis option.sel page_index_iff)
  have "inj_on f {..<free_top s}"
  proof (rule inj_onI)
    fix x y
    assume xy: "x \<in> {..<free_top s}" "y \<in> {..<free_top s}" "f x = f y"
    then have "free_pages s x = free_pages s y"
      using idx [of x] idx [of y] page_index_inj by simp
    then show "x = y"
      using inv xy unfolding pmm_inv_def free_stack_ok_def inj_on_def by blast
  qed
  then have "card (f ` {..<free_top s}) = free_top s"
    by (simp add: card_image)
  moreover have "f ` {..<free_top s} \<subseteq> {..<RAM_PAGES} - {i}"
    using idx i by auto
  then have "card (f ` {..<free_top s}) \<le> card ({..<RAM_PAGES} - {i})"
    by (intro card_mono) auto
  moreover have "i \<in> {..<RAM_PAGES}" using live_bounded [OF inv] i by blast
  then have "card ({..<RAM_PAGES} - {i}) < RAM_PAGES" by simp
  ultimately show ?thesis by simp
qed

section \<open>The bump allocator\<close>

text \<open>What the marking loop does to a state: it takes ownership of exactly the unowned pages
  between its bounds.\<close>

definition pages_between :: "nat \<Rightarrow> nat \<Rightarrow> nat set" where
  "pages_between a b = {i. i < RAM_PAGES \<and> a \<le> 0x40000000 + 4096 * i \<and> page_limit i \<le> b}"

lemma pages_between_finite [simp]: "finite (pages_between a b)"
  by (rule finite_subset [of _ "{..<RAM_PAGES}"]) (auto simp: pages_between_def)

lemma pages_between_step:
  assumes "unat p + 4096 \<le> b" and "unat p mod 4096 = 0"
  shows "pages_between (unat p) b = {i. page_index p = Some i} \<union> pages_between (unat p + 4096) b"
proof (rule set_eqI)
  fix i
  have "unat p \<le> 0x40000000 + 4096 * i \<longleftrightarrow>
      unat p = 0x40000000 + 4096 * i \<or> unat p + 4096 \<le> 0x40000000 + 4096 * i"
    by (rule aligned_le_cases [OF assms(2)]) (simp add: mod_simps)
  then show "i \<in> pages_between (unat p) b \<longleftrightarrow>
      i \<in> {i. page_index p = Some i} \<union> pages_between (unat p + 4096) b"
    using assms(1) by (auto simp: pages_between_def page_index_iff)
qed

lemma mark_page_owned_spec:
  fixes p :: u64 and s :: pmm
  assumes "finite (live s)"
  defines "N \<equiv> {i. page_index p = Some i} - live s"
  shows "live (mark_page_owned p s) = live s \<union> N"
    "owned_pages (mark_page_owned p s) = owned_pages s + card N"
    "page_refs (mark_page_owned p s) = (\<lambda>i. if i \<in> N then 1 else page_refs s i)"
    "pmm_cur (mark_page_owned p s) = pmm_cur s" "pmm_end (mark_page_owned p s) = pmm_end s"
    "free_pages (mark_page_owned p s) = free_pages s"
    "free_top (mark_page_owned p s) = free_top s" "ram (mark_page_owned p s) = ram s"
proof -
  have N: "N = (case page_index p of None \<Rightarrow> {} | Some i \<Rightarrow> if page_refs s i = 0 then {i} else {})"
    by (auto simp: N_def live_def split: option.splits)
  show "live (mark_page_owned p s) = live s \<union> N"
    "owned_pages (mark_page_owned p s) = owned_pages s + card N"
    "page_refs (mark_page_owned p s) = (\<lambda>i. if i \<in> N then 1 else page_refs s i)"
    "pmm_cur (mark_page_owned p s) = pmm_cur s" "pmm_end (mark_page_owned p s) = pmm_end s"
    "free_pages (mark_page_owned p s) = free_pages s"
    "free_top (mark_page_owned p s) = free_top s" "ram (mark_page_owned p s) = ram s"
    by (auto simp: N mark_page_owned_def live_def fun_eq_iff split: option.splits)
qed

lemma mark_pages_spec:
  assumes "unat p mod 4096 = 0" "unat limit mod 4096 = 0" "finite (live s)"
  shows "live (mark_pages p limit s) = live s \<union> pages_between (unat p) (unat limit)
    \<and> owned_pages (mark_pages p limit s)
        = owned_pages s + card (pages_between (unat p) (unat limit) - live s)
    \<and> page_refs (mark_pages p limit s)
        = (\<lambda>i. if i \<in> pages_between (unat p) (unat limit) - live s then 1 else page_refs s i)
    \<and> pmm_cur (mark_pages p limit s) = pmm_cur s \<and> pmm_end (mark_pages p limit s) = pmm_end s
    \<and> free_pages (mark_pages p limit s) = free_pages s
    \<and> free_top (mark_pages p limit s) = free_top s \<and> ram (mark_pages p limit s) = ram s"
  using assms
proof (induction p limit s rule: mark_pages.induct)
  case (1 p limit s)
  show ?case
  proof (cases "p < limit")
    case False
    then have "pages_between (unat p) (unat limit) = {}"
      by (auto simp: pages_between_def word_less_nat_alt)
    with False show ?thesis by (simp add: mark_pages.simps [of p])
  next
    case True
    let ?s = "mark_page_owned p s"
    let ?N = "{i. page_index p = Some i} - live s"
    note nw = mark_pages_no_wrap [OF "1.prems"(1,2) True]
    have "unat p + 4096 \<le> unat limit"
      using aligned_step [of "unat p" 4096 "unat limit"] True "1.prems"(1,2)
      by (simp add: word_less_nat_alt)
    then have B: "pages_between (unat p) (unat limit)
        = {i. page_index p = Some i} \<union> pages_between (unat p + 4096) (unat limit)"
      using "1.prems"(1) by (rule pages_between_step)
    have D: "{i. page_index p = Some i} \<inter> pages_between (unat p + 4096) (unat limit) = {}"
      by (auto simp: pages_between_def page_index_iff)
    note st = mark_page_owned_spec [OF "1.prems"(3), of p]
    have fin: "finite {i. page_index p = Some i}"
      by (cases "page_index p") auto
    have IH: "live (mark_pages (p + PAGE_SIZE) limit ?s)
          = live ?s \<union> pages_between (unat p + 4096) (unat limit)
        \<and> owned_pages (mark_pages (p + PAGE_SIZE) limit ?s)
          = owned_pages ?s + card (pages_between (unat p + 4096) (unat limit) - live ?s)
        \<and> page_refs (mark_pages (p + PAGE_SIZE) limit ?s)
          = (\<lambda>i. if i \<in> pages_between (unat p + 4096) (unat limit) - live ?s then 1
               else page_refs ?s i)
        \<and> pmm_cur (mark_pages (p + PAGE_SIZE) limit ?s) = pmm_cur ?s
        \<and> pmm_end (mark_pages (p + PAGE_SIZE) limit ?s) = pmm_end ?s
        \<and> free_pages (mark_pages (p + PAGE_SIZE) limit ?s) = free_pages ?s
        \<and> free_top (mark_pages (p + PAGE_SIZE) limit ?s) = free_top ?s
        \<and> ram (mark_pages (p + PAGE_SIZE) limit ?s) = ram ?s"
      using "1.IH" True nw "1.prems" fin by (simp add: st)
    have R: "pages_between (unat p) (unat limit) - live s
        = ?N \<union> (pages_between (unat p + 4096) (unat limit) - live ?s)"
      using D by (auto simp: B st)
    have C: "card (pages_between (unat p) (unat limit) - live s)
        = card ?N + card (pages_between (unat p + 4096) (unat limit) - live ?s)"
      unfolding R using fin by (intro card_Un_disjoint) (auto simp: st)
    have step: "mark_pages p limit s = mark_pages (p + PAGE_SIZE) limit ?s"
      using True nw by (simp add: mark_pages.simps [of p])
    have L: "live s \<union> pages_between (unat p) (unat limit)
        = live ?s \<union> pages_between (unat p + 4096) (unat limit)"
      by (auto simp: B st)
    have P: "(\<lambda>i. if i \<in> pages_between (unat p) (unat limit) - live s then 1 else page_refs s i)
        = (\<lambda>i. if i \<in> pages_between (unat p + 4096) (unat limit) - live ?s then 1
             else page_refs ?s i)"
      unfolding R by (auto simp: st fun_eq_iff)
    show ?thesis
      unfolding step C L P using IH by (simp add: st)
  qed
qed

text \<open>Only whole pages inside the byte range are marked.\<close>

lemma pages_between_aligned:
  "pages_between ((a + 4095) div 4096 * 4096) (b div 4096 * 4096) = pages_between a b"
proof -
  have up: "(a + 4095) div 4096 * 4096 \<le> 4096 * j \<longleftrightarrow> a \<le> 4096 * j" for j :: nat
    using div_less_iff_less_mult [of 4096 "a + 4095" "Suc j"] by auto
  have down: "4096 * j \<le> b div 4096 * 4096 \<longleftrightarrow> 4096 * j \<le> b" for j :: nat
    using less_eq_div_iff_mult_less_eq [of 4096 j b] by (auto simp: mult.commute)
  have base: "0x40000000 + 4096 * i = 4096 * (262144 + i)" for i :: nat by simp
  have lim: "page_limit i = 4096 * (262145 + i)" for i by simp
  show ?thesis
    unfolding pages_between_def base lim up down ..
qed

lemma mark_range_owned_spec:
  assumes "finite (live s)" "unat base + unat bytes \<le> 0x50000000"
  defines "P \<equiv> pages_between (unat base) (unat base + unat bytes)"
  shows "live (mark_range_owned base bytes s) = live s \<union> P
    \<and> owned_pages (mark_range_owned base bytes s) = owned_pages s + card (P - live s)
    \<and> page_refs (mark_range_owned base bytes s)
        = (\<lambda>i. if i \<in> P - live s then 1 else page_refs s i)
    \<and> pmm_cur (mark_range_owned base bytes s) = pmm_cur s
    \<and> pmm_end (mark_range_owned base bytes s) = pmm_end s
    \<and> free_pages (mark_range_owned base bytes s) = free_pages s
    \<and> free_top (mark_range_owned base bytes s) = free_top s
    \<and> ram (mark_range_owned base bytes s) = ram s"
proof (cases "bytes = 0")
  case True
  then have "P = {}" by (auto simp: P_def pages_between_def)
  with True show ?thesis by (simp add: mark_range_owned_def)
next
  case False
  have e: "unat (base + bytes) = unat base + unat bytes"
    using assms(2) by (simp add: unat_word_ariths)
  then have nw: "\<not> base + bytes < base" by (simp add: word_less_nat_alt)
  have up: "unat (align_up base PAGE_SIZE) = (unat base + 4095) div 4096 * 4096"
    using assms(2) by (intro align_up_page) simp
  have "P = pages_between (unat (align_up base PAGE_SIZE)) (unat (align_down (base + bytes) PAGE_SIZE))"
    by (simp add: P_def up e align_down_page pages_between_aligned)
  moreover have "mark_range_owned base bytes s
      = mark_pages (align_up base PAGE_SIZE) (align_down (base + bytes) PAGE_SIZE) s"
    using False nw by (simp add: mark_range_owned_def Let_def)
  ultimately show ?thesis
    using mark_pages_spec [of "align_up base PAGE_SIZE" "align_down (base + bytes) PAGE_SIZE" s]
      assms(1) by (simp add: up align_down_page)
qed

lemma align_up_pow2:
  assumes "unat x \<le> 0x50000000" "k \<le> 32"
  shows "unat (align_up x (2 ^ k)) = (unat x + 2 ^ k - 1) div 2 ^ k * 2 ^ k"
proof -
  have m: "(2 ^ k :: u64) - 1 = mask k" by (simp add: mask_eq_exp_minus_1)
  have small: "(2 ^ k :: nat) \<le> 4294967296"
    using power_increasing [OF assms(2), of "2 :: nat"] by simp
  have ge: "(1 :: nat) \<le> 2 ^ k" by simp
  have pw: "unat (mask k :: u64) = 2 ^ k - 1"
  proof -
    have "(mask k :: u64) = of_nat (2 ^ k - 1)"
      by (simp add: mask_eq_exp_minus_1)
    also have "unat \<dots> = 2 ^ k - 1"
      using small by (intro unat_of_nat_small) simp
    finally show ?thesis .
  qed
  have "unat (x + mask k) = unat x + 2 ^ k - 1"
    using assms(1) small ge pw by (simp add: unat_word_ariths)
  then show ?thesis
    using unat_and_not_mask [of "x + mask k" k]
    by (simp add: align_up_def m add_diff_eq [symmetric])
qed

lemma align_up_pow2_bounds:
  assumes "unat x \<le> 0x50000000" "k \<le> 32"
  shows "unat x \<le> unat (align_up x (2 ^ k))" "unat (align_up x (2 ^ k)) mod 2 ^ k = 0"
    "unat (align_up x (2 ^ k)) < unat x + 2 ^ k"
proof -
  define m :: nat where "m = 2 ^ k"
  define q where "q = (unat x + m - 1) div m * m"
  have m: "0 < m" by (simp add: m_def)
  have "q + (unat x + m - 1) mod m = unat x + m - 1"
    unfolding q_def by (rule div_mult_mod_eq)
  moreover have "(unat x + m - 1) mod m < m" using m by simp
  moreover have q: "unat (align_up x (2 ^ k)) = q"
    by (simp add: align_up_pow2 [OF assms] q_def m_def)
  ultimately show "unat x \<le> unat (align_up x (2 ^ k))" "unat (align_up x (2 ^ k)) < unat x + 2 ^ k"
    using m unfolding m_def [symmetric] by linarith+
  show "unat (align_up x (2 ^ k)) mod 2 ^ k = 0"
    unfolding q unfolding q_def m_def by simp
qed

lemma pmm_inv_pages_above:
  assumes "pmm_inv s" "unat (pmm_cur s) \<le> a"
  shows "pages_between a b \<inter> live s = {}"
proof -
  have "page_limit i \<le> a" if "i \<in> live s" for i
    using assms that unfolding pmm_inv_def by (meson order_trans)
  then show ?thesis by (fastforce simp: pages_between_def)
qed

text \<open>A successful bump allocation: an aligned, cleared block of the window above everything
  handed out before, whose whole pages become owned.\<close>

lemma pmm_alloc_spec:
  assumes inv: "pmm_inv s" and k: "k \<le> 32" and al: "pmm_alloc bytes (2 ^ k) s = (p, s')"
    and ok: "p \<noteq> 0"
  defines "P \<equiv> pages_between (unat p) (unat p + unat bytes)"
  shows "pmm_inv s'" "unat (pmm_cur s) \<le> unat p" "unat p mod 2 ^ k = 0"
    "unat (pmm_cur s') = unat p + unat bytes" "pmm_end s' = pmm_end s"
    "live s' = live s \<union> P" "live s \<inter> P = {}" "owned_pages s' = owned_pages s + card P"
    "page_refs s' = (\<lambda>i. if i \<in> P then 1 else page_refs s i)"
    "ram s' = ram_clear p bytes (ram s)" "free_top s' = free_top s" "p = align_up (pmm_cur s) (2 ^ k)"
proof -
  have b: "unat (pmm_cur s) \<le> 0x50000000" "unat (pmm_end s) \<le> 0x50000000"
    using inv by (auto simp: pmm_inv_def)
  show p: "p = align_up (pmm_cur s) (2 ^ k)"
    using al ok by (auto simp: pmm_alloc_def Let_def split: if_splits)
  have nxt: "\<not> p + bytes > pmm_end s" "\<not> p + bytes < p"
    using al ok p by (auto simp: pmm_alloc_def Let_def split: if_splits)
  show le: "unat (pmm_cur s) \<le> unat p" and "unat p mod 2 ^ k = 0"
    using align_up_pow2_bounds [OF b(1) k] p by auto
  have sum: "unat (p + bytes) = unat p + unat bytes"
    using nxt(2) by (metis not_less unat_plus_simple)
  have fits: "unat p + unat bytes \<le> unat (pmm_end s)"
    using nxt(1) sum by (simp add: word_less_nat_alt)
  let ?s0 = "s\<lparr>pmm_cur := p + bytes\<rparr>"
  let ?s1 = "mark_range_owned p bytes ?s0"
  have s': "s' = ?s1\<lparr>ram := ram_clear p bytes (ram ?s1)\<rparr>"
    using al ok p by (auto simp: pmm_alloc_def Let_def split: if_splits)
  have disj: "P - live s = P" "live s \<inter> P = {}"
    using pmm_inv_pages_above [OF inv le] by (auto simp: P_def)
  note spec = mark_range_owned_spec [of ?s0 p bytes, folded P_def]
  have m: "live ?s1 = live s \<union> P" "owned_pages ?s1 = owned_pages s + card P"
    "page_refs ?s1 = (\<lambda>i. if i \<in> P then 1 else page_refs s i)"
    "pmm_cur ?s1 = p + bytes" "pmm_end ?s1 = pmm_end s" "free_pages ?s1 = free_pages s"
    "free_top ?s1 = free_top s" "ram ?s1 = ram s"
    using spec live_finite [OF inv] fits b disj by auto
  show "live s \<inter> P = {}" by (rule disj)
  show "unat (pmm_cur s') = unat p + unat bytes" "pmm_end s' = pmm_end s"
    "live s' = live s \<union> P" "owned_pages s' = owned_pages s + card P"
    "page_refs s' = (\<lambda>i. if i \<in> P then 1 else page_refs s i)"
    "ram s' = ram_clear p bytes (ram s)" "free_top s' = free_top s"
    by (simp_all add: s' m sum)
  have stack: "free_stack_ok ?s1"
    using inv le by (fastforce simp: pmm_inv_def free_stack_ok_def m sum P_def pages_between_def)
  have "\<forall>i \<in> live ?s1. page_limit i \<le> unat (p + bytes)"
    using inv le by (fastforce simp: pmm_inv_def m sum P_def pages_between_def)
  moreover have "owned_pages ?s1 = card (live ?s1)"
    using inv disj live_finite [OF inv]
    by (simp add: m pmm_inv_def P_def card_Un_disjoint)
  ultimately have "pmm_inv ?s1"
    using inv stack le fits by (auto simp: pmm_inv_def m sum)
  then show "pmm_inv s'" by (simp add: s')
qed

lemma pmm_alloc_fail:
  assumes "pmm_alloc bytes align s = (0, s')" "align_up (pmm_cur s) align \<noteq> 0"
  shows "s' = s"
proof (cases "align_up (pmm_cur s) align + bytes > pmm_end s
    \<or> align_up (pmm_cur s) align + bytes < align_up (pmm_cur s) align")
  case True
  with assms(1) show ?thesis by (simp add: pmm_alloc_def)
next
  case False
  with assms show ?thesis by (simp add: pmm_alloc_def Let_def)
qed

section \<open>Pages\<close>

lemma pages_between_one:
  assumes "unat p mod 4096 = 0" "0x40000000 \<le> unat p" "unat p + 4096 \<le> 0x50000000"
  shows "pages_between (unat p) (unat p + 4096) = {(unat p - 0x40000000) div 4096}"
    "page_index p = Some ((unat p - 0x40000000) div 4096)"
proof -
  obtain j where "unat p = 4096 * j"
    using assms(1) by (auto simp: mod_eq_0_iff_dvd elim!: dvdE)
  then have "unat p = 0x40000000 + 4096 * (j - 262144)" using assms(2) by simp
  then obtain i where i: "unat p = 0x40000000 + 4096 * i" by blast
  with assms(3) show "pages_between (unat p) (unat p + 4096) = {(unat p - 0x40000000) div 4096}"
    by (auto simp: pages_between_def)
  from i assms(3) show "page_index p = Some ((unat p - 0x40000000) div 4096)"
    by (simp add: page_index_iff)
qed

text \<open>One allocated page, from either source.\<close>

definition fresh_page :: "pmm \<Rightarrow> u64 \<Rightarrow> pmm \<Rightarrow> bool" where
  "fresh_page s p s' \<longleftrightarrow> (\<exists>i. page_index p = Some i \<and> i \<notin> live s
     \<and> page_refs s' = (page_refs s)(i := 1) \<and> ram s' = ram_clear p PAGE_SIZE (ram s)
     \<and> owned_pages s' = owned_pages s + 1)"

lemma fresh_page_refcount:
  assumes "fresh_page s p s'"
  shows "pmm_page_refcount p s = 0" "pmm_page_refcount p s' = 1"
    "\<forall>q. q \<noteq> p \<longrightarrow> pmm_page_refcount q s' = pmm_page_refcount q s"
proof -
  obtain i where i: "page_index p = Some i" "i \<notin> live s" "page_refs s' = (page_refs s)(i := 1)"
    using assms by (auto simp: fresh_page_def)
  then show "pmm_page_refcount p s = 0" "pmm_page_refcount p s' = 1"
    by (simp_all add: pmm_page_refcount_def live_def)
  have "page_index q \<noteq> Some i" if "q \<noteq> p" for q
    using page_index_inj [OF i(1)] that by blast
  then show "\<forall>q. q \<noteq> p \<longrightarrow> pmm_page_refcount q s' = pmm_page_refcount q s"
    using i(3) by (auto simp: pmm_page_refcount_def split: option.splits)
qed

lemma alloc_page_bump:
  assumes inv: "pmm_inv s" and al: "pmm_alloc 4096 4096 s = (p, s')" and ok: "p \<noteq> 0"
  shows "pmm_inv s' \<and> fresh_page s p s'"
proof -
  note sp = pmm_alloc_spec [OF inv, of 12, simplified, OF al ok]
  have b: "0x40000000 \<le> unat p" "unat p + 4096 \<le> 0x50000000"
    using sp(1,2,4) inv by (auto simp: pmm_inv_def)
  note one = pages_between_one [OF sp(3) b]
  show ?thesis
    using sp one by (auto simp: fresh_page_def fun_eq_iff)
qed

lemma alloc_page_stack:
  assumes inv: "pmm_inv s" and al: "pmm_alloc_page s = (p, s')" and top: "free_top s > 0"
  shows "pmm_inv s' \<and> fresh_page s p s'"
proof -
  let ?t = "free_top s - 1"
  have t: "?t < free_top s" using top by simp
  have p: "p = free_pages s ?t"
    using al top by (simp add: pmm_alloc_page_def Let_def)
  obtain i where i: "page_index p = Some i" "i \<notin> live s" "page_limit i \<le> unat (pmm_cur s)"
    using inv t unfolding p pmm_inv_def free_stack_ok_def by blast
  have s': "s' = s\<lparr>free_top := ?t, page_refs := (page_refs s)(i := 1),
      owned_pages := owned_pages s + 1, ram := ram_clear p PAGE_SIZE (ram s)\<rparr>"
    using al top i p by (simp add: pmm_alloc_page_def Let_def)
  have live': "live s' = insert i (live s)" by (auto simp: s' live_def)
  have "free_stack_ok s'"
    unfolding free_stack_ok_def
  proof (intro conjI allI impI)
    show "inj_on (free_pages s') {..<free_top s'}"
      using inv by (auto simp: s' pmm_inv_def free_stack_ok_def intro: inj_on_subset)
    fix k
    assume "k < free_top s'"
    then have k: "k < ?t" by (simp add: s')
    with t have "k < free_top s" by simp
    then obtain j where j: "page_index (free_pages s k) = Some j" "j \<notin> live s"
        "page_limit j \<le> unat (pmm_cur s)"
      using inv unfolding pmm_inv_def free_stack_ok_def by blast
    have "free_pages s k \<noteq> p"
      using inv k t unfolding p pmm_inv_def free_stack_ok_def inj_on_def
      by (metis lessThan_iff less_irrefl less_trans)
    then have "j \<noteq> i" using j(1) i(1) page_index_inj by blast
    with j show "\<exists>i. page_index (free_pages s' k) = Some i \<and> i \<notin> live s'
        \<and> page_limit i \<le> unat (pmm_cur s')"
      by (intro exI [of _ j]) (simp add: live', simp add: s')
  qed
  moreover have "owned_pages s' = card (live s')"
    using inv i live_finite [OF inv] by (simp add: live' pmm_inv_def) (simp add: s')
  ultimately have "pmm_inv s'"
    using inv i unfolding pmm_inv_def live' by (simp add: s')
  then show ?thesis
    using i by (auto simp: fresh_page_def s')
qed

lemma pmm_alloc_page_ok:
  assumes "pmm_inv s" "pmm_alloc_page s = (p, s')" "p \<noteq> 0"
  shows "pmm_inv s' \<and> fresh_page s p s'"
proof (cases "free_top s > 0")
  case True
  with assms(1,2) show ?thesis by (rule alloc_page_stack)
next
  case False
  with assms(2) have "pmm_alloc 4096 4096 s = (p, s')" by (simp add: pmm_alloc_page_def)
  with assms(1) show ?thesis using assms(3) by (rule alloc_page_bump)
qed

text \<open>The bump path serves a request exactly while a page is left in the window.\<close>

lemma bump_page_available:
  assumes inv: "pmm_inv s"
  shows "fst (pmm_alloc 4096 4096 s) = 0 \<longleftrightarrow>
      \<not> unat (align_up (pmm_cur s) PAGE_SIZE) + 4096 \<le> unat (pmm_end s)"
    and "align_up (pmm_cur s) PAGE_SIZE \<noteq> 0"
proof -
  let ?c = "align_up (pmm_cur s) PAGE_SIZE"
  have b: "unat (pmm_cur s) \<le> 0x50000000" "0x40000000 \<le> unat (pmm_cur s)"
    using inv by (auto simp: pmm_inv_def)
  note ab = align_up_pow2_bounds [OF b(1), of 12, simplified]
  have "unat ?c \<noteq> 0" using ab(1) b(2) by linarith
  then show nz: "?c \<noteq> 0" by (metis unat_0)
  have "unat (?c + 4096) = unat ?c + 4096"
    using ab(3) b(1) by (simp add: unat_word_ariths)
  then show "fst (pmm_alloc 4096 4096 s) = 0 \<longleftrightarrow> \<not> unat ?c + 4096 \<le> unat (pmm_end s)"
    using nz by (simp add: pmm_alloc_def Let_def word_less_nat_alt not_le)
qed

lemma pmm_alloc_page_null:
  assumes inv: "pmm_inv s"
  shows "fst (pmm_alloc_page s) = 0 \<longleftrightarrow> pmm_available_pages s = 0"
proof (cases "free_top s > 0")
  case True
  obtain p s' where al: "pmm_alloc_page s = (p, s')" by fastforce
  have "fresh_page s p s'" using alloc_page_stack [OF inv al True] by simp
  then have "p \<noteq> 0" by (auto simp: fresh_page_def page_index_def)
  with al True show ?thesis by (simp add: pmm_available_pages_def Let_def)
next
  case False
  let ?c = "align_up (pmm_cur s) PAGE_SIZE"
  have "(if ?c < pmm_end s then unat ((pmm_end s - ?c) div PAGE_SIZE) else 0) = 0
      \<longleftrightarrow> \<not> unat ?c + 4096 \<le> unat (pmm_end s)"
    by (auto simp: word_less_nat_alt unat_sub word_le_nat_alt unat_div_distrib div_eq_0_iff)
  with False bump_page_available [OF inv] show ?thesis
    by (simp add: pmm_alloc_page_def pmm_available_pages_def Let_def)
qed

lemma pmm_alloc_page_fail:
  assumes "pmm_inv s" "pmm_alloc_page s = (0, s')"
  shows "s' = s"
proof (cases "free_top s > 0")
  case True
  then have "fresh_page s 0 s'" using alloc_page_stack [OF assms] by simp
  then show ?thesis by (simp add: fresh_page_def page_index_def)
next
  case False
  with assms(2) have "pmm_alloc 4096 4096 s = (0, s')" by (simp add: pmm_alloc_page_def)
  then show ?thesis using bump_page_available(2) [OF assms(1)] by (rule pmm_alloc_fail)
qed

section \<open>References\<close>

lemma pmm_ref_page_inv:
  assumes inv: "pmm_inv s" and live: "pmm_page_refcount p s \<noteq> 0"
    and nowrap: "pmm_page_refcount p s \<noteq> - 1"
  shows "pmm_inv (pmm_ref_page p s)"
    "pmm_page_refcount q (pmm_ref_page p s)
      = pmm_page_refcount q s + (if q = p then 1 else 0)"
proof -
  obtain i where i: "page_index p = Some i" and r: "page_refs s i \<noteq> 0"
    using live by (auto simp: pmm_page_refcount_def split: option.splits)
  then have nz: "page_refs s i + 1 \<noteq> 0"
    using nowrap by (simp add: pmm_page_refcount_def eq_neg_iff_add_eq_0)
  have s': "pmm_ref_page p s = s\<lparr>page_refs := (page_refs s)(i := page_refs s i + 1)\<rparr>"
    using i r by (simp add: pmm_ref_page_def)
  have "live (pmm_ref_page p s) = live s"
    using r nz by (auto simp: s' live_def)
  with inv show "pmm_inv (pmm_ref_page p s)"
    by (simp add: pmm_inv_def free_stack_ok_def) (simp add: s')
  show "pmm_page_refcount q (pmm_ref_page p s)
      = pmm_page_refcount q s + (if q = p then 1 else 0)"
    using i page_index_inj by (auto simp: s' pmm_page_refcount_def split: option.splits)
qed

text \<open>Dropping a reference that is not the last one.\<close>

lemma pmm_free_page_shared:
  assumes inv: "pmm_inv s" and shared: "1 < pmm_page_refcount p s"
  shows "pmm_inv (pmm_free_page p s)" "free_top (pmm_free_page p s) = free_top s"
    "pmm_page_refcount q (pmm_free_page p s)
      = pmm_page_refcount q s - (if q = p then 1 else 0)"
proof -
  obtain i where i: "page_index p = Some i" and r: "1 < page_refs s i"
    using shared by (auto simp: pmm_page_refcount_def split: option.splits)
  have nz: "page_refs s i \<noteq> 0" "page_refs s i - 1 \<noteq> 0"
    using r by (auto simp: word_less_nat_alt)
  have "p \<noteq> 0" using i by (auto simp: page_index_def)
  then have s': "pmm_free_page p s = s\<lparr>page_refs := (page_refs s)(i := page_refs s i - 1)\<rparr>"
    using i nz by (simp add: pmm_free_page_def Let_def)
  have "live (pmm_free_page p s) = live s"
    using nz by (auto simp: s' live_def)
  with inv show "pmm_inv (pmm_free_page p s)"
    by (simp add: pmm_inv_def free_stack_ok_def) (simp add: s')
  show "free_top (pmm_free_page p s) = free_top s" by (simp add: s')
  show "pmm_page_refcount q (pmm_free_page p s)
      = pmm_page_refcount q s - (if q = p then 1 else 0)"
    using i page_index_inj by (auto simp: s' pmm_page_refcount_def split: option.splits)
qed

text \<open>Dropping the last reference puts the page on the stack.\<close>

lemma pmm_free_page_last:
  assumes inv: "pmm_inv s" and last: "pmm_page_refcount p s = 1"
  shows "pmm_inv (pmm_free_page p s)" "free_top (pmm_free_page p s) = free_top s + 1"
    "free_pages (pmm_free_page p s) (free_top s) = p"
    "pmm_cur (pmm_free_page p s) = pmm_cur s" "pmm_end (pmm_free_page p s) = pmm_end s"
    "pmm_page_refcount q (pmm_free_page p s) = (if q = p then 0 else pmm_page_refcount q s)"
proof -
  obtain i where i: "page_index p = Some i" and r: "page_refs s i = 1"
    using last by (auto simp: pmm_page_refcount_def split: option.splits)
  have il: "i \<in> live s" by (simp add: live_def r)
  have room: "free_top s < RAM_PAGES" by (rule free_stack_room [OF inv il])
  have own: "owned_pages s > 0"
    using inv il live_finite [OF inv] by (auto simp: pmm_inv_def card_gt_0_iff)
  have "p \<noteq> 0" using i by (auto simp: page_index_def)
  then have s': "pmm_free_page p s = s\<lparr>page_refs := (page_refs s)(i := 0),
      owned_pages := owned_pages s - 1, free_pages := (free_pages s)(free_top s := p),
      free_top := free_top s + 1\<rparr>"
    using i r room own by (simp add: pmm_free_page_def Let_def)
  have live': "live (pmm_free_page p s) = live s - {i}" by (auto simp: s' live_def)
  have old: "free_pages s k \<noteq> p" if "k < free_top s" for k
    using inv that i il unfolding pmm_inv_def free_stack_ok_def by (metis option.inject)
  have "free_stack_ok (pmm_free_page p s)"
    unfolding free_stack_ok_def live'
  proof (intro conjI allI impI)
    show "inj_on (free_pages (pmm_free_page p s)) {..<free_top (pmm_free_page p s)}"
    proof (rule inj_onI)
      fix x y
      assume "x \<in> {..<free_top (pmm_free_page p s)}" "y \<in> {..<free_top (pmm_free_page p s)}"
        and eq: "free_pages (pmm_free_page p s) x = free_pages (pmm_free_page p s) y"
      then have "x < free_top s \<or> x = free_top s" "y < free_top s \<or> y = free_top s"
        by (auto simp: s' less_Suc_eq)
      moreover have "inj_on (free_pages s) {..<free_top s}"
        using inv by (simp add: pmm_inv_def free_stack_ok_def)
      ultimately show "x = y"
        using eq old [of x] old [of y] by (auto simp: s' inj_on_def split: if_splits)
    qed
    fix k
    assume "k < free_top (pmm_free_page p s)"
    then consider "k < free_top s" | "k = free_top s" by (auto simp: s' less_Suc_eq)
    then show "\<exists>j. page_index (free_pages (pmm_free_page p s) k) = Some j \<and> j \<notin> live s - {i}
        \<and> page_limit j \<le> unat (pmm_cur (pmm_free_page p s))"
    proof cases
      case 1
      with inv show ?thesis unfolding pmm_inv_def free_stack_ok_def by (auto simp: s')
    next
      case 2
      have "page_limit i \<le> unat (pmm_cur s)" using inv il unfolding pmm_inv_def by blast
      with 2 i show ?thesis by (simp add: s')
    qed
  qed
  moreover have "owned_pages (pmm_free_page p s) = card (live (pmm_free_page p s))"
    using inv il live_finite [OF inv] by (simp add: live' pmm_inv_def) (simp add: s')
  ultimately show "pmm_inv (pmm_free_page p s)"
    using inv unfolding pmm_inv_def live' by (simp add: s')
  show "free_top (pmm_free_page p s) = free_top s + 1"
    "free_pages (pmm_free_page p s) (free_top s) = p"
    "pmm_cur (pmm_free_page p s) = pmm_cur s" "pmm_end (pmm_free_page p s) = pmm_end s"
    by (simp_all add: s')
  show "pmm_page_refcount q (pmm_free_page p s) = (if q = p then 0 else pmm_page_refcount q s)"
    using i page_index_inj by (auto simp: s' pmm_page_refcount_def split: option.splits)
qed

lemma pmm_free_page_none: "pmm_page_refcount p s = 0 \<Longrightarrow> pmm_free_page p s = s"
  by (auto simp: pmm_free_page_def pmm_page_refcount_def split: option.splits)

lemma pmm_free_page_cases:
  obtains "pmm_page_refcount p s = 0" | "pmm_page_refcount p s = 1" | "1 < pmm_page_refcount p s"
proof -
  have "r = 0 \<or> r = 1 \<or> 1 < r" for r :: u32
    using word_less_nat_alt [of 1 r] unat_eq_zero [of r] word_unat_eq_iff [of r 1] by force
  then show thesis using that by blast
qed

section \<open>Page accounting\<close>

lemma bump_pages_eq:
  assumes "pmm_inv s"
  shows "pmm_available_pages s
    = free_top s + (unat (pmm_end s) - unat (align_up (pmm_cur s) PAGE_SIZE)) div 4096"
  by (auto simp: pmm_available_pages_def Let_def word_less_nat_alt unat_sub word_le_nat_alt
      unat_div_distrib)

lemma pmm_alloc_page_available:
  assumes inv: "pmm_inv s" and al: "pmm_alloc_page s = (p, s')" and ok: "p \<noteq> 0"
  shows "pmm_available_pages s = Suc (pmm_available_pages s')"
proof (cases "free_top s > 0")
  case True
  have "free_top s' = free_top s - 1" "pmm_cur s' = pmm_cur s" "pmm_end s' = pmm_end s"
    using al True by (auto simp: pmm_alloc_page_def Let_def split: option.splits)
  with True show ?thesis by (simp add: pmm_available_pages_def Let_def)
next
  case False
  then have al': "pmm_alloc 4096 4096 s = (p, s')" using al by (simp add: pmm_alloc_page_def)
  note sp = pmm_alloc_spec [OF inv, of 12, simplified, OF al' ok]
  have b: "unat (pmm_cur s') \<le> unat (pmm_end s)" "unat (pmm_end s) \<le> 0x50000000"
    using sp(1,5) by (auto simp: pmm_inv_def)
  obtain m where m: "unat p = 4096 * m"
    using sp(3) by (auto simp: mod_eq_0_iff_dvd elim!: dvdE)
  have "unat (align_up (pmm_cur s') PAGE_SIZE) = unat p + 4096"
    using align_up_page [of "pmm_cur s'"] b by (simp add: sp(4) m)
  then have "pmm_available_pages s' = free_top s + (unat (pmm_end s) - (unat p + 4096)) div 4096"
    by (simp add: bump_pages_eq [OF sp(1)] sp(5,11))
  moreover have "pmm_available_pages s = free_top s + (unat (pmm_end s) - unat p) div 4096"
    by (simp add: bump_pages_eq [OF inv] sp(12) [symmetric])
  moreover have "(unat (pmm_end s) - unat p) div 4096
      = Suc ((unat (pmm_end s) - (unat p + 4096)) div 4096)"
    using le_div_geq [of 4096 "unat (pmm_end s) - unat p"] b(1) sp(4) by simp
  ultimately show ?thesis by linarith
qed

lemma pmm_free_page_available:
  assumes inv: "pmm_inv s"
  shows "pmm_available_pages (pmm_free_page p s)
    = pmm_available_pages s + (if pmm_page_refcount p s = 1 then 1 else 0)"
proof (cases rule: pmm_free_page_cases [of p s])
  case 1
  then show ?thesis by (simp add: pmm_free_page_none)
next
  case 2
  then show ?thesis
    using pmm_free_page_last [OF inv 2] by (simp add: pmm_available_pages_def Let_def)
next
  case 3
  obtain i where "page_index p = Some i" "1 < page_refs s i"
    using 3 by (auto simp: pmm_page_refcount_def split: option.splits)
  moreover from this have "page_refs s i \<noteq> 0" "page_refs s i - 1 \<noteq> 0" "p \<noteq> 0"
    by (auto simp: word_less_nat_alt page_index_def)
  ultimately show ?thesis
    using 3 by (simp add: pmm_free_page_def pmm_available_pages_def Let_def)
qed

section \<open>The contract of a page allocator\<close>

text \<open>
  What the kernel's other components rely on (page tables and user pages in
  \<^verbatim>\<open>task.c\<close>, cached file pages in \<^verbatim>\<open>pagecache.c\<close>): a page is handed out only while nobody
  holds it, counts are exact, and no page is lost.
\<close>

locale page_allocator =
  fixes alloc :: "'s \<Rightarrow> u64 \<times> 's"
    and ref :: "u64 \<Rightarrow> 's \<Rightarrow> 's"
    and release :: "u64 \<Rightarrow> 's \<Rightarrow> 's"
    and cnt :: "u64 \<Rightarrow> 's \<Rightarrow> u32"
    and avail :: "'s \<Rightarrow> nat"
    and inv :: "'s \<Rightarrow> bool"
  assumes alloc_null: "inv s \<Longrightarrow> fst (alloc s) = 0 \<longleftrightarrow> avail s = 0"
    and alloc_fresh: "inv s \<Longrightarrow> alloc s = (p, s') \<Longrightarrow> p \<noteq> 0 \<Longrightarrow>
      inv s' \<and> cnt p s = 0 \<and> cnt p s' = 1 \<and> (\<forall>q. q \<noteq> p \<longrightarrow> cnt q s' = cnt q s)
      \<and> avail s = Suc (avail s')"
    and alloc_fail: "inv s \<Longrightarrow> alloc s = (0, s') \<Longrightarrow> s' = s"
    and release_inv: "inv s \<Longrightarrow> inv (release p s)"
    and release_cnt: "inv s \<Longrightarrow> cnt q (release p s)
      = (if q = p \<and> cnt p s \<noteq> 0 then cnt p s - 1 else cnt q s)"
    and release_avail: "inv s \<Longrightarrow> avail (release p s) = avail s + (if cnt p s = 1 then 1 else 0)"
    and ref_inv: "inv s \<Longrightarrow> cnt p s \<noteq> 0 \<Longrightarrow> cnt p s \<noteq> - 1 \<Longrightarrow> inv (ref p s)"
    and ref_cnt: "inv s \<Longrightarrow> cnt p s \<noteq> 0 \<Longrightarrow> cnt p s \<noteq> - 1 \<Longrightarrow>
      cnt q (ref p s) = cnt q s + (if q = p then 1 else 0)"

text \<open>Allocating several pages in a row, stopping at the first failure.\<close>

fun alloc_many :: "('s \<Rightarrow> u64 \<times> 's) \<Rightarrow> nat \<Rightarrow> 's \<Rightarrow> u64 list \<times> 's" where
  "alloc_many alloc 0 s = ([], s)"
| "alloc_many alloc (Suc n) s =
     (case alloc s of (p, s1) \<Rightarrow>
        if p = 0 then ([], s1)
        else case alloc_many alloc n s1 of (ps, s2) \<Rightarrow> (p # ps, s2))"

fun release_all :: "(u64 \<Rightarrow> 's \<Rightarrow> 's) \<Rightarrow> u64 list \<Rightarrow> 's \<Rightarrow> 's" where
  "release_all release [] s = s"
| "release_all release (p # ps) s = release_all release ps (release p s)"

context page_allocator
begin

lemma alloc_many_ok:
  assumes "inv s" "alloc_many alloc n s = (ps, s')"
  shows "inv s'" "distinct ps" "0 \<notin> set ps" "\<forall>p \<in> set ps. cnt p s = 0 \<and> cnt p s' = 1"
    "\<forall>q. q \<notin> set ps \<longrightarrow> cnt q s' = cnt q s" "length ps = min n (avail s)"
    "avail s = length ps + avail s'"
proof -
  have "inv s' \<and> distinct ps \<and> 0 \<notin> set ps \<and> (\<forall>p \<in> set ps. cnt p s = 0 \<and> cnt p s' = 1)
      \<and> (\<forall>q. q \<notin> set ps \<longrightarrow> cnt q s' = cnt q s) \<and> length ps = min n (avail s)
      \<and> avail s = length ps + avail s'"
    using assms
  proof (induction n arbitrary: s ps)
    case 0
    then show ?case by simp
  next
    case (Suc n)
    obtain p s1 where al: "alloc s = (p, s1)" by fastforce
    show ?case
    proof (cases "p = 0")
      case True
      then have "avail s = 0" "s1 = s"
        using al alloc_null [OF Suc.prems(1)] alloc_fail [OF Suc.prems(1)] by auto
      with Suc.prems al True show ?thesis by simp
    next
      case False
      note fr = alloc_fresh [OF Suc.prems(1) al False]
      obtain qs where qs: "alloc_many alloc n s1 = (qs, s')" and ps: "ps = p # qs"
        using Suc.prems(2) al False by (auto split: prod.splits)
      note IH = Suc.IH [OF conjunct1 [OF fr] qs]
      have zero: "cnt q s1 = 0" if "q \<in> set qs" for q
        using IH that by blast
      have p: "p \<notin> set qs"
        using zero [of p] fr by (metis zero_neq_one)
      have old: "cnt q s = 0" if "q \<in> set qs" for q
        using zero [OF that] fr that p by metis
      have same: "cnt q s' = cnt q s" if "q \<notin> set ps" for q
        using IH fr that unfolding ps by (metis list.set_intros)
      have one: "cnt q s' = 1" if "q \<in> set ps" for q
        using IH fr that p unfolding ps by (metis set_ConsD)
      have all: "\<forall>q \<in> set ps. cnt q s = 0 \<and> cnt q s' = 1"
        using old one fr ps by auto
      have qs_ok: "inv s'" "distinct qs" "0 \<notin> set qs" "length qs = min n (avail s1)"
        "avail s1 = length qs + avail s'"
        using IH by blast+
      have av: "avail s = Suc (avail s1)" using fr by blast
      have len: "length ps = min (Suc n) (avail s)" "avail s = length ps + avail s'"
        unfolding ps using qs_ok(4,5) av by simp_all
      have "inv s'" "distinct ps" "0 \<notin> set ps"
        unfolding ps using qs_ok(1-3) p False by simp_all
      then show ?thesis using all len same by blast
    qed
  qed
  then show "inv s'" "distinct ps" "0 \<notin> set ps" "\<forall>p \<in> set ps. cnt p s = 0 \<and> cnt p s' = 1"
    "\<forall>q. q \<notin> set ps \<longrightarrow> cnt q s' = cnt q s" "length ps = min n (avail s)"
    "avail s = length ps + avail s'" by blast+
qed

lemma release_all_ok:
  assumes "inv s" "distinct ps" "\<forall>p \<in> set ps. cnt p s = 1"
  shows "inv (release_all release ps s)
    \<and> (\<forall>q. cnt q (release_all release ps s) = (if q \<in> set ps then 0 else cnt q s))
    \<and> avail (release_all release ps s) = avail s + length ps"
  using assms
proof (induction ps arbitrary: s)
  case Nil
  then show ?case by simp
next
  case (Cons p ps)
  have "\<forall>q \<in> set ps. cnt q (release p s) = 1"
    using Cons.prems release_cnt by auto
  then have "inv (release_all release ps (release p s))
    \<and> (\<forall>q. cnt q (release_all release ps (release p s))
        = (if q \<in> set ps then 0 else cnt q (release p s)))
    \<and> avail (release_all release ps (release p s)) = avail (release p s) + length ps"
    using Cons release_inv by simp
  then show ?case
    using Cons.prems release_cnt release_avail by auto
qed

lemma alloc_release_roundtrip:
  assumes "inv s" "alloc_many alloc n s = (ps, s')"
  shows "avail (release_all release ps s') = avail s
    \<and> (\<forall>q. cnt q (release_all release ps s') = cnt q s)"
proof -
  note a = alloc_many_ok [OF assms]
  have "\<forall>p \<in> set ps. cnt p s' = 1" using a(4) by blast
  note r = release_all_ok [OF a(1,2) this]
  have "cnt q (release_all release ps s') = cnt q s" for q
    using r a(4,5) by (cases "q \<in> set ps") simp_all
  moreover have "avail (release_all release ps s') = avail s"
    using r a(7) by simp
  ultimately show ?thesis by blast
qed

end

interpretation pp: page_allocator pmm_alloc_page pmm_ref_page pmm_free_page pmm_page_refcount
  pmm_available_pages pmm_inv
proof unfold_locales
  fix s s' p q
  assume inv: "pmm_inv s"
  show "fst (pmm_alloc_page s) = 0 \<longleftrightarrow> pmm_available_pages s = 0"
    by (rule pmm_alloc_page_null [OF inv])
  show "s' = s" if "pmm_alloc_page s = (0, s')"
    using inv that by (rule pmm_alloc_page_fail)
  show "pmm_inv s' \<and> pmm_page_refcount p s = 0 \<and> pmm_page_refcount p s' = 1
      \<and> (\<forall>q. q \<noteq> p \<longrightarrow> pmm_page_refcount q s' = pmm_page_refcount q s)
      \<and> pmm_available_pages s = Suc (pmm_available_pages s')"
    if al: "pmm_alloc_page s = (p, s')" "p \<noteq> 0"
    using pmm_alloc_page_ok [OF inv al] pmm_alloc_page_available [OF inv al] fresh_page_refcount
    by blast
  show "pmm_inv (pmm_free_page p s)"
    by (cases rule: pmm_free_page_cases [of p s])
      (simp_all add: inv pmm_free_page_none pmm_free_page_last(1) pmm_free_page_shared(1))
  show "pmm_page_refcount q (pmm_free_page p s)
      = (if q = p \<and> pmm_page_refcount p s \<noteq> 0 then pmm_page_refcount p s - 1
         else pmm_page_refcount q s)"
    by (cases rule: pmm_free_page_cases [of p s])
      (auto simp: inv pmm_free_page_none pmm_free_page_last(6) pmm_free_page_shared(3))
  show "pmm_available_pages (pmm_free_page p s)
      = pmm_available_pages s + (if pmm_page_refcount p s = 1 then 1 else 0)"
    by (rule pmm_free_page_available [OF inv])
  assume "pmm_page_refcount p s \<noteq> 0" "pmm_page_refcount p s \<noteq> - 1"
  with inv show "pmm_inv (pmm_ref_page p s)"
    "pmm_page_refcount q (pmm_ref_page p s) = pmm_page_refcount q s + (if q = p then 1 else 0)"
    by (rule pmm_ref_page_inv)+
qed

section \<open>Properties\<close>

text \<open>A concrete manager: the heap window \<open>0x40300000 .. 0x40303000\<close>, nothing handed out.\<close>

definition pmm_example :: pmm where
  "pmm_example = pmm_init 0x40300000 0x40303000
     \<lparr>pmm_cur = 0, pmm_end = 0, free_pages = (\<lambda>_. 0), page_refs = (\<lambda>_. 0), free_top = 0,
      owned_pages = 0, ram = (\<lambda>_. 255)\<rparr>"

lemma pmm_example_inv: "pmm_inv pmm_example"
  unfolding pmm_example_def by (rule pmm_init_inv) (simp_all add: align_up_def)

lemma pmm_example_alloc:
  "fst (pmm_alloc_page pmm_example) = 0x40300000"
  by (simp add: pmm_alloc_page_def pmm_alloc_def pmm_example_def pmm_init_def align_up_def Let_def)

text \<open>
  C1. A page that \<^verbatim>\<open>pmm_alloc_page\<close> returns was held by nobody, is held once afterwards, is a
  page of RAM, is cleared, and nothing else changes: the count of every other page and every
  other byte of RAM are kept, and the number of used pages grows by one. The invariant of the
  manager (distinct free pages with count 0, owned pages counted exactly, nothing handed out
  above the bump pointer) is kept.
\<close>

theorem pmm_alloc_page_correct:
  assumes "pmm_inv s" "pmm_alloc_page s = (p, s')" "p \<noteq> 0"
  shows "pmm_inv s' \<and> page_index p \<noteq> None
    \<and> pmm_page_refcount p s = 0 \<and> pmm_page_refcount p s' = 1
    \<and> (\<forall>q. q \<noteq> p \<longrightarrow> pmm_page_refcount q s' = pmm_page_refcount q s)
    \<and> (\<forall>a. ram s' a = (if a - p < PAGE_SIZE then 0 else ram s a))
    \<and> pmm_used_pages s' = pmm_used_pages s + 1
    \<and> pmm_available_pages s = pmm_available_pages s' + 1"
proof -
  note ok = pmm_alloc_page_ok [OF assms]
  then have "page_index p \<noteq> None \<and> ram s' = ram_clear p PAGE_SIZE (ram s)
      \<and> owned_pages s' = owned_pages s + 1"
    by (auto simp: fresh_page_def)
  with ok show ?thesis
    using fresh_page_refcount [OF conjunct2 [OF ok]] pmm_alloc_page_available [OF assms]
    by (simp add: ram_clear_def pmm_used_pages_def)
qed

theorem pmm_alloc_page_correct_witness:
  "\<exists>s'. pmm_alloc_page pmm_example = (0x40300000, s') \<and> pmm_page_refcount 0x40300000 s' = 1
    \<and> ram s' 0x40300010 = 0"
proof -
  obtain s' where al: "pmm_alloc_page pmm_example = (0x40300000, s')"
    using pmm_example_alloc by (metis prod.collapse)
  have "ram s' 0x40300010 = (if (0x40300010 :: u64) - 0x40300000 < PAGE_SIZE then 0
      else ram pmm_example 0x40300010)"
    using pmm_alloc_page_correct [OF pmm_example_inv al] by simp
  then show ?thesis
    using al pmm_alloc_page_correct [OF pmm_example_inv al] by simp
qed

text \<open>
  C2. Every freed page is found again: dropping the last reference of a page and allocating
  returns that page, cleared, with the counts of all pages as they were before; dropping a
  reference never fails for lack of room on the free stack.
\<close>

theorem pmm_free_alloc_roundtrip:
  assumes "pmm_inv s" "pmm_page_refcount p s = 1"
  shows "\<exists>s'. pmm_alloc_page (pmm_free_page p s) = (p, s') \<and> pmm_inv s'
    \<and> (\<forall>q. pmm_page_refcount q s' = pmm_page_refcount q s)
    \<and> (\<forall>a. a - p < PAGE_SIZE \<longrightarrow> ram s' a = 0)
    \<and> pmm_available_pages (pmm_free_page p s) = pmm_available_pages s + 1"
proof -
  let ?f = "pmm_free_page p s"
  note fr = pmm_free_page_last [OF assms]
  obtain p' s' where al: "pmm_alloc_page ?f = (p', s')" by fastforce
  have top: "free_top ?f > 0" using fr(2) by simp
  have "p' = p"
    using al fr(2,3) by (auto simp: pmm_alloc_page_def Let_def)
  have pg: "pmm_inv s' \<and> fresh_page ?f p s'"
    using alloc_page_stack [OF fr(1) al top] \<open>p' = p\<close> by simp
  note rc = fresh_page_refcount [OF conjunct2 [OF pg]]
  have "pmm_page_refcount q s' = pmm_page_refcount q s" for q
    using rc fr(6) [of q] assms(2) by (cases "q = p") simp_all
  moreover have "a - p < PAGE_SIZE \<Longrightarrow> ram s' a = 0" for a
    using pg by (auto simp: fresh_page_def ram_clear_def)
  ultimately show ?thesis
    using al \<open>p' = p\<close> pg pmm_free_page_available [OF assms(1), of p] assms(2) by simp
qed

theorem pmm_free_alloc_roundtrip_witness:
  "\<exists>s s'. pmm_page_refcount 0x40300000 s = 1
    \<and> pmm_alloc_page (pmm_free_page 0x40300000 s) = (0x40300000, s')"
proof -
  obtain s where al: "pmm_alloc_page pmm_example = (0x40300000, s)"
    using pmm_example_alloc by (metis prod.collapse)
  have "pmm_inv s" "pmm_page_refcount 0x40300000 s = 1"
    using pmm_alloc_page_ok [OF pmm_example_inv al] fresh_page_refcount by auto
  then show ?thesis using pmm_free_alloc_roundtrip by blast
qed

text \<open>
  C3. Allocating \<open>n\<close> pages in a row yields pairwise distinct pages that nobody held, exactly as
  many as are available when fewer than \<open>n\<close> are left, and giving them back restores every
  reference count and the number of available pages.
\<close>

theorem pmm_alloc_many_distinct:
  assumes "pmm_inv s" "alloc_many pmm_alloc_page n s = (ps, s')"
  shows "distinct ps \<and> length ps = min n (pmm_available_pages s)
    \<and> (\<forall>p \<in> set ps. page_index p \<noteq> None \<and> pmm_page_refcount p s = 0)
    \<and> (\<forall>q. pmm_page_refcount q (release_all pmm_free_page ps s') = pmm_page_refcount q s)
    \<and> pmm_available_pages (release_all pmm_free_page ps s') = pmm_available_pages s"
proof -
  note ok = pp.alloc_many_ok [OF assms]
  have "page_index p \<noteq> None" if "p \<in> set ps" for p
    using ok(4) that by (auto simp: pmm_page_refcount_def split: option.splits)
  then show ?thesis
    using ok(2,4,6) pp.alloc_release_roundtrip [OF assms] by blast
qed

theorem pmm_alloc_many_distinct_witness:
  "\<exists>ps s'. alloc_many pmm_alloc_page 2 pmm_example = (ps, s') \<and> distinct ps
    \<and> length ps = min 2 (pmm_available_pages pmm_example)"
proof -
  obtain ps s' where "alloc_many pmm_alloc_page 2 pmm_example = (ps, s')" by fastforce
  then show ?thesis using pmm_alloc_many_distinct [OF pmm_example_inv] by blast
qed

text \<open>
  C4. The bump allocator: a successful request of \<open>bytes\<close> bytes at a power-of-two alignment
  returns an aligned, cleared block inside the heap window that lies above every byte handed
  out before, and owns exactly the whole pages of the block, none of which was owned.
\<close>

theorem pmm_alloc_correct:
  assumes "pmm_inv s" "k \<le> 32" "pmm_alloc bytes (2 ^ k) s = (p, s')" "p \<noteq> 0"
  shows "pmm_inv s' \<and> unat p mod 2 ^ k = 0
    \<and> unat (pmm_cur s) \<le> unat p \<and> unat p + unat bytes = unat (pmm_cur s')
    \<and> unat (pmm_cur s') \<le> unat (pmm_end s)
    \<and> live s' - live s = pages_between (unat p) (unat p + unat bytes)
    \<and> pmm_used_pages s' = pmm_used_pages s + card (live s' - live s)
    \<and> (\<forall>a. a - p < bytes \<longrightarrow> ram s' a = 0)"
proof -
  note sp = pmm_alloc_spec [OF assms]
  have new: "live s' - live s = pages_between (unat p) (unat p + unat bytes)"
    using sp(6,7) by blast
  have "unat (pmm_cur s') \<le> unat (pmm_end s)"
    using sp(1,5) by (simp add: pmm_inv_def)
  then show ?thesis
    using sp(1-4,8,10) unfolding new by (simp add: pmm_used_pages_def ram_clear_def)
qed

theorem pmm_alloc_correct_witness:
  "\<exists>s'. pmm_alloc 100 (2 ^ 4) pmm_example = (0x40300000, s') \<and> ram s' 0x40300063 = 0"
proof -
  have "fst (pmm_alloc 100 (2 ^ 4) pmm_example) = 0x40300000"
    by (simp add: pmm_alloc_def pmm_example_def pmm_init_def align_up_def Let_def)
  then obtain s' where al: "pmm_alloc 100 (2 ^ 4) pmm_example = (0x40300000, s')"
    by (metis prod.collapse)
  have "\<forall>a. a - 0x40300000 < 100 \<longrightarrow> ram s' a = 0"
    using pmm_alloc_correct [OF pmm_example_inv _ al] by simp
  then have "ram s' 0x40300063 = 0" by simp
  with al show ?thesis by blast
qed

end
