(* ===== verification/Channel.thy ===== *)
theory Channel
  imports Prelude
begin

text \<open>
  The contract of a bounded byte channel, which the pipes of \<^verbatim>\<open>src/kernel/pipe.c\<close> and the
  receive buffers of TCP sockets in \<^verbatim>\<open>src/kernel/net.c\<close> both promise: writing appends what
  fits, reading removes from the front. What a client can conclude for any interleaving of
  reads and writes is proved once here.
\<close>

datatype chan_op = ChanWrite "u8 list" | ChanRead nat

locale byte_channel =
  fixes capacity :: nat
    and cwrite :: "u8 list \<Rightarrow> 's \<Rightarrow> nat \<times> 's"
    and cread :: "nat \<Rightarrow> 's \<Rightarrow> u8 list \<times> 's"
    and contents :: "'s \<Rightarrow> u8 list"
    and ok :: "'s \<Rightarrow> bool"
  assumes bound: "ok s \<Longrightarrow> length (contents s) \<le> capacity"
    and write_ok: "ok s \<Longrightarrow> ok (snd (cwrite bs s))"
    and write_count: "ok s \<Longrightarrow> fst (cwrite bs s) = min (length bs) (capacity - length (contents s))"
    and write_contents: "ok s \<Longrightarrow>
      contents (snd (cwrite bs s)) = contents s @ take (fst (cwrite bs s)) bs"
    and read_ok: "ok s \<Longrightarrow> ok (snd (cread n s))"
    and read_bytes: "ok s \<Longrightarrow> fst (cread n s) = take n (contents s)"
    and read_contents: "ok s \<Longrightarrow> contents (snd (cread n s)) = drop n (contents s)"

text \<open>A run of operations: the final state, the bytes accepted and the bytes delivered.\<close>

fun chan_run :: "(u8 list \<Rightarrow> 's \<Rightarrow> nat \<times> 's) \<Rightarrow> (nat \<Rightarrow> 's \<Rightarrow> u8 list \<times> 's) \<Rightarrow> chan_op list
    \<Rightarrow> 's \<Rightarrow> 's \<times> u8 list \<times> u8 list" where
  "chan_run cw cr [] s = (s, [], [])"
| "chan_run cw cr (ChanWrite bs # ops) s =
     (case cw bs s of (n, s1) \<Rightarrow>
        case chan_run cw cr ops s1 of (s2, acc, del) \<Rightarrow> (s2, take n bs @ acc, del))"
| "chan_run cw cr (ChanRead n # ops) s =
     (case cr n s of (bs, s1) \<Rightarrow>
        case chan_run cw cr ops s1 of (s2, acc, del) \<Rightarrow> (s2, acc, bs @ del))"

context byte_channel
begin

lemma run_fifo:
  assumes "ok s" "chan_run cwrite cread ops s = (s', acc, del)"
  shows "ok s' \<and> contents s @ acc = del @ contents s'"
  using assms
proof (induction ops arbitrary: s acc del)
  case Nil
  then show ?case by simp
next
  case (Cons op ops)
  show ?case
  proof (cases op)
    case (ChanWrite bs)
    let ?r = "cwrite bs s"
    obtain a where r: "chan_run cwrite cread ops (snd ?r) = (s', a, del)"
        and "acc = take (fst ?r) bs @ a"
      using Cons.prems(2) ChanWrite by (auto split: prod.splits)
    then show ?thesis
      using Cons.IH [OF write_ok [OF Cons.prems(1)] r] write_contents [OF Cons.prems(1), of bs]
      by simp
  next
    case (ChanRead n)
    let ?r = "cread n s"
    obtain d where r: "chan_run cwrite cread ops (snd ?r) = (s', acc, d)" and "del = fst ?r @ d"
      using Cons.prems(2) ChanRead by (auto split: prod.splits)
    then show ?thesis
      using Cons.IH [OF read_ok [OF Cons.prems(1)] r] read_contents [OF Cons.prems(1), of n]
        read_bytes [OF Cons.prems(1), of n]
      by (metis append.assoc append_take_drop_id)
  qed
qed

lemma write_read_all:
  assumes "ok s" "contents s = []" "length bs \<le> capacity"
  shows "fst (cread (length bs) (snd (cwrite bs s))) = bs"
  using assms read_bytes [OF write_ok [OF assms(1)]] write_contents [OF assms(1)]
    write_count [OF assms(1), of bs] by simp

end

end
