(* ===== verification/Pipe.thy ===== *)
theory Pipe
  imports Channel
begin

text \<open>
  Pipes, \<^verbatim>\<open>src/kernel/pipe.c\<close>: a table of 32 ring buffers of 1024 bytes with reader and writer
  counts. A \<^verbatim>\<open>pipe_t *\<close> is the index of its slot, \<open>None\<close> for the null pointer; a
  null buffer argument is \<open>None\<close> as well.
\<close>

section \<open>State and operations\<close>

abbreviation (input) PIPE_CAPACITY :: nat where "PIPE_CAPACITY \<equiv> 1024"
abbreviation (input) MAX_PIPES :: nat where "MAX_PIPES \<equiv> 32"

record pipe =
  used :: bool
  data :: "nat \<Rightarrow> u8"
  rpos :: nat
  wpos :: nat
  count :: nat
  readers :: int
  writers :: int

type_synonym pipe_table = "nat \<Rightarrow> pipe"

definition pipe_zero :: pipe where \<comment> \<open>memset(p, 0, sizeof(*p))\<close>
  "pipe_zero = \<lparr>used = False, data = (\<lambda>_. 0), rpos = 0, wpos = 0, count = 0, readers = 0,
     writers = 0\<rparr>"

definition pipe_maybe_release :: "nat option \<Rightarrow> pipe_table \<Rightarrow> pipe_table" where
  "pipe_maybe_release p ps =
     (case p of
        None \<Rightarrow> ps
      | Some i \<Rightarrow> if readers (ps i) = 0 \<and> writers (ps i) = 0 then ps(i := pipe_zero) else ps)"

definition pipe_init :: pipe_table where
  "pipe_init = (\<lambda>_. pipe_zero)"

text \<open>The search loop of \<^verbatim>\<open>pipe_alloc\<close>, from slot \<open>i\<close> on.\<close>

function pipe_alloc_from :: "nat \<Rightarrow> pipe_table \<Rightarrow> nat option \<times> pipe_table" where
  "pipe_alloc_from i ps =
     (if i < MAX_PIPES then
        if \<not> used (ps i)
        then (Some i, ps(i := pipe_zero\<lparr>used := True, readers := 1, writers := 1\<rparr>))
        else pipe_alloc_from (i + 1) ps
      else (None, ps))"
  by pat_completeness auto
termination
  by (relation "measure (\<lambda>(i, ps). MAX_PIPES - i)") auto

declare pipe_alloc_from.simps [simp del]

definition pipe_alloc :: "pipe_table \<Rightarrow> nat option \<times> pipe_table" where
  "pipe_alloc ps = pipe_alloc_from 0 ps"

definition pipe_ref_read :: "nat option \<Rightarrow> pipe_table \<Rightarrow> pipe_table" where
  "pipe_ref_read p ps =
     (case p of
        None \<Rightarrow> ps
      | Some i \<Rightarrow> if \<not> used (ps i) then ps
                 else ps(i := (ps i)\<lparr>readers := readers (ps i) + 1\<rparr>))"

definition pipe_ref_write :: "nat option \<Rightarrow> pipe_table \<Rightarrow> pipe_table" where
  "pipe_ref_write p ps =
     (case p of
        None \<Rightarrow> ps
      | Some i \<Rightarrow> if \<not> used (ps i) then ps
                 else ps(i := (ps i)\<lparr>writers := writers (ps i) + 1\<rparr>))"

definition pipe_close_read :: "nat option \<Rightarrow> pipe_table \<Rightarrow> pipe_table" where
  "pipe_close_read p ps =
     (case p of
        None \<Rightarrow> ps
      | Some i \<Rightarrow> if \<not> used (ps i) \<or> readers (ps i) \<le> 0 then ps
                 else pipe_maybe_release (Some i)
                        (ps(i := (ps i)\<lparr>readers := readers (ps i) - 1\<rparr>)))"

definition pipe_close_write :: "nat option \<Rightarrow> pipe_table \<Rightarrow> pipe_table" where
  "pipe_close_write p ps =
     (case p of
        None \<Rightarrow> ps
      | Some i \<Rightarrow> if \<not> used (ps i) \<or> writers (ps i) \<le> 0 then ps
                 else pipe_maybe_release (Some i)
                        (ps(i := (ps i)\<lparr>writers := writers (ps i) - 1\<rparr>)))"

definition pipe_has_readers :: "nat option \<Rightarrow> pipe_table \<Rightarrow> bool" where
  "pipe_has_readers p ps =
     (case p of None \<Rightarrow> False | Some i \<Rightarrow> used (ps i) \<and> readers (ps i) > 0)"

definition pipe_has_writers :: "nat option \<Rightarrow> pipe_table \<Rightarrow> bool" where
  "pipe_has_writers p ps =
     (case p of None \<Rightarrow> False | Some i \<Rightarrow> used (ps i) \<and> writers (ps i) > 0)"

definition pipe_available_read :: "nat option \<Rightarrow> pipe_table \<Rightarrow> nat" where
  "pipe_available_read p ps =
     (case p of None \<Rightarrow> 0 | Some i \<Rightarrow> if \<not> used (ps i) then 0 else count (ps i))"

definition pipe_available_write :: "nat option \<Rightarrow> pipe_table \<Rightarrow> nat" where
  "pipe_available_write p ps =
     (case p of
        None \<Rightarrow> 0
      | Some i \<Rightarrow> if \<not> used (ps i) \<or> count (ps i) \<ge> PIPE_CAPACITY then 0
                 else PIPE_CAPACITY - count (ps i))"

text \<open>The copy loops of \<^verbatim>\<open>pipe_read\<close> and \<^verbatim>\<open>pipe_write\<close>, \<open>n\<close> bytes each.\<close>

fun pipe_read_loop :: "nat \<Rightarrow> pipe \<Rightarrow> u8 list \<times> pipe" where
  "pipe_read_loop 0 q = ([], q)"
| "pipe_read_loop (Suc n) q =
     (let b = data q (rpos q);
          q1 = q\<lparr>rpos := (rpos q + 1) mod PIPE_CAPACITY\<rparr>
      in case pipe_read_loop n q1 of (bs, q2) \<Rightarrow> (b # bs, q2))"

fun pipe_write_loop :: "nat \<Rightarrow> u8 list \<Rightarrow> pipe \<Rightarrow> pipe" where
  "pipe_write_loop (Suc n) (b # bs) q =
     pipe_write_loop n bs (q\<lparr>data := (data q)(wpos q := b),
                             wpos := (wpos q + 1) mod PIPE_CAPACITY\<rparr>)"
| "pipe_write_loop n bs q = q"

text \<open>\<^verbatim>\<open>pipe_read\<close> returns the bytes it stored through \<^verbatim>\<open>dst\<close>; their number is its return
  value. \<open>dst\<close> tells whether the destination pointer is not null.\<close>

definition pipe_read :: "nat option \<Rightarrow> bool \<Rightarrow> nat \<Rightarrow> pipe_table \<Rightarrow> u8 list \<times> pipe_table" where
  "pipe_read p dst len ps =
     (case p of
        None \<Rightarrow> ([], ps)
      | Some i \<Rightarrow>
          if \<not> used (ps i) \<or> \<not> dst \<or> len = 0 then ([], ps)
          else if count (ps i) = 0 then ([], ps)
          else let n = (if len > count (ps i) then count (ps i) else len) in
            case pipe_read_loop n (ps i) of (bs, q) \<Rightarrow>
              (bs, ps(i := q\<lparr>count := count q - n\<rparr>)))"

definition pipe_write :: "nat option \<Rightarrow> u8 list option \<Rightarrow> pipe_table \<Rightarrow> nat \<times> pipe_table" where
  "pipe_write p src ps =
     (case (p, src) of
        (Some i, Some bs) \<Rightarrow>
          let len = length bs in
          if \<not> used (ps i) \<or> len = 0 then (0, ps)
          else if count (ps i) \<ge> PIPE_CAPACITY then (0, ps)
          else let space = PIPE_CAPACITY - count (ps i);
                   n = (if len > space then space else len);
                   q = pipe_write_loop n bs (ps i)
               in (n, ps(i := q\<lparr>count := count q + n\<rparr>))
      | _ \<Rightarrow> (0, ps))"

section \<open>Invariant and contents\<close>

definition pipe_ok :: "pipe \<Rightarrow> bool" where
  "pipe_ok q \<longleftrightarrow>
     (if used q then count q \<le> PIPE_CAPACITY \<and> rpos q < PIPE_CAPACITY
        \<and> wpos q = (rpos q + count q) mod PIPE_CAPACITY
        \<and> 0 \<le> readers q \<and> 0 \<le> writers q \<and> 0 < readers q + writers q
      else q = pipe_zero)"

definition pipe_contents :: "pipe \<Rightarrow> u8 list" where
  "pipe_contents q = ring_list PIPE_CAPACITY (data q) (rpos q) (count q)"

definition pipes_ok :: "pipe_table \<Rightarrow> bool" where
  "pipes_ok ps \<longleftrightarrow> (\<forall>i. pipe_ok (ps i))"

lemma pipes_okD [intro]: "pipes_ok ps \<Longrightarrow> pipe_ok (ps i)"
  by (simp add: pipes_ok_def)

lemma pipes_ok_upd [intro]: "pipes_ok ps \<Longrightarrow> pipe_ok q \<Longrightarrow> pipes_ok (ps(i := q))"
  by (simp add: pipes_ok_def)

lemma pipe_ok_zero [simp]: "pipe_ok pipe_zero"
  by (simp add: pipe_ok_def pipe_zero_def)

lemma pipe_zero_unused [simp]: "used pipe_zero = False"
  by (simp add: pipe_zero_def)

lemma pipe_read_loop_spec:
  "pipe_read_loop n q =
     (ring_list PIPE_CAPACITY (data q) (rpos q) n,
      q\<lparr>rpos := (if n = 0 then rpos q else (rpos q + n) mod PIPE_CAPACITY)\<rparr>)"
  if "rpos q < PIPE_CAPACITY"
  using that
proof (induction n arbitrary: q)
  case 0
  then show ?case by simp
next
  case (Suc n)
  then show ?case
    by (simp add: Let_def ring_list_head mod_simps split: if_splits)
qed

lemma pipe_write_loop_spec:
  assumes "c + n \<le> PIPE_CAPACITY" "n \<le> length bs" "wpos q = (rpos q + c) mod PIPE_CAPACITY"
  shows "ring_list PIPE_CAPACITY (data (pipe_write_loop n bs q)) (rpos q) (c + n)
      = ring_list PIPE_CAPACITY (data q) (rpos q) c @ take n bs
    \<and> wpos (pipe_write_loop n bs q) = (rpos q + (c + n)) mod PIPE_CAPACITY
    \<and> used (pipe_write_loop n bs q) = used q \<and> rpos (pipe_write_loop n bs q) = rpos q
    \<and> count (pipe_write_loop n bs q) = count q \<and> readers (pipe_write_loop n bs q) = readers q
    \<and> writers (pipe_write_loop n bs q) = writers q"
  using assms
proof (induction n bs q arbitrary: c rule: pipe_write_loop.induct)
  case (1 n b bs q)
  define q1 where "q1 = q\<lparr>data := (data q)(wpos q := b), wpos := (wpos q + 1) mod PIPE_CAPACITY\<rparr>"
  have st: "ring_list PIPE_CAPACITY (data q1) (rpos q1) (Suc c)
      = ring_list PIPE_CAPACITY (data q) (rpos q) c @ [b]"
    using "1.prems" by (simp add: q1_def ring_list_store)
  have "wpos q1 = (rpos q1 + Suc c) mod PIPE_CAPACITY"
    using "1.prems"(3) by (simp add: q1_def mod_simps)
  moreover have "used q1 = used q" "rpos q1 = rpos q" "count q1 = count q" "readers q1 = readers q"
    "writers q1 = writers q"
    by (simp_all add: q1_def)
  moreover have step: "pipe_write_loop (Suc n) (b # bs) q = pipe_write_loop n bs q1"
    by (simp add: q1_def)
  ultimately show ?case
    unfolding step using "1.IH" [of "Suc c", folded q1_def] "1.prems"(1,2) st by simp
qed auto

lemma pipe_write_spec:
  fixes ps :: pipe_table and i j :: nat and bs :: "u8 list"
  assumes "pipe_ok (ps i)" "used (ps i)"
  defines "n \<equiv> min (length bs) (PIPE_CAPACITY - count (ps i))"
  defines "q \<equiv> snd (pipe_write (Some i) (Some bs) ps) i"
  shows "fst (pipe_write (Some i) (Some bs) ps) = n" "pipe_ok q" "used q" "count q = count (ps i) + n"
    "pipe_contents q = pipe_contents (ps i) @ take n bs"
    "j \<noteq> i \<Longrightarrow> snd (pipe_write (Some i) (Some bs) ps) j = ps j"
proof -
  have w: "wpos (ps i) = (rpos (ps i) + count (ps i)) mod PIPE_CAPACITY"
      "count (ps i) \<le> PIPE_CAPACITY"
    using assms(1,2) by (auto simp: pipe_ok_def)
  show "fst (pipe_write (Some i) (Some bs) ps) = n"
    using assms(2) by (auto simp: pipe_write_def Let_def n_def)
  show "j \<noteq> i \<Longrightarrow> snd (pipe_write (Some i) (Some bs) ps) j = ps j"
    by (auto simp: pipe_write_def Let_def)
  let ?l = "pipe_write_loop n bs (ps i)"
  note loop = pipe_write_loop_spec [of "count (ps i)" n bs "ps i"]
  have nle: "count (ps i) + n \<le> PIPE_CAPACITY" "n \<le> length bs"
    using w(2) by (auto simp: n_def)
  have q: "q = ?l\<lparr>count := count ?l + n\<rparr>"
  proof (cases "n = 0")
    case True
    then show ?thesis
      using assms(2) by (auto simp: q_def pipe_write_def Let_def n_def)
  next
    case False
    then show ?thesis
      using assms(2) by (auto simp: q_def pipe_write_def Let_def n_def min_def)
  qed
  show "used q" "count q = count (ps i) + n"
    using loop nle w assms(2) by (simp_all add: q)
  show "pipe_contents q = pipe_contents (ps i) @ take n bs"
    using loop nle w by (simp add: q pipe_contents_def)
  show "pipe_ok q"
    using loop nle w assms(1,2) by (simp add: q pipe_ok_def)
qed

lemma pipe_read_spec:
  fixes ps :: pipe_table and i j len :: nat
  assumes "pipe_ok (ps i)" "used (ps i)"
  defines "q \<equiv> snd (pipe_read (Some i) True len ps) i"
  shows "fst (pipe_read (Some i) True len ps) = take len (pipe_contents (ps i))"
    "pipe_ok q" "used q" "pipe_contents q = drop len (pipe_contents (ps i))"
    "j \<noteq> i \<Longrightarrow> snd (pipe_read (Some i) True len ps) j = ps j"
proof -
  let ?n = "min len (count (ps i))"
  have r: "rpos (ps i) < PIPE_CAPACITY" "wpos (ps i) = (rpos (ps i) + count (ps i)) mod PIPE_CAPACITY"
      "count (ps i) \<le> PIPE_CAPACITY"
    using assms(1,2) by (auto simp: pipe_ok_def)
  note loop = pipe_read_loop_spec [OF r(1), of ?n]
  have tk: "ring_list PIPE_CAPACITY (data (ps i)) (rpos (ps i)) ?n = take len (pipe_contents (ps i))"
    by (simp add: pipe_contents_def ring_list_def take_map min_def)
  have rd: "pipe_read (Some i) True len ps = (fst (pipe_read_loop ?n (ps i)),
      ps(i := (snd (pipe_read_loop ?n (ps i)))\<lparr>count := count (ps i) - ?n\<rparr>))"
    using assms(2) by (auto simp: pipe_read_def Let_def pipe_read_loop_spec [OF r(1)] min_def)
  show "fst (pipe_read (Some i) True len ps) = take len (pipe_contents (ps i))"
    by (simp add: rd loop tk)
  show "j \<noteq> i \<Longrightarrow> snd (pipe_read (Some i) True len ps) j = ps j"
    by (simp add: rd)
  have q: "q = (ps i)\<lparr>rpos := (if ?n = 0 then rpos (ps i) else (rpos (ps i) + ?n) mod PIPE_CAPACITY),
      count := count (ps i) - ?n\<rparr>"
    by (simp add: q_def rd loop)
  have rp: "(if ?n = 0 then rpos (ps i) else (rpos (ps i) + ?n) mod PIPE_CAPACITY)
      = (rpos (ps i) + ?n) mod PIPE_CAPACITY"
    using r(1) by simp
  show "used q" by (simp add: q assms(2))
  have "pipe_contents q = drop ?n (pipe_contents (ps i))"
    unfolding q rp pipe_contents_def using r(1) by (simp add: ring_list_drop)
  also have "\<dots> = drop len (pipe_contents (ps i))"
    by (cases "len \<le> count (ps i)") (simp_all add: pipe_contents_def)
  finally show "pipe_contents q = drop len (pipe_contents (ps i))" .
  have "((rpos (ps i) + ?n) mod PIPE_CAPACITY + (count (ps i) - ?n)) mod PIPE_CAPACITY = wpos (ps i)"
    unfolding r(2) mod_add_left_eq by simp
  then show "pipe_ok q"
    using assms(1,2) r(1,3) unfolding q rp pipe_ok_def by simp
qed

section \<open>A pipe is a byte channel\<close>

text \<open>The channel seen by the holders of the pipe in slot \<open>i\<close>.\<close>

interpretation pipe_chan: byte_channel PIPE_CAPACITY "\<lambda>bs ps. pipe_write (Some i) (Some bs) ps"
  "\<lambda>n ps. pipe_read (Some i) True n ps" "\<lambda>ps. pipe_contents (ps i)"
  "\<lambda>ps. pipe_ok (ps i) \<and> used (ps i)" for i
proof unfold_locales
  fix ps :: pipe_table and bs n
  assume "pipe_ok (ps i) \<and> used (ps i)"
  then have ok: "pipe_ok (ps i)" "used (ps i)" by auto
  show "length (pipe_contents (ps i)) \<le> PIPE_CAPACITY"
    using ok by (simp add: pipe_contents_def pipe_ok_def)
  note w = pipe_write_spec [where ps = ps and i = i and bs = bs, OF ok]
    and r = pipe_read_spec [where ps = ps and i = i and len = n, OF ok]
  show "pipe_ok (snd (pipe_write (Some i) (Some bs) ps) i)
      \<and> used (snd (pipe_write (Some i) (Some bs) ps) i)"
    "fst (pipe_write (Some i) (Some bs) ps)
      = min (length bs) (PIPE_CAPACITY - length (pipe_contents (ps i)))"
    "pipe_contents (snd (pipe_write (Some i) (Some bs) ps) i)
      = pipe_contents (ps i) @ take (fst (pipe_write (Some i) (Some bs) ps)) bs"
    using w by (simp_all add: pipe_contents_def)
  show "pipe_ok (snd (pipe_read (Some i) True n ps) i)
      \<and> used (snd (pipe_read (Some i) True n ps) i)"
    "fst (pipe_read (Some i) True n ps) = take n (pipe_contents (ps i))"
    "pipe_contents (snd (pipe_read (Some i) True n ps) i) = drop n (pipe_contents (ps i))"
    using r by simp_all
qed

section \<open>Life cycle\<close>

lemma pipe_alloc_from_spec:
  "pipe_alloc_from i ps = (r, ps') \<Longrightarrow>
     (case r of
        None \<Rightarrow> ps' = ps \<and> (\<forall>j. i \<le> j \<longrightarrow> j < MAX_PIPES \<longrightarrow> used (ps j))
      | Some k \<Rightarrow> i \<le> k \<and> k < MAX_PIPES \<and> \<not> used (ps k)
          \<and> (\<forall>j. i \<le> j \<longrightarrow> j < k \<longrightarrow> used (ps j))
          \<and> ps' = ps(k := pipe_zero\<lparr>used := True, readers := 1, writers := 1\<rparr>))"
proof (induction i ps rule: pipe_alloc_from.induct)
  case (1 i ps)
  consider "\<not> i < MAX_PIPES" | "i < MAX_PIPES" "\<not> used (ps i)" | "i < MAX_PIPES" "used (ps i)"
    by blast
  then show ?case
  proof cases
    case 1
    then show ?thesis using "1.prems" by (auto simp: pipe_alloc_from.simps [of i])
  next
    case 2
    then show ?thesis using "1.prems" by (auto simp: pipe_alloc_from.simps [of i])
  next
    case 3
    then have "pipe_alloc_from (i + 1) ps = (r, ps')"
      using "1.prems" by (simp add: pipe_alloc_from.simps [of i])
    note IH = "1.IH" [OF 3(1) _ this]
    show ?thesis
      using IH 3 by (auto split: option.splits simp: Suc_le_eq) (metis le_neq_implies_less)+
  qed
qed

lemma pipe_alloc_ok: "pipes_ok ps \<Longrightarrow> pipes_ok (snd (pipe_alloc ps))"
proof -
  assume ok: "pipes_ok ps"
  obtain r ps' where al: "pipe_alloc_from 0 ps = (r, ps')" by fastforce
  have new: "pipe_ok (pipe_zero\<lparr>used := True, readers := 1, writers := 1\<rparr>)"
    by (simp add: pipe_ok_def pipe_zero_def)
  show ?thesis
    using pipe_alloc_from_spec [OF al] ok new
    by (auto simp: pipe_alloc_def al pipes_ok_def split: option.splits)
qed

lemma pipe_maybe_release_ok:
  assumes "\<forall>j. j \<noteq> i \<longrightarrow> pipe_ok (ps j)"
    and "readers (ps i) \<noteq> 0 \<or> writers (ps i) \<noteq> 0 \<Longrightarrow> pipe_ok (ps i)"
  shows "pipes_ok (pipe_maybe_release (Some i) ps)"
  using assms by (auto simp: pipe_maybe_release_def pipes_ok_def)

lemma pipe_close_ok:
  assumes "pipes_ok ps"
  shows "pipes_ok (pipe_close_read p ps)" "pipes_ok (pipe_close_write p ps)"
proof -
  show "pipes_ok (pipe_close_read p ps)"
  proof (cases p)
    case (Some i)
    have "pipe_ok (ps j)" for j using assms by blast
    then have "pipes_ok (pipe_maybe_release (Some i) (ps(i := (ps i)\<lparr>readers := readers (ps i) - 1\<rparr>)))"
      if "used (ps i)" "\<not> readers (ps i) \<le> 0"
      using that
      by (intro pipe_maybe_release_ok) (simp, drule meta_spec [of _ i], auto simp: pipe_ok_def)
    with Some assms show ?thesis by (simp add: pipe_close_read_def)
  qed (simp add: pipe_close_read_def assms)
  show "pipes_ok (pipe_close_write p ps)"
  proof (cases p)
    case (Some i)
    have "pipe_ok (ps j)" for j using assms by blast
    then have "pipes_ok (pipe_maybe_release (Some i) (ps(i := (ps i)\<lparr>writers := writers (ps i) - 1\<rparr>)))"
      if "used (ps i)" "\<not> writers (ps i) \<le> 0"
      using that
      by (intro pipe_maybe_release_ok) (simp, drule meta_spec [of _ i], auto simp: pipe_ok_def)
    with Some assms show ?thesis by (simp add: pipe_close_write_def)
  qed (simp add: pipe_close_write_def assms)
qed

lemma pipe_ref_ok:
  assumes "pipes_ok ps"
  shows "pipes_ok (pipe_ref_read p ps)" "pipes_ok (pipe_ref_write p ps)"
proof -
  have "pipe_ok ((ps i)\<lparr>readers := readers (ps i) + 1\<rparr>)" if "used (ps i)" for i
    using pipes_okD [OF assms, of i] that by (simp add: pipe_ok_def)
  then show "pipes_ok (pipe_ref_read p ps)"
    using assms by (auto simp: pipe_ref_read_def split: option.splits)
  have "pipe_ok ((ps i)\<lparr>writers := writers (ps i) + 1\<rparr>)" if "used (ps i)" for i
    using pipes_okD [OF assms, of i] that by (simp add: pipe_ok_def)
  then show "pipes_ok (pipe_ref_write p ps)"
    using assms by (auto simp: pipe_ref_write_def split: option.splits)
qed

lemma pipe_write_table_ok: "pipes_ok ps \<Longrightarrow> pipes_ok (snd (pipe_write p src ps))"
proof -
  assume ok: "pipes_ok ps"
  show ?thesis
  proof (cases "\<exists>i bs. p = Some i \<and> src = Some bs \<and> used (ps i)")
    case True
    then obtain i bs where e: "p = Some i" "src = Some bs" "used (ps i)" by blast
    have "pipe_ok (snd (pipe_write p src ps) j)" for j
      using pipe_write_spec(2,6) [where ps = ps and i = i and bs = bs, OF pipes_okD [OF ok] e(3)]
        pipes_okD [OF ok, of j]
      by (cases "j = i") (simp_all add: e)
    then show ?thesis by (simp add: pipes_ok_def)
  next
    case False
    then have "pipe_write p src ps = (0, ps)"
      by (auto simp: pipe_write_def Let_def split: option.splits)
    with ok show ?thesis by simp
  qed
qed

lemma pipe_read_table_ok: "pipes_ok ps \<Longrightarrow> pipes_ok (snd (pipe_read p dst len ps))"
proof -
  assume ok: "pipes_ok ps"
  show ?thesis
  proof (cases "\<exists>i. p = Some i \<and> used (ps i) \<and> dst")
    case True
    then obtain i where e: "p = Some i" "used (ps i)" dst by blast
    have "pipe_ok (snd (pipe_read p dst len ps) j)" for j
      using pipe_read_spec(2,5) [where ps = ps and i = i and len = len, OF pipes_okD [OF ok] e(2)]
        pipes_okD [OF ok, of j] e(3)
      by (cases "j = i") (simp_all add: e)
    then show ?thesis by (simp add: pipes_ok_def)
  next
    case False
    then have "pipe_read p dst len ps = ([], ps)"
      by (auto simp: pipe_read_def split: option.splits)
    with ok show ?thesis by simp
  qed
qed

lemmas pipe_ops_ok = pipe_alloc_ok pipe_close_ok pipe_ref_ok pipe_write_table_ok pipe_read_table_ok

section \<open>Reachable tables\<close>

text \<open>Any sequence of calls from the table that \<^verbatim>\<open>pipe_init\<close> leaves.\<close>

inductive pipe_step :: "pipe_table \<Rightarrow> pipe_table \<Rightarrow> bool" where
  step_alloc: "pipe_step ps (snd (pipe_alloc ps))"
| step_ref_read: "pipe_step ps (pipe_ref_read p ps)"
| step_ref_write: "pipe_step ps (pipe_ref_write p ps)"
| step_close_read: "pipe_step ps (pipe_close_read p ps)"
| step_close_write: "pipe_step ps (pipe_close_write p ps)"
| step_read: "pipe_step ps (snd (pipe_read p dst len ps))"
| step_write: "pipe_step ps (snd (pipe_write p src ps))"

inductive pipe_reachable :: "pipe_table \<Rightarrow> bool" where
  reach_init: "pipe_reachable pipe_init"
| reach_step: "pipe_reachable ps \<Longrightarrow> pipe_step ps ps' \<Longrightarrow> pipe_reachable ps'"

lemma pipe_step_ok: "pipe_step ps ps' \<Longrightarrow> pipes_ok ps \<Longrightarrow> pipes_ok ps'"
  by (induction rule: pipe_step.induct) (blast intro: pipe_ops_ok)+

lemma pipe_reachable_pipes_ok: "pipe_reachable ps \<Longrightarrow> pipes_ok ps"
proof (induction rule: pipe_reachable.induct)
  case reach_init
  show ?case by (simp add: pipes_ok_def pipe_init_def)
next
  case (reach_step ps ps')
  then show ?case by (blast intro: pipe_step_ok)
qed

section \<open>Properties\<close>

text \<open>A table with one pipe in slot 0, as \<^verbatim>\<open>pipe_alloc\<close> leaves it at boot.\<close>

definition pipe_example :: pipe_table where
  "pipe_example = snd (pipe_alloc pipe_init)"

lemma pipe_example_simp:
  "pipe_example = pipe_init(0 := pipe_zero\<lparr>used := True, readers := 1, writers := 1\<rparr>)"
  by (simp add: pipe_example_def pipe_alloc_def pipe_alloc_from.simps pipe_init_def)

text \<open>
  C5. A pipe is a first-in first-out byte channel: for every interleaving of reads and writes
  on an open pipe, the bytes in it at the start followed by the bytes its writes accepted are
  the bytes its reads delivered, in order, followed by the bytes left in it. A write accepts
  what fits in the 1024 bytes.
\<close>

theorem pipe_fifo:
  assumes "pipe_ok (ps i)" "used (ps i)"
    and "chan_run (\<lambda>bs. pipe_write (Some i) (Some bs)) (pipe_read (Some i) True) ops ps
      = (ps', accepted, delivered)"
  shows "pipe_ok (ps' i) \<and> used (ps' i)
    \<and> pipe_contents (ps i) @ accepted = delivered @ pipe_contents (ps' i)
    \<and> length (pipe_contents (ps' i)) \<le> PIPE_CAPACITY
    \<and> fst (pipe_write (Some i) (Some bs) ps)
        = min (length bs) (PIPE_CAPACITY - length (pipe_contents (ps i)))"
proof -
  have ok: "pipe_ok (ps i) \<and> used (ps i)" using assms by blast
  note run = pipe_chan.run_fifo [of ps i ops, OF ok assms(3)]
  then show ?thesis
    using pipe_chan.bound [of ps' i] pipe_chan.write_count [of ps i bs, OF ok] by blast
qed

theorem pipe_fifo_witness:
  "pipe_contents (pipe_example 0) @ [1, 2, 3] =
     [1, 2] @ pipe_contents (fst (chan_run (\<lambda>bs. pipe_write (Some 0) (Some bs))
       (pipe_read (Some 0) True) [ChanWrite [1, 2, 3], ChanRead 2] pipe_example) 0)"
proof -
  let ?run = "chan_run (\<lambda>bs. pipe_write (Some 0) (Some bs)) (pipe_read (Some 0) True)
    [ChanWrite [1, 2, 3], ChanRead 2] pipe_example"
  have ok: "pipe_ok (pipe_example 0)" "used (pipe_example 0)"
    by (simp_all add: pipe_example_simp pipe_ok_def pipe_zero_def)
  have "snd ?run = ([1, 2, 3], [1, 2])"
    by (simp add: pipe_example_simp pipe_init_def pipe_zero_def pipe_write_def pipe_read_def
        Let_def numeral_2_eq_2)
  then have "?run = (fst ?run, [1, 2, 3], [1, 2])" by (metis prod.collapse)
  from pipe_fifo [where ps = pipe_example and i = 0, OF ok this] show ?thesis by blast
qed



end
