(* ===== verification/Drivers.thy ===== *)
theory Drivers
  imports Prelude
begin

text \<open>
  The block device kinds of \<^verbatim>\<open>src/include/fs.h\<close>, their numbering of SATA disks and NVMe
  namespaces, and the interface of the three block drivers (\<^verbatim>\<open>virtio_blk.c\<close>, \<^verbatim>\<open>ahci.c\<close>,
  \<^verbatim>\<open>nvme.c\<close>) as the file system and the block cache call it. What the hardware behind the
  drivers does is a parameter: a record of functions on a device state \<open>'d\<close>.
\<close>

section \<open>Device kinds\<close>

type_synonym dev_kind = nat

abbreviation (input) DEV_NONE :: dev_kind where "DEV_NONE \<equiv> 0"
abbreviation (input) DEV_NULL :: dev_kind where "DEV_NULL \<equiv> 1"
abbreviation (input) DEV_ZERO :: dev_kind where "DEV_ZERO \<equiv> 2"
abbreviation (input) DEV_TTY :: dev_kind where "DEV_TTY \<equiv> 3"
abbreviation (input) DEV_VDA :: dev_kind where "DEV_VDA \<equiv> 4"
abbreviation (input) DEV_SDA :: dev_kind where "DEV_SDA \<equiv> 5"
abbreviation (input) DEV_SDH :: dev_kind where "DEV_SDH \<equiv> 12"
abbreviation (input) DEV_NVME_BASE :: dev_kind where "DEV_NVME_BASE \<equiv> 13"
abbreviation (input) NVME_MAX_CONTROLLERS :: nat where "NVME_MAX_CONTROLLERS \<equiv> 8"
abbreviation (input) NVME_MAX_NAMESPACES :: nat where "NVME_MAX_NAMESPACES \<equiv> 8"
abbreviation (input) DEV_NVME_LAST :: dev_kind where "DEV_NVME_LAST \<equiv> 76"
abbreviation (input) DEV_NET0 :: dev_kind where "DEV_NET0 \<equiv> 77"

definition sata_index_for_kind :: "dev_kind \<Rightarrow> int" where
  "sata_index_for_kind kind =
     (if kind < DEV_SDA \<or> kind > DEV_SDH then -1 else int (kind - DEV_SDA))"

text \<open>\<^verbatim>\<open>nvme_kind_decode\<close> (and its copy \<^verbatim>\<open>nvme_decode_kind\<close> in the block cache): controller
  and namespace id, or \<open>None\<close> for \<^verbatim>\<open>false\<close>.\<close>

definition nvme_kind_decode :: "dev_kind \<Rightarrow> (nat \<times> nat) option" where
  "nvme_kind_decode kind =
     (if kind < DEV_NVME_BASE \<or> kind > DEV_NVME_LAST then None
      else let idx = kind - DEV_NVME_BASE;
               ctrl = idx div NVME_MAX_NAMESPACES;
               nsid = idx mod NVME_MAX_NAMESPACES + 1
           in if ctrl \<ge> NVME_MAX_CONTROLLERS \<or> nsid = 0 \<or> nsid > NVME_MAX_NAMESPACES then None
              else Some (ctrl, nsid))"

definition nvme_kind_encode :: "nat \<Rightarrow> nat \<Rightarrow> dev_kind" where
  "nvme_kind_encode ctrl nsid =
     (if ctrl \<ge> NVME_MAX_CONTROLLERS \<or> nsid = 0 \<or> nsid > NVME_MAX_NAMESPACES then DEV_NONE
      else DEV_NVME_BASE + (ctrl * NVME_MAX_NAMESPACES + (nsid - 1)))"

definition dev_kind_is_block :: "dev_kind \<Rightarrow> bool" where
  "dev_kind_is_block kind \<longleftrightarrow>
     kind = DEV_VDA \<or> sata_index_for_kind kind \<ge> 0 \<or> nvme_kind_decode kind \<noteq> None"

lemma nvme_decode_encode:
  "ctrl < NVME_MAX_CONTROLLERS \<Longrightarrow> 0 < nsid \<Longrightarrow> nsid \<le> NVME_MAX_NAMESPACES \<Longrightarrow>
     nvme_kind_decode (nvme_kind_encode ctrl nsid) = Some (ctrl, nsid)"
  by (cases nsid) (simp_all add: nvme_kind_decode_def nvme_kind_encode_def Let_def)

lemma nvme_encode_decode:
  "nvme_kind_decode kind = Some (ctrl, nsid) \<Longrightarrow> nvme_kind_encode ctrl nsid = kind"
  by (auto simp: nvme_kind_decode_def nvme_kind_encode_def Let_def split: if_splits)

section \<open>The driver interface\<close>

type_synonym sector = "u8 list"

abbreviation (input) SECTOR_SIZE :: nat where "SECTOR_SIZE \<equiv> 512" \<comment> \<open>VIRTIO_BLK_SECTOR_SIZE\<close>

text \<open>The sector functions return the status, the buffer as the driver leaves it and the new
  device state; the last flag of an access is the \<^verbatim>\<open>write\<close> argument.\<close>

record 'd blkdrv =
  virtio_blk_ready :: "'d \<Rightarrow> bool"
  virtio_blk_capacity_sectors :: "'d \<Rightarrow> u64"
  virtio_blk_rw_sector :: "u64 \<Rightarrow> sector \<Rightarrow> bool \<Rightarrow> 'd \<Rightarrow> int \<times> sector \<times> 'd"
  virtio_blk_flush :: "'d \<Rightarrow> int \<times> 'd"
  ahci_disk_present :: "nat \<Rightarrow> 'd \<Rightarrow> bool \<times> 'd"
  ahci_disk_capacity_sectors :: "nat \<Rightarrow> 'd \<Rightarrow> u64"
  ahci_rw_sector :: "nat \<Rightarrow> u64 \<Rightarrow> sector \<Rightarrow> bool \<Rightarrow> 'd \<Rightarrow> int \<times> sector \<times> 'd"
  ahci_flush :: "nat \<Rightarrow> 'd \<Rightarrow> int \<times> 'd"
  nvme_ns_present :: "nat \<Rightarrow> nat \<Rightarrow> 'd \<Rightarrow> bool"
  nvme_ns_capacity_sectors512 :: "nat \<Rightarrow> nat \<Rightarrow> 'd \<Rightarrow> u64"
  nvme_ns_rw_sector :: "nat \<Rightarrow> nat \<Rightarrow> u64 \<Rightarrow> sector \<Rightarrow> bool \<Rightarrow> 'd \<Rightarrow> int \<times> sector \<times> 'd"
  nvme_ns_flush :: "nat \<Rightarrow> nat \<Rightarrow> 'd \<Rightarrow> int \<times> 'd"

definition backend_ready :: "'d blkdrv \<Rightarrow> dev_kind \<Rightarrow> 'd \<Rightarrow> bool \<times> 'd" where
  "backend_ready D kind d =
     (let sidx = sata_index_for_kind kind in
      if kind = DEV_VDA then (virtio_blk_ready D d, d)
      else if sidx \<ge> 0 then ahci_disk_present D (nat sidx) d
      else case nvme_kind_decode kind of
        Some (nctrl, nsid) \<Rightarrow> (nvme_ns_present D nctrl nsid d, d)
      | None \<Rightarrow> (False, d))"

definition backend_rw :: "'d blkdrv \<Rightarrow> dev_kind \<Rightarrow> u64 \<Rightarrow> sector \<Rightarrow> bool \<Rightarrow> 'd
    \<Rightarrow> int \<times> sector \<times> 'd" where
  "backend_rw D kind lba buf wr d =
     (let sidx = sata_index_for_kind kind in
      if kind = DEV_VDA then virtio_blk_rw_sector D lba buf wr d
      else if sidx \<ge> 0 then ahci_rw_sector D (nat sidx) lba buf wr d
      else case nvme_kind_decode kind of
        Some (nctrl, nsid) \<Rightarrow> nvme_ns_rw_sector D nctrl nsid lba buf wr d
      | None \<Rightarrow> (-1, buf, d))"

definition backend_flush :: "'d blkdrv \<Rightarrow> dev_kind \<Rightarrow> 'd \<Rightarrow> int \<times> 'd" where
  "backend_flush D kind d =
     (let sidx = sata_index_for_kind kind in
      if kind = DEV_VDA then virtio_blk_flush D d
      else if sidx \<ge> 0 then ahci_flush D (nat sidx) d
      else case nvme_kind_decode kind of
        Some (nctrl, nsid) \<Rightarrow> nvme_ns_flush D nctrl nsid d
      | None \<Rightarrow> (-1, d))"

text \<open>
  What the kernel relies on from a driver, for a function \<open>media\<close> that reads the medium out of
  the device state: a successful read fills the buffer with the sector, a read never changes the
  medium, a successful write stores the buffer, a write touches no other sector and leaves the
  buffer alone, and asking for presence or flushing changes no sector.
\<close>

definition rw_ok :: "('d \<Rightarrow> u64 \<Rightarrow> sector) \<Rightarrow> (u64 \<Rightarrow> sector \<Rightarrow> bool \<Rightarrow> 'd \<Rightarrow> int \<times> sector \<times> 'd)
    \<Rightarrow> bool" where
  "rw_ok media rw \<longleftrightarrow>
     (\<forall>lba buf d r buf' d'. rw lba buf False d = (r, buf', d') \<longrightarrow>
        media d' = media d \<and> (r = 0 \<longrightarrow> buf' = media d lba)) \<and>
     (\<forall>lba buf d r buf' d'. rw lba buf True d = (r, buf', d') \<longrightarrow>
        buf' = buf \<and> (\<forall>l. l \<noteq> lba \<longrightarrow> media d' l = media d l) \<and> (r = 0 \<longrightarrow> media d' lba = buf))"

definition driver_ok :: "'d blkdrv \<Rightarrow> dev_kind \<Rightarrow> ('d \<Rightarrow> u64 \<Rightarrow> sector) \<Rightarrow> bool" where
  "driver_ok D kind media \<longleftrightarrow>
     rw_ok media (backend_rw D kind) \<and>
     (\<forall>d. media (snd (backend_ready D kind d)) = media d) \<and>
     (\<forall>d. media (snd (backend_flush D kind d)) = media d)"

text \<open>A driver that never touches the buffer of a read that fails.\<close>

definition read_fail_keeps :: "'d blkdrv \<Rightarrow> dev_kind \<Rightarrow> bool" where
  "read_fail_keeps D kind \<longleftrightarrow>
     (\<forall>lba buf d r buf' d'. backend_rw D kind lba buf False d = (r, buf', d') \<longrightarrow> r \<noteq> 0 \<longrightarrow> buf' = buf)"

lemma driver_read:
  "driver_ok D kind media \<Longrightarrow> backend_rw D kind lba buf False d = (r, buf', d') \<Longrightarrow>
     media d' = media d \<and> (r = 0 \<longrightarrow> buf' = media d lba)"
  unfolding driver_ok_def rw_ok_def by blast

lemma driver_write:
  "driver_ok D kind media \<Longrightarrow> backend_rw D kind lba buf True d = (r, buf', d') \<Longrightarrow>
     buf' = buf \<and> (\<forall>l. l \<noteq> lba \<longrightarrow> media d' l = media d l) \<and> (r = 0 \<longrightarrow> media d' lba = buf)"
  unfolding driver_ok_def rw_ok_def by blast

lemma driver_ready: "driver_ok D kind media \<Longrightarrow> backend_ready D kind d = (r, d') \<Longrightarrow> media d' = media d"
  unfolding driver_ok_def by (metis snd_conv)

lemma driver_flush: "driver_ok D kind media \<Longrightarrow> backend_flush D kind d = (r, d') \<Longrightarrow> media d' = media d"
  unfolding driver_ok_def by (metis snd_conv)

text \<open>A driver that completes every transfer to the sectors of a partition.\<close>

definition driver_serves :: "'d blkdrv \<Rightarrow> dev_kind \<Rightarrow> u64 \<Rightarrow> u64 \<Rightarrow> bool" where
  "driver_serves D kind base count \<longleftrightarrow>
     (\<forall>l < count. \<forall>buf wr d. fst (backend_rw D kind (base + l) buf wr d) = 0)"

lemma driver_fail:
  "read_fail_keeps D kind \<Longrightarrow> backend_rw D kind lba buf False d = (r, buf', d') \<Longrightarrow> r \<noteq> 0 \<Longrightarrow> buf' = buf"
  unfolding read_fail_keeps_def by blast

section \<open>A disk in memory\<close>

text \<open>An instance of the interface that satisfies these hypotheses: one virtio disk of \<open>cap\<close>
  sectors whose state is its contents. It is used in the witnesses.\<close>

definition mem_disk :: "u64 \<Rightarrow> (u64 \<Rightarrow> sector) blkdrv" where
  "mem_disk cap =
     \<lparr>virtio_blk_ready = (\<lambda>_. True),
      virtio_blk_capacity_sectors = (\<lambda>_. cap),
      virtio_blk_rw_sector = (\<lambda>lba buf wr d.
        if lba \<ge> cap then (-1, buf, d)
        else if wr then (0, buf, d(lba := buf)) else (0, d lba, d)),
      virtio_blk_flush = (\<lambda>d. (0, d)),
      ahci_disk_present = (\<lambda>_ d. (False, d)),
      ahci_disk_capacity_sectors = (\<lambda>_ _. 0),
      ahci_rw_sector = (\<lambda>_ _ buf _ d. (-1, buf, d)),
      ahci_flush = (\<lambda>_ d. (-1, d)),
      nvme_ns_present = (\<lambda>_ _ _. False),
      nvme_ns_capacity_sectors512 = (\<lambda>_ _ _. 0),
      nvme_ns_rw_sector = (\<lambda>_ _ _ buf _ d. (-1, buf, d)),
      nvme_ns_flush = (\<lambda>_ _ d. (-1, d))\<rparr>"

lemma mem_disk_ok: "driver_ok (mem_disk cap) DEV_VDA (\<lambda>d. d)"
  by (auto simp: driver_ok_def rw_ok_def backend_rw_def backend_ready_def backend_flush_def
      mem_disk_def split: if_splits)

lemma mem_disk_keeps: "read_fail_keeps (mem_disk cap) DEV_VDA"
  by (auto simp: read_fail_keeps_def backend_rw_def mem_disk_def split: if_splits)

lemma mem_disk_serves: "driver_serves (mem_disk cap) DEV_VDA 0 cap"
  by (auto simp: driver_serves_def backend_rw_def mem_disk_def not_le)

end
