(* ===== verification/SectorStore.thy ===== *)
theory SectorStore
  imports Drivers
begin

text \<open>
  The contract between the block cache and the file system code above it: a store of 512-byte
  sectors that reads back what was written. \<^verbatim>\<open>ext4.c\<close> reaches the disk only through
  single-sector reads and writes of this kind, moving byte ranges with them; the copy loops of
  \<^verbatim>\<open>ext4_raw_read_bytes\<close> and \<^verbatim>\<open>ext4_raw_write_bytes\<close> are here, and what they do to the bytes of
  the store is proved from the contract alone.
\<close>

section \<open>The copy loops\<close>

text \<open>The read loop; \<open>rd\<close> reads one sector. It returns the status and the bytes copied out.\<close>

lemma unat_mod_512 [simp]: "unat (x mod 512 :: u64) = unat x mod 512"
  by (simp add: unat_mod)

lemma unat_div_512 [simp]: "unat (x div 512 :: u64) = unat x div 512"
  by (simp add: unat_div)

function raw_read_loop :: "(u64 \<Rightarrow> 's \<Rightarrow> int \<times> u8 list \<times> 's) \<Rightarrow> u64 \<Rightarrow> nat \<Rightarrow> 's
    \<Rightarrow> bool \<times> u8 list \<times> 's" where
  "raw_read_loop rd byte_off len s =
     (if len = 0 then (True, [], s)
      else
        let lba = byte_off div 512;
            sec_off = unat (byte_off mod 512);
            chunk = min (SECTOR_SIZE - sec_off) len
        in case rd lba s of (r, sec, s1) \<Rightarrow>
             if r \<noteq> 0 then (False, [], s1)
             else case raw_read_loop rd (byte_off + of_nat chunk) (len - chunk) s1 of
               (ok, bs, s2) \<Rightarrow> (ok, take chunk (drop sec_off sec) @ bs, s2))"
  by pat_completeness auto
termination
  by (relation "measure (\<lambda>(_, _, len, _). len)") auto

text \<open>The write loop; the bytes left to write are the list \<open>src\<close>. The sector is read, patched
  and written back.\<close>

function raw_write_loop :: "(u64 \<Rightarrow> 's \<Rightarrow> int \<times> u8 list \<times> 's) \<Rightarrow> (u64 \<Rightarrow> u8 list \<Rightarrow> 's \<Rightarrow> int \<times> 's)
    \<Rightarrow> u64 \<Rightarrow> u8 list \<Rightarrow> 's \<Rightarrow> bool \<times> 's" where
  "raw_write_loop rd wr byte_off src s =
     (if length src = 0 then (True, s)
      else
        let lba = byte_off div 512;
            sec_off = unat (byte_off mod 512);
            chunk = min (SECTOR_SIZE - sec_off) (length src)
        in case rd lba s of (r, sec, s1) \<Rightarrow>
             if r \<noteq> 0 then (False, s1)
             else
               let sec = take sec_off sec @ take chunk src @ drop (sec_off + chunk) sec
               in case wr lba sec s1 of (r2, s2) \<Rightarrow>
                    if r2 \<noteq> 0 then (False, s2)
                    else raw_write_loop rd wr (byte_off + of_nat chunk) (drop chunk src) s2)"
  by pat_completeness auto
termination
  by (relation "measure (\<lambda>(_, _, _, src, _). length src)") auto

declare raw_read_loop.simps [simp del] raw_write_loop.simps [simp del]

section \<open>Byte ranges over sectors\<close>

text \<open>The bytes of a store, by their offset.\<close>

definition byte_at :: "(u64 \<Rightarrow> sector) \<Rightarrow> u64 \<Rightarrow> u8" where
  "byte_at v k = v (k div 512) ! unat (k mod 512)"

definition get_bytes :: "(u64 \<Rightarrow> u8) \<Rightarrow> u64 \<Rightarrow> nat \<Rightarrow> u8 list" where
  "get_bytes f off n = map (\<lambda>i. f (off + of_nat i)) [0..<n]"

text \<open>A store after the bytes from \<open>off\<close> on are overwritten with \<open>bs\<close>.\<close>

definition put_bytes :: "u64 \<Rightarrow> u8 list \<Rightarrow> (u64 \<Rightarrow> u8) \<Rightarrow> u64 \<Rightarrow> u8" where
  "put_bytes off bs f k = (if unat (k - off) < length bs then bs ! unat (k - off) else f k)"

definition sized :: "(u64 \<Rightarrow> sector) \<Rightarrow> bool" where
  "sized v \<longleftrightarrow> (\<forall>l. length (v l) = SECTOR_SIZE)"

lemma get_bytes_0 [simp]: "get_bytes f off 0 = []"
  by (simp add: get_bytes_def)

lemma length_get_bytes [simp]: "length (get_bytes f off n) = n"
  by (simp add: get_bytes_def)

lemma get_bytes_add: "get_bytes f off (m + n) = get_bytes f off m @ get_bytes f (off + of_nat m) n"
proof -
  have "[0..<m + n] = [0..<m] @ map (\<lambda>i. i + m) [0..<n]"
    using upt_add_eq_append [of 0 m n] map_add_upt [of m n] by (simp add: add.commute)
  then show ?thesis by (simp add: get_bytes_def comp_def add.assoc add.commute [of "of_nat m"])
qed

lemma put_bytes_Nil [simp]: "put_bytes off [] f = f"
  by (simp add: put_bytes_def fun_eq_iff)

text \<open>Offsets inside one sector.\<close>

lemma same_sector:
  assumes "j < SECTOR_SIZE - unat (off mod 512 :: u64)"
  shows "unat (off + of_nat j) = unat off + j" "(off + of_nat j) div 512 = off div 512"
    "unat ((off + of_nat j) mod 512) = unat off mod 512 + j"
proof -
  have j: "unat off mod 512 + j < 512" using assms by simp
  have "unat off < 2 ^ 64" using unsigned_less [of off] by simp
  then have "unat off div 512 < 36028797018963968" by (simp add: div_less_iff_less_mult)
  moreover have "unat off = 512 * (unat off div 512) + unat off mod 512" by simp
  ultimately have "unat off + j < 18446744073709551616" using j by linarith
  then have b: "unat off + j < 2 ^ 64" by simp
  then have "unat (of_nat j :: u64) = j" by (intro unat_of_nat_small) simp
  then show u: "unat (off + of_nat j) = unat off + j" using b by (subst unat_add_lem [THEN iffD1]) auto
  have "unat off + j = (unat off mod 512 + j) + unat off div 512 * 512" by simp
  then have d: "(unat off + j) div 512 = unat off div 512" "(unat off + j) mod 512 = unat off mod 512 + j"
    using j by (metis add.right_neutral add.commute div_less div_mult_self1 zero_neq_numeral,
        metis mod_less mod_mult_self1)
  show "(off + of_nat j) div 512 = off div 512"
    using u d by (simp add: word_unat_eq_iff)
  show "unat ((off + of_nat j) mod 512) = unat off mod 512 + j" using u d by simp
qed

lemma chunk_bytes:
  assumes "sized v" "chunk \<le> SECTOR_SIZE - unat (off mod 512 :: u64)"
  shows "take chunk (drop (unat (off mod 512)) (v (off div 512))) = get_bytes (byte_at v) off chunk"
proof (rule nth_equalityI)
  show "length (take chunk (drop (unat (off mod 512)) (v (off div 512)))) = length (get_bytes (byte_at v) off chunk)"
    using assms by (simp add: sized_def)
  fix j assume "j < length (take chunk (drop (unat (off mod 512)) (v (off div 512))))"
  then have "j < chunk" by simp
  then show "take chunk (drop (unat (off mod 512)) (v (off div 512))) ! j = get_bytes (byte_at v) off chunk ! j"
    using same_sector [of j off] assms by (simp add: get_bytes_def byte_at_def sized_def)
qed

lemma unat_sub_of_nat:
  assumes "m < 2 ^ 64"
  shows "unat ((x :: u64) - of_nat m) = (if m \<le> unat x then unat x - m else 2 ^ 64 + unat x - m)"
proof -
  have m: "unat (of_nat m :: u64) = m" using assms by (intro unat_of_nat_small) simp
  show ?thesis
  proof (cases "m \<le> unat x")
    case True
    then show ?thesis using m by (simp add: unat_sub word_le_nat_alt)
  next
    case False
    then have "x < of_nat m" using m by (simp add: word_less_nat_alt)
    then show ?thesis using m False by (subst unat_sub_if') (simp add: word_le_nat_alt)
  qed
qed

lemma put_bytes_append:
  assumes "length a + length b < 2 ^ 64"
  shows "put_bytes off (a @ b) f = put_bytes (off + of_nat (length a)) b (put_bytes off a f)"
proof
  fix k
  have e: "k - (off + of_nat (length a)) = (k - off) - of_nat (length a)" by (simp add: diff_diff_eq)
  have "length a < 2 ^ 64" using assms by linarith
  then have "unat (k - (off + of_nat (length a))) = (if length a \<le> unat (k - off)
      then unat (k - off) - length a else 2 ^ 64 + unat (k - off) - length a)"
    unfolding e by (rule unat_sub_of_nat)
  then show "put_bytes off (a @ b) f k = put_bytes (off + of_nat (length a)) b (put_bytes off a f) k"
    using assms unsigned_less [of "k - off"] by (auto simp: put_bytes_def nth_append split: if_splits)
qed

lemma patch_sector:
  assumes sz: "sized v" and c: "c \<le> SECTOR_SIZE - unat (off mod 512 :: u64)" "c \<le> length src"
  shows "byte_at (v(off div 512 := take (unat (off mod 512)) (v (off div 512)) @ take c src
           @ drop (unat (off mod 512) + c) (v (off div 512)))) = put_bytes off (take c src) (byte_at v)"
    (is "byte_at (v(_ := ?sec)) = _")
proof
  fix k
  let ?so = "unat off mod 512"
  have len: "length (v l) = 512" for l using sz by (simp add: sized_def)
  have in_chunk: "unat (k - off) < c" if "k div 512 = off div 512" "?so \<le> unat k mod 512" "unat k mod 512 < ?so + c"
  proof -
    have "unat k div 512 = unat off div 512" using arg_cong [OF that(1), of unat] by simp
    then have "unat k = unat off + (unat k mod 512 - ?so)"
      using that(2) by (metis add.assoc div_mult_mod_eq le_add_diff_inverse)
    then have "unat (k - off) = unat k mod 512 - ?so" by (simp add: unat_sub word_le_nat_alt)
    then show ?thesis using that(2,3) by linarith
  qed
  show "byte_at (v(off div 512 := ?sec)) k = put_bytes off (take c src) (byte_at v) k"
  proof (cases "unat (k - off) < c")
    case True
    define j where "j = unat (k - off)"
    have k: "k = off + of_nat j" by (simp add: j_def)
    have "j < SECTOR_SIZE - unat (off mod 512)" using True c by (simp add: j_def)
    note s = same_sector [OF this, folded k]
    have "?sec ! (?so + j) = src ! j" using True c len by (simp add: nth_append j_def)
    then show ?thesis using True c s by (simp add: byte_at_def put_bytes_def j_def)
  next
    case False
    have "?sec ! m = v (off div 512) ! m" if "m < ?so \<or> ?so + c \<le> m" for m
      using that c len by (auto simp: nth_append)
    then have "k div 512 = off div 512 \<Longrightarrow> ?sec ! (unat k mod 512) = v (off div 512) ! (unat k mod 512)"
      using in_chunk False by (meson not_le)
    then show ?thesis using False c by (auto simp: byte_at_def put_bytes_def)
  qed
qed

section \<open>Byte ranges that do not wrap\<close>

definition in_span :: "u64 \<Rightarrow> nat \<Rightarrow> u64 \<Rightarrow> bool" where \<comment> \<open>\<open>k\<close> lies in the \<open>n\<close> bytes from \<open>off\<close> on\<close>
  "in_span off n k \<longleftrightarrow> unat off \<le> unat k \<and> unat k < unat off + n"

lemma unat_sub_wrap: "unat (k - off :: u64) = (if unat off \<le> unat k then unat k - unat off else 2 ^ 64 + unat k - unat off)"
  using unat_sub_of_nat [of "unat off" k] unsigned_less [of off] by simp

lemma in_span_iff:
  assumes "unat off + n \<le> 2 ^ 64"
  shows "unat (k - off) < n \<longleftrightarrow> in_span off n k"
  using assms unat_u64 [of k] by (auto simp: unat_sub_wrap in_span_def simp del: unat_u64)

lemma in_span_sub: "in_span off n k \<Longrightarrow> unat (k - off) = unat k - unat off"
  by (auto simp: unat_sub_wrap in_span_def)

lemma put_bytes_span:
  "unat off + length bs \<le> 2 ^ 64 \<Longrightarrow>
     put_bytes off bs f k = (if in_span off (length bs) k then bs ! (unat k - unat off) else f k)"
  by (simp add: put_bytes_def in_span_iff in_span_sub)

lemma get_bytes_nth: "i < n \<Longrightarrow> get_bytes f off n ! i = f (off + of_nat i)"
  by (simp add: get_bytes_def)

lemma unat_add_small: "unat off + i < 2 ^ 64 \<Longrightarrow> unat (off + of_nat i :: u64) = unat off + i"
  by (subst unat_add_lem [THEN iffD1]) (simp_all add: unat_of_nat_small)

lemma get_put_same:
  assumes "unat off + length bs \<le> 2 ^ 64"
  shows "get_bytes (put_bytes off bs f) off (length bs) = bs"
  using assms by (intro nth_equalityI) (simp_all add: get_bytes_nth put_bytes_span in_span_def unat_add_small)

lemma get_bytes_cong: "(\<And>i. i < n \<Longrightarrow> f (off + of_nat i) = g (off + of_nat i)) \<Longrightarrow> get_bytes f off n = get_bytes g off n"
  by (simp add: get_bytes_def)

lemma get_put_disjoint:
  assumes "unat off + length bs \<le> 2 ^ 64" "unat o2 + n \<le> 2 ^ 64"
    "unat off + length bs \<le> unat o2 \<or> unat o2 + n \<le> unat off"
  shows "get_bytes (put_bytes off bs f) o2 n = get_bytes f o2 n"
  using assms by (intro get_bytes_cong) (auto simp: put_bytes_span in_span_def unat_add_small)

section \<open>The contract\<close>

locale sector_store =
  fixes ok :: "'s \<Rightarrow> bool"
    and view :: "'s \<Rightarrow> u64 \<Rightarrow> sector"
    and rd :: "u64 \<Rightarrow> 's \<Rightarrow> int \<times> u8 list \<times> 's"
    and wr :: "u64 \<Rightarrow> u8 list \<Rightarrow> 's \<Rightarrow> int \<times> 's"
  assumes ok_sized: "ok s \<Longrightarrow> sized (view s)"
    and rd_law: "ok s \<Longrightarrow> rd l s = (r, b, s') \<Longrightarrow> ok s' \<and> view s' = view s \<and> (r = 0 \<longrightarrow> b = view s l)"
    and wr_law: "ok s \<Longrightarrow> length b = SECTOR_SIZE \<Longrightarrow> wr l b s = (r, s') \<Longrightarrow>
          ok s' \<and> view s' = (if r = 0 then (view s)(l := b) else view s)"
begin

abbreviation bytes :: "'s \<Rightarrow> u64 \<Rightarrow> u8" where
  "bytes s \<equiv> byte_at (view s)"

lemma raw_read:
  "ok s \<Longrightarrow> raw_read_loop rd off n s = (q, bs, s') \<Longrightarrow>
     ok s' \<and> view s' = view s \<and> (q \<longrightarrow> bs = get_bytes (bytes s) off n)"
proof (induction n arbitrary: off s q bs s' rule: less_induct)
  case (less n)
  show ?case
  proof (cases "n = 0")
    case True
    then show ?thesis using less.prems by (simp add: raw_read_loop.simps)
  next
    case False
    define c where "c = min (SECTOR_SIZE - unat (off mod 512)) n"
    have c: "0 < c" "c \<le> n" "c \<le> SECTOR_SIZE - unat (off mod 512)"
      using False by (auto simp: c_def)
    obtain r sec s1 where r: "rd (off div 512) s = (r, sec, s1)" by (metis prod_cases3)
    note law = rd_law [OF less.prems(1) r]
    obtain q2 bs2 s2 where rest: "raw_read_loop rd (off + of_nat c) (n - c) s1 = (q2, bs2, s2)"
      by (metis prod_cases3)
    have res: "if r \<noteq> 0 then \<not> q \<and> s' = s1
        else q = q2 \<and> s' = s2 \<and> bs = take c (drop (unat (off mod 512)) sec) @ bs2"
      using less.prems(2) False r rest
      by (subst (asm) raw_read_loop.simps) (auto simp: Let_def c_def [symmetric] simp del: unat_mod_512)
    show ?thesis
    proof (cases "r = 0")
      case False
      then show ?thesis using res law by simp
    next
      case True
      have "ok s2 \<and> view s2 = view s1 \<and> (q2 \<longrightarrow> bs2 = get_bytes (bytes s1) (off + of_nat c) (n - c))"
        using less.IH [OF _ _ rest] c law by simp
      moreover have "take c (drop (unat (off mod 512)) sec) = get_bytes (bytes s) off c"
        using chunk_bytes [OF ok_sized [OF less.prems(1)] c(3)] law True by simp
      ultimately show ?thesis
        using res True law c get_bytes_add [of "bytes s" off c "n - c"] by auto
    qed
  qed
qed

text \<open>A write that fails half-way has written a prefix.\<close>

lemma raw_write:
  "ok s \<Longrightarrow> raw_write_loop rd wr off src s = (q, s') \<Longrightarrow> length src < 2 ^ 64 \<Longrightarrow>
     ok s' \<and> (\<exists>k \<le> length src. (q \<longrightarrow> k = length src) \<and> bytes s' = put_bytes off (take k src) (bytes s))"
proof (induction src arbitrary: off s q s' rule: measure_induct_rule [where f = length])
  case (less src)
  show ?case
  proof (cases "src = []")
    case True
    then show ?thesis using less by (simp add: raw_write_loop.simps)
  next
    case False
    define c where "c = min (SECTOR_SIZE - unat (off mod 512)) (length src)"
    have c: "0 < c" "c \<le> length src" "c \<le> SECTOR_SIZE - unat (off mod 512)"
      using False by (auto simp: c_def)
    obtain r sec s1 where r: "rd (off div 512) s = (r, sec, s1)" by (metis prod_cases3)
    note law = rd_law [OF less.prems(1) r]
    define sec' where "sec' = take (unat (off mod 512)) sec @ take c src @ drop (unat (off mod 512) + c) sec"
    obtain r2 s2 where w: "wr (off div 512) sec' s1 = (r2, s2)" by fastforce
    obtain q3 s3 where rest: "raw_write_loop rd wr (off + of_nat c) (drop c src) s2 = (q3, s3)" by fastforce
    have res: "if r \<noteq> 0 then \<not> q \<and> s' = s1 else if r2 \<noteq> 0 then \<not> q \<and> s' = s2 else q = q3 \<and> s' = s3"
      using less.prems(2) False r rest w
      by (subst (asm) raw_write_loop.simps)
        (auto simp: Let_def c_def [symmetric] sec'_def [symmetric] simp del: unat_mod_512)
    show ?thesis
    proof (cases "r = 0")
      case False
      then show ?thesis using res law by (intro conjI exI [of _ 0]) auto
    next
      case True
      note sz = ok_sized [OF less.prems(1)]
      have sec: "sec = view s (off div 512)" "ok s1" "view s1 = view s" using law True by auto
      have "length sec' = SECTOR_SIZE" using sz c by (simp add: sec'_def sec sized_def)
      note wl = wr_law [OF sec(2) this w]
      show ?thesis
      proof (cases "r2 = 0")
        case False
        then show ?thesis using res True wl sec by (intro conjI exI [of _ 0]) auto
      next
        case True
        then have b2: "bytes s2 = put_bytes off (take c src) (bytes s)"
          using wl patch_sector [OF sz c(3,2)] by (simp add: sec sec'_def)
        have "length (drop c src) < length src" "length (drop c src) < 2 ^ 64"
          using c(1,2) less.prems(3) by simp_all
        note ih = less.IH [OF this(1) conjunct1 [OF wl] rest this(2)]
        obtain k where k: "k \<le> length src - c" "q3 \<longrightarrow> k = length src - c" and ok3: "ok s3"
          and b3: "bytes s3 = put_bytes (off + of_nat c) (take k (drop c src)) (bytes s2)"
          using ih by auto
        have "take (c + k) src = take c src @ take k (drop c src)" by (simp add: take_add)
        then have "bytes s3 = put_bytes off (take (c + k) src) (bytes s)"
          using b2 b3 put_bytes_append [of "take c src" "take k (drop c src)" off "bytes s"] c less.prems(3) k(1)
          by simp
        then show ?thesis
          using res True \<open>r = 0\<close> ok3 k c by (intro conjI exI [of _ "c + k"]) auto
      qed
    qed
  qed
qed

end

text \<open>A store all of whose sectors below \<open>cap\<close> can be read and written: the byte transfers then
  succeed.\<close>

locale live_sector_store = sector_store +
  fixes live :: "'a \<Rightarrow> bool" and cap :: u64
  assumes rd_live: "live s \<Longrightarrow> l < cap \<Longrightarrow> \<exists>b s'. rd l s = (0, b, s') \<and> live s'"
    and wr_live: "live s \<Longrightarrow> l < cap \<Longrightarrow> \<exists>s'. wr l b s = (0, s') \<and> live s'"
begin

lemma chunk_in_cap:
  assumes "unat off + n \<le> 512 * unat cap" "0 < n"
  shows "off div 512 < cap"
proof -
  have "unat off < 512 * unat cap" using assms by linarith
  then have "unat off div 512 < unat cap" by (simp add: div_less_iff_less_mult mult.commute)
  then show ?thesis by (simp add: word_less_nat_alt)
qed

lemma next_in_cap:
  fixes off :: u64
  assumes "unat off + n \<le> 512 * unat cap" "c < n" "c \<le> SECTOR_SIZE - unat (off mod 512)" "0 < c"
  shows "unat (off + of_nat c) + (n - c) \<le> 512 * unat cap"
proof -
  have "c - 1 < SECTOR_SIZE - unat (off mod 512)" using assms(3,4) by linarith
  then have "unat (off + of_nat (c - 1)) = unat off + (c - 1)" by (rule same_sector(1))
  moreover have "off + of_nat c = (off + of_nat (c - 1)) + 1" using assms(4) by (simp add: of_nat_diff)
  ultimately have "unat (off + of_nat c) \<le> unat off + c"
    using assms(4) unat_plus_if_size [of "off + of_nat (c - 1)" 1]
    by (simp split: if_splits)
  then show ?thesis using assms(1,2) by linarith
qed

lemma raw_read_live:
  "live s \<Longrightarrow> unat off + n \<le> 512 * unat cap \<Longrightarrow> \<exists>bs s'. raw_read_loop rd off n s = (True, bs, s') \<and> live s'"
proof (induction n arbitrary: off s rule: less_induct)
  case (less n)
  show ?case
  proof (cases "n = 0")
    case True
    then show ?thesis using less.prems by (simp add: raw_read_loop.simps)
  next
    case False
    define c where "c = min (SECTOR_SIZE - unat (off mod 512)) n"
    have c: "0 < c" "c \<le> n" "c \<le> SECTOR_SIZE - unat (off mod 512)" using False by (auto simp: c_def)
    have "off div 512 < cap" using chunk_in_cap less.prems(2) False by blast
    then obtain sec s1 where r: "rd (off div 512) s = (0, sec, s1)" "live s1"
      using rd_live [OF less.prems(1)] by blast
    have "\<exists>bs s'. raw_read_loop rd (off + of_nat c) (n - c) s1 = (True, bs, s') \<and> live s'"
    proof (cases "c = n")
      case True
      then show ?thesis using r(2) by (simp add: raw_read_loop.simps)
    next
      case False
      then show ?thesis using less.IH [OF _ r(2)] c next_in_cap [OF less.prems(2) _ c(3,1)] by simp
    qed
    then obtain bs s' where "raw_read_loop rd (off + of_nat c) (n - c) s1 = (True, bs, s')" "live s'" by blast
    then show ?thesis
      using False r by (subst raw_read_loop.simps) (auto simp: Let_def c_def [symmetric] simp del: unat_mod_512)
  qed
qed

lemma raw_write_live:
  "live s \<Longrightarrow> unat off + length src \<le> 512 * unat cap \<Longrightarrow> \<exists>s'. raw_write_loop rd wr off src s = (True, s') \<and> live s'"
proof (induction src arbitrary: off s rule: measure_induct_rule [where f = length])
  case (less src)
  show ?case
  proof (cases "src = []")
    case True
    then show ?thesis using less.prems by (simp add: raw_write_loop.simps)
  next
    case False
    define c where "c = min (SECTOR_SIZE - unat (off mod 512)) (length src)"
    have c: "0 < c" "c \<le> length src" "c \<le> SECTOR_SIZE - unat (off mod 512)" using False by (auto simp: c_def)
    have l: "off div 512 < cap" using chunk_in_cap [OF less.prems(2)] False by simp
    then obtain sec s1 where r: "rd (off div 512) s = (0, sec, s1)" "live s1"
      using rd_live [OF less.prems(1)] by blast
    define sec' where "sec' = take (unat (off mod 512)) sec @ take c src @ drop (unat (off mod 512) + c) sec"
    obtain s2 where w: "wr (off div 512) sec' s1 = (0, s2)" "live s2" using wr_live [OF r(2) l] by blast
    have "\<exists>s'. raw_write_loop rd wr (off + of_nat c) (drop c src) s2 = (True, s') \<and> live s'"
    proof (cases "c = length src")
      case True
      then show ?thesis using w(2) by (simp add: raw_write_loop.simps)
    next
      case False
      then show ?thesis using less.IH [OF _ w(2)] c next_in_cap [OF less.prems(2) _ c(3,1)] by simp
    qed
    then obtain s' where "raw_write_loop rd wr (off + of_nat c) (drop c src) s2 = (True, s')" "live s'" by blast
    then show ?thesis
      using False r w by (subst raw_write_loop.simps)
        (auto simp: Let_def c_def [symmetric] sec'_def [symmetric] simp del: unat_mod_512)
  qed
qed

end

end
