(* ===== verification/BlockCache.thy ===== *)
theory BlockCache
  imports SectorStore
begin

text \<open>
  The block cache, \<^verbatim>\<open>src/kernel/block_cache.c\<close>: 128 lines of one sector each, written back when
  they are evicted or flushed, over the partition of the device that is attached. The state is
  the file's static variables; the device state \<open>'d\<close> is passed along with it and the drivers
  are the parameter \<open>D\<close>. A pointer to a line is its index. Console output is left out.
\<close>

section \<open>State and operations\<close>

abbreviation (input) BLOCK_CACHE_LINES :: nat where "BLOCK_CACHE_LINES \<equiv> 128"

record cache_line =
  valid :: bool
  dirty :: bool
  line_lba :: u64
  last_use :: u32
  line_data :: sector

record bcache =
  cache_lines :: "nat \<Rightarrow> cache_line"
  use_clock :: u32
  cache_ready_flag :: bool
  active_dev_kind :: dev_kind
  active_lba_base :: u64
  active_lba_count :: u64
  selftest_done :: bool

definition line_zero :: cache_line where \<comment> \<open>a line of memset(cache_lines, 0, ...)\<close>
  "line_zero = \<lparr>valid = False, dirty = False, line_lba = 0, last_use = 0,
     line_data = replicate SECTOR_SIZE 0\<rparr>"

definition upd_line :: "nat \<Rightarrow> (cache_line \<Rightarrow> cache_line) \<Rightarrow> bcache \<Rightarrow> bcache" where
  "upd_line i f s = s\<lparr>cache_lines := (cache_lines s)(i := f (cache_lines s i))\<rparr>"

definition cache_touch :: "nat \<Rightarrow> bcache \<Rightarrow> bcache" where
  "cache_touch i s =
     (let c = use_clock s + 1; c = (if c = 0 then 1 else c)
      in upd_line i (\<lambda>l. l\<lparr>last_use := c\<rparr>) (s\<lparr>use_clock := c\<rparr>))"

definition cache_writeback_line :: "'d blkdrv \<Rightarrow> nat \<Rightarrow> bcache \<Rightarrow> 'd \<Rightarrow> int \<times> bcache \<times> 'd" where
  "cache_writeback_line D i s d =
     (let cl = cache_lines s i in
      if \<not> valid cl \<or> \<not> dirty cl then (0, s, d)
      else case backend_rw D (active_dev_kind s) (active_lba_base s + line_lba cl) (line_data cl) True d
        of (r, buf, d1) \<Rightarrow>
          let s1 = upd_line i (\<lambda>l. l\<lparr>line_data := buf\<rparr>) s in
          if r \<noteq> 0 then (-1, s1, d1)
          else (0, upd_line i (\<lambda>l. l\<lparr>dirty := False\<rparr>) s1, d1))"

text \<open>The loops over the lines run over the list of their indices.\<close>

fun cache_find_in :: "nat list \<Rightarrow> u64 \<Rightarrow> bcache \<Rightarrow> nat option \<times> bcache" where
  "cache_find_in [] lba s = (None, s)"
| "cache_find_in (i # is) lba s =
     (let cl = cache_lines s i in
      if valid cl \<and> line_lba cl = lba then (Some i, cache_touch i s)
      else cache_find_in is lba s)"

definition cache_find :: "u64 \<Rightarrow> bcache \<Rightarrow> nat option \<times> bcache" where
  "cache_find lba s = cache_find_in [0..<BLOCK_CACHE_LINES] lba s"

fun victim_in :: "nat list \<Rightarrow> nat option \<Rightarrow> bcache \<Rightarrow> nat option" where
  "victim_in [] best s = best"
| "victim_in (i # is) best s =
     (let cl = cache_lines s i in
      if \<not> valid cl then Some i
      else case best of
          None \<Rightarrow> victim_in is (Some i) s
        | Some b \<Rightarrow> if last_use cl < last_use (cache_lines s b) then victim_in is (Some i) s
                    else victim_in is best s)"

definition cache_select_victim :: "bcache \<Rightarrow> nat option" where
  "cache_select_victim s = victim_in [0..<BLOCK_CACHE_LINES] None s"

definition cache_get_load :: "'d blkdrv \<Rightarrow> u64 \<Rightarrow> bcache \<Rightarrow> 'd \<Rightarrow> nat option \<times> bcache \<times> 'd" where
  "cache_get_load D lba s d =
     (case cache_find lba s of
        (Some i, s1) \<Rightarrow> (Some i, s1, d)
      | (None, s1) \<Rightarrow>
          (case cache_select_victim s1 of
             None \<Rightarrow> (None, s1, d)
           | Some v \<Rightarrow>
               (case cache_writeback_line D v s1 d of (r, s2, d2) \<Rightarrow>
                  if r \<noteq> 0 then (None, s2, d2)
                  else case backend_rw D (active_dev_kind s2) (active_lba_base s2 + lba)
                              (line_data (cache_lines s2 v)) False d2 of (r3, buf, d3) \<Rightarrow>
                    let s3 = upd_line v (\<lambda>l. l\<lparr>line_data := buf\<rparr>) s2 in
                    if r3 \<noteq> 0 then (None, s3, d3)
                    else (Some v,
                          cache_touch v (upd_line v (\<lambda>l. l\<lparr>valid := True, dirty := False,
                                                           line_lba := lba\<rparr>) s3),
                          d3))))"

definition block_cache_init :: "bcache \<Rightarrow> bcache" where
  "block_cache_init s =
     s\<lparr>cache_lines := (\<lambda>_. line_zero), use_clock := 0, cache_ready_flag := False,
       active_dev_kind := DEV_NONE, active_lba_base := 0, active_lba_count := 0,
       selftest_done := False\<rparr>"

definition block_cache_device :: "bcache \<Rightarrow> dev_kind" where
  "block_cache_device s = active_dev_kind s"

definition block_cache_ready :: "'d blkdrv \<Rightarrow> bcache \<Rightarrow> 'd \<Rightarrow> bool \<times> 'd" where
  "block_cache_ready D s d =
     (if \<not> cache_ready_flag s \<or> active_dev_kind s = DEV_NONE then (False, d)
      else case backend_ready D (active_dev_kind s) d of (r, d1) \<Rightarrow>
        (r \<and> active_lba_count s \<noteq> 0, d1))"

definition block_cache_capacity_sectors :: "'d blkdrv \<Rightarrow> bcache \<Rightarrow> 'd \<Rightarrow> u64 \<times> 'd" where
  "block_cache_capacity_sectors D s d =
     (case block_cache_ready D s d of (r, d1) \<Rightarrow> (if r then active_lba_count s else 0, d1))"

text \<open>The copy loops; \<open>n\<close> sectors are left, starting at \<open>lba\<close>. The read loop returns the bytes
  it stored in the caller's buffer.\<close>

fun cache_read_loop :: "'d blkdrv \<Rightarrow> nat \<Rightarrow> u64 \<Rightarrow> bcache \<Rightarrow> 'd \<Rightarrow> int \<times> u8 list \<times> bcache \<times> 'd" where
  "cache_read_loop D 0 lba s d = (0, [], s, d)"
| "cache_read_loop D (Suc n) lba s d =
     (case cache_get_load D lba s d of
        (None, s1, d1) \<Rightarrow> (-1, [], s1, d1)
      | (Some i, s1, d1) \<Rightarrow>
          (case cache_read_loop D n (lba + 1) s1 d1 of (r, bs, s2, d2) \<Rightarrow>
             (r, line_data (cache_lines s1 i) @ bs, s2, d2)))"

fun cache_write_loop :: "'d blkdrv \<Rightarrow> nat \<Rightarrow> u64 \<Rightarrow> u8 list \<Rightarrow> bcache \<Rightarrow> 'd \<Rightarrow> int \<times> bcache \<times> 'd" where
  "cache_write_loop D 0 lba bs s d = (0, s, d)"
| "cache_write_loop D (Suc n) lba bs s d =
     (case cache_get_load D lba s d of
        (None, s1, d1) \<Rightarrow> (-1, s1, d1)
      | (Some i, s1, d1) \<Rightarrow>
          let s2 = upd_line i (\<lambda>l. l\<lparr>line_data := take SECTOR_SIZE bs\<rparr>) s1;
              s3 = upd_line i (\<lambda>l. l\<lparr>dirty := True\<rparr>) s2
          in cache_write_loop D n (lba + 1) (drop SECTOR_SIZE bs) (cache_touch i s3) d1)"

text \<open>The range test both transfers make.\<close>

definition bad_range :: "bcache \<Rightarrow> u64 \<Rightarrow> u64 \<Rightarrow> bool" where
  "bad_range s lba count \<longleftrightarrow>
     count = 0 \<or> lba \<ge> active_lba_count s \<or> count > active_lba_count s - lba"

definition block_cache_read :: "'d blkdrv \<Rightarrow> u64 \<Rightarrow> bool \<Rightarrow> u64 \<Rightarrow> bcache \<Rightarrow> 'd
    \<Rightarrow> int \<times> u8 list \<times> bcache \<times> 'd" where
  "block_cache_read D lba buf count s d =
     (case block_cache_ready D s d of (r, d1) \<Rightarrow>
        if \<not> r \<or> \<not> buf then (-1, [], s, d1)
        else if bad_range s lba count then (-1, [], s, d1)
        else cache_read_loop D (unat count) lba s d1)"

definition block_cache_write :: "'d blkdrv \<Rightarrow> u64 \<Rightarrow> u8 list option \<Rightarrow> u64 \<Rightarrow> bcache \<Rightarrow> 'd
    \<Rightarrow> int \<times> bcache \<times> 'd" where
  "block_cache_write D lba buf count s d =
     (case block_cache_ready D s d of (r, d1) \<Rightarrow>
        case buf of
          None \<Rightarrow> (-1, s, d1)
        | Some bs \<Rightarrow>
            if \<not> r then (-1, s, d1)
            else if bad_range s lba count then (-1, s, d1)
            else cache_write_loop D (unat count) lba bs s d1)"

fun flush_lines :: "'d blkdrv \<Rightarrow> nat list \<Rightarrow> bcache \<Rightarrow> 'd \<Rightarrow> int \<times> bcache \<times> 'd" where
  "flush_lines D [] s d = (0, s, d)"
| "flush_lines D (i # is) s d =
     (case cache_writeback_line D i s d of (r, s1, d1) \<Rightarrow>
        if r \<noteq> 0 then (-1, s1, d1) else flush_lines D is s1 d1)"

definition block_cache_flush :: "'d blkdrv \<Rightarrow> bcache \<Rightarrow> 'd \<Rightarrow> int \<times> bcache \<times> 'd" where
  "block_cache_flush D s d =
     (case block_cache_ready D s d of (rdy, d1) \<Rightarrow>
        if \<not> rdy then (-1, s, d1)
        else case flush_lines D [0..<BLOCK_CACHE_LINES] s d1 of (r, s2, d2) \<Rightarrow>
          if r \<noteq> 0 then (-1, s2, d2)
          else case backend_flush D (active_dev_kind s2) d2 of (r3, d3) \<Rightarrow>
            if r3 \<noteq> 0 then (-1, s2, d3) else (0, s2, d3))"

definition cache_selftest :: "'d blkdrv \<Rightarrow> bcache \<Rightarrow> 'd \<Rightarrow> bool \<times> bcache \<times> 'd" where
  "cache_selftest D s d =
     (let cap = active_lba_count s in
      if cap = 0 then (False, s, d)
      else case block_cache_read D 0 True 1 s d of (r1, a, s1, d1) \<Rightarrow>
        if r1 \<noteq> 0 then (False, s1, d1)
        else case block_cache_read D 0 True 1 s1 d1 of (r2, b, s2, d2) \<Rightarrow>
          if r2 \<noteq> 0 then (False, s2, d2)
          else if a \<noteq> b then (False, s2, d2)
          else case block_cache_read D cap True 1 s2 d2 of (r3, _, s3, d3) \<Rightarrow>
            if r3 = 0 then (False, s3, d3) else (True, s3, d3))"

text \<open>\<^verbatim>\<open>block_cache_attach_inode\<close>, with the fields it reads of the inode: whether it is a device
  inode (\<open>None\<close> for a null pointer or another type), its kind and its partition.\<close>

definition block_cache_attach_inode ::
  "'d blkdrv \<Rightarrow> (dev_kind \<times> u64 \<times> u64) option \<Rightarrow> bcache \<Rightarrow> 'd \<Rightarrow> int \<times> bcache \<times> 'd" where
  "block_cache_attach_inode D ino s d =
     (case ino of
        None \<Rightarrow> (-1, s, d)
      | Some (kind, part_base, part_count) \<Rightarrow>
          (case backend_ready D kind d of (rdy, d0) \<Rightarrow>
             if \<not> rdy \<or> part_count = 0 then (-1, s, d0)
             else if cache_ready_flag s \<and> active_dev_kind s = kind
                     \<and> active_lba_base s = part_base \<and> active_lba_count s = part_count
             then (0, s, d0)
             else
               let (s1, d1) = (if cache_ready_flag s
                               then (case block_cache_flush D s d0 of (_, s1, d1) \<Rightarrow> (s1, d1))
                               else (s, d0));
                   s2 = s1\<lparr>cache_lines := (\<lambda>_. line_zero), use_clock := 0,
                           cache_ready_flag := True, active_dev_kind := kind,
                           active_lba_base := part_base, active_lba_count := part_count\<rparr>
               in if \<not> selftest_done s2 then
                    (case cache_selftest D s2 d1 of (ok, s3, d3) \<Rightarrow>
                       if \<not> ok
                       then (-1, s3\<lparr>cache_ready_flag := False, active_dev_kind := DEV_NONE,
                                    active_lba_base := 0, active_lba_count := 0\<rparr>, d3)
                       else (0, s3\<lparr>selftest_done := True\<rparr>, d3))
                  else (0, s2, d1)))"

section \<open>The logical contents of the attached partition\<close>

text \<open>\<open>m\<close> is the medium. A sector that a line holds has the line's data, every other sector has
  what the medium holds.\<close>

definition holds :: "bcache \<Rightarrow> u64 \<Rightarrow> nat \<Rightarrow> bool" where
  "holds s l i \<longleftrightarrow> valid (cache_lines s i) \<and> line_lba (cache_lines s i) = l"

definition bc_view :: "(u64 \<Rightarrow> sector) \<Rightarrow> bcache \<Rightarrow> u64 \<Rightarrow> sector" where
  "bc_view m s l =
     (case find (holds s l) [0..<BLOCK_CACHE_LINES] of
        Some i \<Rightarrow> line_data (cache_lines s i)
      | None \<Rightarrow> m (active_lba_base s + l))"

definition cache_inv :: "(u64 \<Rightarrow> sector) \<Rightarrow> bcache \<Rightarrow> bool" where
  "cache_inv m s \<longleftrightarrow>
     (\<forall>l. \<forall>i < BLOCK_CACHE_LINES. \<forall>j < BLOCK_CACHE_LINES. holds s l i \<longrightarrow> holds s l j \<longrightarrow> i = j) \<and>
     (\<forall>i < BLOCK_CACHE_LINES. valid (cache_lines s i) \<longrightarrow> \<not> dirty (cache_lines s i) \<longrightarrow>
        line_data (cache_lines s i) = m (active_lba_base s + line_lba (cache_lines s i)))"

definition same_dev :: "bcache \<Rightarrow> bcache \<Rightarrow> bool" where
  "same_dev s s' \<longleftrightarrow> active_dev_kind s' = active_dev_kind s \<and> active_lba_base s' = active_lba_base s
     \<and> active_lba_count s' = active_lba_count s \<and> cache_ready_flag s' = cache_ready_flag s
     \<and> selftest_done s' = selftest_done s"

lemma same_dev_refl [simp]: "same_dev s s"
  by (simp add: same_dev_def)

lemma same_dev_trans: "same_dev s s1 \<Longrightarrow> same_dev s1 s2 \<Longrightarrow> same_dev s s2"
  by (simp add: same_dev_def)

lemma find_upt_None: "find P [0..<n] = None \<longleftrightarrow> (\<forall>i < n. \<not> P i)"
  by (auto simp: find_None_iff)

lemma bc_view_line:
  assumes "cache_inv m s" "i < BLOCK_CACHE_LINES" "holds s l i"
  shows "bc_view m s l = line_data (cache_lines s i)"
proof (cases "find (holds s l) [0..<BLOCK_CACHE_LINES]")
  case None
  then show ?thesis using assms by (simp add: find_upt_None)
next
  case (Some j)
  then have "j < BLOCK_CACHE_LINES" "holds s l j" by (auto simp: find_Some_iff)
  then have "j = i" using assms unfolding cache_inv_def by blast
  with Some show ?thesis by (simp add: bc_view_def)
qed

lemma bc_view_media:
  "\<forall>i < BLOCK_CACHE_LINES. \<not> holds s l i \<Longrightarrow> bc_view m s l = m (active_lba_base s + l)"
  by (simp add: bc_view_def find_upt_None [THEN iffD2])

text \<open>Two states with the same lines, up to the use times, have the same contents.\<close>

lemma upd_line_simps [simp]:
  "use_clock (upd_line i f s) = use_clock s" "active_dev_kind (upd_line i f s) = active_dev_kind s"
  "active_lba_base (upd_line i f s) = active_lba_base s"
  "active_lba_count (upd_line i f s) = active_lba_count s"
  "cache_ready_flag (upd_line i f s) = cache_ready_flag s"
  "selftest_done (upd_line i f s) = selftest_done s"
  "cache_lines (upd_line i f s) j = (if j = i then f (cache_lines s i) else cache_lines s j)"
  by (simp_all add: upd_line_def)

lemma upd_line_same_dev [simp]: "same_dev s (upd_line i f s)"
  by (simp add: same_dev_def)

lemma upd_line_id: "f (cache_lines s i) = cache_lines s i \<Longrightarrow> upd_line i f s = s"
  by (simp add: upd_line_def)

definition same_lines :: "bcache \<Rightarrow> bcache \<Rightarrow> bool" where
  "same_lines s s' \<longleftrightarrow> active_lba_base s' = active_lba_base s \<and>
     (\<forall>i. valid (cache_lines s' i) = valid (cache_lines s i)
        \<and> dirty (cache_lines s' i) = dirty (cache_lines s i)
        \<and> line_lba (cache_lines s' i) = line_lba (cache_lines s i)
        \<and> line_data (cache_lines s' i) = line_data (cache_lines s i))"

lemma same_lines_view:
  assumes "same_lines s s'"
  shows "holds s' = holds s" "bc_view m s' = bc_view m s" "cache_inv m s' = cache_inv m s"
proof -
  show h: "holds s' = holds s"
    using assms by (intro ext) (simp add: holds_def same_lines_def)
  show "bc_view m s' = bc_view m s"
    using assms h by (intro ext) (auto simp: bc_view_def same_lines_def split: option.splits)
  show "cache_inv m s' = cache_inv m s"
    using assms h by (simp add: cache_inv_def same_lines_def)
qed

lemma cache_touch_lines: "same_lines s (cache_touch i s)" "same_dev s (cache_touch i s)"
  by (simp_all add: same_lines_def same_dev_def cache_touch_def Let_def)

lemmas cache_touch_view = same_lines_view [OF cache_touch_lines(1)]

lemma cache_find_in_spec:
  "cache_find_in is lba s = (r, s') \<Longrightarrow>
     (case r of None \<Rightarrow> s' = s \<and> (\<forall>i \<in> set is. \<not> holds s lba i)
      | Some i \<Rightarrow> i \<in> set is \<and> holds s lba i \<and> s' = cache_touch i s)"
  by (induction "is") (auto simp: holds_def Let_def split: if_splits option.splits)

lemma victim_in_range:
  "victim_in is best s = Some v \<Longrightarrow> v \<in> set is \<or> best = Some v"
  by (induction "is" best s rule: victim_in.induct) (auto simp: Let_def split: if_splits option.splits)

lemma cache_select_victim_range: "cache_select_victim s = Some v \<Longrightarrow> v < BLOCK_CACHE_LINES"
  unfolding cache_select_victim_def by (drule victim_in_range) simp

text \<open>The victim is an invalid line or the least recently used one.\<close>

lemma victim_in_lru:
  assumes "victim_in is best s = Some v" "\<forall>i \<in> set is. valid (cache_lines s i)"
  shows "(\<forall>i \<in> set is. last_use (cache_lines s v) \<le> last_use (cache_lines s i))
    \<and> (\<forall>b. best = Some b \<longrightarrow> last_use (cache_lines s v) \<le> last_use (cache_lines s b))"
  using assms
proof (induction "is" best s rule: victim_in.induct)
  case (2 i "is" best s)
  have v: "valid (cache_lines s i)" using "2.prems"(2) by simp
  show ?case
  proof (cases best)
    case None
    then show ?thesis using "2.IH"(1) "2.prems" v by (auto simp: Let_def)
  next
    case (Some b)
    show ?thesis
    proof (cases "last_use (cache_lines s i) < last_use (cache_lines s b)")
      case True
      then have "victim_in is (Some i) s = Some v" using "2.prems"(1) v Some by (simp add: Let_def)
      then have "(\<forall>j \<in> set is. last_use (cache_lines s v) \<le> last_use (cache_lines s j))
          \<and> last_use (cache_lines s v) \<le> last_use (cache_lines s i)"
        using "2.IH"(2) [OF refl _ Some True] "2.prems"(2) v by simp
      with True Some show ?thesis by auto
    next
      case False
      then have "victim_in is best s = Some v" using "2.prems"(1) v Some by (simp add: Let_def)
      then have "(\<forall>j \<in> set is. last_use (cache_lines s v) \<le> last_use (cache_lines s j))
          \<and> last_use (cache_lines s v) \<le> last_use (cache_lines s b)"
        using "2.IH"(3) [OF refl _ Some False] "2.prems"(2) v Some by simp
      with False Some show ?thesis by auto
    qed
  qed
qed simp

section \<open>Writing back and loading keep the contents\<close>

lemma writeback_spec:
  assumes drv: "driver_ok D (active_dev_kind s) media" and inv: "cache_inv (media d) s"
    and i: "i < BLOCK_CACHE_LINES" and wb: "cache_writeback_line D i s d = (r, s', d')"
  shows "cache_inv (media d') s'" "bc_view (media d') s' = bc_view (media d) s" "same_dev s s'"
    "holds s' = holds s" "r = 0 \<Longrightarrow> valid (cache_lines s' i) \<Longrightarrow> \<not> dirty (cache_lines s' i)"
    "\<And>j. j \<noteq> i \<Longrightarrow> cache_lines s' j = cache_lines s j"
    "\<And>j. dirty (cache_lines s' j) \<Longrightarrow> dirty (cache_lines s j)"
proof -
  let ?cl = "cache_lines s i"
  have "cache_inv (media d') s' \<and> bc_view (media d') s' = bc_view (media d) s \<and> same_dev s s'
    \<and> holds s' = holds s \<and> (r = 0 \<longrightarrow> valid (cache_lines s' i) \<longrightarrow> \<not> dirty (cache_lines s' i))
    \<and> (\<forall>j. j \<noteq> i \<longrightarrow> cache_lines s' j = cache_lines s j)
    \<and> (\<forall>j. dirty (cache_lines s' j) \<longrightarrow> dirty (cache_lines s j))"
  proof (cases "valid ?cl \<and> dirty ?cl")
    case False
    then show ?thesis using wb inv by (auto simp: cache_writeback_line_def Let_def)
  next
    case True
    let ?a = "active_lba_base s + line_lba ?cl"
    obtain q buf d1 where rw: "backend_rw D (active_dev_kind s) ?a (line_data ?cl) True d = (q, buf, d1)"
      by (metis prod_cases3)
    note w = driver_write [OF drv rw]
    then have s1: "upd_line i (\<lambda>l. l\<lparr>line_data := buf\<rparr>) s = s"
      by (intro upd_line_id) simp
    have s': "d' = d1 \<and> (if q \<noteq> 0 then r = -1 \<and> s' = s
        else r = 0 \<and> s' = upd_line i (\<lambda>l. l\<lparr>dirty := False\<rparr>) s)"
      using wb True rw s1 by (auto simp: cache_writeback_line_def Let_def split: if_splits)
    have lines: "valid (cache_lines s' j) = valid (cache_lines s j)
        \<and> line_lba (cache_lines s' j) = line_lba (cache_lines s j)
        \<and> line_data (cache_lines s' j) = line_data (cache_lines s j)
        \<and> (dirty (cache_lines s' j) \<longrightarrow> dirty (cache_lines s j))
        \<and> (j \<noteq> i \<longrightarrow> cache_lines s' j = cache_lines s j)
        \<and> (dirty (cache_lines s' i) \<longrightarrow> r \<noteq> 0)" for j
      using s' True by (auto split: if_splits)
    then have h: "holds s' = holds s" by (auto simp: holds_def fun_eq_iff)
    have base: "active_lba_base s' = active_lba_base s" "same_dev s s'"
      using s' by (auto split: if_splits)
    have uniq: "j = i" if "j < BLOCK_CACHE_LINES" "holds s (line_lba ?cl) j" for j
      using inv i True that unfolding cache_inv_def holds_def by blast
    have other: "media d' (active_lba_base s + l) = media d (active_lba_base s + l)"
      if "\<not> holds s l i" for l
      using w s' that True by (auto simp: holds_def)
    have clean: "line_data (cache_lines s' j) = media d' (active_lba_base s + line_lba (cache_lines s j))"
      if j: "j < BLOCK_CACHE_LINES" "valid (cache_lines s j)" "\<not> dirty (cache_lines s' j)" for j
    proof (cases "j = i")
      case True
      then show ?thesis using j(3) w s' lines [of i] \<open>valid ?cl \<and> dirty ?cl\<close> by (auto split: if_splits)
    next
      case False
      then have "\<not> holds s (line_lba (cache_lines s j)) i"
        using uniq [of j] j(1,2) by (auto simp: holds_def)
      moreover have "\<not> dirty (cache_lines s j)" using j(3) lines [of j] False by simp
      ultimately show ?thesis
        using inv j lines [of j] other unfolding cache_inv_def by simp
    qed
    have inv': "cache_inv (media d') s'"
      unfolding cache_inv_def h base
      using inv clean lines unfolding cache_inv_def by simp
    have view: "bc_view (media d') s' l = bc_view (media d) s l" for l
    proof (cases "\<exists>j < BLOCK_CACHE_LINES. holds s l j")
      case True
      then obtain j where j: "j < BLOCK_CACHE_LINES" "holds s l j" by blast
      then show ?thesis
        using bc_view_line [OF inv j] bc_view_line [OF inv' j(1), unfolded h, OF j(2)] lines by simp
    next
      case False
      then show ?thesis
        using other i by (simp add: bc_view_media h base(1))
    qed
    show ?thesis using inv' view h base lines by (auto simp: fun_eq_iff)
  qed
  then show "cache_inv (media d') s'" "bc_view (media d') s' = bc_view (media d) s" "same_dev s s'"
    "holds s' = holds s" "r = 0 \<Longrightarrow> valid (cache_lines s' i) \<Longrightarrow> \<not> dirty (cache_lines s' i)"
    "\<And>j. j \<noteq> i \<Longrightarrow> cache_lines s' j = cache_lines s j"
    "\<And>j. dirty (cache_lines s' j) \<Longrightarrow> dirty (cache_lines s j)"
    by blast+
qed

text \<open>Reusing a clean line for a sector no line holds.\<close>

lemma reload_spec:
  assumes inv: "cache_inv m s" and v: "v < BLOCK_CACHE_LINES"
    and clean: "valid (cache_lines s v) \<Longrightarrow> \<not> dirty (cache_lines s v)"
    and miss: "\<forall>i < BLOCK_CACHE_LINES. \<not> holds s lba i"
    and f: "valid (f (cache_lines s v))" "\<not> dirty (f (cache_lines s v))"
      "line_lba (f (cache_lines s v)) = lba" "line_data (f (cache_lines s v)) = m (active_lba_base s + lba)"
  shows "cache_inv m (upd_line v f s)" "bc_view m (upd_line v f s) = bc_view m s"
proof -
  let ?s = "upd_line v f s"
  have h: "holds ?s l i \<longleftrightarrow> (if i = v then l = lba else holds s l i)" for l i
    using f by (auto simp: holds_def)
  show inv': "cache_inv m ?s"
    using inv miss f v unfolding cache_inv_def h by (auto split: if_splits)
  show "bc_view m ?s = bc_view m s"
  proof
    fix l
    consider (new) "l = lba" | (old) "l \<noteq> lba" "holds s l v"
      | (other) i where "l \<noteq> lba" "i < BLOCK_CACHE_LINES" "i \<noteq> v" "holds s l i"
      | (none) "l \<noteq> lba" "\<forall>i < BLOCK_CACHE_LINES. \<not> holds s l i"
      by blast
    then show "bc_view m ?s l = bc_view m s l"
    proof cases
      case new
      then show ?thesis
        using bc_view_line [OF inv' v] bc_view_media [OF miss, of m] h f by simp
    next
      case old
      then have "\<forall>i < BLOCK_CACHE_LINES. \<not> holds ?s l i"
        using inv v unfolding h cache_inv_def by auto
      moreover have "line_data (cache_lines s v) = m (active_lba_base s + l)"
        using inv v clean old unfolding cache_inv_def holds_def by blast
      ultimately show ?thesis
        using old bc_view_line [OF inv v] bc_view_media [of ?s l m] by simp
    next
      case other
      then show ?thesis using bc_view_line [OF inv] bc_view_line [OF inv', of i l] h by simp
    next
      case none
      then show ?thesis using h by (simp add: bc_view_media)
    qed
  qed
qed

definition keeps :: "('d \<Rightarrow> u64 \<Rightarrow> sector) \<Rightarrow> bcache \<Rightarrow> 'd \<Rightarrow> bcache \<Rightarrow> 'd \<Rightarrow> bool" where
  "keeps media s d s' d' \<longleftrightarrow> cache_inv (media d') s' \<and> same_dev s s'
     \<and> bc_view (media d') s' = bc_view (media d) s"

lemma keeps_trans: "keeps media s d s1 d1 \<Longrightarrow> keeps media s1 d1 s2 d2 \<Longrightarrow> keeps media s d s2 d2"
  by (auto simp: keeps_def intro: same_dev_trans)

lemma keeps_touch: "keeps media s d s1 d1 \<Longrightarrow> keeps media s d (cache_touch i s1) d1"
  by (auto simp: keeps_def cache_touch_view intro: same_dev_trans cache_touch_lines)

lemma writeback_keeps:
  assumes "driver_ok D (active_dev_kind s) media" "cache_inv (media d) s" "i < BLOCK_CACHE_LINES"
    "cache_writeback_line D i s d = (r, s', d')"
  shows "keeps media s d s' d'"
  using writeback_spec [OF assms] by (simp add: keeps_def)

lemma cache_get_load_spec:
  assumes drv: "driver_ok D (active_dev_kind s) media" and inv: "cache_inv (media d) s"
    and get: "cache_get_load D lba s d = (r, s', d')"
    and ok: "r \<noteq> None \<or> read_fail_keeps D (active_dev_kind s)"
  shows "keeps media s d s' d' \<and> (\<forall>i. r = Some i \<longrightarrow> i < BLOCK_CACHE_LINES \<and> holds s' lba i)"
proof -
  obtain fr s1 where find: "cache_find lba s = (fr, s1)" by (cases "cache_find lba s") auto
  note fs = cache_find_in_spec [OF find [unfolded cache_find_def]]
  show ?thesis
  proof (cases fr)
    case (Some i)
    then have "r = Some i" "d' = d" "s' = cache_touch i s" "i < BLOCK_CACHE_LINES" "holds s lba i"
      using fs get find by (auto simp: cache_get_load_def)
    moreover have "keeps media s d (cache_touch i s) d"
      using inv by (intro keeps_touch) (simp add: keeps_def)
    ultimately show ?thesis by (simp add: cache_touch_view)
  next
    case None
    then have s1: "s1 = s" and miss: "\<forall>i < BLOCK_CACHE_LINES. \<not> holds s lba i" using fs by auto
    have kn: "keeps media s d s d" using inv by (simp add: keeps_def)
    show ?thesis
    proof (cases "cache_select_victim s")
      case None
      then show ?thesis using get find \<open>fr = None\<close> s1 kn by (auto simp: cache_get_load_def)
    next
      case (Some v)
      note v = cache_select_victim_range [OF Some]
      obtain q s2 d2 where wb: "cache_writeback_line D v s d = (q, s2, d2)" by (metis prod_cases3)
      note w = writeback_spec [OF drv inv v wb] and k2 = writeback_keeps [OF drv inv v wb]
      obtain q3 buf d3 where rd: "backend_rw D (active_dev_kind s2) (active_lba_base s2 + lba)
          (line_data (cache_lines s2 v)) False d2 = (q3, buf, d3)" by (metis prod_cases3)
      have kind: "active_dev_kind s2 = active_dev_kind s" using w(3) by (simp add: same_dev_def)
      note rspec = driver_read [OF drv rd [unfolded kind]]
      let ?s3 = "upd_line v (\<lambda>l. l\<lparr>line_data := buf\<rparr>) s2"
      let ?s4 = "upd_line v (\<lambda>l. l\<lparr>valid := True, dirty := False, line_lba := lba\<rparr>) ?s3"
      have res: "if q \<noteq> 0 then r = None \<and> s' = s2 \<and> d' = d2
          else if q3 \<noteq> 0 then r = None \<and> s' = ?s3 \<and> d' = d3
          else r = Some v \<and> s' = cache_touch v ?s4 \<and> d' = d3"
        using get find \<open>fr = None\<close> s1 Some wb rd by (auto simp: cache_get_load_def Let_def split: if_splits)
      consider "q \<noteq> 0" | "q = 0" "q3 \<noteq> 0" | (load) "q = 0" "q3 = 0" by blast
      then show ?thesis
      proof cases
        case 1
        then show ?thesis using res k2 by simp
      next
        case 2
        then have "buf = line_data (cache_lines s2 v)"
          using ok res driver_fail [OF _ rd [unfolded kind]] by simp
        then have "?s3 = s2" by (intro upd_line_id) simp
        then show ?thesis using 2 res k2 rspec by (simp add: keeps_def)
      next
        case load
        let ?f = "\<lambda>l. l\<lparr>line_data := buf, valid := True, dirty := False, line_lba := lba\<rparr>"
        have s4: "?s4 = upd_line v ?f s2" by (simp add: upd_line_def)
        have "cache_inv (media d2) (upd_line v ?f s2) \<and> bc_view (media d2) (upd_line v ?f s2) = bc_view (media d2) s2"
          using w load miss rspec by (intro conjI reload_spec [where lba = lba] v) simp_all
        then have "keeps media s d ?s4 d3"
          using w rspec unfolding s4 keeps_def by (auto intro: same_dev_trans)
        then show ?thesis using res load v keeps_touch by (auto simp: cache_touch_view holds_def)
      qed
    qed
  qed
qed

section \<open>Transfers\<close>

text \<open>The sectors of a partition after \<open>n\<close> of them, from \<open>lba\<close> on, are overwritten with \<open>bs\<close>.\<close>

definition put_sectors :: "nat \<Rightarrow> u64 \<Rightarrow> u8 list \<Rightarrow> (u64 \<Rightarrow> sector) \<Rightarrow> u64 \<Rightarrow> sector" where
  "put_sectors n lba bs v l =
     (if unat (l - lba) < n then take SECTOR_SIZE (drop (SECTOR_SIZE * unat (l - lba)) bs) else v l)"

lemma put_sectors_0 [simp]: "put_sectors 0 lba bs v = v"
  by (simp add: put_sectors_def fun_eq_iff)

lemma put_sectors_Suc:
  assumes "Suc n < 2 ^ 64"
  shows "put_sectors (Suc n) lba bs v
    = put_sectors n (lba + 1) (drop SECTOR_SIZE bs) (v(lba := take SECTOR_SIZE bs))"
proof
  fix l
  show "put_sectors (Suc n) lba bs v l
    = put_sectors n (lba + 1) (drop SECTOR_SIZE bs) (v(lba := take SECTOR_SIZE bs)) l"
  proof (cases "l = lba")
    case True
    have "unat (- 1 :: u64) = 2 ^ 64 - 1" by (simp add: unsigned_minus_1_eq_mask mask_eq_exp_minus_1)
    with True assms show ?thesis by (simp add: put_sectors_def)
  next
    case False
    then have nz: "l - lba \<noteq> 0" by simp
    have "l - (lba + 1) = (l - lba) - 1" by simp
    then have "unat (l - (lba + 1)) = unat (l - lba) - 1" using nz by (metis unat_minus_one)
    moreover have "unat (l - lba) \<noteq> 0" using nz by (simp add: unat_eq_0)
    then obtain k where "unat (l - lba) = Suc k" by (cases "unat (l - lba)") auto
    ultimately show ?thesis using False by (simp add: put_sectors_def add.commute)
  qed
qed

lemma cache_read_loop_spec:
  assumes "driver_ok D (active_dev_kind s) media" "cache_inv (media d) s"
    "cache_read_loop D n lba s d = (r, bs, s', d')" "r = 0 \<or> read_fail_keeps D (active_dev_kind s)"
  shows "keeps media s d s' d'
    \<and> (r = 0 \<longrightarrow> bs = concat (map (\<lambda>k. bc_view (media d) s (lba + of_nat k)) [0..<n]))"
  using assms
proof (induction n arbitrary: lba s d r bs)
  case 0
  then show ?case by (simp add: keeps_def)
next
  case (Suc n)
  obtain g s1 d1 where get: "cache_get_load D lba s d = (g, s1, d1)" by (metis prod_cases3)
  have kn: "keeps media s d s1 d1 \<and> (\<forall>i. g = Some i \<longrightarrow> i < BLOCK_CACHE_LINES \<and> holds s1 lba i)"
    using cache_get_load_spec [OF Suc.prems(1,2) get] Suc.prems(3,4) get by (cases g) auto
  show ?case
  proof (cases g)
    case None
    then show ?thesis using Suc.prems(3) get kn by auto
  next
    case (Some i)
    obtain r' bs' where rest: "cache_read_loop D n (lba + 1) s1 d1 = (r', bs', s', d')"
      and r: "r = r'" "bs = line_data (cache_lines s1 i) @ bs'"
      using Suc.prems(3) get Some by (auto split: prod.splits)
    have k1: "keeps media s d s1 d1" and i: "i < BLOCK_CACHE_LINES" "holds s1 lba i"
      using kn Some by auto
    then have inv1: "cache_inv (media d1) s1" and kind: "active_dev_kind s1 = active_dev_kind s"
      and v: "bc_view (media d1) s1 = bc_view (media d) s"
      by (auto simp: keeps_def same_dev_def)
    have "keeps media s1 d1 s' d' \<and> (r' = 0 \<longrightarrow>
        bs' = concat (map (\<lambda>k. bc_view (media d1) s1 (lba + 1 + of_nat k)) [0..<n]))"
      using Suc.IH [OF _ inv1 rest] Suc.prems(1,4) r kind by simp
    moreover have "line_data (cache_lines s1 i) = bc_view (media d) s lba"
      using bc_view_line [OF inv1 i] v by simp
    ultimately show ?thesis
      using k1 keeps_trans r v
      by (auto simp: upt_conv_Cons map_Suc_upt [symmetric] comp_def add.assoc simp del: upt_Suc)
  qed
qed

lemma store_line:
  assumes inv: "cache_inv m s" and i: "i < BLOCK_CACHE_LINES" and h: "holds s lba i"
  shows "cache_inv m (upd_line i (\<lambda>l. l\<lparr>line_data := bs, dirty := True\<rparr>) s)"
    and "bc_view m (upd_line i (\<lambda>l. l\<lparr>line_data := bs, dirty := True\<rparr>) s) = (bc_view m s)(lba := bs)"
proof -
  let ?s = "upd_line i (\<lambda>l. l\<lparr>line_data := bs, dirty := True\<rparr>) s"
  have hs: "holds ?s = holds s" by (auto simp: holds_def fun_eq_iff)
  show inv': "cache_inv m ?s" using inv unfolding cache_inv_def hs by auto
  show "bc_view m ?s = (bc_view m s)(lba := bs)"
  proof
    fix l
    show "bc_view m ?s l = ((bc_view m s)(lba := bs)) l"
    proof (cases "\<exists>j < BLOCK_CACHE_LINES. holds s l j")
      case True
      then obtain j where j: "j < BLOCK_CACHE_LINES" "holds s l j" by blast
      have "i = j \<longleftrightarrow> l = lba" using inv i h j unfolding cache_inv_def holds_def by blast
      then show ?thesis
        using bc_view_line [OF inv j] bc_view_line [OF inv' j(1), unfolded hs, OF j(2)] by auto
    next
      case False
      then show ?thesis using h i by (auto simp: bc_view_media hs)
    qed
  qed
qed

lemma cache_write_loop_spec:
  assumes "driver_ok D (active_dev_kind s) media" "cache_inv (media d) s"
    "cache_write_loop D n lba bs s d = (0, s', d')" "n < 2 ^ 64"
  shows "cache_inv (media d') s' \<and> same_dev s s'
    \<and> bc_view (media d') s' = put_sectors n lba bs (bc_view (media d) s)"
  using assms
proof (induction n arbitrary: lba bs s d)
  case 0
  then show ?case by simp
next
  case (Suc n)
  obtain g s1 d1 where get: "cache_get_load D lba s d = (g, s1, d1)" by (metis prod_cases3)
  then obtain i where g: "g = Some i" using Suc.prems(3) by (cases g) auto
  have k1: "keeps media s d s1 d1" and i: "i < BLOCK_CACHE_LINES" "holds s1 lba i"
    using cache_get_load_spec [OF Suc.prems(1,2) get] g by auto
  have inv1: "cache_inv (media d1) s1" and kind: "active_dev_kind s1 = active_dev_kind s"
    using k1 by (auto simp: keeps_def same_dev_def)
  define s2 where "s2 = cache_touch i (upd_line i (\<lambda>l. l\<lparr>line_data := take SECTOR_SIZE bs, dirty := True\<rparr>) s1)"
  have rest: "cache_write_loop D n (lba + 1) (drop SECTOR_SIZE bs) s2 d1 = (0, s', d')"
    using Suc.prems(3) get g by (simp add: Let_def s2_def upd_line_def)
  have v2: "cache_inv (media d1) s2" "same_dev s s2"
    "bc_view (media d1) s2 = (bc_view (media d1) s1)(lba := take SECTOR_SIZE bs)"
    using store_line [OF inv1 i] k1 unfolding s2_def cache_touch_view keeps_def
    by (auto intro: same_dev_trans [OF same_dev_trans [OF _ upd_line_same_dev] cache_touch_lines(2)])
  have "active_dev_kind s2 = active_dev_kind s" using v2(2) by (simp add: same_dev_def)
  then have "cache_inv (media d') s' \<and> same_dev s2 s'
    \<and> bc_view (media d') s' = put_sectors n (lba + 1) (drop SECTOR_SIZE bs) (bc_view (media d1) s2)"
    using Suc.IH [OF _ v2(1) rest] Suc.prems(1,4) by simp
  then show ?case
    using v2 k1 put_sectors_Suc [OF Suc.prems(4)] same_dev_trans by (auto simp: keeps_def)
qed

lemma flush_lines_spec:
  assumes "driver_ok D (active_dev_kind s) media" "cache_inv (media d) s" "set is \<subseteq> {..<BLOCK_CACHE_LINES}"
    "flush_lines D is s d = (r, s', d')"
  shows "keeps media s d s' d' \<and> holds s' = holds s
    \<and> (\<forall>j. dirty (cache_lines s' j) \<longrightarrow> dirty (cache_lines s j))
    \<and> (r = 0 \<longrightarrow> (\<forall>i \<in> set is. valid (cache_lines s' i) \<longrightarrow> \<not> dirty (cache_lines s' i)))"
  using assms
proof (induction "is" arbitrary: s d)
  case Nil
  then show ?case by (simp add: keeps_def)
next
  case (Cons i "is")
  obtain q s1 d1 where wb: "cache_writeback_line D i s d = (q, s1, d1)" by (metis prod_cases3)
  have i: "i < BLOCK_CACHE_LINES" using Cons.prems(3) by simp
  note w = writeback_spec [OF Cons.prems(1,2) i wb]
  have k1: "keeps media s d s1 d1" using w by (simp add: keeps_def)
  have h1: "valid (cache_lines s1 j) = valid (cache_lines s j)" for j
    using w(4) by (auto simp: holds_def fun_eq_iff)
  show ?case
  proof (cases "q = 0")
    case False
    then show ?thesis using Cons.prems(4) wb w k1 by auto
  next
    case True
    then have rest: "flush_lines D is s1 d1 = (r, s', d')" using Cons.prems(4) wb by simp
    have kind: "active_dev_kind s1 = active_dev_kind s" using w(3) by (simp add: same_dev_def)
    note ih = Cons.IH [OF _ w(1) _ rest]
    have ih': "keeps media s1 d1 s' d'" "holds s' = holds s1"
      "\<And>j. dirty (cache_lines s' j) \<Longrightarrow> dirty (cache_lines s1 j)"
      "r = 0 \<Longrightarrow> i' \<in> set is \<Longrightarrow> valid (cache_lines s' i') \<Longrightarrow> \<not> dirty (cache_lines s' i')" for i'
      using ih Cons.prems(1,3) kind by auto
    have "valid (cache_lines s' i) \<Longrightarrow> \<not> dirty (cache_lines s' i)"
      using ih'(2,3) w(5) [OF True] by (auto simp: holds_def fun_eq_iff)
    then show ?thesis using ih' w(4,7) keeps_trans [OF k1] by auto
  qed
qed

lemma clean_view:
  assumes "cache_inv m s" "\<forall>i < BLOCK_CACHE_LINES. valid (cache_lines s i) \<longrightarrow> \<not> dirty (cache_lines s i)"
  shows "bc_view m s l = m (active_lba_base s + l)"
proof (cases "\<exists>i < BLOCK_CACHE_LINES. holds s l i")
  case True
  then obtain i where i: "i < BLOCK_CACHE_LINES" "holds s l i" by blast
  then have "line_data (cache_lines s i) = m (active_lba_base s + l)"
    using assms unfolding cache_inv_def holds_def by blast
  then show ?thesis using bc_view_line [OF assms(1) i] by simp
qed (simp add: bc_view_media)

lemma block_cache_ready_media:
  "driver_ok D (active_dev_kind s) media \<Longrightarrow> block_cache_ready D s d = (r, d') \<Longrightarrow> media d' = media d"
  by (auto simp: block_cache_ready_def driver_ready split: if_splits prod.splits)

lemma block_cache_read_spec:
  assumes drv: "driver_ok D (active_dev_kind s) media" and inv: "cache_inv (media d) s"
    and rd: "block_cache_read D lba buf count s d = (r, bs, s', d')"
    and ok: "r = 0 \<or> read_fail_keeps D (active_dev_kind s)"
  shows "keeps media s d s' d' \<and> (r = 0 \<longrightarrow> \<not> bad_range s lba count
    \<and> bs = concat (map (\<lambda>k. bc_view (media d) s (lba + of_nat k)) [0..<unat count]))"
proof -
  obtain q d1 where rdy: "block_cache_ready D s d = (q, d1)" by fastforce
  then have m: "media d1 = media d" by (rule block_cache_ready_media [OF drv])
  show ?thesis
  proof (cases "\<not> q \<or> \<not> buf \<or> bad_range s lba count")
    case True
    then have "r = -1 \<and> s' = s \<and> d' = d1"
      using rd rdy by (auto simp: block_cache_read_def split: if_splits)
    then show ?thesis using inv m by (simp add: keeps_def)
  next
    case False
    then have loop: "cache_read_loop D (unat count) lba s d1 = (r, bs, s', d')"
      using rd rdy by (simp add: block_cache_read_def)
    show ?thesis
      using cache_read_loop_spec [OF drv _ loop ok] inv False by (simp add: keeps_def m)
  qed
qed

lemma block_cache_write_spec:
  assumes drv: "driver_ok D (active_dev_kind s) media" and inv: "cache_inv (media d) s"
    and wr: "block_cache_write D lba (Some bs) count s d = (0, s', d')"
  shows "cache_inv (media d') s'" "same_dev s s'" "\<not> bad_range s lba count"
    "bc_view (media d') s' = put_sectors (unat count) lba bs (bc_view (media d) s)"
proof -
  obtain q d1 where rdy: "block_cache_ready D s d = (q, d1)" by fastforce
  then have m: "media d1 = media d" by (rule block_cache_ready_media [OF drv])
  have g: "q" "\<not> bad_range s lba count"
    and loop: "cache_write_loop D (unat count) lba bs s d1 = (0, s', d')"
    using wr rdy by (auto simp: block_cache_write_def split: if_splits)
  have "unat count < 2 ^ 64" using unsigned_less [of count] by simp
  then show "cache_inv (media d') s'" "same_dev s s'" "\<not> bad_range s lba count"
    "bc_view (media d') s' = put_sectors (unat count) lba bs (bc_view (media d) s)"
    using cache_write_loop_spec [OF drv _ loop] inv g by (simp_all add: m)
qed

lemma block_cache_flush_spec:
  assumes drv: "driver_ok D (active_dev_kind s) media" and inv: "cache_inv (media d) s"
    and fl: "block_cache_flush D s d = (r, s', d')"
  shows "keeps media s d s' d'"
    "r = 0 \<Longrightarrow> i < BLOCK_CACHE_LINES \<Longrightarrow> valid (cache_lines s' i) \<Longrightarrow> \<not> dirty (cache_lines s' i)"
proof -
  obtain q d1 where rdy: "block_cache_ready D s d = (q, d1)" by fastforce
  then have m: "media d1 = media d" by (rule block_cache_ready_media [OF drv])
  have "keeps media s d s' d' \<and> (r = 0 \<longrightarrow>
      (\<forall>i < BLOCK_CACHE_LINES. valid (cache_lines s' i) \<longrightarrow> \<not> dirty (cache_lines s' i)))"
  proof (cases q)
    case False
    then show ?thesis using fl rdy inv m by (auto simp: block_cache_flush_def keeps_def)
  next
    case True
    obtain r2 s2 d2 where fls: "flush_lines D [0..<BLOCK_CACHE_LINES] s d1 = (r2, s2, d2)"
      by (metis prod_cases3)
    have sp: "keeps media s d s2 d2 \<and> (r2 = 0 \<longrightarrow>
        (\<forall>i < BLOCK_CACHE_LINES. valid (cache_lines s2 i) \<longrightarrow> \<not> dirty (cache_lines s2 i)))"
      using flush_lines_spec [OF drv _ _ fls] inv m by (simp add: keeps_def lessThan_atLeast0)
    obtain r3 d3 where bf: "backend_flush D (active_dev_kind s2) d2 = (r3, d3)" by fastforce
    have "active_dev_kind s2 = active_dev_kind s" using sp by (simp add: keeps_def same_dev_def)
    then have "media d3 = media d2" using driver_flush drv bf by metis
    moreover have "s' = s2 \<and> (if r2 \<noteq> 0 then r = -1 \<and> d' = d2 else d' = d3)"
      using fl rdy True fls bf by (auto simp: block_cache_flush_def split: if_splits)
    ultimately show ?thesis using sp by (auto simp: keeps_def split: if_splits)
  qed
  then show "keeps media s d s' d'"
    "r = 0 \<Longrightarrow> i < BLOCK_CACHE_LINES \<Longrightarrow> valid (cache_lines s' i) \<Longrightarrow> \<not> dirty (cache_lines s' i)"
    by blast+
qed

section \<open>Transfers succeed when the driver does\<close>

definition lines_in_range :: "bcache \<Rightarrow> bool" where
  "lines_in_range s \<longleftrightarrow> (\<forall>i < BLOCK_CACHE_LINES. valid (cache_lines s i) \<longrightarrow>
     line_lba (cache_lines s i) < active_lba_count s)"

definition dev_serves :: "'d blkdrv \<Rightarrow> bcache \<Rightarrow> bool" where
  "dev_serves D s \<longleftrightarrow> driver_serves D (active_dev_kind s) (active_lba_base s) (active_lba_count s)"

lemma dev_serves_same: "same_dev s s' \<Longrightarrow> dev_serves D s' = dev_serves D s"
  by (simp add: same_dev_def dev_serves_def)

lemma victim_in_some: "is \<noteq> [] \<or> best \<noteq> None \<Longrightarrow> victim_in is best s \<noteq> None"
  by (induction "is" best s rule: victim_in.induct) (auto simp: Let_def split: option.splits)

lemma writeback_live:
  assumes "dev_serves D s" "lines_in_range s" "i < BLOCK_CACHE_LINES"
    "cache_writeback_line D i s d = (r, s', d')"
  shows "r = 0 \<and> same_dev s s' \<and> lines_in_range s'"
proof (cases "valid (cache_lines s i) \<and> dirty (cache_lines s i)")
  case False
  then show ?thesis using assms by (auto simp: cache_writeback_line_def Let_def)
next
  case True
  obtain q buf d1 where rw: "backend_rw D (active_dev_kind s)
      (active_lba_base s + line_lba (cache_lines s i)) (line_data (cache_lines s i)) True d = (q, buf, d1)"
    by (metis prod_cases3)
  have "line_lba (cache_lines s i) < active_lba_count s"
    using assms(2,3) True by (simp add: lines_in_range_def)
  then have "q = 0" using assms(1) rw unfolding dev_serves_def driver_serves_def by (metis fst_conv)
  then have "r = 0" "s' = upd_line i (\<lambda>l. l\<lparr>dirty := False\<rparr>) (upd_line i (\<lambda>l. l\<lparr>line_data := buf\<rparr>) s)"
    using assms(4) True rw by (auto simp: cache_writeback_line_def Let_def)
  then show ?thesis using assms(2) by (auto simp: lines_in_range_def same_dev_def)
qed

lemma cache_touch_in_range: "lines_in_range (cache_touch i s) = lines_in_range s"
  by (auto simp: lines_in_range_def cache_touch_def Let_def)

lemma cache_get_load_live:
  assumes "dev_serves D s" "lines_in_range s" "lba < active_lba_count s"
    "cache_get_load D lba s d = (r, s', d')"
  shows "r \<noteq> None \<and> same_dev s s' \<and> lines_in_range s'"
proof -
  obtain fr s1 where find: "cache_find lba s = (fr, s1)" by (cases "cache_find lba s") auto
  note fs = cache_find_in_spec [OF find [unfolded cache_find_def]]
  show ?thesis
  proof (cases fr)
    case (Some i)
    then show ?thesis
      using fs find assms by (auto simp: cache_get_load_def cache_touch_in_range cache_touch_lines)
  next
    case None
    then have s1: "s1 = s" using fs by auto
    obtain v where v: "cache_select_victim s = Some v"
      using victim_in_some [of "[0..<BLOCK_CACHE_LINES]" None s]
      unfolding cache_select_victim_def by auto
    note vr = cache_select_victim_range [OF v]
    obtain q s2 d2 where wb: "cache_writeback_line D v s d = (q, s2, d2)" by (metis prod_cases3)
    have w: "q = 0" "same_dev s s2" "lines_in_range s2"
      using writeback_live [OF assms(1,2) vr wb] by auto
    obtain q3 buf d3 where rd: "backend_rw D (active_dev_kind s2) (active_lba_base s2 + lba)
        (line_data (cache_lines s2 v)) False d2 = (q3, buf, d3)" by (metis prod_cases3)
    have q3: "q3 = 0"
      using assms(1,3) rd w(2) unfolding dev_serves_def driver_serves_def same_dev_def
      by (metis fst_conv)
    let ?s4 = "upd_line v (\<lambda>l. l\<lparr>valid := True, dirty := False, line_lba := lba\<rparr>)
        (upd_line v (\<lambda>l. l\<lparr>line_data := buf\<rparr>) s2)"
    have "r = Some v" "s' = cache_touch v ?s4"
      using assms(4) find None s1 v wb rd w q3 by (auto simp: cache_get_load_def Let_def)
    moreover have "lines_in_range ?s4" "same_dev s ?s4"
      using w assms(3) by (auto simp: lines_in_range_def same_dev_def)
    ultimately show ?thesis
      using same_dev_trans [OF _ cache_touch_lines(2)] by (simp add: cache_touch_in_range)
  qed
qed

text \<open>The sectors of a transfer lie in the partition.\<close>

lemma in_range_step:
  assumes "unat lba + Suc n \<le> unat (c :: u64)"
  shows "lba < c" "unat (lba + 1) + n \<le> unat c"
proof -
  show "lba < c" using assms by (simp add: word_less_nat_alt)
  then have "lba \<noteq> -1" using word_order.extremum_strict by blast
  then have "1 + lba \<noteq> 0" by (metis add.commute eq_neg_iff_add_eq_0)
  then have "unat (lba + 1) = Suc (unat lba)" by (simp add: unatSuc add.commute)
  then show "unat (lba + 1) + n \<le> unat c" using assms by simp
qed

lemma not_bad_range: "\<not> bad_range s lba count \<longleftrightarrow>
    count \<noteq> 0 \<and> unat lba + unat count \<le> unat (active_lba_count s)"
proof (cases "lba < active_lba_count s")
  case True
  then have "unat (active_lba_count s - lba) = unat (active_lba_count s) - unat lba"
    by (simp add: unat_sub)
  then show ?thesis using True by (auto simp: bad_range_def word_less_nat_alt word_le_nat_alt not_less)
next
  case False
  then show ?thesis by (auto simp: bad_range_def word_less_nat_alt word_le_nat_alt not_less)
      (metis add.commute add_le_same_cancel2 le_trans unat_eq_0 le_zero_eq)
qed

lemma cache_read_loop_live:
  assumes "dev_serves D s" "lines_in_range s" "unat lba + n \<le> unat (active_lba_count s)"
    "cache_read_loop D n lba s d = (r, bs, s', d')"
  shows "r = 0 \<and> same_dev s s' \<and> lines_in_range s'"
  using assms
proof (induction n arbitrary: lba s d r bs)
  case (Suc n)
  obtain g s1 d1 where get: "cache_get_load D lba s d = (g, s1, d1)" by (metis prod_cases3)
  note st = in_range_step [OF Suc.prems(3)]
  have g: "g \<noteq> None" "same_dev s s1" "lines_in_range s1"
    using cache_get_load_live [OF Suc.prems(1,2) st(1) get] by auto
  then obtain r' bs' where rest: "cache_read_loop D n (lba + 1) s1 d1 = (r', bs', s', d')" "r = r'"
    using Suc.prems(4) get by (auto split: prod.splits)
  have "r' = 0 \<and> same_dev s1 s' \<and> lines_in_range s'"
    using Suc.IH [OF _ g(3) _ rest(1)] st Suc.prems(1) g(2) dev_serves_same [OF g(2), of D]
    by (simp add: same_dev_def)
  then show ?case using rest(2) same_dev_trans [OF g(2)] by simp
qed simp

lemma cache_write_loop_live:
  assumes "dev_serves D s" "lines_in_range s" "unat lba + n \<le> unat (active_lba_count s)"
    "cache_write_loop D n lba bs s d = (r, s', d')"
  shows "r = 0 \<and> same_dev s s' \<and> lines_in_range s'"
  using assms
proof (induction n arbitrary: lba s d bs)
  case (Suc n)
  obtain g s1 d1 where get: "cache_get_load D lba s d = (g, s1, d1)" by (metis prod_cases3)
  note st = in_range_step [OF Suc.prems(3)]
  have g: "g \<noteq> None" "same_dev s s1" "lines_in_range s1"
    using cache_get_load_live [OF Suc.prems(1,2) st(1) get] by auto
  then obtain i where i: "g = Some i" by auto
  define s2 where "s2 = cache_touch i (upd_line i (\<lambda>l. l\<lparr>line_data := take SECTOR_SIZE bs, dirty := True\<rparr>) s1)"
  have rest: "cache_write_loop D n (lba + 1) (drop SECTOR_SIZE bs) s2 d1 = (r, s', d')"
    using Suc.prems(4) get i by (simp add: Let_def s2_def upd_line_def)
  have s2: "same_dev s s2" "lines_in_range s2"
    using g unfolding s2_def cache_touch_in_range
    by (auto simp: lines_in_range_def
        intro: same_dev_trans [OF same_dev_trans [OF _ upd_line_same_dev] cache_touch_lines(2)])
  have "r = 0 \<and> same_dev s2 s' \<and> lines_in_range s'"
    using Suc.IH [OF _ s2(2) _ rest] st Suc.prems(1) s2(1) dev_serves_same [OF s2(1), of D]
    by (simp add: same_dev_def)
  then show ?case using same_dev_trans [OF s2(1)] by simp
qed simp

section \<open>The cache as a store of sectors\<close>

text \<open>The single-sector transfers that \<^verbatim>\<open>ext4.c\<close> makes, on the pair of the cache and the device.\<close>

definition cache_rd1 :: "'d blkdrv \<Rightarrow> u64 \<Rightarrow> bcache \<times> 'd \<Rightarrow> int \<times> u8 list \<times> bcache \<times> 'd" where
  "cache_rd1 D lba st = (case st of (s, d) \<Rightarrow> block_cache_read D lba True 1 s d)"

definition cache_wr1 :: "'d blkdrv \<Rightarrow> u64 \<Rightarrow> u8 list \<Rightarrow> bcache \<times> 'd \<Rightarrow> int \<times> bcache \<times> 'd" where
  "cache_wr1 D lba b st = (case st of (s, d) \<Rightarrow> block_cache_write D lba (Some b) 1 s d)"

text \<open>The device and partition a cache serves, and that it is switched on.\<close>

definition bc_dev :: "bcache \<Rightarrow> dev_kind \<times> u64 \<times> u64 \<times> bool" where
  "bc_dev s = (active_dev_kind s, active_lba_base s, active_lba_count s, cache_ready_flag s)"

definition bc_ok :: "'d blkdrv \<Rightarrow> ('d \<Rightarrow> u64 \<Rightarrow> sector) \<Rightarrow> dev_kind \<times> u64 \<times> u64 \<times> bool
    \<Rightarrow> bcache \<times> 'd \<Rightarrow> bool" where
  "bc_ok D media at st = (case st of (s, d) \<Rightarrow> bc_dev s = at \<and>
     driver_ok D (active_dev_kind s) media \<and> read_fail_keeps D (active_dev_kind s)
     \<and> cache_inv (media d) s \<and> sized (bc_view (media d) s))"

definition st_view :: "('d \<Rightarrow> u64 \<Rightarrow> sector) \<Rightarrow> bcache \<times> 'd \<Rightarrow> u64 \<Rightarrow> sector" where
  "st_view media st = (case st of (s, d) \<Rightarrow> bc_view (media d) s)"

lemma put_one_sector: "length b = SECTOR_SIZE \<Longrightarrow> put_sectors 1 l b v = v(l := b)"
  by (auto simp: put_sectors_def fun_eq_iff unat_eq_0)

lemma keeps_ok:
  "keeps media s d s' d' \<Longrightarrow> bc_ok D media at (s, d) \<Longrightarrow>
     bc_ok D media at (s', d') \<and> st_view media (s', d') = st_view media (s, d)"
  by (simp add: keeps_def bc_ok_def same_dev_def st_view_def bc_dev_def)

lemma block_cache_write1_fail:
  assumes drv: "driver_ok D (active_dev_kind s) media" and rk: "read_fail_keeps D (active_dev_kind s)"
    and inv: "cache_inv (media d) s"
    and wr: "block_cache_write D lba (Some bs) 1 s d = (r, s', d')" and r: "r \<noteq> 0"
  shows "keeps media s d s' d'"
proof -
  obtain q d1 where rdy: "block_cache_ready D s d = (q, d1)" by fastforce
  then have m: "media d1 = media d" by (rule block_cache_ready_media [OF drv])
  show ?thesis
  proof (cases "\<not> q \<or> bad_range s lba 1")
    case True
    then have "s' = s \<and> d' = d1" using wr rdy by (auto simp: block_cache_write_def split: if_splits)
    then show ?thesis using inv m by (simp add: keeps_def)
  next
    case False
    then have loop: "cache_write_loop D (Suc 0) lba bs s d1 = (r, s', d')"
      using wr rdy by (simp add: block_cache_write_def)
    obtain g s1 d2 where get: "cache_get_load D lba s d1 = (g, s1, d2)" by (metis prod_cases3)
    then have "g = None \<and> s' = s1 \<and> d' = d2" using loop r by (cases g) (auto simp: Let_def)
    then show ?thesis using cache_get_load_spec [OF drv _ get] rk inv by (simp add: m keeps_def)
  qed
qed

interpretation bc: sector_store "bc_ok D media at" "st_view media" "cache_rd1 D" "cache_wr1 D" for D media at
proof
  fix st assume "bc_ok D media at st"
  then show "sized (st_view media st)" by (cases st) (simp add: bc_ok_def st_view_def)
next
  fix st l r b st'
  assume ok: "bc_ok D media at st" and rd: "cache_rd1 D l st = (r, b, st')"
  obtain s d s' d' where st: "st = (s, d)" "st' = (s', d')" by (metis surj_pair)
  have "keeps media s d s' d' \<and> (r = 0 \<longrightarrow> b = bc_view (media d) s l)"
    using block_cache_read_spec [of D s media d l True 1 r b s' d'] ok rd
    by (simp add: st bc_ok_def cache_rd1_def)
  then show "bc_ok D media at st' \<and> st_view media st' = st_view media st \<and> (r = 0 \<longrightarrow> b = st_view media st l)"
    using keeps_ok [of media s d s' d' D at] ok by (simp add: st st_view_def)
next
  fix st b l r st'
  assume ok: "bc_ok D media at st" and len: "length b = SECTOR_SIZE" and wr: "cache_wr1 D l b st = (r, st')"
  obtain s d s' d' where st: "st = (s, d)" "st' = (s', d')" by (metis surj_pair)
  have w: "block_cache_write D l (Some b) 1 s d = (r, s', d')" using wr by (simp add: st cache_wr1_def)
  have h: "driver_ok D (active_dev_kind s) media" "read_fail_keeps D (active_dev_kind s)" "cache_inv (media d) s"
    "sized (bc_view (media d) s)" "bc_dev s = at"
    using ok by (auto simp: st bc_ok_def)
  show "bc_ok D media at st' \<and> st_view media st' = (if r = 0 then (st_view media st)(l := b) else st_view media st)"
  proof (cases "r = 0")
    case True
    then show ?thesis
      using block_cache_write_spec [OF h(1,3) w [unfolded True]] h len put_one_sector [OF len, of l]
      by (simp add: st bc_ok_def st_view_def same_dev_def sized_def bc_dev_def)
  next
    case False
    then show ?thesis
      using keeps_ok [OF block_cache_write1_fail [OF h(1,2,3) w False]] ok by (simp add: st)
  qed
qed

text \<open>When the device is present and serves its transfers, so does the cache.\<close>

definition driver_present :: "'d blkdrv \<Rightarrow> dev_kind \<Rightarrow> bool" where
  "driver_present D kind \<longleftrightarrow> (\<forall>d. fst (backend_ready D kind d))"

definition driver_flushes :: "'d blkdrv \<Rightarrow> dev_kind \<Rightarrow> bool" where
  "driver_flushes D kind \<longleftrightarrow> (\<forall>d. fst (backend_flush D kind d) = 0)"

definition bc_live :: "'d blkdrv \<Rightarrow> dev_kind \<times> u64 \<times> u64 \<times> bool \<Rightarrow> bcache \<times> 'd \<Rightarrow> bool" where
  "bc_live D at st = (case st of (s, d) \<Rightarrow> bc_dev s = at \<and> cache_ready_flag s
     \<and> active_dev_kind s \<noteq> DEV_NONE \<and> active_lba_count s \<noteq> 0
     \<and> driver_present D (active_dev_kind s) \<and> driver_flushes D (active_dev_kind s)
     \<and> dev_serves D s \<and> lines_in_range s)"

lemma bc_live_ready: "bc_live D at (s, d) \<Longrightarrow> fst (block_cache_ready D s d')"
  by (auto simp: bc_live_def block_cache_ready_def driver_present_def split: prod.splits)

lemma bc_live_same: "bc_live D at (s, d) \<Longrightarrow> same_dev s s' \<Longrightarrow> lines_in_range s' \<Longrightarrow> bc_live D at (s', d')"
  using dev_serves_same [of s s' D] by (auto simp: bc_live_def same_dev_def bc_dev_def)

lemma one_in_range: "l < active_lba_count s \<Longrightarrow> \<not> bad_range s l 1"
  by (simp add: not_bad_range word_less_nat_alt Suc_le_eq)

lemma block_cache_read_live:
  assumes lv: "bc_live D at (s, d)" and rng: "\<not> bad_range s lba count"
  shows "\<exists>bs s' d'. block_cache_read D lba True count s d = (0, bs, s', d') \<and> bc_live D at (s', d')"
proof -
  obtain d1 where rdy: "block_cache_ready D s d = (True, d1)"
    using bc_live_ready [OF lv] by (metis prod.collapse)
  obtain r bs s' d' where l: "cache_read_loop D (unat count) lba s d1 = (r, bs, s', d')" by (metis prod_cases4)
  have "r = 0 \<and> same_dev s s' \<and> lines_in_range s'"
    using cache_read_loop_live [OF _ _ _ l] lv rng by (simp add: bc_live_def not_bad_range)
  then show ?thesis
    using rdy rng l bc_live_same [OF lv] by (auto simp: block_cache_read_def)
qed

lemma block_cache_write_live:
  assumes lv: "bc_live D at (s, d)" and rng: "\<not> bad_range s lba count"
  shows "\<exists>s' d'. block_cache_write D lba (Some bs) count s d = (0, s', d') \<and> bc_live D at (s', d')"
proof -
  obtain d1 where rdy: "block_cache_ready D s d = (True, d1)"
    using bc_live_ready [OF lv] by (metis prod.collapse)
  obtain r s' d' where l: "cache_write_loop D (unat count) lba bs s d1 = (r, s', d')" by (metis prod_cases3)
  have "r = 0 \<and> same_dev s s' \<and> lines_in_range s'"
    using cache_write_loop_live [OF _ _ _ l] lv rng by (simp add: bc_live_def not_bad_range)
  then show ?thesis
    using rdy rng l bc_live_same [OF lv] by (auto simp: block_cache_write_def)
qed

lemma flush_lines_live:
  assumes "dev_serves D s" "lines_in_range s" "set is \<subseteq> {..<BLOCK_CACHE_LINES}"
    "flush_lines D is s d = (r, s', d')"
  shows "r = 0 \<and> same_dev s s' \<and> lines_in_range s'"
  using assms
proof (induction "is" arbitrary: s d)
  case (Cons i "is")
  obtain q s1 d1 where wb: "cache_writeback_line D i s d = (q, s1, d1)" by (metis prod_cases3)
  have w: "q = 0" "same_dev s s1" "lines_in_range s1"
    using writeback_live [OF Cons.prems(1,2) _ wb] Cons.prems(3) by auto
  then have "flush_lines D is s1 d1 = (r, s', d')" using Cons.prems(4) wb by simp
  then show ?case
    using Cons.IH [of s1 d1] w Cons.prems(1,3) dev_serves_same [OF w(2), of D] same_dev_trans by auto
qed simp

lemma block_cache_flush_live:
  assumes lv: "bc_live D at (s, d)"
  shows "\<exists>s' d'. block_cache_flush D s d = (0, s', d') \<and> bc_live D at (s', d')"
proof -
  obtain d1 where rdy: "block_cache_ready D s d = (True, d1)"
    using bc_live_ready [OF lv] by (metis prod.collapse)
  obtain r2 s2 d2 where fls: "flush_lines D [0..<BLOCK_CACHE_LINES] s d1 = (r2, s2, d2)"
    by (metis prod_cases3)
  have f: "r2 = 0" "same_dev s s2" "lines_in_range s2"
    using flush_lines_live [OF _ _ _ fls] lv by (auto simp: bc_live_def lessThan_atLeast0)
  obtain r3 d3 where bf: "backend_flush D (active_dev_kind s2) d2 = (r3, d3)" by fastforce
  have "driver_flushes D (active_dev_kind s2)" using lv f(2) by (auto simp: bc_live_def same_dev_def)
  then have "r3 = 0" using bf unfolding driver_flushes_def by (metis fst_conv)
  then show ?thesis
    using rdy fls f bf bc_live_same [OF lv f(2,3)] by (auto simp: block_cache_flush_def)
qed

interpretation bcl: live_sector_store "bc_ok D media at" "st_view media" "cache_rd1 D" "cache_wr1 D"
    "bc_live D at" "fst (snd (snd at))" for D media at
proof
  fix st l
  assume lv: "bc_live D at st" and l: "l < fst (snd (snd at))"
  obtain s d where st: "st = (s, d)" by fastforce
  have r: "\<not> bad_range s l 1" using lv l by (auto simp: st bc_live_def bc_dev_def one_in_range)
  show "\<exists>b st'. cache_rd1 D l st = (0, b, st') \<and> bc_live D at st'"
    using block_cache_read_live [OF lv [unfolded st] r] by (auto simp: st cache_rd1_def)
  fix b
  show "\<exists>st'. cache_wr1 D l b st = (0, st') \<and> bc_live D at st'"
    using block_cache_write_live [OF lv [unfolded st] r] by (auto simp: st cache_wr1_def)
qed

section \<open>Properties of the block cache\<close>

definition bc_example :: bcache where
  "bc_example = \<lparr>cache_lines = (\<lambda>_. line_zero), use_clock = 0, cache_ready_flag = True,
     active_dev_kind = DEV_VDA, active_lba_base = 0, active_lba_count = 16, selftest_done = True\<rparr>"

lemma bc_example_simps [simp]:
  "cache_lines bc_example i = line_zero" "cache_ready_flag bc_example" "active_dev_kind bc_example = DEV_VDA"
  "active_lba_base bc_example = 0" "active_lba_count bc_example = 16" "selftest_done bc_example"
  by (simp_all add: bc_example_def)

lemma bc_example_ok:
  "cache_inv m bc_example" "bc_live (mem_disk 16) (DEV_VDA, 0, 16, True) (bc_example, d)"
  "bc_view m bc_example l = m l"
  using mem_disk_serves [of 16]
  by (simp_all add: cache_inv_def lines_in_range_def dev_serves_def holds_def line_zero_def bc_live_def
      bc_dev_def driver_present_def driver_flushes_def backend_flush_def backend_ready_def mem_disk_def
      bc_view_media)

text \<open>
  C7. Reading through the block cache: on an attached device whose driver completes its
  transfers, a read of \<open>count\<close> sectors inside the partition returns 0 and the current contents of
  exactly these sectors, cached or not, dirty or clean, and neither the contents of the partition
  nor the cache invariant change, whatever lines it evicts on the way.
\<close>

theorem block_cache_read_correct:
  assumes "driver_ok D (active_dev_kind s) media" "cache_inv (media d) s" "bc_live D at (s, d)"
    and "\<not> bad_range s lba count"
  shows "\<exists>s' d'. block_cache_read D lba True count s d =
      (0, concat (map (\<lambda>k. bc_view (media d) s (lba + of_nat k)) [0..<unat count]), s', d')
    \<and> bc_view (media d') s' = bc_view (media d) s \<and> cache_inv (media d') s' \<and> bc_live D at (s', d')"
proof -
  obtain bs s' d' where rd: "block_cache_read D lba True count s d = (0, bs, s', d')" "bc_live D at (s', d')"
    using block_cache_read_live [OF assms(3,4)] by blast
  then show ?thesis using block_cache_read_spec [OF assms(1,2) rd(1)] by (auto simp: keeps_def)
qed

theorem block_cache_read_correct_witness:
  "\<exists>s' d'. block_cache_read (mem_disk 16) 3 True 2 bc_example (\<lambda>l. replicate 512 (ucast l)) =
      (0, replicate 512 3 @ replicate 512 4, s', d')"
proof -
  have "\<not> bad_range bc_example 3 2" by (simp add: bad_range_def)
  note r = block_cache_read_correct [where d = "\<lambda>l. replicate 512 (ucast l)" and media = "\<lambda>d. d",
      OF _ bc_example_ok(1,2) this, simplified, OF mem_disk_ok]
  have "[0..<2] = [0, Suc 0]" by (simp add: numeral_2_eq_2)
  with r show ?thesis by (auto simp: bc_example_ok(3))
qed

text \<open>
  C8. Writing through the block cache: on an attached device whose driver completes its
  transfers, a write of \<open>count\<close> sectors inside the partition returns 0 and changes exactly these
  sectors of the partition to the bytes given, sector by sector, and keeps the cache invariant.
\<close>

theorem block_cache_write_correct:
  assumes "driver_ok D (active_dev_kind s) media" "cache_inv (media d) s" "bc_live D at (s, d)"
    and "\<not> bad_range s lba count"
  shows "\<exists>s' d'. block_cache_write D lba (Some bs) count s d = (0, s', d')
    \<and> bc_view (media d') s' = put_sectors (unat count) lba bs (bc_view (media d) s)
    \<and> cache_inv (media d') s' \<and> bc_live D at (s', d')"
proof -
  obtain s' d' where wr: "block_cache_write D lba (Some bs) count s d = (0, s', d')" "bc_live D at (s', d')"
    using block_cache_write_live [OF assms(3,4)] by blast
  then show ?thesis using block_cache_write_spec [OF assms(1,2) wr(1)] by auto
qed

theorem block_cache_write_correct_witness:
  "\<exists>s' d'. block_cache_write (mem_disk 16) 5 (Some (replicate 512 7)) 1 bc_example (\<lambda>l. replicate 512 (ucast l))
       = (0, s', d') \<and> bc_view d' s' 5 = replicate 512 7 \<and> bc_view d' s' 6 = replicate 512 6"
proof -
  have "\<not> bad_range bc_example 5 1" by (simp add: bad_range_def)
  note r = block_cache_write_correct [where d = "\<lambda>l. replicate 512 (ucast l)" and media = "\<lambda>d. d",
      OF _ bc_example_ok(1,2) this, simplified, OF mem_disk_ok, of "replicate 512 7"]
  then obtain s' d' where "block_cache_write (mem_disk 16) 5 (Some (replicate 512 7)) 1 bc_example
        (\<lambda>l. replicate 512 (ucast l)) = (0, s', d')"
    "bc_view d' s' = put_sectors (Suc 0) 5 (replicate 512 7) (bc_view (\<lambda>l. replicate 512 (ucast l)) bc_example)"
    by blast
  then show ?thesis by (auto simp: put_sectors_def bc_example_ok(3))
qed

text \<open>
  C9. Flushing is durable: on an attached device whose driver completes its transfers and its
  flushes, \<^verbatim>\<open>block_cache_flush\<close> returns 0, the medium then holds every sector of the partition as
  it was last written, no line is left dirty, and the contents seen through the cache are the same.
\<close>

theorem block_cache_flush_durable:
  assumes "driver_ok D (active_dev_kind s) media" "cache_inv (media d) s" "bc_live D at (s, d)"
  shows "\<exists>s' d'. block_cache_flush D s d = (0, s', d')
    \<and> (\<forall>l. media d' (active_lba_base s + l) = bc_view (media d) s l)
    \<and> (\<forall>i < BLOCK_CACHE_LINES. \<not> (valid (cache_lines s' i) \<and> dirty (cache_lines s' i)))
    \<and> cache_inv (media d') s' \<and> bc_view (media d') s' = bc_view (media d) s"
proof -
  obtain s' d' where fl: "block_cache_flush D s d = (0, s', d')" using block_cache_flush_live [OF assms(3)] by blast
  have sp: "keeps media s d s' d'"
    "\<forall>i < BLOCK_CACHE_LINES. valid (cache_lines s' i) \<longrightarrow> \<not> dirty (cache_lines s' i)"
    using block_cache_flush_spec [OF assms(1,2) fl] by auto
  then have "media d' (active_lba_base s + l) = bc_view (media d) s l" for l
    using clean_view [OF _ sp(2), of "media d'" l] by (simp add: keeps_def same_dev_def)
  then show ?thesis using fl sp by (auto simp: keeps_def)
qed

lemma bc_example_dirty:
  "cache_inv m (upd_line 2 (\<lambda>l. l\<lparr>valid := True, dirty := True, line_lba := 5, line_data := b\<rparr>) bc_example)"
  "lines_in_range (upd_line 2 (\<lambda>l. l\<lparr>valid := True, dirty := True, line_lba := 5, line_data := b\<rparr>) bc_example)"
  by (auto simp: cache_inv_def lines_in_range_def holds_def line_zero_def)

theorem block_cache_flush_durable_witness:
  "\<exists>s' d'. block_cache_flush (mem_disk 16)
       (upd_line 2 (\<lambda>l. l\<lparr>valid := True, dirty := True, line_lba := 5, line_data := replicate 512 9\<rparr>) bc_example)
       (\<lambda>_. replicate 512 0) = (0, s', d') \<and> d' 5 = replicate 512 9"
proof -
  let ?s = "upd_line 2 (\<lambda>l. l\<lparr>valid := True, dirty := True, line_lba := 5, line_data := replicate 512 9\<rparr>) bc_example"
  have lv: "bc_live (mem_disk 16) (DEV_VDA, 0, 16, True) (?s, \<lambda>_. replicate 512 0)"
    and ok: "driver_ok (mem_disk 16) (active_dev_kind ?s) (\<lambda>d. d)"
    using mem_disk_serves [of 16] mem_disk_ok [of 16] bc_example_dirty(2)
    by (simp_all add: bc_live_def bc_dev_def dev_serves_def driver_present_def driver_flushes_def
        backend_flush_def backend_ready_def mem_disk_def)
  have v: "bc_view m ?s 5 = replicate 512 9" for m
    using bc_view_line [OF bc_example_dirty(1), of 2 "replicate 512 9" 5 m] by (simp add: holds_def)
  have b: "active_lba_base ?s + 5 = 5" by simp
  obtain s' d' where "block_cache_flush (mem_disk 16) ?s (\<lambda>_. replicate 512 0) = (0, s', d')"
    "\<forall>l. d' (active_lba_base ?s + l) = bc_view (\<lambda>_. replicate 512 0) ?s l"
    using block_cache_flush_durable [OF ok bc_example_dirty(1) lv] by blast
  then show ?thesis using v b by metis
qed

end
