(* ===== verification/Bytes.thy ===== *)
theory Bytes
  imports Prelude
begin

text \<open>
  The byte codecs of \<^verbatim>\<open>src/kernel/ext4.c\<close> (and their copies in \<^verbatim>\<open>src/kernel/fs.c\<close>): little- and
  big-endian loads and stores at an offset of a buffer, and the CRC32C of the journal checksums.
  A buffer is the list of its bytes; a store \<^verbatim>\<open>wr_le32(p + off, v)\<close> replaces four of them.
\<close>

section \<open>Loads and stores\<close>

definition put_at :: "nat \<Rightarrow> u8 list \<Rightarrow> u8 list \<Rightarrow> u8 list" where \<comment> \<open>memcpy(p + off, bs, length bs)\<close>
  "put_at off bs p = take off p @ bs @ drop (off + length bs) p"

definition rd_be16 :: "u8 list \<Rightarrow> nat \<Rightarrow> u16" where
  "rd_be16 p off = push_bit 8 (ucast (p ! off)) OR ucast (p ! (off + 1))"

definition rd_be32 :: "u8 list \<Rightarrow> nat \<Rightarrow> u32" where
  "rd_be32 p off = push_bit 24 (ucast (p ! off)) OR push_bit 16 (ucast (p ! (off + 1)))
     OR push_bit 8 (ucast (p ! (off + 2))) OR ucast (p ! (off + 3))"

definition rd_le16 :: "u8 list \<Rightarrow> nat \<Rightarrow> u16" where
  "rd_le16 p off = ucast (p ! off) OR push_bit 8 (ucast (p ! (off + 1)))"

definition rd_le32 :: "u8 list \<Rightarrow> nat \<Rightarrow> u32" where
  "rd_le32 p off = ucast (p ! off) OR push_bit 8 (ucast (p ! (off + 1)))
     OR push_bit 16 (ucast (p ! (off + 2))) OR push_bit 24 (ucast (p ! (off + 3)))"

definition rd_le64 :: "u8 list \<Rightarrow> nat \<Rightarrow> u64" where
  "rd_le64 p off = ucast (rd_le32 p off) OR push_bit 32 (ucast (rd_le32 p (off + 4)))"

text \<open>The bytes a store writes, in the order of their addresses.\<close>

definition le16 :: "u16 \<Rightarrow> u8 list" where
  "le16 v = [ucast (v AND 0xFF), ucast (drop_bit 8 v AND 0xFF)]"

definition be16 :: "u16 \<Rightarrow> u8 list" where
  "be16 v = [ucast (drop_bit 8 v AND 0xFF), ucast (v AND 0xFF)]"

definition le32 :: "u32 \<Rightarrow> u8 list" where
  "le32 v = [ucast (v AND 0xFF), ucast (drop_bit 8 v AND 0xFF), ucast (drop_bit 16 v AND 0xFF),
     ucast (drop_bit 24 v AND 0xFF)]"

definition be32 :: "u32 \<Rightarrow> u8 list" where
  "be32 v = [ucast (drop_bit 24 v AND 0xFF), ucast (drop_bit 16 v AND 0xFF), ucast (drop_bit 8 v AND 0xFF),
     ucast (v AND 0xFF)]"

definition le64 :: "u64 \<Rightarrow> u8 list" where \<comment> \<open>a uint64_t in memory\<close>
  "le64 v = le32 (ucast v) @ le32 (ucast (drop_bit 32 v))"

definition wr_le16 :: "u8 list \<Rightarrow> nat \<Rightarrow> u16 \<Rightarrow> u8 list" where "wr_le16 p off v = put_at off (le16 v) p"
definition wr_be16 :: "u8 list \<Rightarrow> nat \<Rightarrow> u16 \<Rightarrow> u8 list" where "wr_be16 p off v = put_at off (be16 v) p"
definition wr_le32 :: "u8 list \<Rightarrow> nat \<Rightarrow> u32 \<Rightarrow> u8 list" where "wr_le32 p off v = put_at off (le32 v) p"
definition wr_be32 :: "u8 list \<Rightarrow> nat \<Rightarrow> u32 \<Rightarrow> u8 list" where "wr_be32 p off v = put_at off (be32 v) p"

definition align_up4 :: "u32 \<Rightarrow> u32" where
  "align_up4 n = (n + 3) AND NOT 3"

section \<open>Buffers\<close>

lemma put_at_length [simp]: "off + length bs \<le> length p \<Longrightarrow> length (put_at off bs p) = length p"
  by (simp add: put_at_def)

lemma put_at_nth:
  "off + length bs \<le> length p \<Longrightarrow> i < length p \<Longrightarrow>
     put_at off bs p ! i = (if off \<le> i \<and> i < off + length bs then bs ! (i - off) else p ! i)"
  by (auto simp: put_at_def nth_append min_def)

lemma put_at_take: "off + length bs \<le> length p \<Longrightarrow> take (length bs) (drop off (put_at off bs p)) = bs"
  by (simp add: put_at_def)

lemma put_at_Nil [simp]: "off \<le> length p \<Longrightarrow> put_at off [] p = p"
  by (simp add: put_at_def)

lemma length_codes [simp]:
  "length (le16 v) = 2" "length (be16 v) = 2" "length (le32 w) = 4" "length (be32 w) = 4"
  "length (le64 x) = 8"
  by (simp_all add: le16_def be16_def le32_def be32_def le64_def)

lemma length_stores [simp]:
  "off + 2 \<le> length p \<Longrightarrow> length (wr_le16 p off v) = length p"
  "off + 2 \<le> length p \<Longrightarrow> length (wr_be16 p off v) = length p"
  "off + 4 \<le> length p \<Longrightarrow> length (wr_le32 p off w) = length p"
  "off + 4 \<le> length p \<Longrightarrow> length (wr_be32 p off w) = length p"
  by (simp_all add: wr_le16_def wr_be16_def wr_le32_def wr_be32_def)

text \<open>What a load sees of the bytes around it: only the bytes it reads.\<close>

lemma rd_shift:
  "rd_be16 p off = rd_be16 (take 2 (drop off p)) 0 \<or> length p < off + 2"
  "rd_be32 p off = rd_be32 (take 4 (drop off p)) 0 \<or> length p < off + 4"
  "rd_le16 p off = rd_le16 (take 2 (drop off p)) 0 \<or> length p < off + 2"
  "rd_le32 p off = rd_le32 (take 4 (drop off p)) 0 \<or> length p < off + 4"
  by (auto simp: rd_be16_def rd_be32_def rd_le16_def rd_le32_def not_less)

section \<open>A load returns what was stored\<close>

lemma byte_cast [simp]: "(ucast (x AND 255 :: 'a::len word) :: u8) = ucast x"
proof -
  have "x AND 255 = take_bit 8 x" by (simp add: take_bit_eq_mask mask_eq_exp_minus_1)
  moreover have "(ucast (take_bit 8 x) :: u8) = ucast x"
    by (rule bit_word_eqI) (auto simp: bit_simps dest: bit_imp_le_length)
  ultimately show ?thesis by simp
qed

lemma rd_le16_le16: "rd_le16 (le16 v) 0 = v"
  by (rule bit_word_eqI) (auto simp: rd_le16_def le16_def bit_simps)

lemma rd_be16_be16: "rd_be16 (be16 v) 0 = v"
  by (rule bit_word_eqI) (auto simp: rd_be16_def be16_def bit_simps)

lemma byte_cases:
  fixes n :: nat
  obtains "n < 8" | "8 \<le> n" "n < 16" | "16 \<le> n" "n < 24" | "24 \<le> n"
  by linarith

lemma rd_le32_le32: "rd_le32 (le32 v) 0 = v"
proof (rule bit_word_eqI)
  fix n assume "n < LENGTH(32)"
  then show "bit (rd_le32 (le32 v) 0) n = bit v n"
    by (cases n rule: byte_cases) (auto simp: rd_le32_def le32_def bit_simps numeral_3_eq_3)
qed

lemma rd_be32_be32: "rd_be32 (be32 v) 0 = v"
proof (rule bit_word_eqI)
  fix n assume "n < LENGTH(32)"
  then show "bit (rd_be32 (be32 v) 0) n = bit v n"
    by (cases n rule: byte_cases) (auto simp: rd_be32_def be32_def bit_simps numeral_3_eq_3)
qed

lemma ucast_halves: "ucast (ucast (v :: u64) :: u32) OR push_bit 32 (ucast (ucast (drop_bit 32 v) :: u32)) = v"
  by (rule bit_word_eqI) (auto simp: bit_simps)

text \<open>Loads and stores at offsets of a buffer.\<close>

lemma rd_put_at:
  assumes "off + 4 \<le> length p"
  shows "rd_le32 (wr_le32 p off v) off = v" "rd_be32 (wr_be32 p off v) off = v"
  using assms put_at_take [of off "le32 v" p] put_at_take [of off "be32 v" p]
    rd_shift(4) [of "wr_le32 p off v" off] rd_shift(2) [of "wr_be32 p off v" off]
  by (simp_all add: rd_le32_le32 rd_be32_be32 wr_le32_def wr_be32_def)

lemma rd_put_at16:
  assumes "off + 2 \<le> length p"
  shows "rd_le16 (wr_le16 p off v) off = v" "rd_be16 (wr_be16 p off v) off = v"
  using assms put_at_take [of off "le16 v" p] put_at_take [of off "be16 v" p]
    rd_shift(3) [of "wr_le16 p off v" off] rd_shift(1) [of "wr_be16 p off v" off]
  by (simp_all add: rd_le16_le16 rd_be16_be16 wr_le16_def wr_be16_def)

text \<open>A load from a buffer put together from pieces.\<close>

lemma rd_append:
  "off + 4 \<le> length a \<Longrightarrow> rd_le32 (a @ b) off = rd_le32 a off"
  "rd_le32 (a @ b) (length a + off) = rd_le32 b off"
  "off + 4 \<le> length a \<Longrightarrow> rd_be32 (a @ b) off = rd_be32 a off"
  "rd_be32 (a @ b) (length a + off) = rd_be32 b off"
  by (simp_all add: rd_le32_def rd_be32_def nth_append)

lemma rd_le64_le64: "rd_le64 (le64 v @ b) 0 = v"
  using rd_append(2) [of "le32 (ucast v)" "le32 (ucast (drop_bit 32 v)) @ b" 0]
  by (simp add: rd_le64_def le64_def rd_append(1) rd_le32_le32 ucast_halves)

section \<open>CRC32C\<close>

definition crc_bit :: "u32 \<Rightarrow> u32" where \<comment> \<open>one round of the inner loop\<close>
  "crc_bit c = (if c AND 1 \<noteq> 0 then drop_bit 1 c XOR 0x82F63B78 else drop_bit 1 c)"

definition crc_byte :: "u8 \<Rightarrow> u32 \<Rightarrow> u32" where
  "crc_byte b c = (crc_bit ^^ 8) (c XOR ucast b)"

definition crc32c_update :: "u32 \<Rightarrow> u8 list \<Rightarrow> u32" where
  "crc32c_update crc buf = NOT (fold crc_byte buf (NOT crc))"

lemma crc32c_update_append: "crc32c_update crc (a @ b) = crc32c_update (crc32c_update crc a) b"
  by (simp add: crc32c_update_def)

text \<open>A round is linear and can be undone: the polynomial has its top bit set, so the top bit of
  the result tells which branch was taken.\<close>

lemma and_1_bit: "(c :: u32) AND 1 \<noteq> 0 \<longleftrightarrow> bit c 0"
  by (simp add: bit_0 and_one_eq odd_iff_mod_2_eq_one)

lemma crc_bit_xor: "crc_bit (x XOR y) = crc_bit x XOR crc_bit y"
  by (auto simp: crc_bit_def and_1_bit bit_simps drop_bit_xor xor.left_commute xor.assoc [symmetric] intro!: bit_word_eqI)

lemma xor_cancel: "(x :: u32) XOR z = y XOR z \<longleftrightarrow> x = y"
  by (metis xor.assoc xor.right_neutral xor_self_eq)

lemma xor_cancel_left: "(z :: u32) XOR x = z XOR y \<longleftrightarrow> x = y"
  using xor_cancel [of x z y] by (simp only: xor.commute)

lemma crc_bit_inj: "crc_bit x = crc_bit y \<Longrightarrow> x = y"
proof -
  assume e: "crc_bit x = crc_bit y"
  have top: "bit (crc_bit z) 31 = bit z 0" for z
    by (auto simp: crc_bit_def and_1_bit bit_simps dest: bit_imp_le_length)
  have "bit x 0 = bit y 0" using e top by metis
  moreover have "drop_bit 1 x = drop_bit 1 y"
    using e \<open>bit x 0 = bit y 0\<close> by (auto simp: crc_bit_def and_1_bit xor_cancel split: if_splits)
  moreover have "bit z (Suc m) = bit (drop_bit 1 z) m" for z :: u32 and m
    by (simp add: bit_drop_bit_eq)
  ultimately have "bit x n = bit y n" for n by (cases n) simp_all
  then show "x = y" by (simp add: bit_eq_iff)
qed

lemma crc_bits_inj: "(crc_bit ^^ n) x = (crc_bit ^^ n) y \<Longrightarrow> x = y"
  by (induction n) (auto dest: crc_bit_inj)

lemma crc_bits_xor: "(crc_bit ^^ n) (x XOR y) = (crc_bit ^^ n) x XOR (crc_bit ^^ n) y"
  by (induction n) (simp_all add: crc_bit_xor)

lemma crc_fold_inj: "fold crc_byte bs x = fold crc_byte bs y \<Longrightarrow> x = y"
proof (induction bs arbitrary: x y)
  case (Cons b bs)
  then have "crc_byte b x = crc_byte b y" by auto
  then have "x XOR ucast b = y XOR ucast b" unfolding crc_byte_def by (rule crc_bits_inj)
  then show ?case by (simp add: xor_cancel)
qed simp

text \<open>Shifting out zero bits involves no polynomial.\<close>

lemma crc_bits_shift: "(\<And>i. i < n \<Longrightarrow> \<not> bit c i) \<Longrightarrow> (crc_bit ^^ n) c = drop_bit n c"
proof (induction n)
  case (Suc n)
  then have "(crc_bit ^^ n) c = drop_bit n c" by simp
  moreover have "\<not> bit (drop_bit n c) 0" using Suc.prems by (simp add: bit_simps)
  ultimately show ?case by (simp add: crc_bit_def [of "drop_bit n c"] and_1_bit)
qed simp

lemma crc_byte_shift:
  assumes "n \<le> 24"
  shows "crc_byte b ((crc_bit ^^ n) c) = (crc_bit ^^ (8 + n)) (c XOR push_bit n (ucast b))"
proof -
  have "(crc_bit ^^ n) (push_bit n (ucast b)) = drop_bit n (push_bit n (ucast b :: u32))"
    by (rule crc_bits_shift) (simp add: bit_simps)
  also have "\<dots> = ucast b"
    using assms by (intro bit_word_eqI) (auto simp: bit_simps dest: bit_imp_le_length)
  finally show ?thesis by (simp only: crc_byte_def funpow_add o_apply crc_bits_xor)
qed

lemma crc_word:
  "fold crc_byte [a, b, c, d] s = (crc_bit ^^ 32) (s XOR ucast a XOR push_bit 8 (ucast b)
     XOR push_bit 16 (ucast c) XOR push_bit 24 (ucast d))"
proof -
  have a: "crc_byte a s = (crc_bit ^^ 8) (s XOR ucast a)" by (simp only: crc_byte_def)
  have b: "crc_byte b (crc_byte a s) = (crc_bit ^^ 16) (s XOR ucast a XOR push_bit 8 (ucast b))"
    unfolding a by (subst crc_byte_shift) (simp_all add: xor.assoc del: funpow.simps)
  have c: "crc_byte c (crc_byte b (crc_byte a s))
      = (crc_bit ^^ 24) (s XOR ucast a XOR push_bit 8 (ucast b) XOR push_bit 16 (ucast c))"
    unfolding b by (subst crc_byte_shift) (simp_all add: xor.assoc)
  show ?thesis
    unfolding fold_simps o_apply id_apply c by (subst crc_byte_shift) (simp_all add: xor.assoc)
qed

lemma xor_word_bytes:
  "le32 (ucast a XOR push_bit 8 (ucast b) XOR push_bit 16 (ucast c) XOR push_bit 24 (ucast d)) = [a, b, c, d]"
  unfolding le32_def by (simp, intro conjI bit_word_eqI) (auto simp: bit_simps dest: bit_imp_le_length)

lemma list4: "length u = 4 \<Longrightarrow> \<exists>a b c d. u = [a, b, c, d]"
  by (auto simp: length_Suc_conv numeral_eq_Suc)

text \<open>
  A change confined to four consecutive bytes always changes the checksum, whatever surrounds it.
\<close>

theorem crc32c_detects_word:
  assumes "length u = 4" "length v = 4" "u \<noteq> v"
  shows "crc32c_update crc (a @ u @ b) \<noteq> crc32c_update crc (a @ v @ b)"
proof
  assume "crc32c_update crc (a @ u @ b) = crc32c_update crc (a @ v @ b)"
  then have "fold crc_byte u (fold crc_byte a (NOT crc)) = fold crc_byte v (fold crc_byte a (NOT crc))"
    by (simp add: crc32c_update_def crc_fold_inj)
  moreover obtain u0 u1 u2 u3 v0 v1 v2 v3 where uv: "u = [u0, u1, u2, u3]" "v = [v0, v1, v2, v3]"
    using list4 [OF assms(1)] list4 [OF assms(2)] by blast
  ultimately have "(crc_bit ^^ 32) (fold crc_byte a (NOT crc) XOR ucast u0 XOR push_bit 8 (ucast u1)
        XOR push_bit 16 (ucast u2) XOR push_bit 24 (ucast u3))
      = (crc_bit ^^ 32) (fold crc_byte a (NOT crc) XOR ucast v0 XOR push_bit 8 (ucast v1)
        XOR push_bit 16 (ucast v2) XOR push_bit 24 (ucast v3))"
    unfolding uv crc_word by (simp only:)
  from crc_bits_inj [OF this] have "ucast u0 XOR push_bit 8 (ucast u1) XOR push_bit 16 (ucast u2) XOR push_bit 24 (ucast u3)
      = (ucast v0 XOR push_bit 8 (ucast v1) XOR push_bit 16 (ucast v2) XOR push_bit 24 (ucast v3) :: u32)"
    by (simp only: xor_cancel_left)
  then have "u = v" unfolding uv by (metis xor_word_bytes)
  with assms show False by simp
qed

end
