(* ===== verification/StateOps.thy ===== *)
theory StateOps
  imports Prelude
begin

text \<open>
  Fallible operations on a state, for the code whose functions return \<^verbatim>\<open>false\<close> (or \<^verbatim>\<open>-1\<close>) at the
  first call that fails and may have changed the state by then: an operation returns \<open>None\<close> or
  \<open>Some\<close> result, together with the state it leaves. \<open>seq m f\<close> is ``call \<open>m\<close>; on failure
  return failure; else go on with \<open>f\<close>'', \<open>check b\<close> is \<^verbatim>\<open>if (!b) return false;\<close>.
\<close>

section \<open>Operations\<close>

type_synonym ('s, 'a) op = "'s \<Rightarrow> 'a option \<times> 's"

definition ret :: "'a \<Rightarrow> ('s, 'a) op" where
  "ret x s = (Some x, s)"

definition fail :: "('s, 'a) op" where
  "fail s = (None, s)"

definition seq :: "('s, 'a) op \<Rightarrow> ('a \<Rightarrow> ('s, 'b) op) \<Rightarrow> ('s, 'b) op" where
  "seq m f s = (case m s of (None, s1) \<Rightarrow> (None, s1) | (Some x, s1) \<Rightarrow> f x s1)"

definition gets :: "('s \<Rightarrow> 'a) \<Rightarrow> ('s, 'a) op" where
  "gets f s = (Some (f s), s)"

definition modify :: "('s \<Rightarrow> 's) \<Rightarrow> ('s, unit) op" where
  "modify f s = (Some (), f s)"

definition check :: "bool \<Rightarrow> ('s, unit) op" where
  "check b = (if b then ret () else fail)"

text \<open>Call \<open>m\<close> and look at its outcome (a call whose failure does not end the caller).\<close>

definition attempt :: "('s, 'a) op \<Rightarrow> ('s, 'a option) op" where
  "attempt m s = (case m s of (r, s1) \<Rightarrow> (Some r, s1))"

text \<open>Call \<open>m\<close>; if it fails, apply \<open>f\<close> to the state before failing as well.\<close>

definition on_fail :: "('s \<Rightarrow> 's) \<Rightarrow> ('s, 'a) op \<Rightarrow> ('s, 'a) op" where
  "on_fail f m s = (case m s of (None, s1) \<Rightarrow> (None, f s1) | (Some x, s1) \<Rightarrow> (Some x, s1))"

text \<open>A \<^verbatim>\<open>for\<close> loop over a list whose body ends the function when it fails.\<close>

primrec for_each :: "('a \<Rightarrow> ('s, unit) op) \<Rightarrow> 'a list \<Rightarrow> ('s, unit) op" where
  "for_each f [] = ret ()"
| "for_each f (x # xs) = seq (f x) (\<lambda>_. for_each f xs)"

named_theorems op_simps \<comment> \<open>unfolding the combinators\<close>

lemma ret_apply [op_simps]: "ret x s = (Some x, s)" by (simp add: ret_def)
lemma fail_apply [op_simps]: "fail s = (None, s)" by (simp add: fail_def)
lemma gets_apply [op_simps]: "gets f s = (Some (f s), s)" by (simp add: gets_def)
lemma modify_apply [op_simps]: "modify f s = (Some (), f s)" by (simp add: modify_def)

lemma check_apply [op_simps]: "check b s = (if b then Some () else None, s)"
  by (simp add: check_def ret_def fail_def)

lemma seq_simps [op_simps]:
  "seq (ret x) f = f x"
  "seq (gets g) h s = h (g s) s"
  "seq (modify u) k s = k () (u s)"
  "seq (check b) k s = (if b then k () s else (None, s))"
  "seq fail f = fail"
  by (simp_all add: seq_def ret_def gets_def modify_def check_def fail_def fun_eq_iff)

lemma seq_Some: "seq m f s = (Some y, s') \<longleftrightarrow> (\<exists>x s1. m s = (Some x, s1) \<and> f x s1 = (Some y, s'))"
  by (auto simp: seq_def split: prod.splits option.splits)

lemma seq_elim:
  assumes "seq m f s = (r, s')"
  obtains (fails) s1 where "m s = (None, s1)" "r = None" "s' = s1"
    | (goes) x s1 where "m s = (Some x, s1)" "f x s1 = (r, s')"
  using assms by (auto simp: seq_def split: prod.splits option.splits)

section \<open>Preservation\<close>

text \<open>\<open>preserves I m\<close>: \<open>m\<close> keeps \<open>I\<close>, failing or not.\<close>

definition preserves :: "('s \<Rightarrow> bool) \<Rightarrow> ('s, 'a) op \<Rightarrow> bool" where
  "preserves I m \<longleftrightarrow> (\<forall>s. I s \<longrightarrow> I (snd (m s)))"

named_theorems pres \<comment> \<open>preservation rules\<close>

lemma preservesD: "preserves I m \<Longrightarrow> I s \<Longrightarrow> m s = (r, s') \<Longrightarrow> I s'"
  by (auto simp: preserves_def dest!: spec [of _ s])

lemma preserves_ret [pres]: "preserves I (ret x)" by (simp add: preserves_def ret_def)
lemma preserves_fail [pres]: "preserves I fail" by (simp add: preserves_def fail_def)
lemma preserves_gets [pres]: "preserves I (gets f)" by (simp add: preserves_def gets_def)
lemma preserves_check [pres]: "preserves I (check b)" by (simp add: preserves_def check_def ret_def fail_def)

lemma preserves_modify [pres]: "(\<And>s. I s \<Longrightarrow> I (f s)) \<Longrightarrow> preserves I (modify f)"
  by (simp add: preserves_def modify_def)

lemma preserves_seq [pres]:
  "preserves I m \<Longrightarrow> (\<And>x. preserves I (f x)) \<Longrightarrow> preserves I (seq m f)"
  by (auto simp: preserves_def seq_def split: prod.splits option.splits)

lemma preserves_attempt [pres]: "preserves I m \<Longrightarrow> preserves I (attempt m)"
  by (auto simp: preserves_def attempt_def split: prod.splits)

lemma preserves_on_fail [pres]:
  "preserves I m \<Longrightarrow> (\<And>s. I s \<Longrightarrow> I (f s)) \<Longrightarrow> preserves I (on_fail f m)"
  by (auto simp: preserves_def on_fail_def split: prod.splits option.splits)

lemma preserves_if [pres]:
  "(b \<Longrightarrow> preserves I m) \<Longrightarrow> (\<not> b \<Longrightarrow> preserves I n) \<Longrightarrow> preserves I (if b then m else n)"
  by simp

lemma preserves_option [pres]:
  "(x = None \<Longrightarrow> preserves I m) \<Longrightarrow> (\<And>y. x = Some y \<Longrightarrow> preserves I (f y)) \<Longrightarrow>
     preserves I (case x of None \<Rightarrow> m | Some y \<Rightarrow> f y)"
  by (cases x) simp_all

lemma preserves_for_each [pres]: "(\<And>x. x \<in> set xs \<Longrightarrow> preserves I (f x)) \<Longrightarrow> preserves I (for_each f xs)"
  by (induction xs) (auto intro: pres)

section \<open>Progress\<close>

text \<open>\<open>works I m\<close>: from a state with \<open>I\<close>, \<open>m\<close> succeeds and \<open>I\<close> holds again.\<close>

definition works :: "('s \<Rightarrow> bool) \<Rightarrow> ('s, 'a) op \<Rightarrow> bool" where
  "works I m \<longleftrightarrow> (\<forall>s. I s \<longrightarrow> (\<exists>x s'. m s = (Some x, s') \<and> I s'))"

named_theorems progress \<comment> \<open>progress rules\<close>

lemma worksD: "works I m \<Longrightarrow> I s \<Longrightarrow> \<exists>x s'. m s = (Some x, s') \<and> I s'" by (simp add: works_def)

lemma works_ret [progress]: "works I (ret x)" by (simp add: works_def ret_def)
lemma works_gets [progress]: "works I (gets f)" by (simp add: works_def gets_def)
lemma works_check [progress]: "b \<Longrightarrow> works I (check b)" by (simp add: works_def check_def ret_def)
lemma works_modify [progress]: "(\<And>s. I s \<Longrightarrow> I (f s)) \<Longrightarrow> works I (modify f)" by (simp add: works_def modify_def)

lemma works_seq [progress]: "works I m \<Longrightarrow> (\<And>x. works I (f x)) \<Longrightarrow> works I (seq m f)"
  unfolding works_def seq_def by fastforce

lemma works_on_fail [progress]: "works I m \<Longrightarrow> works I (on_fail f m)"
  unfolding works_def on_fail_def by fastforce

lemma works_for_each [progress]: "(\<And>x. x \<in> set xs \<Longrightarrow> works I (f x)) \<Longrightarrow> works I (for_each f xs)"
  by (induction xs) (auto intro: progress)

end
