(* ===== verification/Ext4State.thy ===== *)
theory Ext4State
  imports BlockCache Bytes StateOps
begin

text \<open>
  The state of the ext4 driver, \<^verbatim>\<open>src/kernel/ext4.c\<close>: the superblock fields (\<^verbatim>\<open>g_ext4\<close>), the
  private redo log at the end of the partition (\<^verbatim>\<open>g_journal\<close>), the JBD2 journal (\<^verbatim>\<open>g_jbd2\<close>) and
  the error number, together with the block cache and the device below them. An array with a
  count of used entries is the list of these entries. \<open>D\<close> is the driver interface; the timer
  reading of the moment is the field \<open>ticks\<close>, since \<^verbatim>\<open>timer_ticks\<close> only reads a counter.
\<close>

section \<open>State\<close>

record ext4_meta =
  m_valid :: bool
  m_ino :: u32
  m_mode :: u16
  m_links :: u16
  m_flags :: u32
  m_blocks_lo :: u32
  m_size :: u64
  m_block :: "u32 list" \<comment> \<open>15 entries\<close>

record ext4_fs =
  mounted :: bool
  write_enabled :: bool
  has_filetype :: bool
  has_64bit :: bool
  feature_compat :: u32
  feature_incompat :: u32
  feature_ro_compat :: u32
  block_size :: u32
  sectors_per_block :: u32
  inodes_count :: u32
  first_ino :: u32
  inode_size :: u32
  inodes_per_group :: u32
  blocks_per_group :: u32
  desc_size :: u32
  first_data_block :: u32
  blocks_count :: u64
  free_blocks_count :: u64
  free_inodes_count :: u32
  groups_count :: u32
  source_dev_kind :: dev_kind
  source_lba_start :: u64
  source_lba_count :: u64

record jlog_rec =
  rec_byte_off :: u64
  rec_len :: u32
  rec_data_off :: u32

record ext4_journal =
  jl_enabled :: bool
  jl_tx_active :: bool
  jl_replaying :: bool
  jl_seq :: u32
  jl_base_off :: u64
  jl_area_bytes :: u64
  jl_recs :: "jlog_rec list" \<comment> \<open>recs[0 .. rec_count)\<close>
  jl_data :: "u8 list" \<comment> \<open>data[0 .. data_bytes)\<close>

record jbd2_dirty = \<comment> \<open>ext4_jbd2_dirty_t and ext4_jbd2_pending_block_t\<close>
  d_fs_block :: u64
  d_data :: "u8 list"

record jbd2_pending =
  p_seq :: u32
  p_start :: u32
  p_end :: u32
  p_dirty :: "jbd2_dirty list"

record jbd2_update =
  u_fs_block :: u64
  u_j_block :: u32
  u_seq :: u32
  u_escape :: bool

record jbd2_revoke =
  r_fs_block :: u64
  r_seq :: u32

record ext4_jbd2 =
  jb_enabled :: bool
  jb_write_ready :: bool
  jb_tx_active :: bool
  jb_io_bypass :: bool
  jb_feat_64bit :: bool
  jb_csum_v2 :: bool
  jb_csum_v3 :: bool
  jb_block_size :: u32
  jb_maxlen :: u32
  jb_first :: u32
  jb_sequence :: u32
  jb_start :: u32
  jb_head :: u32
  jb_tail :: u32
  jb_checksum_type :: u32
  jb_feature_compat :: u32
  jb_feature_incompat :: u32
  jb_uuid :: "u8 list"
  jb_csum_seed :: u32
  jb_last_checkpoint_tick :: u64
  jb_journal_meta :: ext4_meta
  jb_tx_dirty :: "jbd2_dirty list" \<comment> \<open>tx_dirty[0 .. tx_dirty_count), all of them used\<close>
  jb_tx_revokes :: "u64 list"
  jb_tx_revoke_overflow :: bool
  jb_tx_enospc :: bool
  jb_last_enospc_log_tick :: u64
  jb_pending :: "jbd2_pending list" \<comment> \<open>pending[0 .. pending_count), all of them used\<close>

record 'd ext4 =
  cache :: bcache
  dev :: 'd
  ticks :: u64
  fs :: ext4_fs
  jl :: ext4_journal
  jb :: ext4_jbd2
  last_errno :: int

text \<open>Updates of the parts.\<close>

definition upd_fs :: "(ext4_fs \<Rightarrow> ext4_fs) \<Rightarrow> 'd ext4 \<Rightarrow> 'd ext4" where
  "upd_fs f s = s\<lparr>fs := f (fs s)\<rparr>"

definition upd_jl :: "(ext4_journal \<Rightarrow> ext4_journal) \<Rightarrow> 'd ext4 \<Rightarrow> 'd ext4" where
  "upd_jl f s = s\<lparr>jl := f (jl s)\<rparr>"

definition upd_jb :: "(ext4_jbd2 \<Rightarrow> ext4_jbd2) \<Rightarrow> 'd ext4 \<Rightarrow> 'd ext4" where
  "upd_jb f s = s\<lparr>jb := f (jb s)\<rparr>"

definition set_errno :: "int \<Rightarrow> 'd ext4 \<Rightarrow> 'd ext4" where
  "set_errno e s = s\<lparr>last_errno := e\<rparr>"

lemma upd_simps [simp]:
  "cache (upd_fs f s) = cache s" "dev (upd_fs f s) = dev s" "fs (upd_fs f s) = f (fs s)"
  "jl (upd_fs f s) = jl s" "jb (upd_fs f s) = jb s"
  "cache (upd_jl g s) = cache s" "dev (upd_jl g s) = dev s" "fs (upd_jl g s) = fs s"
  "jl (upd_jl g s) = g (jl s)" "jb (upd_jl g s) = jb s"
  "cache (upd_jb h s) = cache s" "dev (upd_jb h s) = dev s" "fs (upd_jb h s) = fs s"
  "jl (upd_jb h s) = jl s" "jb (upd_jb h s) = h (jb s)"
  "cache (set_errno e s) = cache s" "dev (set_errno e s) = dev s" "fs (set_errno e s) = fs s"
  "jl (set_errno e s) = jl s" "jb (set_errno e s) = jb s"
  "ticks (upd_fs f s) = ticks s" "ticks (upd_jl g s) = ticks s" "ticks (upd_jb h s) = ticks s"
  "ticks (set_errno e s) = ticks s"
  by (simp_all add: upd_fs_def upd_jl_def upd_jb_def set_errno_def)

section \<open>Reaching the disk\<close>

definition set_disk :: "bcache \<times> 'd \<Rightarrow> 'd ext4 \<Rightarrow> 'd ext4" where
  "set_disk st s = s\<lparr>cache := fst st, dev := snd st\<rparr>"

lemma set_disk_simps [simp]:
  "cache (set_disk st s) = fst st" "dev (set_disk st s) = snd st" "fs (set_disk st s) = fs s"
  "jl (set_disk st s) = jl s" "jb (set_disk st s) = jb s" "ticks (set_disk st s) = ticks s"
  "last_errno (set_disk st s) = last_errno s"
  by (simp_all add: set_disk_def)

definition ext4_attach_source_dev :: "'d blkdrv \<Rightarrow> ('d ext4, unit) op" where
  "ext4_attach_source_dev D s =
     (if source_dev_kind (fs s) = DEV_NONE \<or> source_lba_count (fs s) = 0 then (None, s)
      else case block_cache_attach_inode D
             (Some (source_dev_kind (fs s), source_lba_start (fs s), source_lba_count (fs s))) (cache s) (dev s)
        of (r, c, d) \<Rightarrow> (if r = 0 then Some () else None, set_disk (c, d) s))"

text \<open>A failed read returns no bytes: no caller looks at the buffer then.\<close>

definition ext4_raw_read_bytes :: "'d blkdrv \<Rightarrow> u64 \<Rightarrow> nat \<Rightarrow> ('d ext4, u8 list) op" where
  "ext4_raw_read_bytes D byte_off len =
     seq (ext4_attach_source_dev D) (\<lambda>_ s.
       case raw_read_loop (cache_rd1 D) byte_off len (cache s, dev s) of (ok, bs, st) \<Rightarrow>
         (if ok then Some bs else None, set_disk st s))"

definition ext4_raw_write_bytes :: "'d blkdrv \<Rightarrow> u64 \<Rightarrow> u8 list \<Rightarrow> ('d ext4, unit) op" where
  "ext4_raw_write_bytes D byte_off src =
     seq (ext4_attach_source_dev D) (\<lambda>_ s.
       case raw_write_loop (cache_rd1 D) (cache_wr1 D) byte_off src (cache s, dev s) of (ok, st) \<Rightarrow>
         (if ok then Some () else None, set_disk st s))"

definition e4_flush :: "'d blkdrv \<Rightarrow> ('d ext4, unit) op" where \<comment> \<open>block_cache_flush() == 0\<close>
  "e4_flush D s = (case block_cache_flush D (cache s) (dev s) of (r, c, d) \<Rightarrow>
     (if r = 0 then Some () else None, set_disk (c, d) s))"

definition ext4_ordered_checkpoint :: "'d blkdrv \<Rightarrow> ('d ext4, unit) op" where
  "ext4_ordered_checkpoint D = e4_flush D"

definition ext4_last_error :: "'d ext4 \<Rightarrow> int" where
  "ext4_last_error s = last_errno s"

section \<open>What the disk operations do to the bytes of the partition\<close>

definition src_dev :: "ext4_fs \<Rightarrow> dev_kind \<times> u64 \<times> u64 \<times> bool" where
  "src_dev f = (source_dev_kind f, source_lba_start f, source_lba_count f, True)"

text \<open>\<open>disk_ok\<close>: the cache is coherent and attached to the partition of the file system.
  \<open>e4_bytes\<close>: the bytes of the partition as the cache shows them; \<open>medium\<close>: as the device holds
  them.\<close>

definition disk_ok :: "'d blkdrv \<Rightarrow> ('d \<Rightarrow> u64 \<Rightarrow> sector) \<Rightarrow> 'd ext4 \<Rightarrow> bool" where
  "disk_ok D media s \<longleftrightarrow> bc_ok D media (src_dev (fs s)) (cache s, dev s)
     \<and> source_dev_kind (fs s) \<noteq> DEV_NONE \<and> source_lba_count (fs s) \<noteq> 0"

definition e4_bytes :: "('d \<Rightarrow> u64 \<Rightarrow> sector) \<Rightarrow> 'd ext4 \<Rightarrow> u64 \<Rightarrow> u8" where
  "e4_bytes media s = byte_at (st_view media (cache s, dev s))"

definition medium :: "('d \<Rightarrow> u64 \<Rightarrow> sector) \<Rightarrow> 'd ext4 \<Rightarrow> u64 \<Rightarrow> u8" where
  "medium media s = byte_at (\<lambda>l. media (dev s) (source_lba_start (fs s) + l))"

text \<open>Everything but the disk.\<close>

definition same_rest :: "'d ext4 \<Rightarrow> 'd ext4 \<Rightarrow> bool" where
  "same_rest s s' \<longleftrightarrow> fs s' = fs s \<and> jl s' = jl s \<and> jb s' = jb s \<and> ticks s' = ticks s
     \<and> last_errno s' = last_errno s"

lemma same_rest_refl [simp]: "same_rest s s" by (simp add: same_rest_def)

lemma same_rest_set_disk [simp]: "same_rest s (set_disk st s)" by (simp add: same_rest_def)

lemma same_rest_trans: "same_rest a b \<Longrightarrow> same_rest b c \<Longrightarrow> same_rest a c"
  by (simp add: same_rest_def)

lemma disk_upd [simp]:
  "e4_bytes media (upd_jl g s) = e4_bytes media s" "disk_ok D media (upd_jl g s) = disk_ok D media s"
  "e4_bytes media (upd_jb h s) = e4_bytes media s" "disk_ok D media (upd_jb h s) = disk_ok D media s"
  "e4_bytes media (set_errno e s) = e4_bytes media s" "disk_ok D media (set_errno e s) = disk_ok D media s"
  "medium media (upd_jl g s) = medium media s" "medium media (upd_jb h s) = medium media s"
  "medium media (set_errno e s) = medium media s"
  by (simp_all add: e4_bytes_def disk_ok_def medium_def)

lemma attach_spec:
  assumes ok: "disk_ok D media s" and at: "ext4_attach_source_dev D s = (r, s')"
  shows "disk_ok D media s'" "same_rest s s'" "e4_bytes media s' = e4_bytes media s"
proof -
  have b: "bc_ok D media (src_dev (fs s)) (cache s, dev s)"
    and nz: "source_dev_kind (fs s) \<noteq> DEV_NONE" "source_lba_count (fs s) \<noteq> 0"
    using ok by (auto simp: disk_ok_def)
  have c: "cache_ready_flag (cache s)" "active_dev_kind (cache s) = source_dev_kind (fs s)"
    "active_lba_base (cache s) = source_lba_start (fs s)" "active_lba_count (cache s) = source_lba_count (fs s)"
    and drv: "driver_ok D (source_dev_kind (fs s)) media"
    using b by (auto simp: bc_ok_def bc_dev_def src_dev_def)
  obtain q d0 where rdy: "backend_ready D (source_dev_kind (fs s)) (dev s) = (q, d0)" by fastforce
  then have m: "media d0 = media (dev s)" by (rule driver_ready [OF drv])
  have s': "s' = set_disk (cache s, d0) s"
    using at nz c rdy by (auto simp: ext4_attach_source_dev_def block_cache_attach_inode_def split: if_splits)
  show "same_rest s s'" by (simp add: s')
  show "disk_ok D media s'" "e4_bytes media s' = e4_bytes media s"
    using ok m by (simp_all add: s' disk_ok_def e4_bytes_def bc_ok_def st_view_def)
qed

lemma raw_read_spec:
  assumes ok: "disk_ok D media s" and rd: "ext4_raw_read_bytes D off n s = (r, s')"
  shows "disk_ok D media s'" "same_rest s s'" "e4_bytes media s' = e4_bytes media s"
    "r = Some bs \<Longrightarrow> bs = get_bytes (e4_bytes media s) off n"
proof -
  have "disk_ok D media s' \<and> same_rest s s' \<and> e4_bytes media s' = e4_bytes media s
    \<and> (r = Some bs \<longrightarrow> bs = get_bytes (e4_bytes media s) off n)"
    using rd unfolding ext4_raw_read_bytes_def
  proof (cases rule: seq_elim)
    case (fails s1)
    then show ?thesis using attach_spec [OF ok] by auto
  next
    case (goes x s1)
    note a = attach_spec [OF ok goes(1)]
    obtain q b st where l: "raw_read_loop (cache_rd1 D) off n (cache s1, dev s1) = (q, b, st)"
      by (metis prod_cases3)
    have s': "s' = set_disk st s1" "r = (if q then Some b else None)" using goes(2) l by auto
    have "bc_ok D media (src_dev (fs s1)) (cache s1, dev s1)" using a(1) by (simp add: disk_ok_def)
    from bc.raw_read [OF this l] show ?thesis
      using a s' by (auto simp: disk_ok_def e4_bytes_def same_rest_def)
  qed
  then show "disk_ok D media s'" "same_rest s s'" "e4_bytes media s' = e4_bytes media s"
    "r = Some bs \<Longrightarrow> bs = get_bytes (e4_bytes media s) off n" by auto
qed

lemma raw_write_spec:
  assumes ok: "disk_ok D media s" and wr: "ext4_raw_write_bytes D off src s = (r, s')"
    and len: "length src < 2 ^ 64"
  shows "disk_ok D media s'" "same_rest s s'"
    "r = Some () \<Longrightarrow> e4_bytes media s' = put_bytes off src (e4_bytes media s)"
    "\<exists>k \<le> length src. e4_bytes media s' = put_bytes off (take k src) (e4_bytes media s)"
proof -
  have "disk_ok D media s' \<and> same_rest s s' \<and> (\<exists>k \<le> length src. (r = Some () \<longrightarrow> k = length src)
      \<and> e4_bytes media s' = put_bytes off (take k src) (e4_bytes media s))"
    using wr unfolding ext4_raw_write_bytes_def
  proof (cases rule: seq_elim)
    case (fails s1)
    then show ?thesis using attach_spec [OF ok] by (auto intro: exI [of _ 0])
  next
    case (goes x s1)
    note a = attach_spec [OF ok goes(1)]
    obtain q st where l: "raw_write_loop (cache_rd1 D) (cache_wr1 D) off src (cache s1, dev s1) = (q, st)"
      by (meson surj_pair)
    have s': "s' = set_disk st s1" "r = (if q then Some () else None)" using goes(2) l by auto
    have "bc_ok D media (src_dev (fs s1)) (cache s1, dev s1)" using a(1) by (simp add: disk_ok_def)
    from bc.raw_write [OF this l len] show ?thesis
      using a s' by (auto simp: disk_ok_def e4_bytes_def same_rest_def)
  qed
  then show "disk_ok D media s'" "same_rest s s'"
    "r = Some () \<Longrightarrow> e4_bytes media s' = put_bytes off src (e4_bytes media s)"
    "\<exists>k \<le> length src. e4_bytes media s' = put_bytes off (take k src) (e4_bytes media s)" by auto
qed

lemma flush_spec:
  assumes ok: "disk_ok D media s" and fl: "e4_flush D s = (r, s')"
  shows "disk_ok D media s'" "same_rest s s'" "e4_bytes media s' = e4_bytes media s"
    "r = Some () \<Longrightarrow> medium media s' = e4_bytes media s"
proof -
  obtain q c d where f: "block_cache_flush D (cache s) (dev s) = (q, c, d)" by (metis prod_cases3)
  have s': "s' = set_disk (c, d) s" "r = (if q = 0 then Some () else None)"
    using fl f by (auto simp: e4_flush_def)
  have h: "driver_ok D (active_dev_kind (cache s)) media" "cache_inv (media (dev s)) (cache s)"
    and b: "bc_ok D media (src_dev (fs s)) (cache s, dev s)"
    using ok by (auto simp: disk_ok_def bc_ok_def)
  note sp = block_cache_flush_spec [OF h f]
  have base: "active_lba_base c = source_lba_start (fs s)"
    using sp(1) b by (auto simp: keeps_def same_dev_def bc_ok_def bc_dev_def src_dev_def)
  show "disk_ok D media s'" "same_rest s s'" "e4_bytes media s' = e4_bytes media s"
    using keeps_ok [OF sp(1) b] ok by (auto simp: s' disk_ok_def e4_bytes_def)
  assume "r = Some ()"
  then have "bc_view (media d) c l = media d (active_lba_base c + l)" for l
    using sp s' by (intro clean_view) (auto simp: keeps_def split: if_splits)
  then have "(\<lambda>l. media d (source_lba_start (fs s) + l)) = bc_view (media (dev s)) (cache s)"
    using sp(1) base by (auto simp: keeps_def)
  then show "medium media s' = e4_bytes media s" by (simp add: medium_def e4_bytes_def s' st_view_def)
qed

section \<open>Success on a device that serves its transfers\<close>

definition disk_live :: "'d blkdrv \<Rightarrow> 'd ext4 \<Rightarrow> bool" where
  "disk_live D s \<longleftrightarrow> bc_live D (src_dev (fs s)) (cache s, dev s)"

definition in_part :: "'d ext4 \<Rightarrow> u64 \<Rightarrow> nat \<Rightarrow> bool" where \<comment> \<open>a byte range inside the partition\<close>
  "in_part s off n \<longleftrightarrow> unat off + n \<le> 512 * unat (source_lba_count (fs s))"

lemma disk_live_upd [simp]:
  "disk_live D (upd_jl g s) = disk_live D s" "disk_live D (upd_jb h s) = disk_live D s"
  "disk_live D (set_errno e s) = disk_live D s"
  "in_part (upd_jl g s) = in_part s" "in_part (upd_jb h s) = in_part s" "in_part (set_errno e s) = in_part s"
  by (simp_all add: disk_live_def in_part_def fun_eq_iff)

lemma in_part_rest: "same_rest s s' \<Longrightarrow> in_part s' = in_part s"
  by (simp add: in_part_def same_rest_def fun_eq_iff)

lemma attach_live: "disk_live D s \<Longrightarrow> \<exists>s'. ext4_attach_source_dev D s = (Some (), s') \<and> disk_live D s' \<and> same_rest s s'"
proof -
  assume lv: "disk_live D s"
  then have b: "bc_dev (cache s) = src_dev (fs s)" "driver_present D (source_dev_kind (fs s))"
    "source_dev_kind (fs s) \<noteq> DEV_NONE" "source_lba_count (fs s) \<noteq> 0"
    by (auto simp: disk_live_def bc_live_def bc_dev_def src_dev_def)
  then obtain d0 where rdy: "backend_ready D (source_dev_kind (fs s)) (dev s) = (True, d0)"
    unfolding driver_present_def by (metis prod.collapse)
  then have "ext4_attach_source_dev D s = (Some (), set_disk (cache s, d0) s)"
    using b by (simp add: ext4_attach_source_dev_def block_cache_attach_inode_def bc_dev_def src_dev_def)
  then show ?thesis using lv by (auto simp: disk_live_def bc_live_def)
qed

lemma e4_read_live:
  assumes lv: "disk_live D s" and r: "in_part s off n"
  shows "\<exists>bs s'. ext4_raw_read_bytes D off n s = (Some bs, s') \<and> disk_live D s' \<and> same_rest s s'"
proof -
  obtain s1 where a: "ext4_attach_source_dev D s = (Some (), s1)" "disk_live D s1" "same_rest s s1"
    using attach_live [OF lv] by blast
  have c: "unat off + n \<le> 512 * unat (fst (snd (snd (src_dev (fs s1)))))"
    using r a(3) by (simp add: in_part_def same_rest_def src_dev_def)
  obtain bs st where "raw_read_loop (cache_rd1 D) off n (cache s1, dev s1) = (True, bs, st)"
    "bc_live D (src_dev (fs s1)) st"
    using bcl.raw_read_live [OF a(2) [unfolded disk_live_def] c] by blast
  then show ?thesis
    using a by (cases st) (simp add: ext4_raw_read_bytes_def seq_def disk_live_def same_rest_def)
qed

lemma e4_write_live:
  assumes lv: "disk_live D s" and r: "in_part s off (length src)"
  shows "\<exists>s'. ext4_raw_write_bytes D off src s = (Some (), s') \<and> disk_live D s' \<and> same_rest s s'"
proof -
  obtain s1 where a: "ext4_attach_source_dev D s = (Some (), s1)" "disk_live D s1" "same_rest s s1"
    using attach_live [OF lv] by blast
  have c: "unat off + length src \<le> 512 * unat (fst (snd (snd (src_dev (fs s1)))))"
    using r a(3) by (simp add: in_part_def same_rest_def src_dev_def)
  obtain st where "raw_write_loop (cache_rd1 D) (cache_wr1 D) off src (cache s1, dev s1) = (True, st)"
    "bc_live D (src_dev (fs s1)) st"
    using bcl.raw_write_live [OF a(2) [unfolded disk_live_def] c] by blast
  then show ?thesis
    using a by (cases st) (simp add: ext4_raw_write_bytes_def seq_def disk_live_def same_rest_def)
qed

lemma e4_flush_live: "disk_live D s \<Longrightarrow> \<exists>s'. e4_flush D s = (Some (), s') \<and> disk_live D s' \<and> same_rest s s'"
  using block_cache_flush_live [of D "src_dev (fs s)" "cache s" "dev s"]
  by (auto simp: e4_flush_def disk_live_def)

end
