(* ===== verification/Ext4Disk.thy ===== *)
theory Ext4Disk
  imports Ext4State
begin

text \<open>
  Byte access to the mounted partition inside and outside transactions (\<^verbatim>\<open>src/kernel/ext4.c\<close>,
  \<^verbatim>\<open>ext4_disk_read_bytes\<close> and \<^verbatim>\<open>ext4_disk_write_bytes\<close>): the redo log's records, the overlays of the
  blocks a JBD2 transaction holds or has committed and not yet checkpointed, and the block
  functions on top of them.
\<close>

section \<open>The redo log on disk\<close>

abbreviation (input) EXT4_JLOG_MAGIC :: u32 where "EXT4_JLOG_MAGIC \<equiv> 0x46554A31"
abbreviation (input) EXT4_JLOG_STATE_CLEAN :: u32 where "EXT4_JLOG_STATE_CLEAN \<equiv> 0"
abbreviation (input) EXT4_JLOG_STATE_PREP :: u32 where "EXT4_JLOG_STATE_PREP \<equiv> 1"
abbreviation (input) EXT4_JLOG_STATE_COMMIT :: u32 where "EXT4_JLOG_STATE_COMMIT \<equiv> 2"
abbreviation (input) EXT4_JLOG_REGION_BYTES :: u64 where "EXT4_JLOG_REGION_BYTES \<equiv> 262144"
abbreviation (input) EXT4_JLOG_MAX_RECORDS :: nat where "EXT4_JLOG_MAX_RECORDS \<equiv> 512"
abbreviation (input) EXT4_JLOG_DATA_BYTES :: nat where "EXT4_JLOG_DATA_BYTES \<equiv> 196608"

text \<open>The structures as they lie in memory: \<^verbatim>\<open>ext4_jlog_hdr_t\<close> (64 bytes) and
  \<^verbatim>\<open>ext4_jlog_rec_t\<close> (16 bytes), packed and little-endian.\<close>

record jlog_hdr =
  h_magic :: u32
  h_state :: u32
  h_seq :: u32
  h_rec_count :: u32
  h_data_bytes :: u32

definition hdr_bytes :: "jlog_hdr \<Rightarrow> u8 list" where
  "hdr_bytes h = le32 (h_magic h) @ le32 (h_state h) @ le32 (h_seq h) @ le32 (h_rec_count h)
     @ le32 (h_data_bytes h) @ replicate 44 0"

definition hdr_of :: "u8 list \<Rightarrow> jlog_hdr" where
  "hdr_of b = \<lparr>h_magic = rd_le32 b 0, h_state = rd_le32 b 4, h_seq = rd_le32 b 8,
     h_rec_count = rd_le32 b 12, h_data_bytes = rd_le32 b 16\<rparr>"

definition rec_bytes :: "jlog_rec \<Rightarrow> u8 list" where
  "rec_bytes r = le64 (rec_byte_off r) @ le32 (rec_len r) @ le32 (rec_data_off r)"

definition rec_of :: "u8 list \<Rightarrow> jlog_rec" where
  "rec_of b = \<lparr>rec_byte_off = rd_le64 b 0, rec_len = rd_le32 b 8, rec_data_off = rd_le32 b 12\<rparr>"

definition ext4_journal_write_header :: "'d blkdrv \<Rightarrow> u32 \<Rightarrow> u32 \<Rightarrow> u32 \<Rightarrow> u32 \<Rightarrow> ('d ext4, unit) op" where
  "ext4_journal_write_header D state rec_count data_bytes seq_no s =
     (if \<not> jl_enabled (jl s) \<or> jl_area_bytes (jl s) < EXT4_JLOG_REGION_BYTES then (Some (), s)
      else ext4_raw_write_bytes D (jl_base_off (jl s))
             (hdr_bytes \<lparr>h_magic = EXT4_JLOG_MAGIC, h_state = state, h_seq = seq_no,
                h_rec_count = rec_count, h_data_bytes = data_bytes\<rparr>) s)"

definition ext4_journal_clear :: "'d blkdrv \<Rightarrow> ('d ext4, unit) op" where
  "ext4_journal_clear D s =
     (if \<not> jl_enabled (jl s) then (Some (), s)
      else seq (ext4_journal_write_header D EXT4_JLOG_STATE_CLEAN 0 0 (jl_seq (jl s)))
             (\<lambda>_. e4_flush D) s)"

section \<open>Reading through the overlays\<close>

text \<open>\<open>overlay req_start buf blk_start blk_len src\<close>: the copy the three overlays make into a buffer
  that holds the bytes from \<open>req_start\<close> on, for a source that covers \<open>blk_len\<close> bytes from
  \<open>blk_start\<close> on.\<close>

definition overlay :: "u64 \<Rightarrow> u64 \<Rightarrow> u64 \<Rightarrow> u8 list \<Rightarrow> u8 list \<Rightarrow> u8 list" where
  "overlay req_start blk_start blk_len src buf =
     (let req_end = req_start + of_nat (length buf);
          blk_end = blk_start + blk_len
      in if blk_end \<le> req_start \<or> blk_start \<ge> req_end then buf
         else
           let ov_start = (if blk_start > req_start then blk_start else req_start);
               ov_end = (if blk_end < req_end then blk_end else req_end);
               ov_len = unat (ov_end - ov_start);
               dst_off = unat (ov_start - req_start);
               src_off = unat (ov_start - blk_start)
           in put_at dst_off (take ov_len (drop src_off src)) buf)"

definition overlay_dirty :: "ext4_jbd2 \<Rightarrow> u64 \<Rightarrow> jbd2_dirty \<Rightarrow> u8 list \<Rightarrow> u8 list" where
  "overlay_dirty b req_start d buf =
     overlay req_start (d_fs_block d * ucast (jb_block_size b)) (ucast (jb_block_size b)) (d_data d) buf"

definition ext4_jbd2_tx_overlay_read :: "ext4_jbd2 \<Rightarrow> u64 \<Rightarrow> u8 list \<Rightarrow> u8 list option" where
  "ext4_jbd2_tx_overlay_read b byte_off buf =
     (if \<not> jb_tx_active b \<or> buf = [] then Some buf
      else if byte_off + of_nat (length buf) < byte_off then None
      else Some (fold (overlay_dirty b byte_off) (jb_tx_dirty b) buf))"

definition ext4_jbd2_pending_overlay_read :: "ext4_jbd2 \<Rightarrow> u64 \<Rightarrow> u8 list \<Rightarrow> u8 list option" where
  "ext4_jbd2_pending_overlay_read b byte_off buf =
     (if \<not> jb_enabled b \<or> jb_pending b = [] \<or> buf = [] \<or> jb_io_bypass b then Some buf
      else if byte_off + of_nat (length buf) < byte_off then None
      else Some (fold (\<lambda>p. fold (overlay_dirty b byte_off) (p_dirty p)) (jb_pending b) buf))"

definition rec_src :: "ext4_journal \<Rightarrow> jlog_rec \<Rightarrow> u8 list" where
  "rec_src j r = take (unat (rec_len r)) (drop (unat (rec_data_off r)) (jl_data j))"

definition overlay_rec :: "ext4_journal \<Rightarrow> u64 \<Rightarrow> jlog_rec \<Rightarrow> u8 list \<Rightarrow> u8 list" where
  "overlay_rec j req_start r buf =
     (let rec_start = rec_byte_off r; rec_end = rec_start + ucast (rec_len r)
      in if rec_end < rec_start then buf
         else overlay req_start rec_start (ucast (rec_len r)) (rec_src j r) buf)"

definition ext4_disk_read_bytes :: "'d blkdrv \<Rightarrow> u64 \<Rightarrow> nat \<Rightarrow> ('d ext4, u8 list) op" where
  "ext4_disk_read_bytes D byte_off len =
     seq (ext4_raw_read_bytes D byte_off len) (\<lambda>buf s.
       case (if jb_enabled (jb s) then ext4_jbd2_pending_overlay_read (jb s) byte_off buf else Some buf) of
         None \<Rightarrow> (None, s)
       | Some buf \<Rightarrow>
           (case (if jb_enabled (jb s) \<and> jb_tx_active (jb s) \<and> \<not> jb_io_bypass (jb s)
                  then ext4_jbd2_tx_overlay_read (jb s) byte_off buf else Some buf) of
              None \<Rightarrow> (None, s)
            | Some buf \<Rightarrow>
                if \<not> jl_enabled (jl s) \<or> \<not> jl_tx_active (jl s) \<or> len = 0 then (Some buf, s)
                else if byte_off + of_nat len < byte_off then (None, s)
                else (Some (fold (overlay_rec (jl s) byte_off) (jl_recs (jl s)) buf), s)))"

section \<open>Writing inside transactions\<close>

abbreviation (input) EXT4_JBD2_TX_MAX_BLOCKS :: nat where "EXT4_JBD2_TX_MAX_BLOCKS \<equiv> 256"
abbreviation (input) EXT4_JBD2_TX_MAX_REVOKES :: nat where "EXT4_JBD2_TX_MAX_REVOKES \<equiv> 512"

text \<open>The index of a block in the transaction's list (-1 is \<open>None\<close>).\<close>

fun find_dirty_in :: "u64 \<Rightarrow> jbd2_dirty list \<Rightarrow> nat option" where
  "find_dirty_in fs_block [] = None"
| "find_dirty_in fs_block (d # ds) =
     (if d_fs_block d = fs_block then Some 0 else map_option Suc (find_dirty_in fs_block ds))"

definition ext4_jbd2_find_dirty :: "u64 \<Rightarrow> 'd ext4 \<Rightarrow> nat option" where
  "ext4_jbd2_find_dirty fs_block s = find_dirty_in fs_block (jb_tx_dirty (jb s))"

text \<open>The buffer of the read is the new entry's own data, so the overlay copies the new entry onto
  itself; the other entries are those of the list before.\<close>

definition ext4_jbd2_alloc_dirty :: "'d blkdrv \<Rightarrow> u64 \<Rightarrow> ('d ext4, nat) op" where
  "ext4_jbd2_alloc_dirty D fs_block s =
     (let n = length (jb_tx_dirty (jb s)) in
      if n \<ge> EXT4_JBD2_TX_MAX_BLOCKS then (None, upd_jb (\<lambda>b. b\<lparr>jb_tx_enospc := True\<rparr>) s)
      else
        seq (ext4_disk_read_bytes D (fs_block * ucast (jb_block_size (jb s))) (unat (jb_block_size (jb s))))
          (\<lambda>data s2. (Some n, upd_jb (\<lambda>b. b\<lparr>jb_tx_dirty := jb_tx_dirty b
                                        @ [\<lparr>d_fs_block = fs_block, d_data = data\<rparr>]\<rparr>) s2)) s)"

definition ext4_jbd2_remove_revoke :: "u64 \<Rightarrow> ext4_jbd2 \<Rightarrow> ext4_jbd2" where
  "ext4_jbd2_remove_revoke fs_block b = b\<lparr>jb_tx_revokes := remove1 fs_block (jb_tx_revokes b)\<rparr>"

fun remove_dirty_in :: "u64 \<Rightarrow> jbd2_dirty list \<Rightarrow> jbd2_dirty list" where
  "remove_dirty_in fs_block [] = []"
| "remove_dirty_in fs_block (d # ds) =
     (if d_fs_block d = fs_block then ds else d # remove_dirty_in fs_block ds)"

definition ext4_jbd2_remove_dirty :: "u64 \<Rightarrow> ext4_jbd2 \<Rightarrow> ext4_jbd2" where
  "ext4_jbd2_remove_dirty fs_block b = b\<lparr>jb_tx_dirty := remove_dirty_in fs_block (jb_tx_dirty b)\<rparr>"

definition patch_dirty :: "nat \<Rightarrow> nat \<Rightarrow> u8 list \<Rightarrow> ext4_jbd2 \<Rightarrow> ext4_jbd2" where
  "patch_dirty idx in_block bs b = b\<lparr>jb_tx_dirty := (jb_tx_dirty b)[idx :=
     (jb_tx_dirty b ! idx)\<lparr>d_data := put_at in_block bs (d_data (jb_tx_dirty b ! idx))\<rparr>]\<rparr>"

text \<open>The copy loop of \<^verbatim>\<open>ext4_jbd2_tx_write_bytes\<close>. The journal is never enabled with a block size
  of 0 (\<^verbatim>\<open>ext4_jbd2_load_state\<close> compares it with the file system's), so the loop advances.\<close>

function tx_write_loop :: "'d blkdrv \<Rightarrow> u64 \<Rightarrow> u8 list \<Rightarrow> ('d ext4, unit) op" where
  "tx_write_loop D byte_off src s =
     (if src = [] then (Some (), s)
      else
        let bs = ucast (jb_block_size (jb s)) :: u64;
            fs_block = byte_off div bs;
            in_block = unat (byte_off mod bs);
            chunk = min (unat (jb_block_size (jb s)) - in_block) (length src)
        in if fs_block \<ge> blocks_count (fs s) \<or> jb_block_size (jb s) = 0 then (None, s)
           else
             case (case ext4_jbd2_find_dirty fs_block s of
                     Some i \<Rightarrow> (Some i, s)
                   | None \<Rightarrow> ext4_jbd2_alloc_dirty D fs_block s) of
               (None, s1) \<Rightarrow> (None, s1)
             | (Some idx, s1) \<Rightarrow>
                 tx_write_loop D (byte_off + of_nat chunk) (drop chunk src)
                   (upd_jb (patch_dirty idx in_block (take chunk src) \<circ> ext4_jbd2_remove_revoke fs_block) s1))"
  by pat_completeness auto
termination
proof (relation "measure (\<lambda>(_, _, src, _). length src)")
  fix D :: "'d blkdrv" and byte_off bs fs_block :: u64 and src :: "u8 list" and s s1 :: "'d ext4" and in_block chunk idx :: nat
  assume "src \<noteq> []" and d: "bs = ucast (jb_block_size (jb s))" "in_block = unat (byte_off mod bs)"
    "chunk = min (unat (jb_block_size (jb s)) - in_block) (length src)"
    and nz: "\<not> (blocks_count (fs s) \<le> fs_block \<or> jb_block_size (jb s) = 0)"
  have "unat bs = unat (jb_block_size (jb s))" "bs \<noteq> 0"
    using nz by (simp_all add: d(1) unat_eq_0 [symmetric] del: unat_eq_0)
  then have "in_block < unat (jb_block_size (jb s))"
    by (metis d(2) mod_less_divisor unat_gt_0 unat_mod)
  then show "((D, byte_off + of_nat chunk, drop chunk src,
      upd_jb (patch_dirty idx in_block (take chunk src) \<circ> ext4_jbd2_remove_revoke fs_block) s1),
      D, byte_off, src, s) \<in> measure (\<lambda>(_, _, src, _). length src)"
    using \<open>src \<noteq> []\<close> by (simp add: d(3))
qed simp

declare tx_write_loop.simps [simp del]

definition ext4_jbd2_tx_write_bytes :: "'d blkdrv \<Rightarrow> u64 \<Rightarrow> u8 list \<Rightarrow> ('d ext4, unit) op" where
  "ext4_jbd2_tx_write_bytes D byte_off buf s =
     (if \<not> jb_tx_active (jb s) then (None, s) else tx_write_loop D byte_off buf s)"

definition ext4_jbd2_note_revoke :: "u64 \<Rightarrow> 'd ext4 \<Rightarrow> 'd ext4" where
  "ext4_jbd2_note_revoke fs_block s =
     (if \<not> jb_enabled (jb s) \<or> \<not> jb_tx_active (jb s) \<or> fs_block \<ge> blocks_count (fs s) then s
      else upd_jb (\<lambda>b0.
        let b = ext4_jbd2_remove_dirty fs_block b0 in
        if fs_block \<in> set (jb_tx_revokes b) then b
        else if length (jb_tx_revokes b) < EXT4_JBD2_TX_MAX_REVOKES
        then b\<lparr>jb_tx_revokes := jb_tx_revokes b @ [fs_block]\<rparr>
        else b\<lparr>jb_tx_revoke_overflow := True\<rparr>) s)"

text \<open>Where the redo log keeps record \<open>i\<close> and the data at \<open>data_off\<close>.\<close>

definition rec_pos :: "ext4_journal \<Rightarrow> nat \<Rightarrow> u64" where
  "rec_pos j i = jl_base_off j + 64 + of_nat i * 16"

definition data_pos :: "ext4_journal \<Rightarrow> u32 \<Rightarrow> u64" where
  "data_pos j off = jl_base_off j + 64 + 512 * 16 + ucast off"

definition ext4_disk_write_bytes :: "'d blkdrv \<Rightarrow> u64 \<Rightarrow> u8 list \<Rightarrow> ('d ext4, unit) op" where
  "ext4_disk_write_bytes D byte_off buf s =
     (let j = jl s in
      if jb_enabled (jb s) \<and> jb_tx_active (jb s) \<and> \<not> jb_io_bypass (jb s)
      then ext4_jbd2_tx_write_bytes D byte_off buf s
      else if \<not> jl_enabled j \<or> \<not> jl_tx_active j \<or> jl_replaying j then ext4_raw_write_bytes D byte_off buf s
      else if buf = [] then (Some (), s)
      else if length (jl_recs j) \<ge> EXT4_JLOG_MAX_RECORDS then (None, s)
      else if length (jl_data j) + length buf > EXT4_JLOG_DATA_BYTES then (None, s)
      else
        let r = \<lparr>rec_byte_off = byte_off, rec_len = of_nat (length buf), rec_data_off = of_nat (length (jl_data j))\<rparr>
        in seq (ext4_raw_write_bytes D (rec_pos j (length (jl_recs j))) (rec_bytes r)) (\<lambda>_.
           seq (ext4_raw_write_bytes D (data_pos j (rec_data_off r)) buf) (\<lambda>_.
           modify (upd_jl (\<lambda>j. j\<lparr>jl_recs := jl_recs j @ [r], jl_data := jl_data j @ buf\<rparr>)))) s)"

definition ext4_read_block :: "'d blkdrv \<Rightarrow> u64 \<Rightarrow> ('d ext4, u8 list) op" where
  "ext4_read_block D block_no s =
     ext4_disk_read_bytes D (block_no * ucast (block_size (fs s))) (unat (block_size (fs s))) s"

text \<open>The callers pass buffers of 4096 bytes; \<open>block_size\<close> bytes are written.\<close>

definition ext4_write_block :: "'d blkdrv \<Rightarrow> u64 \<Rightarrow> u8 list \<Rightarrow> ('d ext4, unit) op" where
  "ext4_write_block D block_no buf s =
     ext4_disk_write_bytes D (block_no * ucast (block_size (fs s))) (take (unat (block_size (fs s))) buf) s"

section \<open>The overlays compute overwritten bytes\<close>

lemma unat_add_u64: "unat (a :: u64) + unat b < 2 ^ 64 \<Longrightarrow> unat (a + b) = unat a + unat b"
  using unat_add_small [of a "unat b"] by simp

lemma overlay_get:
  assumes req: "unat req + n < 2 ^ 64" and blk: "unat blk + unat blen < 2 ^ 64" and src: "length src = unat blen"
  shows "overlay req blk blen src (get_bytes f req n) = get_bytes (put_bytes blk src f) req n"
proof -
  have re: "unat (req + of_nat n) = unat req + n" using req by (rule unat_add_small)
  have be: "unat (blk + blen) = unat blk + unat blen" using blk by (rule unat_add_u64)
  have put: "put_bytes blk src f k = (if in_span blk (length src) k then src ! (unat k - unat blk) else f k)" for k
    using blk src by (intro put_bytes_span) simp
  show ?thesis
  proof (cases "blk + blen \<le> req \<or> blk \<ge> req + of_nat n")
    case True
    then have "unat blk + length src \<le> unat req \<or> unat req + n \<le> unat blk"
      by (simp add: word_le_nat_alt re be src)
    then have "get_bytes (put_bytes blk src f) req n = get_bytes f req n"
      using req blk src by (intro get_put_disjoint) auto
    then show ?thesis using True by (simp add: overlay_def Let_def)
  next
    case False
    define os where "os = max (unat blk) (unat req)"
    define oe where "oe = min (unat blk + unat blen) (unat req + n)"
    have lt: "os \<le> oe" "unat req \<le> os" "unat blk \<le> os" "oe \<le> unat req + n" "oe \<le> unat blk + unat blen"
      using False by (auto simp: word_le_nat_alt re be not_le os_def oe_def src)
    let ?s = "if blk > req then blk else req" and ?e = "if blk + blen < req + of_nat n then blk + blen else req + of_nat n"
    have u: "unat ?s = os" "unat ?e = oe"
      by (auto simp: os_def oe_def word_less_nat_alt re be)
    then have ov: "unat (?e - ?s) = oe - os" "unat (?s - req) = os - unat req" "unat (?s - blk) = os - unat blk"
      using lt by (simp_all add: unat_sub word_le_nat_alt)
    have o: "overlay req blk blen src (get_bytes f req n)
        = put_at (os - unat req) (take (oe - os) (drop (os - unat blk) src)) (get_bytes f req n)"
      using False ov by (simp add: overlay_def Let_def)
    have len: "length (take (oe - os) (drop (os - unat blk) src)) = oe - os" using lt src by simp
    show ?thesis
    proof (rule nth_equalityI)
      show "length (overlay req blk blen src (get_bytes f req n)) = length (get_bytes (put_bytes blk src f) req n)"
        using lt len by (simp add: o)
      fix i assume "i < length (overlay req blk blen src (get_bytes f req n))"
      then have i: "i < n" using lt len by (simp add: o)
      then have k: "unat (req + of_nat i) = unat req + i" using req by (intro unat_add_small) simp
      have "in_span blk (length src) (req + of_nat i) \<longleftrightarrow> os - unat req \<le> i \<and> i < oe - unat req"
        using i lt by (auto simp: in_span_def k os_def oe_def src)
      moreover have "os - unat req \<le> i \<Longrightarrow> os - unat blk + (i - (os - unat req)) = unat req + i - unat blk"
        using lt by simp
      ultimately show "overlay req blk blen src (get_bytes f req n) ! i = get_bytes (put_bytes blk src f) req n ! i"
        using i lt len src by (auto simp: o put_at_nth get_bytes_nth put k)
    qed
  qed
qed

section \<open>The contents of the file system as its code sees them\<close>

text \<open>The bytes after a transaction's redo records, and after the blocks of JBD2 transactions.\<close>

definition apply_recs :: "ext4_journal \<Rightarrow> (u64 \<Rightarrow> u8) \<Rightarrow> u64 \<Rightarrow> u8" where
  "apply_recs j = fold (\<lambda>r. put_bytes (rec_byte_off r) (rec_src j r)) (jl_recs j)"

definition put_dirty :: "u32 \<Rightarrow> jbd2_dirty \<Rightarrow> (u64 \<Rightarrow> u8) \<Rightarrow> u64 \<Rightarrow> u8" where
  "put_dirty bs d = put_bytes (d_fs_block d * ucast bs) (d_data d)"

definition jl_view :: "ext4_journal \<Rightarrow> (u64 \<Rightarrow> u8) \<Rightarrow> u64 \<Rightarrow> u8" where
  "jl_view j f = (if jl_enabled j \<and> jl_tx_active j then apply_recs j f else f)"

definition pend_view :: "ext4_jbd2 \<Rightarrow> (u64 \<Rightarrow> u8) \<Rightarrow> u64 \<Rightarrow> u8" where
  "pend_view b f = (if jb_enabled b \<and> \<not> jb_io_bypass b
     then fold (\<lambda>p. fold (put_dirty (jb_block_size b)) (p_dirty p)) (jb_pending b) f else f)"

definition tx_view :: "ext4_jbd2 \<Rightarrow> (u64 \<Rightarrow> u8) \<Rightarrow> u64 \<Rightarrow> u8" where
  "tx_view b f = (if jb_enabled b \<and> jb_tx_active b \<and> \<not> jb_io_bypass b
     then fold (put_dirty (jb_block_size b)) (jb_tx_dirty b) f else f)"

definition fs_view :: "('d \<Rightarrow> u64 \<Rightarrow> sector) \<Rightarrow> 'd ext4 \<Rightarrow> u64 \<Rightarrow> u8" where
  "fs_view media s = jl_view (jl s) (tx_view (jb s) (pend_view (jb s) (e4_bytes media s)))"

text \<open>Well-formed logs: the records' data is in the log and neither records nor blocks wrap
  around the address space.\<close>

definition rec_fits :: "ext4_journal \<Rightarrow> jlog_rec \<Rightarrow> bool" where
  "rec_fits j r \<longleftrightarrow> unat (rec_data_off r) + unat (rec_len r) \<le> length (jl_data j)
     \<and> unat (rec_byte_off r) + unat (rec_len r) < 2 ^ 64"

definition jl_ok :: "ext4_journal \<Rightarrow> bool" where
  "jl_ok j \<longleftrightarrow> length (jl_recs j) \<le> EXT4_JLOG_MAX_RECORDS \<and> length (jl_data j) \<le> EXT4_JLOG_DATA_BYTES
     \<and> (\<forall>r \<in> set (jl_recs j). rec_fits j r)"

definition dirty_ok :: "u32 \<Rightarrow> jbd2_dirty \<Rightarrow> bool" where
  "dirty_ok bs d \<longleftrightarrow> length (d_data d) = unat bs \<and> unat (d_fs_block d) * unat bs + unat bs < 2 ^ 64"

definition jb_ok :: "ext4_jbd2 \<Rightarrow> bool" where
  "jb_ok b \<longleftrightarrow> (\<forall>d \<in> set (jb_tx_dirty b). dirty_ok (jb_block_size b) d)
     \<and> (\<forall>p \<in> set (jb_pending b). \<forall>d \<in> set (p_dirty p). dirty_ok (jb_block_size b) d)"

lemma unat_mult_u64: "unat (a :: u64) * unat b < 2 ^ 64 \<Longrightarrow> unat (a * b) = unat a * unat b"
  by (subst unat_mult_lem [THEN iffD1]) simp_all

lemma dirty_base:
  "dirty_ok bs d \<Longrightarrow> unat (d_fs_block d * ucast bs) = unat (d_fs_block d) * unat bs"
  using unat_mult_u64 [of "d_fs_block d" "ucast bs"] by (simp add: dirty_ok_def)

lemma overlay_dirty_get:
  "dirty_ok (jb_block_size b) d \<Longrightarrow> unat req + n < 2 ^ 64 \<Longrightarrow>
     overlay_dirty b req d (get_bytes f req n) = get_bytes (put_dirty (jb_block_size b) d f) req n"
  unfolding overlay_dirty_def put_dirty_def
  by (intro overlay_get) (simp_all add: dirty_base, simp_all add: dirty_ok_def)

lemma overlay_dirties_get:
  "\<forall>d \<in> set ds. dirty_ok (jb_block_size b) d \<Longrightarrow> unat req + n < 2 ^ 64 \<Longrightarrow>
     fold (overlay_dirty b req) ds (get_bytes f req n) = get_bytes (fold (put_dirty (jb_block_size b)) ds f) req n"
  by (induction ds arbitrary: f) (simp_all add: overlay_dirty_get)

lemma overlay_pending_get:
  "\<forall>p \<in> set ps. \<forall>d \<in> set (p_dirty p). dirty_ok (jb_block_size b) d \<Longrightarrow> unat req + n < 2 ^ 64 \<Longrightarrow>
     fold (\<lambda>p. fold (overlay_dirty b req) (p_dirty p)) ps (get_bytes f req n)
     = get_bytes (fold (\<lambda>p. fold (put_dirty (jb_block_size b)) (p_dirty p)) ps f) req n"
  by (induction ps arbitrary: f) (simp_all add: overlay_dirties_get)

lemma length_rec_src: "rec_fits j r \<Longrightarrow> length (rec_src j r) = unat (rec_len r)"
  by (auto simp: rec_src_def rec_fits_def min_def)

lemma overlay_rec_get:
  assumes "rec_fits j r" "unat req + n < 2 ^ 64"
  shows "overlay_rec j req r (get_bytes f req n) = get_bytes (put_bytes (rec_byte_off r) (rec_src j r) f) req n"
proof -
  have "unat (rec_byte_off r + ucast (rec_len r)) = unat (rec_byte_off r) + unat (rec_len r)"
    using assms(1) unat_add_u64 [of "rec_byte_off r" "ucast (rec_len r)"] by (simp add: rec_fits_def)
  then have "\<not> rec_byte_off r + ucast (rec_len r) < rec_byte_off r" by (simp add: word_less_nat_alt)
  moreover have "overlay req (rec_byte_off r) (ucast (rec_len r)) (rec_src j r) (get_bytes f req n)
      = get_bytes (put_bytes (rec_byte_off r) (rec_src j r) f) req n"
    using assms length_rec_src [OF assms(1)] by (intro overlay_get) (simp_all add: rec_fits_def)
  ultimately show ?thesis by (simp add: overlay_rec_def Let_def)
qed

lemma overlay_recs_get:
  "\<forall>r \<in> set rs. rec_fits j r \<Longrightarrow> unat req + n < 2 ^ 64 \<Longrightarrow>
     fold (overlay_rec j req) rs (get_bytes f req n)
     = get_bytes (fold (\<lambda>r. put_bytes (rec_byte_off r) (rec_src j r)) rs f) req n"
  by (induction rs arbitrary: f) (simp_all add: overlay_rec_get)

text \<open>Reading returns the contents.\<close>

lemma get_bytes_Nil_iff [simp]: "get_bytes f off n = [] \<longleftrightarrow> n = 0"
  using length_get_bytes [of f off n] by (metis length_0_conv)

lemma disk_read_raw:
  assumes ok: "disk_ok D media s" "jl_ok (jl s)" "jb_ok (jb s)" and n: "unat off + n < 2 ^ 64"
    and raw: "ext4_raw_read_bytes D off n s = (Some buf, s1)"
  shows "ext4_disk_read_bytes D off n s = (Some (get_bytes (fs_view media s) off n), s1)"
proof -
  have nowrap: "\<not> off + of_nat n < off" using unat_add_small [OF n] by (simp add: word_less_nat_alt)
  let ?f = "e4_bytes media s"
  have buf: "buf = get_bytes ?f off n" by (rule raw_read_spec(4) [OF ok(1) raw refl])
  have st: "jb s1 = jb s" "jl s1 = jl s" using raw_read_spec(2) [OF ok(1) raw] by (simp_all add: same_rest_def)
  have p: "(if jb_enabled (jb s) then ext4_jbd2_pending_overlay_read (jb s) off buf else Some buf)
      = Some (get_bytes (pend_view (jb s) ?f) off n)"
    using ok(3) n nowrap unfolding buf
    by (auto simp: ext4_jbd2_pending_overlay_read_def pend_view_def jb_ok_def overlay_pending_get)
  have t: "(if jb_enabled (jb s) \<and> jb_tx_active (jb s) \<and> \<not> jb_io_bypass (jb s)
      then ext4_jbd2_tx_overlay_read (jb s) off (get_bytes g off n) else Some (get_bytes g off n))
      = Some (get_bytes (tx_view (jb s) g) off n)" for g
    using ok(3) n nowrap
    by (auto simp: ext4_jbd2_tx_overlay_read_def tx_view_def jb_ok_def overlay_dirties_get)
  have l: "fold (overlay_rec (jl s) off) (jl_recs (jl s)) (get_bytes g off n) = get_bytes (apply_recs (jl s) g) off n" for g
    using ok(2) n unfolding apply_recs_def by (intro overlay_recs_get) (simp_all add: jl_ok_def)
  show ?thesis
    unfolding ext4_disk_read_bytes_def seq_def raw prod.case option.case st p t fs_view_def jl_view_def
    using nowrap by (auto simp: l)
qed

lemma disk_read_spec:
  assumes ok: "disk_ok D media s" "jl_ok (jl s)" "jb_ok (jb s)" and rd: "ext4_disk_read_bytes D off n s = (r, s')"
    and n: "unat off + n < 2 ^ 64"
  shows "disk_ok D media s'" "same_rest s s'" "e4_bytes media s' = e4_bytes media s"
    "r = Some bs \<Longrightarrow> bs = get_bytes (fs_view media s) off n"
proof -
  obtain q s1 where raw: "ext4_raw_read_bytes D off n s = (q, s1)" by fastforce
  have "s' = s1 \<and> (r = Some bs \<longrightarrow> bs = get_bytes (fs_view media s) off n)"
  proof (cases q)
    case None
    then show ?thesis using rd raw by (simp add: ext4_disk_read_bytes_def seq_def)
  next
    case (Some buf)
    then show ?thesis using rd disk_read_raw [OF ok n] raw by auto
  qed
  then show "disk_ok D media s'" "same_rest s s'" "e4_bytes media s' = e4_bytes media s"
    "r = Some bs \<Longrightarrow> bs = get_bytes (fs_view media s) off n"
    using raw_read_spec(1-3) [OF ok(1) raw] by auto
qed

section \<open>The redo log's region\<close>

definition region :: "ext4_journal \<Rightarrow> u64 \<Rightarrow> bool" where
  "region j = in_span (jl_base_off j) (unat EXT4_JLOG_REGION_BYTES)"

definition base_ok :: "ext4_journal \<Rightarrow> bool" where
  "base_ok j \<longleftrightarrow> unat (jl_base_off j) + unat EXT4_JLOG_REGION_BYTES \<le> 2 ^ 64"

text \<open>The records and the data of the log are on the disk.\<close>

definition log_on_disk :: "ext4_journal \<Rightarrow> (u64 \<Rightarrow> u8) \<Rightarrow> bool" where
  "log_on_disk j f \<longleftrightarrow>
     (\<forall>i < length (jl_recs j). get_bytes f (rec_pos j i) 16 = rec_bytes (jl_recs j ! i))
     \<and> get_bytes f (data_pos j 0) (length (jl_data j)) = jl_data j"

lemma unat_rec_pos:
  assumes "base_ok j" "i \<le> 512"
  shows "unat (rec_pos j i) = unat (jl_base_off j) + 64 + 16 * i"
proof -
  have "rec_pos j i = jl_base_off j + of_nat (64 + 16 * i)" by (simp add: rec_pos_def mult.commute)
  moreover have "unat (jl_base_off j + of_nat (64 + 16 * i)) = unat (jl_base_off j) + (64 + 16 * i)"
    using assms by (intro unat_add_small) (simp add: base_ok_def)
  ultimately show ?thesis by (simp only: add.assoc)
qed

lemma unat_data_pos:
  assumes "base_ok j" "unat off \<le> 196608"
  shows "unat (data_pos j off) = unat (jl_base_off j) + 8256 + unat off"
proof -
  have "data_pos j off = jl_base_off j + of_nat (8256 + unat off)"
    by (simp add: data_pos_def of_nat_unat_32_64)
  moreover have "unat (jl_base_off j + of_nat (8256 + unat off)) = unat (jl_base_off j) + (8256 + unat off)"
    using assms by (intro unat_add_small) (simp add: base_ok_def)
  ultimately show ?thesis by (simp only: add.assoc)
qed

lemma length_rec_bytes [simp]: "length (rec_bytes r) = 16" by (simp add: rec_bytes_def)
lemma length_hdr_bytes [simp]: "length (hdr_bytes h) = 64" by (simp add: hdr_bytes_def)

lemma rec_of_bytes [simp]: "rec_of (rec_bytes r) = r"
proof -
  have "rd_le32 (rec_bytes r) 8 = rec_len r"
    using rd_append(2) [of "le64 (rec_byte_off r)" "le32 (rec_len r) @ le32 (rec_data_off r)" 0]
    by (simp add: rec_bytes_def rd_append(1) rd_le32_le32)
  moreover have "rd_le32 (rec_bytes r) 12 = rec_data_off r"
    using rd_append(2) [of "le64 (rec_byte_off r) @ le32 (rec_len r)" "le32 (rec_data_off r)" 0]
    by (simp add: rec_bytes_def rd_le32_le32)
  ultimately show ?thesis by (simp add: rec_of_def rec_bytes_def rd_le64_le64)
qed

lemma hdr_of_bytes [simp]: "hdr_of (hdr_bytes h) = h"
proof -
  have e: "rd_le32 (a @ le32 v @ b) (length a) = v" for a b v
    using rd_append(2) [of a "le32 v @ b" 0] by (simp add: rd_append(1) rd_le32_le32)
  show ?thesis
    using e [of "[]" "h_magic h"] e [of "le32 (h_magic h)" "h_state h"]
      e [of "le32 (h_magic h) @ le32 (h_state h)" "h_seq h"]
      e [of "le32 (h_magic h) @ le32 (h_state h) @ le32 (h_seq h)" "h_rec_count h"]
      e [of "le32 (h_magic h) @ le32 (h_state h) @ le32 (h_seq h) @ le32 (h_rec_count h)" "h_data_bytes h"]
    by (simp add: hdr_of_def hdr_bytes_def)
qed

text \<open>Writing inside the region leaves the rest of the partition alone.\<close>

lemma put_in_region:
  assumes "base_ok j" "unat (jl_base_off j) \<le> unat off"
    "unat off + length bs \<le> unat (jl_base_off j) + 262144" "\<not> region j k"
  shows "put_bytes off bs f k = f k"
  using assms by (subst put_bytes_span) (auto simp: base_ok_def region_def in_span_def)

lemma log_free_rec:
  assumes "base_ok j" "length (jl_recs j) < 512" "length (jl_data j) \<le> 196608" "length bs \<le> 16" "log_on_disk j f"
  shows "log_on_disk j (put_bytes (rec_pos j (length (jl_recs j))) bs f)"
proof -
  note p = unat_rec_pos [OF assms(1)] and q = unat_data_pos [OF assms(1), of 0]
  have b: "unat (jl_base_off j) + 262144 \<le> 2 ^ 64" using assms(1) by (simp add: base_ok_def)
  have "get_bytes (put_bytes (rec_pos j (length (jl_recs j))) bs f) (rec_pos j i) 16 = get_bytes f (rec_pos j i) 16"
    if "i < length (jl_recs j)" for i
    using that assms b by (intro get_put_disjoint) (simp_all add: p)
  moreover have "get_bytes (put_bytes (rec_pos j (length (jl_recs j))) bs f) (data_pos j 0) (length (jl_data j))
      = get_bytes f (data_pos j 0) (length (jl_data j))"
    using assms b by (intro get_put_disjoint) (simp_all add: p q)
  ultimately show ?thesis using assms(5) by (simp add: log_on_disk_def)
qed

lemma log_free_data:
  assumes "base_ok j" "length (jl_recs j) \<le> 512" "length (jl_data j) + length bs \<le> 196608" "log_on_disk j f"
  shows "log_on_disk j (put_bytes (data_pos j (of_nat (length (jl_data j)))) bs f)"
proof -
  have u: "unat (of_nat (length (jl_data j)) :: u32) = length (jl_data j)"
    using assms(3) by (intro unat_of_nat_small) simp
  note p = unat_rec_pos [OF assms(1)] and q = unat_data_pos [OF assms(1)]
  have b: "unat (jl_base_off j) + 262144 \<le> 2 ^ 64" using assms(1) by (simp add: base_ok_def)
  let ?g = "put_bytes (data_pos j (of_nat (length (jl_data j)))) bs f"
  have "get_bytes ?g (rec_pos j i) 16 = get_bytes f (rec_pos j i) 16" if "i < length (jl_recs j)" for i
    using that assms b by (intro get_put_disjoint) (simp_all add: p q u)
  moreover have "get_bytes ?g (data_pos j 0) (length (jl_data j)) = get_bytes f (data_pos j 0) (length (jl_data j))"
    using assms b by (intro get_put_disjoint) (simp_all add: q u)
  ultimately show ?thesis using assms(4) by (simp add: log_on_disk_def)
qed

definition log_append :: "jlog_rec \<Rightarrow> u8 list \<Rightarrow> ext4_journal \<Rightarrow> ext4_journal" where
  "log_append r buf j = j\<lparr>jl_recs := jl_recs j @ [r], jl_data := jl_data j @ buf\<rparr>"

lemma log_append_pos [simp]: "rec_pos (log_append r b j) = rec_pos j" "data_pos (log_append r b j) = data_pos j"
  "base_ok (log_append r b j) = base_ok j" "region (log_append r b j) = region j"
  by (simp_all add: fun_eq_iff rec_pos_def data_pos_def log_append_def base_ok_def region_def)

lemma log_append_fields [simp]:
  "jl_enabled (log_append r b j) = jl_enabled j" "jl_tx_active (log_append r b j) = jl_tx_active j"
  "jl_replaying (log_append r b j) = jl_replaying j" "jl_seq (log_append r b j) = jl_seq j"
  "jl_base_off (log_append r b j) = jl_base_off j" "jl_area_bytes (log_append r b j) = jl_area_bytes j"
  by (simp_all add: log_append_def)

lemma log_append_on_disk:
  assumes b: "base_ok j" and n: "length (jl_recs j) < 512" and d: "length (jl_data j) + length buf \<le> 196608"
    and log: "log_on_disk j f"
  shows "log_on_disk (log_append r buf j) (put_bytes (data_pos j (of_nat (length (jl_data j)))) buf
      (put_bytes (rec_pos j (length (jl_recs j))) (rec_bytes r) f))" (is "log_on_disk ?j ?g")
proof -
  have u: "unat (of_nat (length (jl_data j)) :: u32) = length (jl_data j)"
    using d by (intro unat_of_nat_small) simp
  note p = unat_rec_pos [OF b] and q = unat_data_pos [OF b]
  have bb: "unat (jl_base_off j) + 262144 \<le> 2 ^ 64" using b by (simp add: base_ok_def)
  have old: "log_on_disk j ?g"
    using assms by (intro log_free_data log_free_rec) auto
  have new_rec: "get_bytes ?g (rec_pos j (length (jl_recs j))) 16 = rec_bytes r"
  proof -
    have "get_bytes ?g (rec_pos j (length (jl_recs j))) 16
        = get_bytes (put_bytes (rec_pos j (length (jl_recs j))) (rec_bytes r) f) (rec_pos j (length (jl_recs j))) 16"
      using n d bb by (intro get_put_disjoint) (simp_all add: p q u)
    also have "\<dots> = rec_bytes r"
      using n bb get_put_same [of "rec_pos j (length (jl_recs j))" "rec_bytes r" f] by (simp add: p)
    finally show ?thesis .
  qed
  have "data_pos j 0 + of_nat (length (jl_data j)) = data_pos j (of_nat (length (jl_data j)))"
    using u of_nat_unat_32_64 [of "of_nat (length (jl_data j))"] by (simp add: data_pos_def)
  moreover have "get_bytes ?g (data_pos j (of_nat (length (jl_data j)))) (length buf) = buf"
    using d bb by (intro get_put_same) (simp add: q u)
  ultimately have "get_bytes ?g (data_pos j 0) (length (jl_data j) + length buf) = jl_data j @ buf"
    using old by (simp add: get_bytes_add log_on_disk_def)
  moreover have "get_bytes ?g (rec_pos j i) 16 = rec_bytes ((jl_recs j @ [r]) ! i)" if "i < Suc (length (jl_recs j))" for i
    using that old new_rec by (cases "i = length (jl_recs j)") (auto simp: log_on_disk_def nth_append)
  ultimately show ?thesis unfolding log_on_disk_def by (simp add: log_append_def rec_pos_def data_pos_def)
qed

lemma rec_src_append: "rec_fits j r' \<Longrightarrow> rec_src (log_append r buf j) r' = rec_src j r'"
  by (simp add: rec_src_def rec_fits_def log_append_def)

lemma apply_recs_append:
  assumes "jl_ok j" "rec_src (log_append r buf j) r = buf"
  shows "apply_recs (log_append r buf j) f = put_bytes (rec_byte_off r) buf (apply_recs j f)"
proof -
  have "fold (\<lambda>r'. put_bytes (rec_byte_off r') (rec_src (log_append r buf j) r')) (jl_recs j) f
      = fold (\<lambda>r'. put_bytes (rec_byte_off r') (rec_src j r')) (jl_recs j) f"
    using assms(1) by (intro fold_cong) (auto simp: jl_ok_def rec_src_append)
  then show ?thesis using assms(2) by (simp add: apply_recs_def log_append_def)
qed

section \<open>Writes of a redo transaction\<close>

text \<open>The state of a transaction of the redo log: it is open, JBD2 is not in use, and the log is
  well-formed and on the disk.\<close>

definition jl_tx :: "'d blkdrv \<Rightarrow> ('d \<Rightarrow> u64 \<Rightarrow> sector) \<Rightarrow> 'd ext4 \<Rightarrow> bool" where
  "jl_tx D media s \<longleftrightarrow> disk_ok D media s \<and> \<not> jb_enabled (jb s)
     \<and> jl_enabled (jl s) \<and> jl_tx_active (jl s) \<and> \<not> jl_replaying (jl s)
     \<and> jl_area_bytes (jl s) = EXT4_JLOG_REGION_BYTES \<and> base_ok (jl s) \<and> jl_ok (jl s)
     \<and> log_on_disk (jl s) (e4_bytes media s)"

definition same_home :: "('d \<Rightarrow> u64 \<Rightarrow> sector) \<Rightarrow> 'd ext4 \<Rightarrow> 'd ext4 \<Rightarrow> bool" where
  "same_home media s s' \<longleftrightarrow> (\<forall>k. \<not> region (jl s) k \<longrightarrow> e4_bytes media s' k = e4_bytes media s k)"

lemma log_append_eq: "(\<lambda>j. j\<lparr>jl_recs := jl_recs j @ [r], jl_data := jl_data j @ buf\<rparr>) = log_append r buf"
  by (simp add: log_append_def fun_eq_iff)

lemma jl_ok_append:
  assumes "jl_ok j" "length (jl_recs j) < 512" "length (jl_data j) + length buf \<le> 196608"
    "unat off + length buf < 2 ^ 64"
    "r = \<lparr>rec_byte_off = off, rec_len = of_nat (length buf), rec_data_off = of_nat (length (jl_data j))\<rparr>"
  shows "jl_ok (log_append r buf j)" "rec_src (log_append r buf j) r = buf"
proof -
  have u: "unat (of_nat (length buf) :: u32) = length buf" "unat (of_nat (length (jl_data j)) :: u32) = length (jl_data j)"
    using assms(3) by (auto intro!: unat_of_nat_small)
  have "rec_fits (log_append r buf j) r" using assms(4) by (simp add: rec_fits_def log_append_def assms(5) u)
  moreover have "rec_fits (log_append r buf j) r'" if "rec_fits j r'" for r'
    using that by (simp add: rec_fits_def log_append_def)
  ultimately show "jl_ok (log_append r buf j)"
    using assms(1,2,3) by (simp add: jl_ok_def log_append_def)
  show "rec_src (log_append r buf j) r = buf" by (simp add: rec_src_def log_append_def assms(5) u)
qed

lemma jl_tx_rest: "same_rest s s' \<Longrightarrow> jl_tx D media s \<Longrightarrow> disk_ok D media s' \<Longrightarrow>
    log_on_disk (jl s) (e4_bytes media s') \<Longrightarrow> jl_tx D media s'"
  by (simp add: jl_tx_def same_rest_def)

lemma same_home_trans: "same_home media s s1 \<Longrightarrow> same_home media s1 s2 \<Longrightarrow> jl s1 = jl s \<Longrightarrow> same_home media s s2"
  by (simp add: same_home_def)

text \<open>Writing a free record slot, and free data space.\<close>

lemma write_free_rec:
  assumes tx: "jl_tx D media s" and n: "length (jl_recs (jl s)) < 512"
    and wr: "ext4_raw_write_bytes D (rec_pos (jl s) (length (jl_recs (jl s)))) (rec_bytes c) s = (r, s')"
  shows "jl_tx D media s'" "same_rest s s'" "same_home media s s'"
proof -
  let ?j = "jl s"
  have h: "disk_ok D media s" "base_ok ?j" "jl_ok ?j" "log_on_disk ?j (e4_bytes media s)"
    using tx by (auto simp: jl_tx_def)
  have w: "disk_ok D media s'" "same_rest s s'"
    "\<exists>k \<le> 16. e4_bytes media s' = put_bytes (rec_pos ?j (length (jl_recs ?j))) (take k (rec_bytes c)) (e4_bytes media s)"
    using raw_write_spec [OF h(1) wr] by auto
  then obtain k where k: "k \<le> 16"
    "e4_bytes media s' = put_bytes (rec_pos ?j (length (jl_recs ?j))) (take k (rec_bytes c)) (e4_bytes media s)"
    by blast
  have "log_on_disk ?j (e4_bytes media s')"
    unfolding k(2) using h n k(1) by (intro log_free_rec) (auto simp: jl_ok_def)
  then show "jl_tx D media s'" using jl_tx_rest [OF w(2) tx w(1)] by simp
  show "same_home media s s'"
    unfolding same_home_def k(2) using h(2) n k(1) by (auto intro!: put_in_region simp: unat_rec_pos)
qed (use raw_write_spec [of D media s _ _ r s'] wr tx in \<open>auto simp: jl_tx_def\<close>)

lemma write_free_data:
  assumes tx: "jl_tx D media s" and n: "length (jl_data (jl s)) + length buf \<le> 196608"
    and wr: "ext4_raw_write_bytes D (data_pos (jl s) (of_nat (length (jl_data (jl s))))) buf s = (r, s')"
  shows "jl_tx D media s'" "same_rest s s'" "same_home media s s'"
proof -
  let ?j = "jl s"
  have h: "disk_ok D media s" "base_ok ?j" "jl_ok ?j" "log_on_disk ?j (e4_bytes media s)"
    using tx by (auto simp: jl_tx_def)
  have u: "unat (of_nat (length (jl_data ?j)) :: u32) = length (jl_data ?j)"
    using n by (intro unat_of_nat_small) simp
  have w: "disk_ok D media s'" "same_rest s s'"
    "\<exists>k \<le> length buf. e4_bytes media s' = put_bytes (data_pos ?j (of_nat (length (jl_data ?j)))) (take k buf) (e4_bytes media s)"
    using raw_write_spec [OF h(1) wr] n by auto
  then obtain k where k: "k \<le> length buf"
    "e4_bytes media s' = put_bytes (data_pos ?j (of_nat (length (jl_data ?j)))) (take k buf) (e4_bytes media s)"
    by blast
  have "log_on_disk ?j (e4_bytes media s')"
    unfolding k(2) using h n k(1) by (intro log_free_data) (auto simp: jl_ok_def)
  then show "jl_tx D media s'" using jl_tx_rest [OF w(2) tx w(1)] by simp
  show "same_home media s s'"
    unfolding same_home_def k(2) using h(2) n k(1) by (auto intro!: put_in_region simp: unat_data_pos u)
qed (use raw_write_spec [of D media s _ _ r s'] wr tx n in \<open>auto simp: jl_tx_def\<close>)

text \<open>A write of an open transaction goes to the log only, and adds one record to it.\<close>

definition jl_logged :: "'d blkdrv \<Rightarrow> ('d \<Rightarrow> u64 \<Rightarrow> sector) \<Rightarrow> 'd ext4 \<Rightarrow> 'd ext4 \<Rightarrow> bool" where
  "jl_logged D media s s' \<longleftrightarrow> jl_tx D media s' \<and> fs s' = fs s \<and> jb s' = jb s \<and> same_home media s s'
     \<and> region (jl s') = region (jl s) \<and> jl_base_off (jl s') = jl_base_off (jl s) \<and> jl_seq (jl s') = jl_seq (jl s)"

lemma jl_logged_rest: "jl_tx D media s' \<Longrightarrow> same_rest s s' \<Longrightarrow> same_home media s s' \<Longrightarrow> jl_logged D media s s'"
  by (simp add: jl_logged_def same_rest_def)

lemma jl_write_spec:
  assumes tx: "jl_tx D media s" and wr: "ext4_disk_write_bytes D off buf s = (r, s')"
    and n: "unat off + length buf < 2 ^ 64"
  shows "jl_logged D media s s' \<and> (r = None \<longrightarrow> jl s' = jl s)
    \<and> (r = Some () \<longrightarrow> (\<forall>f. apply_recs (jl s') f = put_bytes off buf (apply_recs (jl s) f)))"
proof -
  let ?j = "jl s"
  define c where "c = \<lparr>rec_byte_off = off, rec_len = of_nat (length buf), rec_data_off = of_nat (length (jl_data ?j))\<rparr>"
  have h: "disk_ok D media s" "\<not> jb_enabled (jb s)" "jl_enabled ?j" "jl_tx_active ?j" "\<not> jl_replaying ?j"
    "base_ok ?j" "jl_ok ?j" "log_on_disk ?j (e4_bytes media s)"
    using tx by (auto simp: jl_tx_def)
  have same: ?thesis if "s' = s" "r = None \<or> buf = []"
    using that tx by (auto simp: jl_logged_def same_home_def)
  consider "buf = []" | "buf \<noteq> []" "length (jl_recs ?j) \<ge> 512 \<or> length (jl_data ?j) + length buf > 196608"
    | (log) "buf \<noteq> []" "length (jl_recs ?j) < 512" "length (jl_data ?j) + length buf \<le> 196608"
    by linarith
  then show ?thesis
  proof cases
    case 1
    then show ?thesis using wr h by (intro same) (auto simp: ext4_disk_write_bytes_def Let_def)
  next
    case 2
    then show ?thesis using wr h by (intro same) (auto simp: ext4_disk_write_bytes_def Let_def split: if_splits)
  next
    case log
    have run: "seq (ext4_raw_write_bytes D (rec_pos ?j (length (jl_recs ?j))) (rec_bytes c)) (\<lambda>_.
        seq (ext4_raw_write_bytes D (data_pos ?j (of_nat (length (jl_data ?j)))) buf) (\<lambda>_.
        modify (upd_jl (log_append c buf)))) s = (r, s')"
      using wr h log by (simp add: ext4_disk_write_bytes_def Let_def log_append_eq c_def)
    then show ?thesis
    proof (cases rule: seq_elim)
      case (fails s1)
      then show ?thesis
        using jl_logged_rest [OF write_free_rec [OF tx log(2) fails(1)]] write_free_rec(2) [OF tx log(2) fails(1)]
        by (simp add: same_rest_def)
    next
      case (goes x s1)
      note w1 = write_free_rec [OF tx log(2) goes(1)]
      have j1: "jl s1 = ?j" using w1(2) by (simp add: same_rest_def)
      from goes(2) show ?thesis
      proof (cases rule: seq_elim)
        case (fails s2)
        note w2 = write_free_data [OF w1(1), unfolded j1, OF log(3) fails(1)]
        then show ?thesis
          using fails w1 jl_logged_rest [OF w2(1) same_rest_trans [OF w1(2) w2(2)] same_home_trans [OF w1(3) w2(3) j1]]
          by (auto simp: same_rest_def)
      next
        case (goes y s2)
        note w2 = write_free_data [OF w1(1), unfolded j1, OF log(3) goes(1)]
        have b: "e4_bytes media s2 = put_bytes (data_pos ?j (of_nat (length (jl_data ?j)))) buf
            (put_bytes (rec_pos ?j (length (jl_recs ?j))) (rec_bytes c) (e4_bytes media s))"
          using raw_write_spec(3) [OF h(1) \<open>_ s = (Some x, s1)\<close>] raw_write_spec(3) [OF _ goes(1)] w1(1) log(3)
          by (simp add: jl_tx_def)
        have a: "jl_ok (log_append c buf ?j)" "rec_src (log_append c buf ?j) c = buf"
          using jl_ok_append [OF h(7) log(2,3) n c_def] .
        have l: "log_on_disk (log_append c buf ?j) (e4_bytes media s2)"
          unfolding b using h log by (intro log_append_on_disk) auto
        have s': "s' = upd_jl (log_append c buf) s2" "r = Some ()" using goes(2) by (auto simp: modify_def)
        have "jl_logged D media s s'"
          using w1 w2 j1 l a same_home_trans [OF w1(3) w2(3) j1] unfolding s'
          by (simp add: jl_logged_def jl_tx_def same_rest_def same_home_def)
        then show ?thesis
          using s' w2(2) j1 apply_recs_append [OF h(7) a(2)] by (simp add: same_rest_def c_def)
      qed
    qed
  qed
qed

end
