(* ===== verification/Ext4Map.thy ===== *)
theory Ext4Map
  imports Ext4Disk
begin

text \<open>
  On-disk metadata of \<^verbatim>\<open>src/kernel/ext4.c\<close>: group descriptors, inodes, and the maps from the
  blocks of a file to the blocks of the partition (direct and indirect blocks, extent trees).
  Structures are read out of the bytes of their blocks at the offsets the code uses.
\<close>

section \<open>Group descriptors\<close>

definition ext4_group_desc_offset :: "u32 \<Rightarrow> ext4_fs \<Rightarrow> u64" where
  "ext4_group_desc_offset grp f =
     (let gd_table_block = (if block_size f = 1024 then 2 else 1 :: u32)
      in ucast gd_table_block * ucast (block_size f) + ucast grp * ucast (desc_size f))"

definition ext4_group_read_desc :: "'d blkdrv \<Rightarrow> u32 \<Rightarrow> ('d ext4, u8 list) op" where
  "ext4_group_read_desc D grp =
     seq (gets fs) (\<lambda>f.
     seq (check (\<not> grp \<ge> groups_count f)) (\<lambda>_.
     seq (check (\<not> (desc_size f < 32 \<or> desc_size f > block_size f))) (\<lambda>_.
     ext4_disk_read_bytes D (ext4_group_desc_offset grp f) (unat (desc_size f)))))"

definition ext4_group_write_desc :: "'d blkdrv \<Rightarrow> u32 \<Rightarrow> u8 list \<Rightarrow> ('d ext4, unit) op" where
  "ext4_group_write_desc D grp gd =
     seq (gets fs) (\<lambda>f.
     seq (check (\<not> grp \<ge> groups_count f)) (\<lambda>_.
     seq (check (\<not> (desc_size f < 32 \<or> desc_size f > block_size f))) (\<lambda>_.
     ext4_disk_write_bytes D (ext4_group_desc_offset grp f) (take (unat (desc_size f)) gd))))"

definition wide_desc :: "ext4_fs \<Rightarrow> bool" where
  "wide_desc f \<longleftrightarrow> has_64bit f \<and> desc_size f \<ge> 64"

definition ext4_group_get_block_ref :: "ext4_fs \<Rightarrow> u8 list \<Rightarrow> nat \<Rightarrow> nat \<Rightarrow> u64" where
  "ext4_group_get_block_ref f gd lo_off hi_off =
     (let v = ucast (rd_le32 gd lo_off)
      in if wide_desc f then v OR push_bit 32 (ucast (rd_le32 gd hi_off)) else v)"

definition ext4_group_get_count16 :: "ext4_fs \<Rightarrow> u8 list \<Rightarrow> nat \<Rightarrow> nat \<Rightarrow> u32" where
  "ext4_group_get_count16 f gd lo_off hi_off =
     (let v = ucast (rd_le16 gd lo_off)
      in if wide_desc f then v OR push_bit 16 (ucast (rd_le16 gd hi_off)) else v)"

definition ext4_group_set_count16 :: "ext4_fs \<Rightarrow> nat \<Rightarrow> nat \<Rightarrow> u32 \<Rightarrow> u8 list \<Rightarrow> u8 list" where
  "ext4_group_set_count16 f lo_off hi_off v gd =
     (let gd1 = wr_le16 gd lo_off (ucast (v AND 0xFFFF))
      in if wide_desc f then wr_le16 gd1 hi_off (ucast (drop_bit 16 v AND 0xFFFF)) else gd1)"

abbreviation (input) EXT4_BG_BLOCK_BITMAP_LO :: nat where "EXT4_BG_BLOCK_BITMAP_LO \<equiv> 0x00"
abbreviation (input) EXT4_BG_INODE_BITMAP_LO :: nat where "EXT4_BG_INODE_BITMAP_LO \<equiv> 0x04"
abbreviation (input) EXT4_BG_INODE_TABLE_LO :: nat where "EXT4_BG_INODE_TABLE_LO \<equiv> 0x08"
abbreviation (input) EXT4_BG_FREE_BLOCKS_COUNT_LO :: nat where "EXT4_BG_FREE_BLOCKS_COUNT_LO \<equiv> 0x0C"
abbreviation (input) EXT4_BG_FREE_INODES_COUNT_LO :: nat where "EXT4_BG_FREE_INODES_COUNT_LO \<equiv> 0x0E"
abbreviation (input) EXT4_BG_INODE_TABLE_HI :: nat where "EXT4_BG_INODE_TABLE_HI \<equiv> 0x28"
abbreviation (input) EXT4_BG_BLOCK_BITMAP_HI :: nat where "EXT4_BG_BLOCK_BITMAP_HI \<equiv> 0x20"
abbreviation (input) EXT4_BG_INODE_BITMAP_HI :: nat where "EXT4_BG_INODE_BITMAP_HI \<equiv> 0x24"
abbreviation (input) EXT4_BG_FREE_BLOCKS_COUNT_HI :: nat where "EXT4_BG_FREE_BLOCKS_COUNT_HI \<equiv> 0x2C"
abbreviation (input) EXT4_BG_FREE_INODES_COUNT_HI :: nat where "EXT4_BG_FREE_INODES_COUNT_HI \<equiv> 0x2E"

section \<open>Inodes\<close>

definition ext4_inode_offset :: "'d blkdrv \<Rightarrow> u32 \<Rightarrow> ('d ext4, u64) op" where
  "ext4_inode_offset D ino =
     seq (gets fs) (\<lambda>f.
     seq (check (\<not> (ino = 0 \<or> ino > inodes_count f))) (\<lambda>_.
       let grp = (ino - 1) div inodes_per_group f;
           index = (ino - 1) mod inodes_per_group f
       in seq (ext4_group_read_desc D grp) (\<lambda>gd.
          let inode_table_block = ext4_group_get_block_ref f gd EXT4_BG_INODE_TABLE_LO EXT4_BG_INODE_TABLE_HI
          in seq (check (\<not> inode_table_block = 0)) (\<lambda>_.
             ret (inode_table_block * ucast (block_size f) + ucast index * ucast (inode_size f))))))"

abbreviation (input) EXT4_INODE_MODE :: nat where "EXT4_INODE_MODE \<equiv> 0x00"
abbreviation (input) EXT4_INODE_SIZE_LO :: nat where "EXT4_INODE_SIZE_LO \<equiv> 0x04"
abbreviation (input) EXT4_INODE_LINKS_COUNT :: nat where "EXT4_INODE_LINKS_COUNT \<equiv> 0x1A"
abbreviation (input) EXT4_INODE_BLOCKS_LO :: nat where "EXT4_INODE_BLOCKS_LO \<equiv> 0x1C"
abbreviation (input) EXT4_INODE_FLAGS :: nat where "EXT4_INODE_FLAGS \<equiv> 0x20"
abbreviation (input) EXT4_INODE_BLOCK :: nat where "EXT4_INODE_BLOCK \<equiv> 0x28"
abbreviation (input) EXT4_INODE_SIZE_HIGH :: nat where "EXT4_INODE_SIZE_HIGH \<equiv> 0x6C"

text \<open>The inode fields in the bytes of an inode, and the bytes after they are stored.\<close>

definition meta_of :: "u32 \<Rightarrow> u8 list \<Rightarrow> ext4_meta" where
  "meta_of ino raw = \<lparr>m_valid = True, m_ino = ino, m_mode = rd_le16 raw EXT4_INODE_MODE,
     m_links = rd_le16 raw EXT4_INODE_LINKS_COUNT, m_flags = rd_le32 raw EXT4_INODE_FLAGS,
     m_blocks_lo = rd_le32 raw EXT4_INODE_BLOCKS_LO,
     m_size = ucast (rd_le32 raw EXT4_INODE_SIZE_LO) OR push_bit 32 (ucast (rd_le32 raw EXT4_INODE_SIZE_HIGH)),
     m_block = map (\<lambda>i. rd_le32 raw (EXT4_INODE_BLOCK + i * 4)) [0..<15]\<rparr>"

definition put_meta :: "ext4_meta \<Rightarrow> u8 list \<Rightarrow> u8 list" where
  "put_meta m raw0 =
     (let raw = wr_le16 raw0 EXT4_INODE_MODE (m_mode m);
          raw = wr_le16 raw EXT4_INODE_LINKS_COUNT (m_links m);
          raw = wr_le32 raw EXT4_INODE_BLOCKS_LO (m_blocks_lo m);
          raw = wr_le32 raw EXT4_INODE_FLAGS (m_flags m);
          raw = wr_le32 raw EXT4_INODE_SIZE_LO (ucast (m_size m AND 0xFFFFFFFF));
          raw = wr_le32 raw EXT4_INODE_SIZE_HIGH (ucast (drop_bit 32 (m_size m)))
      in fold (\<lambda>i raw. wr_le32 raw (EXT4_INODE_BLOCK + i * 4) (m_block m ! i)) [0..<15] raw)"

definition inode_bytes :: "ext4_fs \<Rightarrow> nat" where \<comment> \<open>\<^verbatim>\<open>rd\<close>: inode_size, at most the buffer\<close>
  "inode_bytes f = min (unat (inode_size f)) 4096"

definition ext4_load_meta :: "'d blkdrv \<Rightarrow> u32 \<Rightarrow> ('d ext4, ext4_meta) op" where
  "ext4_load_meta D ino =
     seq (gets fs) (\<lambda>f.
     seq (check (\<not> (ino = 0 \<or> ino > inodes_count f))) (\<lambda>_.
     seq (ext4_inode_offset D ino) (\<lambda>inode_off.
     seq (ext4_disk_read_bytes D inode_off (inode_bytes f)) (\<lambda>raw.
     ret (meta_of ino raw)))))"

definition ext4_inode_store :: "'d blkdrv \<Rightarrow> ext4_meta \<Rightarrow> ('d ext4, unit) op" where
  "ext4_inode_store D m =
     seq (gets fs) (\<lambda>f.
     seq (check (m_valid m)) (\<lambda>_.
     seq (ext4_inode_offset D (m_ino m)) (\<lambda>inode_off.
     seq (ext4_disk_read_bytes D inode_off (inode_bytes f)) (\<lambda>raw.
     ext4_disk_write_bytes D inode_off (put_meta m raw)))))"

abbreviation (input) EXT4_S_IFMT :: u16 where "EXT4_S_IFMT \<equiv> 0xF000"
abbreviation (input) EXT4_EXTENTS_FL :: u32 where "EXT4_EXTENTS_FL \<equiv> 0x00080000"

definition ext4_is_dir_mode :: "u16 \<Rightarrow> bool" where "ext4_is_dir_mode mode \<longleftrightarrow> mode AND EXT4_S_IFMT = 0x4000"
definition ext4_is_reg_mode :: "u16 \<Rightarrow> bool" where "ext4_is_reg_mode mode \<longleftrightarrow> mode AND EXT4_S_IFMT = 0x8000"
definition ext4_is_lnk_mode :: "u16 \<Rightarrow> bool" where "ext4_is_lnk_mode mode \<longleftrightarrow> mode AND EXT4_S_IFMT = 0xA000"

definition uses_extents :: "ext4_meta \<Rightarrow> bool" where "uses_extents m \<longleftrightarrow> m_flags m AND EXT4_EXTENTS_FL \<noteq> 0"

definition ext4_inode_filetype :: "ext4_meta \<Rightarrow> u8" where
  "ext4_inode_filetype m =
     (if ext4_is_dir_mode (m_mode m) then 2
      else if ext4_is_lnk_mode (m_mode m) then 7
      else if ext4_is_reg_mode (m_mode m) then 1 else 0)"

section \<open>Block pointers\<close>

abbreviation (input) EXT4_NDIR_BLOCKS :: u32 where "EXT4_NDIR_BLOCKS \<equiv> 12"

text \<open>Entry \<open>i\<close> of a block of pointers; a pointer block of 0 is a hole.\<close>

definition ptr_at :: "u8 list \<Rightarrow> u32 \<Rightarrow> u32" where
  "ptr_at blk i = rd_le32 blk (unat i * 4)"

definition ext4_map_block_direct :: "'d blkdrv \<Rightarrow> ext4_meta \<Rightarrow> u32 \<Rightarrow> ('d ext4, u64) op" where
  "ext4_map_block_direct D m lblock0 =
     (if lblock0 < EXT4_NDIR_BLOCKS then ret (ucast (m_block m ! unat lblock0))
      else
        seq (gets (\<lambda>s. block_size (fs s) div 4)) (\<lambda>n.
        seq (check (n \<noteq> 0)) (\<lambda>_.
        let lblock = lblock0 - EXT4_NDIR_BLOCKS in
        if lblock < n then
          (if m_block m ! 12 = 0 then ret 0
           else seq (ext4_read_block D (ucast (m_block m ! 12))) (\<lambda>blk. ret (ucast (ptr_at blk lblock))))
        else
          let lblock = lblock - n in
          if lblock < n * n then
            (if m_block m ! 13 = 0 then ret 0
             else seq (ext4_read_block D (ucast (m_block m ! 13))) (\<lambda>blk.
               let ind = ptr_at blk (lblock div n) in
               if ind = 0 then ret 0
               else seq (ext4_read_block D (ucast ind)) (\<lambda>blk. ret (ucast (ptr_at blk (lblock mod n))))))
          else
            let lblock = lblock - n * n; cube = ucast n * ucast n * ucast n :: u64 in
            if m_block m ! 14 = 0 then ret 0
            else if ucast lblock \<ge> cube then ret 0
            else
              let i1 = lblock div (n * n); rem = lblock mod (n * n); i2 = rem div n; i3 = rem mod n in
              seq (ext4_read_block D (ucast (m_block m ! 14))) (\<lambda>blk.
                let dind = ptr_at blk i1 in
                if dind = 0 then ret 0
                else seq (ext4_read_block D (ucast dind)) (\<lambda>blk.
                  let ind = ptr_at blk i2 in
                  if ind = 0 then ret 0
                  else seq (ext4_read_block D (ucast ind)) (\<lambda>blk. ret (ucast (ptr_at blk i3))))))))"

section \<open>Extent trees\<close>

abbreviation (input) EXT4_EXT_MAGIC :: u16 where "EXT4_EXT_MAGIC \<equiv> 0xF30A"

text \<open>The packed structures \<^verbatim>\<open>ext4_extent_header_t\<close>, \<^verbatim>\<open>ext4_extent_t\<close> and \<^verbatim>\<open>ext4_extent_idx_t\<close> (12 bytes
  each) inside a node.\<close>

definition eh_magic :: "u8 list \<Rightarrow> u16" where "eh_magic n = rd_le16 n 0"
definition eh_entries :: "u8 list \<Rightarrow> u16" where "eh_entries n = rd_le16 n 2"
definition eh_max :: "u8 list \<Rightarrow> u16" where "eh_max n = rd_le16 n 4"
definition eh_depth :: "u8 list \<Rightarrow> u16" where "eh_depth n = rd_le16 n 6"

definition ee_block :: "u8 list \<Rightarrow> nat \<Rightarrow> u32" where "ee_block n i = rd_le32 n (12 + i * 12)"
definition ee_len :: "u8 list \<Rightarrow> nat \<Rightarrow> u16" where "ee_len n i = rd_le16 n (12 + i * 12 + 4)"
definition ee_start :: "u8 list \<Rightarrow> nat \<Rightarrow> u64" where
  "ee_start n i = push_bit 32 (ucast (rd_le16 n (12 + i * 12 + 6))) OR ucast (rd_le32 n (12 + i * 12 + 8))"

definition ei_block :: "u8 list \<Rightarrow> nat \<Rightarrow> u32" where "ei_block n i = rd_le32 n (12 + i * 12)"
definition ei_leaf :: "u8 list \<Rightarrow> nat \<Rightarrow> u64" where
  "ei_leaf n i = push_bit 32 (ucast (rd_le16 n (12 + i * 12 + 8))) OR ucast (rd_le32 n (12 + i * 12 + 4))"

text \<open>The root node: the 60 bytes of the inode's block array.\<close>

definition root_bytes :: "ext4_meta \<Rightarrow> u8 list" where
  "root_bytes m = concat (map le32 (m_block m))"

fun leaf_scan :: "u8 list \<Rightarrow> u32 \<Rightarrow> nat list \<Rightarrow> u64" where \<comment> \<open>the entries of a leaf in turn\<close>
  "leaf_scan node lblock [] = 0"
| "leaf_scan node lblock (i # is) =
     (let start = ee_block node i; raw_len = ucast (ee_len node i) :: u32; len = raw_len AND 0x7FFF in
      if len = 0 then leaf_scan node lblock is
      else if lblock < start \<or> lblock \<ge> start + len then leaf_scan node lblock is
      else if raw_len AND 0x8000 \<noteq> 0 then 0
      else ee_start node i + ucast (lblock - start))"

fun index_scan :: "u8 list \<Rightarrow> u32 \<Rightarrow> nat list \<Rightarrow> nat option \<Rightarrow> nat option" where
  "index_scan node lblock [] chosen = chosen"
| "index_scan node lblock (i # is) chosen =
     (if lblock < ei_block node i then chosen else index_scan node lblock is (Some i))"

text \<open>The walk from the root; each level reads one block. The loop in the code has no bound, and does
  not end on a cyclic tree; \<open>fuel\<close> bounds the number of levels, and 65536 levels are enough for
  every tree whose depth field decreases.\<close>

fun extent_walk :: "'d blkdrv \<Rightarrow> nat \<Rightarrow> u32 \<Rightarrow> u8 list \<Rightarrow> ('d ext4, u64) op" where
  "extent_walk D 0 lblock node = fail"
| "extent_walk D (Suc fuel) lblock node =
     seq (gets fs) (\<lambda>f.
     seq (check (\<not> eh_magic node \<noteq> EXT4_EXT_MAGIC)) (\<lambda>_.
     seq (check (\<not> eh_entries node > eh_max node)) (\<lambda>_.
     seq (check (\<not> (eh_max node = 0 \<or> 12 + ucast (eh_max node) * 12 > block_size f))) (\<lambda>_.
       if eh_depth node = 0 then ret (leaf_scan node lblock [0..<unat (eh_entries node)])
       else
         case index_scan node lblock [0..<unat (eh_entries node)] None of
           None \<Rightarrow> ret 0
         | Some chosen \<Rightarrow>
             let leaf = ei_leaf node chosen in
             seq (check (\<not> leaf = 0)) (\<lambda>_.
             seq (ext4_read_block D leaf) (\<lambda>node'. extent_walk D fuel lblock node'))))))"

definition ext4_extent_map :: "'d blkdrv \<Rightarrow> ext4_meta \<Rightarrow> u32 \<Rightarrow> ('d ext4, u64) op" where
  "ext4_extent_map D m lblock = extent_walk D 65536 lblock (root_bytes m @ replicate 4036 0)"

definition ext4_map_file_block :: "'d blkdrv \<Rightarrow> ext4_meta \<Rightarrow> u32 \<Rightarrow> ('d ext4, u64) op" where
  "ext4_map_file_block D m lblock =
     (if uses_extents m then ext4_extent_map D m lblock else ext4_map_block_direct D m lblock)"

end
