(* ===== verification/Ext4Alloc.thy ===== *)
theory Ext4Alloc
  imports Ext4Map
begin

text \<open>
  The allocators of \<^verbatim>\<open>src/kernel/ext4.c\<close>: block and inode bitmaps, the free counts of the group
  descriptors and of the superblock, taking and returning a block or an inode. The buffers the code
  keeps on its stack are the lists of the bytes read into them.
\<close>

section \<open>Counts\<close>

definition ext4_group_blocks_count :: "u32 \<Rightarrow> ext4_fs \<Rightarrow> u32" where
  "ext4_group_blocks_count grp f =
     (let group_first = ucast (first_data_block f) + ucast grp * ucast (blocks_per_group f) :: u64
      in if group_first \<ge> blocks_count f then 0
         else
           let rem = blocks_count f - group_first;
               g = min rem (ucast (blocks_per_group f))
           in ucast g)"

abbreviation (input) EXT4_SUPER_OFFSET :: u64 where "EXT4_SUPER_OFFSET \<equiv> 1024"
abbreviation (input) EXT4_SUPER_SIZE :: nat where "EXT4_SUPER_SIZE \<equiv> 1024"
abbreviation (input) EXT4_S_FREE_BLOCKS_COUNT_LO :: nat where "EXT4_S_FREE_BLOCKS_COUNT_LO \<equiv> 0x0C"
abbreviation (input) EXT4_S_FREE_INODES_COUNT :: nat where "EXT4_S_FREE_INODES_COUNT \<equiv> 0x10"
abbreviation (input) EXT4_S_FREE_BLOCKS_COUNT_HI :: nat where "EXT4_S_FREE_BLOCKS_COUNT_HI \<equiv> 0x158"

definition put_counts :: "ext4_fs \<Rightarrow> u8 list \<Rightarrow> u8 list" where
  "put_counts f sb0 =
     (let sb = wr_le32 sb0 EXT4_S_FREE_BLOCKS_COUNT_LO (ucast (free_blocks_count f AND 0xFFFFFFFF));
          sb = wr_le32 sb EXT4_S_FREE_INODES_COUNT (free_inodes_count f)
      in if has_64bit f then wr_le32 sb EXT4_S_FREE_BLOCKS_COUNT_HI (ucast (drop_bit 32 (free_blocks_count f))) else sb)"

definition ext4_super_write_counts :: "'d blkdrv \<Rightarrow> ('d ext4, unit) op" where
  "ext4_super_write_counts D =
     seq (ext4_disk_read_bytes D EXT4_SUPER_OFFSET EXT4_SUPER_SIZE) (\<lambda>sb.
     seq (gets fs) (\<lambda>f. ext4_disk_write_bytes D EXT4_SUPER_OFFSET (put_counts f sb)))"

text \<open>The callers pass changes of at most one.\<close>

definition ext4_group_adjust_free :: "'d blkdrv \<Rightarrow> u32 \<Rightarrow> int \<Rightarrow> int \<Rightarrow> ('d ext4, unit) op" where
  "ext4_group_adjust_free D grp dblocks dinodes =
     seq (ext4_group_read_desc D grp) (\<lambda>gd.
     seq (gets fs) (\<lambda>f.
       let free_blocks = ext4_group_get_count16 f gd EXT4_BG_FREE_BLOCKS_COUNT_LO EXT4_BG_FREE_BLOCKS_COUNT_HI;
           free_inodes = ext4_group_get_count16 f gd EXT4_BG_FREE_INODES_COUNT_LO EXT4_BG_FREE_INODES_COUNT_HI
       in seq (check (\<not> (dblocks < 0 \<and> free_blocks < of_int (- dblocks)))) (\<lambda>_.
          seq (check (\<not> (dinodes < 0 \<and> free_inodes < of_int (- dinodes)))) (\<lambda>_.
            let gd1 = ext4_group_set_count16 f EXT4_BG_FREE_BLOCKS_COUNT_LO EXT4_BG_FREE_BLOCKS_COUNT_HI
                        (free_blocks + of_int dblocks) gd;
                gd2 = ext4_group_set_count16 f EXT4_BG_FREE_INODES_COUNT_LO EXT4_BG_FREE_INODES_COUNT_HI
                        (free_inodes + of_int dinodes) gd1
            in ext4_group_write_desc D grp gd2))))"

section \<open>Bitmaps\<close>

text \<open>Bit \<open>i\<close> of a bitmap: byte \<open>i >> 3\<close>, mask \<open>1 << (i & 7)\<close>.\<close>

definition bm_mask :: "nat \<Rightarrow> u8" where "bm_mask i = push_bit (i mod 8) 1"
definition bm_get :: "u8 list \<Rightarrow> nat \<Rightarrow> bool" where "bm_get bm i \<longleftrightarrow> (bm ! (i div 8)) AND bm_mask i \<noteq> 0"
definition bm_set :: "u8 list \<Rightarrow> nat \<Rightarrow> u8 list" where "bm_set bm i = bm[i div 8 := (bm ! (i div 8)) OR bm_mask i]"
definition bm_clear :: "u8 list \<Rightarrow> nat \<Rightarrow> u8 list" where "bm_clear bm i = bm[i div 8 := (bm ! (i div 8)) AND NOT (bm_mask i)]"

text \<open>The scan of \<^verbatim>\<open>ext4_alloc_from_bitmap\<close>. Nothing in the code keeps \<open>i >> 3\<close> below the size of the
  block that was read (the mount does not bound \<^verbatim>\<open>blocks_per_group\<close>); past it C leaves the behaviour
  open, and the model stops with a failure.\<close>

fun bitmap_scan :: "'d blkdrv \<Rightarrow> u64 \<Rightarrow> u8 list \<Rightarrow> nat list \<Rightarrow> ('d ext4, u32) op" where
  "bitmap_scan D bitmap_block bm [] = fail"
| "bitmap_scan D bitmap_block bm (i # is) =
     (if i div 8 \<ge> length bm then fail
      else if bm_get bm i then bitmap_scan D bitmap_block bm is
      else seq (ext4_write_block D bitmap_block (bm_set bm i)) (\<lambda>_. ret (of_nat i)))"

definition ext4_alloc_from_bitmap :: "'d blkdrv \<Rightarrow> u64 \<Rightarrow> u32 \<Rightarrow> u32 \<Rightarrow> ('d ext4, u32) op" where
  "ext4_alloc_from_bitmap D bitmap_block bits start_bit =
     seq (check (\<not> (bits = 0 \<or> start_bit \<ge> bits))) (\<lambda>_.
     seq (ext4_read_block D bitmap_block) (\<lambda>bm.
     bitmap_scan D bitmap_block bm [unat start_bit..<unat bits]))"

section \<open>Taking a block or an inode\<close>

abbreviation (input) upd_free_blocks :: "(u64 \<Rightarrow> u64) \<Rightarrow> 'd ext4 \<Rightarrow> 'd ext4" where
  "upd_free_blocks g \<equiv> upd_fs (\<lambda>f. f\<lparr>free_blocks_count := g (free_blocks_count f)\<rparr>)"

abbreviation (input) upd_free_inodes :: "(u32 \<Rightarrow> u32) \<Rightarrow> 'd ext4 \<Rightarrow> 'd ext4" where
  "upd_free_inodes g \<equiv> upd_fs (\<lambda>f. f\<lparr>free_inodes_count := g (free_inodes_count f)\<rparr>)"

text \<open>The loop over the groups, from group \<open>g\<close> of a list of group numbers on.\<close>

fun alloc_block_groups :: "'d blkdrv \<Rightarrow> nat list \<Rightarrow> ('d ext4, u64) op" where
  "alloc_block_groups D [] = fail"
| "alloc_block_groups D (i # is) =
     seq (gets fs) (\<lambda>f.
       let g = of_nat i :: u32; group_blocks = ext4_group_blocks_count g f in
       if group_blocks = 0 then alloc_block_groups D is
       else
         seq (ext4_group_read_desc D g) (\<lambda>gd.
           let free_blocks = ext4_group_get_count16 f gd EXT4_BG_FREE_BLOCKS_COUNT_LO EXT4_BG_FREE_BLOCKS_COUNT_HI;
               bb = ext4_group_get_block_ref f gd EXT4_BG_BLOCK_BITMAP_LO EXT4_BG_BLOCK_BITMAP_HI
           in if free_blocks = 0 then alloc_block_groups D is
              else if bb = 0 then alloc_block_groups D is
              else
                seq (attempt (ext4_alloc_from_bitmap D bb group_blocks 0)) (\<lambda>r.
                  case r of
                    None \<Rightarrow> alloc_block_groups D is
                  | Some idx \<Rightarrow>
                      seq (ext4_group_adjust_free D g (-1) 0) (\<lambda>_.
                      seq (gets (\<lambda>s. free_blocks_count (fs s))) (\<lambda>n.
                      seq (check (n \<noteq> 0)) (\<lambda>_.
                      seq (modify (upd_free_blocks (\<lambda>n. n - 1))) (\<lambda>_.
                      seq (ext4_super_write_counts D) (\<lambda>_.
                      ret (ucast (first_data_block f) + ucast g * ucast (blocks_per_group f) + ucast idx)))))))))"

definition ext4_alloc_block :: "'d blkdrv \<Rightarrow> ('d ext4, u64) op" where
  "ext4_alloc_block D =
     seq (gets fs) (\<lambda>f.
     seq (check (free_blocks_count f \<noteq> 0)) (\<lambda>_.
     alloc_block_groups D [0..<unat (groups_count f)]))"

fun alloc_inode_groups :: "'d blkdrv \<Rightarrow> nat list \<Rightarrow> ('d ext4, u32) op" where
  "alloc_inode_groups D [] = fail"
| "alloc_inode_groups D (i # is) =
     seq (gets fs) (\<lambda>f.
       let g = of_nat i :: u32 in
       seq (ext4_group_read_desc D g) (\<lambda>gd.
         let free_inodes = ext4_group_get_count16 f gd EXT4_BG_FREE_INODES_COUNT_LO EXT4_BG_FREE_INODES_COUNT_HI;
             ib = ext4_group_get_block_ref f gd EXT4_BG_INODE_BITMAP_LO EXT4_BG_INODE_BITMAP_HI
         in if free_inodes = 0 then alloc_inode_groups D is
            else if ib = 0 then alloc_inode_groups D is
            else
              let group_first_ino = ucast g * ucast (inodes_per_group f) + 1 :: u64;
                  max_bits =
                    (if group_first_ino + ucast (inodes_per_group f) - 1 > ucast (inodes_count f)
                     then ucast (ucast (inodes_count f) - group_first_ino + 1)
                     else inodes_per_group f);
                  below = group_first_ino \<le> ucast (first_ino f);
                  delta = ucast (first_ino f) - group_first_ino :: u64
              in if below \<and> delta \<ge> ucast max_bits then alloc_inode_groups D is
                 else
                   let start_bit = (if below then ucast delta else 0) in
                   seq (attempt (ext4_alloc_from_bitmap D ib max_bits start_bit)) (\<lambda>r.
                     case r of
                       None \<Rightarrow> alloc_inode_groups D is
                     | Some idx \<Rightarrow>
                         seq (ext4_group_adjust_free D g 0 (-1)) (\<lambda>_.
                         seq (gets (\<lambda>s. free_inodes_count (fs s))) (\<lambda>n.
                         seq (check (n \<noteq> 0)) (\<lambda>_.
                         seq (modify (upd_free_inodes (\<lambda>n. n - 1))) (\<lambda>_.
                         seq (ext4_super_write_counts D) (\<lambda>_.
                         ret (ucast group_first_ino + idx)))))))))"

definition ext4_alloc_inode :: "'d blkdrv \<Rightarrow> ('d ext4, u32) op" where
  "ext4_alloc_inode D =
     seq (gets fs) (\<lambda>f.
     seq (check (free_inodes_count f \<noteq> 0)) (\<lambda>_.
     alloc_inode_groups D [0..<unat (groups_count f)]))"

section \<open>Returning a block or an inode\<close>

definition ext4_block_to_group_idx :: "u64 \<Rightarrow> ext4_fs \<Rightarrow> (u32 \<times> u32) option" where
  "ext4_block_to_group_idx block f =
     (if block < ucast (first_data_block f) \<or> block \<ge> blocks_count f then None
      else
        let rel = block - ucast (first_data_block f);
            grp = ucast (rel div ucast (blocks_per_group f));
            idx = ucast (rel mod ucast (blocks_per_group f))
        in if grp \<ge> groups_count f then None
           else if idx \<ge> ext4_group_blocks_count grp f then None
           else Some (grp, idx))"

definition ext4_free_block :: "'d blkdrv \<Rightarrow> u64 \<Rightarrow> ('d ext4, unit) op" where
  "ext4_free_block D block =
     seq (gets fs) (\<lambda>f.
       case ext4_block_to_group_idx block f of
         None \<Rightarrow> fail
       | Some (grp, idx) \<Rightarrow>
           seq (ext4_group_read_desc D grp) (\<lambda>gd.
             let bb = ext4_group_get_block_ref f gd EXT4_BG_BLOCK_BITMAP_LO EXT4_BG_BLOCK_BITMAP_HI in
             seq (check (bb \<noteq> 0)) (\<lambda>_.
             seq (ext4_read_block D bb) (\<lambda>bm.
             seq (check (unat idx div 8 < length bm)) (\<lambda>_. \<comment> \<open>as in the scan\<close>
               if \<not> bm_get bm (unat idx) then ret ()
               else
                 seq (modify (ext4_jbd2_note_revoke block)) (\<lambda>_.
                 seq (ext4_write_block D bb (bm_clear bm (unat idx))) (\<lambda>_.
                 seq (ext4_group_adjust_free D grp 1 0) (\<lambda>_.
                 seq (modify (upd_free_blocks (\<lambda>n. n + 1))) (\<lambda>_.
                 ext4_super_write_counts D)))))))))"

definition ext4_free_inode_bit :: "'d blkdrv \<Rightarrow> u32 \<Rightarrow> ('d ext4, unit) op" where
  "ext4_free_inode_bit D ino =
     seq (gets fs) (\<lambda>f.
     seq (check (\<not> (ino = 0 \<or> ino > inodes_count f \<or> ino < first_ino f))) (\<lambda>_.
       let grp = (ino - 1) div inodes_per_group f; idx = (ino - 1) mod inodes_per_group f in
       seq (ext4_group_read_desc D grp) (\<lambda>gd.
         let ib = ext4_group_get_block_ref f gd EXT4_BG_INODE_BITMAP_LO EXT4_BG_INODE_BITMAP_HI in
         seq (check (ib \<noteq> 0)) (\<lambda>_.
         seq (ext4_read_block D ib) (\<lambda>bm.
         seq (check (unat idx div 8 < length bm)) (\<lambda>_.
           if \<not> bm_get bm (unat idx) then ret ()
           else
             seq (ext4_write_block D ib (bm_clear bm (unat idx))) (\<lambda>_.
             seq (ext4_group_adjust_free D grp 0 1) (\<lambda>_.
             seq (modify (upd_free_inodes (\<lambda>n. n + 1))) (\<lambda>_.
             ext4_super_write_counts D)))))))))"

end
