(* ===== verification/Ext4Blocks.thy ===== *)
theory Ext4Blocks
  imports Ext4Alloc
begin

text \<open>
  Changing the block map of a file in \<^verbatim>\<open>src/kernel/ext4.c\<close>, for inodes without extents: setting and
  clearing a block pointer through up to three levels of pointer blocks, and freeing the trees. The
  functions get a pointer to the inode's \<^verbatim>\<open>ext4_meta_t\<close> and may have changed it when they fail, so their
  state is the file system together with that structure.
\<close>

section \<open>The file system and one inode\<close>

type_synonym 'd mst = "'d ext4 \<times> ext4_meta"

definition core :: "('d ext4, 'a) op \<Rightarrow> ('d mst, 'a) op" where
  "core f sm = (case f (fst sm) of (r, s) \<Rightarrow> (r, (s, snd sm)))"

definition upd_m :: "(ext4_meta \<Rightarrow> ext4_meta) \<Rightarrow> ('d mst, unit) op" where
  "upd_m f = modify (\<lambda>(s, m). (s, f m))"

text \<open>Work on a local copy of the inode, as \<^verbatim>\<open>ext4_meta_t nm = *m;\<close>; the copy is a result.\<close>

definition on_copy :: "ext4_meta \<Rightarrow> ('d mst, unit) op \<Rightarrow> ('d mst, ext4_meta) op" where
  "on_copy nm f sm = (case f (fst sm, nm) of (r, (s, nm')) \<Rightarrow> (map_option (\<lambda>_. nm') r, (s, snd sm)))"

definition set_block :: "nat \<Rightarrow> u32 \<Rightarrow> ext4_meta \<Rightarrow> ext4_meta" where \<comment> \<open>m->block[i] = v\<close>
  "set_block i v m = m\<lparr>m_block := (m_block m)[i := v]\<rparr>"

definition blk_ptrs :: "('d ext4, u32) op" where \<comment> \<open>uint32_t n = g_ext4.block_size / 4U\<close>
  "blk_ptrs = gets (\<lambda>s. block_size (fs s) div 4)"

lemma core_simps [op_simps]:
  "core (ret x) = ret x" "core fail = fail" "core (gets f) = gets (\<lambda>sm. f (fst sm))" "core (check b) = check b"
  by (auto simp: core_def ret_def fail_def gets_def check_def fun_eq_iff)

section \<open>Pointer blocks\<close>

definition ext4_indirect_set :: "'d blkdrv \<Rightarrow> u64 \<Rightarrow> u32 \<Rightarrow> u32 \<Rightarrow> ('d ext4, unit) op" where
  "ext4_indirect_set D block index val =
     seq blk_ptrs (\<lambda>n.
     seq (check (\<not> index \<ge> n)) (\<lambda>_.
     seq (ext4_read_block D block) (\<lambda>buf.
     ext4_write_block D block (wr_le32 buf (unat index * 4) val))))"

definition ext4_alloc_zero_block :: "'d blkdrv \<Rightarrow> ('d ext4, u64) op" where
  "ext4_alloc_zero_block D =
     seq (ext4_alloc_block D) (\<lambda>blk.
     seq (gets (\<lambda>s. unat (block_size (fs s)))) (\<lambda>bs.
     seq (ext4_write_block D blk (replicate bs 0)) (\<lambda>_. ret blk)))"

text \<open>The step that all levels of \<^verbatim>\<open>ext4_set_block_direct\<close> share: a zeroed block whose number fits in 32 bits; a
  pointer in the inode, or in the pointer block \<open>parent\<close>, that gets such a block when it is 0.\<close>

definition new_ptr_block :: "'d blkdrv \<Rightarrow> ('d ext4, u32) op" where
  "new_ptr_block D = seq (ext4_alloc_zero_block D) (\<lambda>ib. seq (check (\<not> ib > 0xFFFFFFFF)) (\<lambda>_. ret (ucast ib)))"

definition root_ptr :: "'d blkdrv \<Rightarrow> nat \<Rightarrow> ('d mst, u32) op" where
  "root_ptr D i =
     seq (gets (\<lambda>sm. m_block (snd sm) ! i)) (\<lambda>p.
       if p = 0 then seq (core (new_ptr_block D)) (\<lambda>b. seq (upd_m (set_block i b)) (\<lambda>_. ret b)) else ret p)"

definition child_ptr :: "'d blkdrv \<Rightarrow> u32 \<Rightarrow> u32 \<Rightarrow> ('d ext4, u32) op" where
  "child_ptr D parent i =
     seq (ext4_read_block D (ucast parent)) (\<lambda>blk.
       let ind = ptr_at blk i in
       if ind = 0 then
         seq (new_ptr_block D) (\<lambda>b.
         seq (ext4_write_block D (ucast parent) (wr_le32 blk (unat i * 4) b)) (\<lambda>_. ret b))
       else ret ind)"

definition ext4_set_block_direct :: "'d blkdrv \<Rightarrow> u32 \<Rightarrow> u64 \<Rightarrow> ('d mst, unit) op" where
  "ext4_set_block_direct D lblock0 pblock =
     seq (check (\<not> pblock > 0xFFFFFFFF)) (\<lambda>_.
     seq (core blk_ptrs) (\<lambda>n.
     seq (check (n \<noteq> 0)) (\<lambda>_.
     let p = ucast pblock :: u32 in
     if lblock0 < EXT4_NDIR_BLOCKS then upd_m (set_block (unat lblock0) p)
     else
       let lblock = lblock0 - EXT4_NDIR_BLOCKS in
       if lblock < n then seq (root_ptr D 12) (\<lambda>ib. core (ext4_indirect_set D (ucast ib) lblock p))
       else
         let lblock = lblock - n in
         if lblock < n * n then
           seq (root_ptr D 13) (\<lambda>dib. core (
             seq (child_ptr D dib (lblock div n)) (\<lambda>ind.
             ext4_indirect_set D (ucast ind) (lblock mod n) p)))
         else
           let lblock = lblock - n * n; cube = ucast n * ucast n * ucast n :: u64 in
           seq (check (\<not> ucast lblock \<ge> cube)) (\<lambda>_.
             let i1 = lblock div (n * n); rem = lblock mod (n * n); i2 = rem div n; i3 = rem mod n in
             seq (root_ptr D 14) (\<lambda>tib. core (
               seq (child_ptr D tib i1) (\<lambda>dind.
               seq (child_ptr D dind i2) (\<lambda>ind.
               ext4_indirect_set D (ucast ind) i3 p))))))))"

section \<open>Clearing a pointer\<close>

text \<open>A block that cannot be read is not empty.\<close>

definition ext4_ptr_block_is_empty :: "'d blkdrv \<Rightarrow> u32 \<Rightarrow> ('d ext4, bool) op" where
  "ext4_ptr_block_is_empty D block =
     (if block = 0 then ret False
      else seq (attempt (ext4_read_block D (ucast block))) (\<lambda>r.
        case r of
          None \<Rightarrow> ret False
        | Some buf \<Rightarrow> seq blk_ptrs (\<lambda>n. ret (\<forall>i \<in> set [0..<unat n]. rd_le32 buf (i * 4) = 0))))"

text \<open>Release an empty pointer block: the pointer to it is entry \<open>i\<close> of the block \<open>parent\<close>, whose bytes are \<open>b\<close>, or
  entry \<open>i\<close> of the inode.\<close>

definition drop_child :: "'d blkdrv \<Rightarrow> u32 \<Rightarrow> u8 list \<Rightarrow> u32 \<Rightarrow> u32 \<Rightarrow> ('d ext4, unit) op" where
  "drop_child D parent b i child =
     seq (ext4_ptr_block_is_empty D child) (\<lambda>e.
       if e then
         seq (ext4_write_block D (ucast parent) (wr_le32 b (unat i * 4) 0)) (\<lambda>_.
         ext4_free_block D (ucast child))
       else ret ())"

definition drop_root :: "'d blkdrv \<Rightarrow> nat \<Rightarrow> ('d mst, unit) op" where
  "drop_root D i =
     seq (gets (\<lambda>sm. m_block (snd sm) ! i)) (\<lambda>old.
     seq (core (ext4_ptr_block_is_empty D old)) (\<lambda>e.
       if e then seq (upd_m (set_block i 0)) (\<lambda>_. core (ext4_free_block D (ucast old))) else ret ()))"

text \<open>Clear entry \<open>i\<close> of a pointer block and return what it was.\<close>

definition clear_ptr :: "'d blkdrv \<Rightarrow> u32 \<Rightarrow> u32 \<Rightarrow> ('d ext4, u64) op" where
  "clear_ptr D block i =
     seq (ext4_read_block D (ucast block)) (\<lambda>b.
     seq (ext4_write_block D (ucast block) (wr_le32 b (unat i * 4) 0)) (\<lambda>_.
     ret (ucast (ptr_at b i))))"

text \<open>The result is \<^verbatim>\<open>*old_block_out\<close>, which no caller reads after a failure.\<close>

definition ext4_clear_block_direct :: "'d blkdrv \<Rightarrow> u32 \<Rightarrow> ('d mst, u64) op" where
  "ext4_clear_block_direct D lblock0 =
     seq (core blk_ptrs) (\<lambda>n.
     seq (check (n \<noteq> 0)) (\<lambda>_.
     seq (gets (m_block \<circ> snd)) (\<lambda>mb.
     if lblock0 < EXT4_NDIR_BLOCKS then
       seq (upd_m (set_block (unat lblock0) 0)) (\<lambda>_. ret (ucast (mb ! unat lblock0)))
     else
       let lblock = lblock0 - EXT4_NDIR_BLOCKS in
       if lblock < n then
         (if mb ! 12 = 0 then ret 0
          else seq (core (clear_ptr D (mb ! 12) lblock)) (\<lambda>old. seq (drop_root D 12) (\<lambda>_. ret old)))
       else
         let lblock = lblock - n in
         if lblock < n * n then
           let i1 = lblock div n; i2 = lblock mod n in
           (if mb ! 13 = 0 then ret 0
            else seq (core (ext4_read_block D (ucast (mb ! 13)))) (\<lambda>b1.
              let ind = ptr_at b1 i1 in
              if ind = 0 then ret 0
              else
                seq (core (clear_ptr D ind i2)) (\<lambda>old.
                seq (core (drop_child D (mb ! 13) b1 i1 ind)) (\<lambda>_.
                seq (drop_root D 13) (\<lambda>_. ret old)))))
         else
           let lblock = lblock - n * n; cube = ucast n * ucast n * ucast n :: u64 in
           seq (check (\<not> ucast lblock \<ge> cube)) (\<lambda>_.
             let i1 = lblock div (n * n); rem = lblock mod (n * n); i2 = rem div n; i3 = rem mod n in
             if mb ! 14 = 0 then ret 0
             else seq (core (ext4_read_block D (ucast (mb ! 14)))) (\<lambda>b1.
               let dind = ptr_at b1 i1 in
               if dind = 0 then ret 0
               else seq (core (ext4_read_block D (ucast dind))) (\<lambda>b2.
                 let ind = ptr_at b2 i2 in
                 if ind = 0 then ret 0
                 else
                   seq (core (clear_ptr D ind i3)) (\<lambda>old.
                   seq (core (drop_child D dind b2 i2 ind)) (\<lambda>_.
                   seq (core (drop_child D (mb ! 14) b1 i1 dind)) (\<lambda>_.
                   seq (drop_root D 14) (\<lambda>_. ret old))))))))))"

section \<open>Freeing a tree of pointer blocks\<close>

text \<open>The callers pass a depth of 1, 2 or 3.\<close>

primrec ext4_free_indirect_subtree :: "'d blkdrv \<Rightarrow> nat \<Rightarrow> u64 \<Rightarrow> ('d ext4, unit) op" where
  "ext4_free_indirect_subtree D 0 block = fail"
| "ext4_free_indirect_subtree D (Suc d) block =
     (if block = 0 then ret ()
      else
        seq (ext4_read_block D block) (\<lambda>blk.
        seq blk_ptrs (\<lambda>n.
        seq (for_each (\<lambda>i.
               let child = ptr_at blk (of_nat i) in
               if child = 0 then ret ()
               else if d = 0 then ext4_free_block D (ucast child)
               else ext4_free_indirect_subtree D d (ucast child)) [0..<unat n]) (\<lambda>_.
        ext4_free_block D block))))"

end
