(* ===== verification/Ext4Extents.thy ===== *)
theory Ext4Extents
  imports Ext4Blocks
begin

text \<open>
  Changing extent trees in \<^verbatim>\<open>src/kernel/ext4.c\<close>: the runs of a tree are collected into an array, changed,
  merged and written out as a new tree; then the blocks of the old tree are freed. \<open>runs[0 .. run_count)\<close> is
  a list. Recursion over a tree is bounded by fuel, as in the walk of \<open>Ext4Map\<close>.
\<close>

section \<open>Runs\<close>

record ext4_extent_run =
  run_lblock :: u32
  run_len :: u32
  run_pblock :: u64

type_synonym node_ref = "u32 \<times> u64" \<comment> \<open>ext4_extent_node_ref_t: lblock and block\<close>

abbreviation (input) EXT4_EXT_MUT_MAX_RUNS :: nat where "EXT4_EXT_MUT_MAX_RUNS \<equiv> 256"
abbreviation (input) EXT4_EXT_MUT_MAX_NODES :: nat where "EXT4_EXT_MUT_MAX_NODES \<equiv> 512"

text \<open>\<^verbatim>\<open>sizeof(ext4_extent_header_t) + eh_max * 12\<close>, in 32 bits.\<close>

definition node_room :: "u8 list \<Rightarrow> u32" where "node_room node = 12 + ucast (eh_max node) * 12"

fun collect_leaf :: "u8 list \<Rightarrow> nat list \<Rightarrow> ext4_extent_run list \<Rightarrow> ext4_extent_run list option" where
  "collect_leaf node [] runs = Some runs"
| "collect_leaf node (i # is) runs =
     (let raw_len = ucast (ee_len node i) :: u32; len = raw_len AND 0x7FFF in
      if raw_len AND 0x8000 \<noteq> 0 then None
      else if len = 0 then collect_leaf node is runs
      else if length runs \<ge> EXT4_EXT_MUT_MAX_RUNS then None
      else if ee_start node i = 0 then None
      else collect_leaf node is (runs @ [\<lparr>run_lblock = ee_block node i, run_len = len, run_pblock = ee_start node i\<rparr>]))"

primrec fold_op :: "('a \<Rightarrow> 'b \<Rightarrow> ('s, 'b) op) \<Rightarrow> 'a list \<Rightarrow> 'b \<Rightarrow> ('s, 'b) op" where
  "fold_op f [] acc = ret acc"
| "fold_op f (x # xs) acc = seq (f x acc) (\<lambda>acc'. fold_op f xs acc')"

primrec ext4_extent_collect_node ::
    "'d blkdrv \<Rightarrow> nat \<Rightarrow> nat \<Rightarrow> u8 list \<Rightarrow> ext4_extent_run list \<Rightarrow> ('d ext4, ext4_extent_run list) op" where
  "ext4_extent_collect_node D 0 node_bytes node runs = fail"
| "ext4_extent_collect_node D (Suc fuel) node_bytes node runs =
     seq (check (\<not> node_bytes < 12)) (\<lambda>_.
     seq (check (\<not> (eh_magic node \<noteq> EXT4_EXT_MAGIC \<or> eh_entries node > eh_max node \<or> eh_max node = 0))) (\<lambda>_.
     seq (check (\<not> unat (node_room node) > node_bytes)) (\<lambda>_.
       if eh_depth node = 0 then
         (case collect_leaf node [0..<unat (eh_entries node)] runs of None \<Rightarrow> fail | Some runs' \<Rightarrow> ret runs')
       else
         fold_op (\<lambda>i runs.
           let child = ei_leaf node i in
           seq (check (\<not> child = 0)) (\<lambda>_.
           seq (ext4_read_block D child) (\<lambda>buf.
           seq (gets (\<lambda>s. unat (block_size (fs s)))) (\<lambda>bs.
           ext4_extent_collect_node D fuel bs buf runs)))) [0..<unat (eh_entries node)] runs)))"

definition run_end :: "ext4_extent_run \<Rightarrow> u64" where
  "run_end r = ucast (run_lblock r) + ucast (run_len r)"

fun runs_sorted :: "ext4_extent_run list \<Rightarrow> bool" where \<comment> \<open>the loop at the end of ext4_extent_collect_runs\<close>
  "runs_sorted [] = True"
| "runs_sorted [r] = (\<not> (run_len r = 0 \<or> run_len r > 0x7FFF \<or> run_end r > 0xFFFFFFFF))"
| "runs_sorted (r # r' # rs) =
     (\<not> (run_len r = 0 \<or> run_len r > 0x7FFF \<or> run_end r > 0xFFFFFFFF) \<and> \<not> ucast (run_lblock r') < run_end r
      \<and> runs_sorted (r' # rs))"

definition ext4_extent_collect_runs :: "'d blkdrv \<Rightarrow> ext4_meta \<Rightarrow> ('d ext4, ext4_extent_run list) op" where
  "ext4_extent_collect_runs D m =
     seq (check (uses_extents m)) (\<lambda>_.
     seq (ext4_extent_collect_node D 65536 60 (root_bytes m) []) (\<lambda>runs.
     seq (check (runs_sorted runs)) (\<lambda>_. ret runs)))"

definition can_merge :: "ext4_extent_run \<Rightarrow> ext4_extent_run \<Rightarrow> bool" where
  "can_merge prev cur \<longleftrightarrow> run_end prev = ucast (run_lblock cur)
     \<and> run_pblock prev + ucast (run_len prev) = run_pblock cur
     \<and> ucast (run_len prev) + ucast (run_len cur) \<le> (0x7FFF :: u64)"

text \<open>The loop writes its output over its input, never ahead of where it reads; \<open>prev\<close> is the last run of
  the output.\<close>

fun merge_from :: "ext4_extent_run \<Rightarrow> ext4_extent_run list \<Rightarrow> ext4_extent_run list" where
  "merge_from prev [] = [prev]"
| "merge_from prev (cur # rs) =
     (if can_merge prev cur then merge_from (prev\<lparr>run_len := run_len prev + run_len cur\<rparr>) rs
      else prev # merge_from cur rs)"

fun ext4_extent_merge_runs :: "ext4_extent_run list \<Rightarrow> ext4_extent_run list" where
  "ext4_extent_merge_runs [] = []"
| "ext4_extent_merge_runs (r # rs) = merge_from r rs"

section \<open>Writing a tree\<close>

text \<open>A node of \<open>sz\<close> bytes: header, entries, zeros.\<close>

definition ext_node :: "nat \<Rightarrow> u16 \<Rightarrow> u16 \<Rightarrow> u16 \<Rightarrow> u8 list list \<Rightarrow> u8 list" where
  "ext_node sz n cap depth ents =
     (let b = le16 EXT4_EXT_MAGIC @ le16 n @ le16 cap @ le16 depth @ le32 0 @ concat ents
      in b @ replicate (sz - length b) 0)"

definition run_entry :: "ext4_extent_run \<Rightarrow> u8 list" where
  "run_entry r = le32 (run_lblock r) @ le16 (ucast (run_len r)) @ le16 (ucast (drop_bit 32 (run_pblock r)))
     @ le32 (ucast (run_pblock r AND 0xFFFFFFFF))"

definition idx_entry :: "node_ref \<Rightarrow> u8 list" where
  "idx_entry c = le32 (fst c) @ le32 (ucast (snd c AND 0xFFFFFFFF)) @ le16 (ucast (drop_bit 32 (snd c))) @ le16 0"

definition node_cap :: "ext4_fs \<Rightarrow> nat" where \<comment> \<open>(uint16_t)((block_size - 12) / 12)\<close>
  "node_cap f = unat (ucast ((block_size f - 12) div 12) :: u16)"

primrec ext4_extent_free_new_nodes :: "'d blkdrv \<Rightarrow> u64 list \<Rightarrow> ('d ext4, unit) op" where
  "ext4_extent_free_new_nodes D [] = ret ()"
| "ext4_extent_free_new_nodes D (b # bs) =
     (if b = 0 then ext4_extent_free_new_nodes D bs
      else seq (ext4_free_block D b) (\<lambda>_. ext4_extent_free_new_nodes D bs))"

text \<open>Allocate a block and write a node to it; the block is given back when the write fails.\<close>

definition write_node :: "'d blkdrv \<Rightarrow> u8 list \<Rightarrow> ('d ext4, u64) op" where
  "write_node D buf =
     seq (ext4_alloc_block D) (\<lambda>blk.
     seq (on_fail (\<lambda>s. snd (ext4_free_block D blk s)) (ext4_write_block D blk buf)) (\<lambda>_.
     ret blk))"

definition ext4_extent_build_leaf_block :: "'d blkdrv \<Rightarrow> ext4_extent_run list \<Rightarrow> ('d ext4, u64) op" where
  "ext4_extent_build_leaf_block D runs =
     seq (check (\<not> length runs = 0)) (\<lambda>_.
     seq (gets fs) (\<lambda>f.
     seq (check (\<not> length runs > unat ((block_size f - 12) div 12))) (\<lambda>_.
     write_node D (ext_node (unat (block_size f)) (of_nat (length runs)) (of_nat (node_cap f)) 0 (map run_entry runs)))))"

definition ext4_extent_build_index_block :: "'d blkdrv \<Rightarrow> u16 \<Rightarrow> node_ref list \<Rightarrow> ('d ext4, u64) op" where
  "ext4_extent_build_index_block D depth children =
     seq (check (\<not> (length children = 0 \<or> depth = 0))) (\<lambda>_.
     seq (gets fs) (\<lambda>f.
     seq (check (\<not> length children > unat ((block_size f - 12) div 12))) (\<lambda>_.
     write_node D (ext_node (unat (block_size f)) (of_nat (length children)) (of_nat (node_cap f)) depth
                     (map idx_entry children)))))"

text \<open>One level of the new tree: nodes of up to \<open>cap\<close> entries, each recorded in \<open>new\<close> (\<open>new_meta_blocks\<close>) and in \<open>refs\<close>
  (\<open>cur\<close> or \<open>next\<close>) with the first logical block below it. \<open>give_up\<close>: \<^verbatim>\<open>(void)ext4_extent_free_new_nodes(...); return
  false;\<close>.\<close>

definition give_up :: "'d blkdrv \<Rightarrow> u64 list \<Rightarrow> ('d ext4, 'a) op" where
  "give_up D new = seq (attempt (ext4_extent_free_new_nodes D new)) (\<lambda>_. fail)"

function build_level :: "'d blkdrv \<Rightarrow> ('a list \<Rightarrow> ('d ext4, u64) op) \<Rightarrow> ('a \<Rightarrow> u32) \<Rightarrow> nat \<Rightarrow> 'a list \<Rightarrow> u64 list
    \<Rightarrow> node_ref list \<Rightarrow> ('d ext4, u64 list \<times> node_ref list) op" where
  "build_level D build key cap [] new refs = ret (new, refs)"
| "build_level D build key cap (x # xs) new refs =
     (if length refs \<ge> EXT4_EXT_MUT_MAX_NODES then give_up D new
      else
        seq (attempt (build (take cap (x # xs)))) (\<lambda>r.
          case r of
            None \<Rightarrow> give_up D new
          | Some blk \<Rightarrow>
              if length new \<ge> EXT4_EXT_MUT_MAX_NODES then seq (attempt (ext4_free_block D blk)) (\<lambda>_. give_up D new)
              else build_level D build key cap (drop (cap - 1) xs) (new @ [blk]) (refs @ [(key x, blk)])))"
  by pat_completeness auto
termination
  by (relation "measure (\<lambda>(_, _, _, _, xs, _, _). length xs)") auto

text \<open>\<^verbatim>\<open>while (cur_count > root_cap)\<close>: each round adds a node to \<open>new\<close>, which has room for 512 of them, so 513 rounds
  are enough.\<close>

primrec build_up :: "'d blkdrv \<Rightarrow> nat \<Rightarrow> nat \<Rightarrow> u16 \<Rightarrow> node_ref list \<Rightarrow> u64 list
    \<Rightarrow> ('d ext4, u16 \<times> node_ref list \<times> u64 list) op" where
  "build_up D cap 0 child_depth cur new = fail"
| "build_up D cap (Suc fuel) child_depth cur new =
     (if length cur > 4 then
        seq (build_level D (ext4_extent_build_index_block D (child_depth + 1)) fst cap cur new []) (\<lambda>(new', nxt).
        build_up D cap fuel (child_depth + 1) nxt new')
      else ret (child_depth, cur, new))"

text \<open>The new root and the blocks allocated for it.\<close>

definition build_tree :: "'d blkdrv \<Rightarrow> ext4_extent_run list \<Rightarrow> ('d ext4, u8 list \<times> u64 list) op" where
  "build_tree D runs =
     seq (gets (node_cap \<circ> fs)) (\<lambda>cap.
     seq (check (\<not> cap = 0)) (\<lambda>_.
       if length runs \<le> 4 then ret (ext_node 60 (of_nat (length runs)) 4 0 (map run_entry runs), [])
       else
         seq (build_level D (ext4_extent_build_leaf_block D) run_lblock cap runs [] []) (\<lambda>(new, cur).
         seq (build_up D cap 513 0 cur new) (\<lambda>(child_depth, cur, new).
         ret (ext_node 60 (of_nat (length cur)) 4 (child_depth + 1) (map idx_entry cur), new)))))"

text \<open>The block array of an inode as the words in 60 bytes.\<close>

definition block_words :: "u8 list \<Rightarrow> u32 list" where
  "block_words b = map (\<lambda>i. rd_le32 b (i * 4)) [0..<15]"

text \<open>Freeing a tree. The node passed by the callers may be the 60 bytes of the inode, and this function does not
  compare \<open>eh_max\<close> with the size of the node: entries past its end, which the code would read out of bounds, fail here.\<close>

primrec ext4_extent_free_tree_node :: "'d blkdrv \<Rightarrow> nat \<Rightarrow> bool \<Rightarrow> u8 list \<Rightarrow> ('d ext4, unit) op" where
  "ext4_extent_free_tree_node D 0 free_data node = fail"
| "ext4_extent_free_tree_node D (Suc fuel) free_data node =
     seq (check (\<not> (eh_magic node \<noteq> EXT4_EXT_MAGIC \<or> eh_entries node > eh_max node))) (\<lambda>_.
       if eh_depth node = 0 \<and> \<not> free_data then ret ()
       else
         for_each (\<lambda>i.
           seq (check (12 + i * 12 + 12 \<le> length node)) (\<lambda>_.
             if eh_depth node = 0 then
               for_each (\<lambda>j. ext4_free_block D (ee_start node i + of_nat j))
                 [0..<unat (ucast (ee_len node i) AND 0x7FFF :: u32)]
             else
               let child = ei_leaf node i in
               if child = 0 then ret ()
               else
                 seq (ext4_read_block D child) (\<lambda>buf.
                 seq (ext4_extent_free_tree_node D fuel free_data buf) (\<lambda>_.
                 ext4_free_block D child)))) [0..<unat (eh_entries node)])"

definition ext4_extent_rebuild :: "'d blkdrv \<Rightarrow> ext4_extent_run list \<Rightarrow> ('d mst, unit) op" where
  "ext4_extent_rebuild D runs =
     seq (gets snd) (\<lambda>m.
     seq (check (uses_extents m)) (\<lambda>_.
     seq (core (build_tree D runs)) (\<lambda>(new_root, new).
     seq (upd_m (\<lambda>m. m\<lparr>m_block := block_words new_root\<rparr>)) (\<lambda>_.
     seq (attempt (core (ext4_inode_store D (m\<lparr>m_block := block_words new_root\<rparr>)))) (\<lambda>r.
       if r = None then
         seq (upd_m (\<lambda>m'. m'\<lparr>m_block := m_block m\<rparr>)) (\<lambda>_. core (give_up D new))
       else core (ext4_extent_free_tree_node D 65536 False (root_bytes m)))))))"

section \<open>Adding a block, cutting the tail\<close>

definition run_block :: "u32 \<Rightarrow> u64 \<Rightarrow> ext4_extent_run" where
  "run_block lblock pblock = \<lparr>run_lblock = lblock, run_len = 1, run_pblock = pblock\<rparr>"

definition insert_run :: "u32 \<Rightarrow> u64 \<Rightarrow> ext4_extent_run list \<Rightarrow> ext4_extent_run list option" where
  "insert_run lblock pblock runs =
     (let before = takeWhile (\<lambda>r. run_lblock r < lblock) runs;
          after = dropWhile (\<lambda>r. run_lblock r < lblock) runs
      in if before \<noteq> [] \<and> ucast lblock < run_end (last before) then None
         else if after \<noteq> [] \<and> run_lblock (hd after) = lblock \<and> run_len (hd after) \<noteq> 0 then None
         else if length runs \<ge> EXT4_EXT_MUT_MAX_RUNS then None
         else Some (before @ run_block lblock pblock # after))"

definition ext4_extent_assign_block :: "'d blkdrv \<Rightarrow> u32 \<Rightarrow> u64 \<Rightarrow> ('d mst, unit) op" where
  "ext4_extent_assign_block D lblock pblock =
     seq (check (\<not> (pblock = 0 \<or> pblock > 0xFFFFFFFF))) (\<lambda>_.
     seq (gets snd) (\<lambda>m.
     seq (core (ext4_extent_collect_runs D m)) (\<lambda>runs.
       case insert_run lblock pblock runs of
         None \<Rightarrow> fail
       | Some runs' \<Rightarrow> ext4_extent_rebuild D (ext4_extent_merge_runs runs'))))"

text \<open>A round of the loop of \<^verbatim>\<open>ext4_extent_truncate_data\<close> on one run: what is kept of it, after its blocks past the
  end are freed.\<close>

definition cut_run :: "'d blkdrv \<Rightarrow> u32 \<Rightarrow> ext4_extent_run \<Rightarrow> ext4_extent_run list \<Rightarrow> ('d ext4, ext4_extent_run list) op" where
  "cut_run D keep_blocks r keep =
     (let lstart = ucast (run_lblock r) :: u64; lend = run_end r;
          free_from = (\<lambda>k. for_each (\<lambda>j. ext4_free_block D (run_pblock r + of_nat j)) [k..<unat (run_len r)])
      in if lend \<le> ucast keep_blocks then
           seq (check (\<not> length keep \<ge> EXT4_EXT_MUT_MAX_RUNS)) (\<lambda>_. ret (keep @ [r]))
         else if lstart \<ge> ucast keep_blocks then seq (free_from 0) (\<lambda>_. ret keep)
         else
           let keep_len = ucast (ucast keep_blocks - lstart) :: u32 in
           seq (check (\<not> (keep_len = 0 \<or> keep_len > run_len r))) (\<lambda>_.
           seq (free_from (unat keep_len)) (\<lambda>_.
           seq (check (\<not> length keep \<ge> EXT4_EXT_MUT_MAX_RUNS)) (\<lambda>_.
           ret (keep @ [r\<lparr>run_len := keep_len\<rparr>])))))"

definition ext4_extent_truncate_data :: "'d blkdrv \<Rightarrow> u64 \<Rightarrow> ('d mst, unit) op" where
  "ext4_extent_truncate_data D new_size =
     seq (gets snd) (\<lambda>m.
     seq (core (ext4_extent_collect_runs D m)) (\<lambda>runs.
     seq (gets (\<lambda>sm. ucast (block_size (fs (fst sm))))) (\<lambda>bs.
       let keep_blocks = ucast ((new_size + bs - 1) div bs) in
       seq (core (fold_op (cut_run D keep_blocks) runs [])) (\<lambda>keep.
       ext4_extent_rebuild D (ext4_extent_merge_runs keep)))))"

section \<open>Freeing the blocks of a file\<close>

definition ext4_free_file_blocks :: "'d blkdrv \<Rightarrow> bool \<Rightarrow> ('d mst, unit) op" where
  "ext4_free_file_blocks D free_data =
     seq (gets snd) (\<lambda>m.
     seq (core (
       if uses_extents m then ext4_extent_free_tree_node D 65536 free_data (root_bytes m)
       else if free_data then
         seq (for_each (\<lambda>i. if m_block m ! i = 0 then ret () else ext4_free_block D (ucast (m_block m ! i))) [0..<12]) (\<lambda>_.
         for_each (\<lambda>d. if m_block m ! (11 + d) = 0 then ret ()
                       else ext4_free_indirect_subtree D d (ucast (m_block m ! (11 + d)))) [1, 2, 3])
       else ret ())) (\<lambda>_.
     upd_m (\<lambda>m. m\<lparr>m_block := (if uses_extents m then block_words (ext_node 60 0 4 0 []) else replicate 15 0),
                   m_size := 0, m_blocks_lo := 0\<rparr>)))"

text \<open>Turn a file with extents into one with block pointers. \<open>n * n * n\<close> is computed in 64 bits.\<close>

definition ext4_prepare_writable_nonextent :: "'d blkdrv \<Rightarrow> ('d mst, unit) op" where
  "ext4_prepare_writable_nonextent D =
     seq (gets snd) (\<lambda>m.
     seq (check (ext4_is_reg_mode (m_mode m))) (\<lambda>_.
     let plain = m\<lparr>m_flags := m_flags m AND NOT EXT4_EXTENTS_FL, m_block := replicate 15 0\<rparr>;
         store = (\<lambda>m'. seq (upd_m (\<lambda>_. m')) (\<lambda>_. core (ext4_inode_store D m')))
     in if \<not> uses_extents m then ret ()
        else if m_size m = 0 then store (plain\<lparr>m_blocks_lo := 0\<rparr>)
        else
          seq (gets (\<lambda>sm. ucast (block_size (fs (fst sm))))) (\<lambda>bs.
          let n = bs div 4 :: u64; max_blocks = 12 + n + n * n + n * n * n; blocks = (m_size m + bs - 1) div bs in
          seq (check (\<not> blocks > max_blocks)) (\<lambda>_.
          seq (on_copy (plain\<lparr>m_blocks_lo := ucast ((m_size m + 511) div 512 AND 0xFFFFFFFF)\<rparr>)
                 (for_each (\<lambda>lb. seq (core (ext4_extent_map D m (of_nat lb))) (\<lambda>pb.
                    if pb = 0 then ret () else ext4_set_block_direct D (of_nat lb) pb))
                    [0..<unat (ucast blocks :: u32)])) (\<lambda>nm.
          seq (core (ext4_extent_free_tree_node D 65536 False (root_bytes m))) (\<lambda>_.
          store nm))))))"

end
