(* ===== verification/Ext4Layout.thy ===== *)
theory Ext4Layout
  imports Ext4Alloc
begin

text \<open>
  What the bytes of a partition say about its blocks and inodes: descriptors, bitmaps and which bits
  of them are set, for the contents \<open>v\<close> of a partition with the geometry \<open>f\<close>. Lemmas on how the
  writes of the allocators (\<^verbatim>\<open>src/kernel/ext4.c\<close>) change them.
\<close>

section \<open>Bits\<close>

lemma bm_get_bit: "bm_get bm i = bit (bm ! (i div 8)) (i mod 8)"
  by (auto simp: bm_get_def bm_mask_def bit_iff_and_push_bit_not_eq_0)

lemma length_bm [simp]: "length (bm_set bm i) = length bm" "length (bm_clear bm i) = length bm"
  by (simp_all add: bm_set_def bm_clear_def)

lemma bm_index: "(i :: nat) = j \<longleftrightarrow> i div 8 = j div 8 \<and> i mod 8 = j mod 8"
  by (metis div_mult_mod_eq)

lemma bit_bm_mask: "bit (bm_mask i) n \<longleftrightarrow> n = i mod 8"
proof -
  have "i mod 8 < 8" by simp
  then show ?thesis by (auto simp: bm_mask_def bit_simps)
qed

lemma bm_get_set: "i div 8 < length bm \<Longrightarrow> bm_get (bm_set bm i) j \<longleftrightarrow> j = i \<or> bm_get bm j"
  by (auto simp: bm_get_bit bm_set_def nth_list_update bit_or_iff bit_bm_mask bm_index [of j i])

lemma bm_get_clear: "i div 8 < length bm \<Longrightarrow> bm_get (bm_clear bm i) j \<longleftrightarrow> j \<noteq> i \<and> bm_get bm j"
  by (auto simp: bm_get_bit bm_clear_def nth_list_update bit_and_iff bit_not_iff bit_bm_mask bm_index [of j i]
      dest: bit_imp_le_length)

text \<open>A store of which only the beginning reached the disk sets no other bit and clears none.\<close>

lemma bm_get_part:
  assumes "bm_get (take n (bm_set bm i) @ drop n bm) j" "i div 8 < length bm" "j div 8 < length bm"
  shows "j = i \<or> bm_get bm j"
  using assms bm_get_set [of i bm j] by (auto simp: bm_get_bit nth_append split: if_splits)

lemma bm_get_part_keeps:
  assumes "bm_get bm j" "i div 8 < length bm" "j div 8 < length bm"
  shows "bm_get (take n (bm_set bm i) @ drop n bm) j"
  using assms bm_get_set [of i bm j] by (auto simp: bm_get_bit nth_append)

section \<open>Descriptors and bitmaps in the contents of a partition\<close>

definition blk_bytes :: "ext4_fs \<Rightarrow> (u64 \<Rightarrow> u8) \<Rightarrow> u64 \<Rightarrow> u8 list" where
  "blk_bytes f v b = get_bytes v (b * ucast (block_size f)) (unat (block_size f))"

definition desc_of :: "ext4_fs \<Rightarrow> (u64 \<Rightarrow> u8) \<Rightarrow> u32 \<Rightarrow> u8 list" where
  "desc_of f v g = get_bytes v (ext4_group_desc_offset g f) (unat (desc_size f))"

text \<open>The block bitmap of a group, or its inode bitmap.\<close>

datatype which = Blocks | Inodes

fun ref_in :: "ext4_fs \<Rightarrow> which \<Rightarrow> u8 list \<Rightarrow> u64" where
  "ref_in f Blocks gd = ext4_group_get_block_ref f gd EXT4_BG_BLOCK_BITMAP_LO EXT4_BG_BLOCK_BITMAP_HI"
| "ref_in f Inodes gd = ext4_group_get_block_ref f gd EXT4_BG_INODE_BITMAP_LO EXT4_BG_INODE_BITMAP_HI"

definition bm_ref :: "ext4_fs \<Rightarrow> (u64 \<Rightarrow> u8) \<Rightarrow> which \<Rightarrow> u32 \<Rightarrow> u64" where
  "bm_ref f v w g = ref_in f w (desc_of f v g)"

definition bits_of :: "ext4_fs \<Rightarrow> (u64 \<Rightarrow> u8) \<Rightarrow> which \<Rightarrow> u32 \<Rightarrow> u8 list" where
  "bits_of f v w g = blk_bytes f v (bm_ref f v w g)"

lemma length_blk_bytes [simp]: "length (blk_bytes f v b) = unat (block_size f)" by (simp add: blk_bytes_def)
lemma length_bits_of [simp]: "length (bits_of f v w g) = unat (block_size f)" by (simp add: bits_of_def)
lemma length_desc_of [simp]: "length (desc_of f v g) = unat (desc_size f)" by (simp add: desc_of_def)

text \<open>Where the descriptors lie.\<close>

definition gdt_base :: "ext4_fs \<Rightarrow> nat" where
  "gdt_base f = (if block_size f = 1024 then 2048 else unat (block_size f))"

definition gdt_end :: "ext4_fs \<Rightarrow> nat" where
  "gdt_end f = gdt_base f + unat (groups_count f) * unat (desc_size f)"

lemma mult_u32_bound: "unat (a :: u32) * unat (b :: u32) \<le> 4294967295 * 4294967295"
proof (rule mult_le_mono)
  show "unat a \<le> 4294967295" using unat_u32 [of a] by (simp del: unat_u32)
  show "unat b \<le> 4294967295" using unat_u32 [of b] by (simp del: unat_u32)
qed

lemma unat_mult_u32: "unat (ucast (a :: u32) * ucast (b :: u32) :: u64) = unat a * unat b"
  using unat_mult_u64 [of "ucast a" "ucast b"] mult_u32_bound [of a b] by simp

lemma unat_desc_offset: "unat (ext4_group_desc_offset g f) = gdt_base f + unat g * unat (desc_size f)"
proof -
  let ?t = "if block_size f = 1024 then 2 else 1 :: u32"
  have t: "unat (ucast ?t * ucast (block_size f) :: u64) = gdt_base f"
    by (simp add: unat_mult_u32 gdt_base_def)
  have "gdt_base f \<le> 4294967295" using unat_u32 [of "block_size f"] by (simp add: gdt_base_def del: unat_u32)
  then have "gdt_base f + unat g * unat (desc_size f) < 2 ^ 64" using mult_u32_bound [of g "desc_size f"] by simp
  then show ?thesis
    unfolding ext4_group_desc_offset_def Let_def
    by (subst unat_add_u64) (simp_all add: t unat_mult_u32, auto simp: gdt_base_def split: if_splits)
qed

lemma desc_inside:
  assumes "g < groups_count f"
  shows "gdt_base f \<le> unat (ext4_group_desc_offset g f)" "unat (ext4_group_desc_offset g f) + unat (desc_size f) \<le> gdt_end f"
proof -
  have "(unat g + 1) * unat (desc_size f) \<le> unat (groups_count f) * unat (desc_size f)"
    using assms by (intro mult_le_mono1) (simp add: word_less_nat_alt)
  then show "gdt_base f \<le> unat (ext4_group_desc_offset g f)" "unat (ext4_group_desc_offset g f) + unat (desc_size f) \<le> gdt_end f"
    by (simp_all add: unat_desc_offset gdt_end_def)
qed

lemma gdt_end_bound: "gdt_end f < 2 ^ 64"
proof -
  have "gdt_base f \<le> 4294967295" using unat_u32 [of "block_size f"] by (simp add: gdt_base_def del: unat_u32)
  then show ?thesis using mult_u32_bound [of "groups_count f" "desc_size f"] by (simp add: gdt_end_def)
qed

text \<open>A sound layout: superblock, descriptors and bitmaps are apart from each other, and inside the
  part of the disk that belongs to the file system (\<open>usable\<close>).\<close>

definition bitmap_ok :: "(u64 \<Rightarrow> nat \<Rightarrow> bool) \<Rightarrow> ext4_fs \<Rightarrow> u64 \<Rightarrow> bool" where
  "bitmap_ok usable f b \<longleftrightarrow> usable (b * ucast (block_size f)) (unat (block_size f))
     \<and> unat b * unat (block_size f) + unat (block_size f) < 2 ^ 64 \<and> gdt_end f \<le> unat b * unat (block_size f)"

definition layout :: "(u64 \<Rightarrow> nat \<Rightarrow> bool) \<Rightarrow> ext4_fs \<Rightarrow> (u64 \<Rightarrow> u8) \<Rightarrow> bool" where
  "layout usable f v \<longleftrightarrow> usable EXT4_SUPER_OFFSET EXT4_SUPER_SIZE \<and> 2048 \<le> gdt_base f
     \<and> unat (blocks_count f) \<le> unat (first_data_block f) + unat (groups_count f) * unat (blocks_per_group f)
     \<and> (\<forall>g < groups_count f. usable (ext4_group_desc_offset g f) (unat (desc_size f)))
     \<and> (\<forall>w. \<forall>g < groups_count f. bm_ref f v w g \<noteq> 0 \<longrightarrow> bitmap_ok usable f (bm_ref f v w g))
     \<and> (\<forall>w w'. \<forall>g < groups_count f. \<forall>g' < groups_count f. bm_ref f v w g \<noteq> 0 \<longrightarrow> bm_ref f v w g = bm_ref f v w' g'
          \<longrightarrow> w = w' \<and> g = g')"

lemma bitmap_span: "bitmap_ok usable f b \<Longrightarrow> unat (b * ucast (block_size f)) = unat b * unat (block_size f)"
  using unat_mult_u64 [of b "ucast (block_size f)"] by (simp add: bitmap_ok_def)

lemma blocks_apart:
  assumes "b \<noteq> (b' :: u64)"
  shows "unat b * n + n \<le> unat b' * n \<or> unat b' * n + n \<le> unat b * n"
proof -
  have "unat b + 1 \<le> unat b' \<or> unat b' + 1 \<le> unat b" using assms by (auto simp: word_unat_eq_iff)
  then show ?thesis using mult_le_mono1 [of "unat b + 1" "unat b'" n] mult_le_mono1 [of "unat b' + 1" "unat b" n] by auto
qed

text \<open>Contents that agree on descriptors and bitmaps say the same.\<close>

lemma desc_cong:
  assumes "g < groups_count f" "\<And>k. gdt_base f \<le> unat k \<Longrightarrow> unat k < gdt_end f \<Longrightarrow> v' k = v k"
  shows "desc_of f v' g = desc_of f v g"
  unfolding desc_of_def
proof (rule get_bytes_cong)
  fix i assume "i < unat (desc_size f)"
  moreover note d = desc_inside [OF assms(1)] gdt_end_bound [of f]
  ultimately have "unat (ext4_group_desc_offset g f + of_nat i) = unat (ext4_group_desc_offset g f) + i"
    by (intro unat_add_small) simp
  then show "v' (ext4_group_desc_offset g f + of_nat i) = v (ext4_group_desc_offset g f + of_nat i)"
    using d \<open>i < _\<close> by (intro assms(2)) simp_all
qed

lemma blk_cong:
  assumes "bitmap_ok usable f b" "\<And>k. in_span (b * ucast (block_size f)) (unat (block_size f)) k \<Longrightarrow> v' k = v k"
  shows "blk_bytes f v' b = blk_bytes f v b"
  unfolding blk_bytes_def
proof (rule get_bytes_cong)
  fix i assume i: "i < unat (block_size f)"
  have "unat b * unat (block_size f) + unat (block_size f) < 2 ^ 64" using assms(1) by (simp add: bitmap_ok_def)
  then have "unat (b * ucast (block_size f) + of_nat i) = unat (b * ucast (block_size f)) + i"
    using i bitmap_span [OF assms(1)] by (intro unat_add_small) simp
  then show "v' (b * ucast (block_size f) + of_nat i) = v (b * ucast (block_size f) + of_nat i)"
    using i by (intro assms(2)) (simp add: in_span_def)
qed

text \<open>The bytes of the metadata: descriptors, and the bitmaps they name.\<close>

definition meta_byte :: "ext4_fs \<Rightarrow> (u64 \<Rightarrow> u8) \<Rightarrow> u64 \<Rightarrow> bool" where
  "meta_byte f v k \<longleftrightarrow> gdt_base f \<le> unat k \<and> unat k < gdt_end f
     \<or> (\<exists>w g. g < groups_count f \<and> bm_ref f v w g \<noteq> 0
          \<and> in_span (bm_ref f v w g * ucast (block_size f)) (unat (block_size f)) k)"

text \<open>The same descriptors' references and the same bits.\<close>

definition same_meta :: "ext4_fs \<Rightarrow> (u64 \<Rightarrow> u8) \<Rightarrow> (u64 \<Rightarrow> u8) \<Rightarrow> bool" where
  "same_meta f v v' \<longleftrightarrow> (\<forall>w. \<forall>g < groups_count f. bm_ref f v' w g = bm_ref f v w g
     \<and> (bm_ref f v w g \<noteq> 0 \<longrightarrow> bits_of f v' w g = bits_of f v w g))"

lemma same_meta_outside:
  assumes "layout usable f v" "\<And>k. meta_byte f v k \<Longrightarrow> v' k = v k"
  shows "same_meta f v v'"
  unfolding same_meta_def
proof (intro allI impI conjI)
  fix w g assume g: "g < groups_count f"
  have "desc_of f v' g = desc_of f v g"
    by (rule desc_cong [OF g]) (use assms(2) in \<open>auto simp: meta_byte_def\<close>)
  then show r: "bm_ref f v' w g = bm_ref f v w g" by (simp add: bm_ref_def)
  assume "bm_ref f v w g \<noteq> 0"
  then have "bitmap_ok usable f (bm_ref f v w g)" using assms(1) g by (simp add: layout_def)
  then show "bits_of f v' w g = bits_of f v w g"
    unfolding bits_of_def r using \<open>bm_ref f v w g \<noteq> 0\<close> g
    by (intro blk_cong [of usable]) (use assms(2) in \<open>auto simp: meta_byte_def\<close>)
qed

lemma layout_refs:
  "layout usable f v \<Longrightarrow> (\<And>w g. g < groups_count f \<Longrightarrow> bm_ref f v' w g = bm_ref f v w g) \<Longrightarrow> layout usable f v'"
  by (simp add: layout_def)

lemma layout_same: "layout usable f v \<Longrightarrow> same_meta f v v' \<Longrightarrow> layout usable f v'"
  by (erule layout_refs) (simp add: same_meta_def)

lemma layout_inj:
  "layout usable f v \<Longrightarrow> g < groups_count f \<Longrightarrow> g' < groups_count f \<Longrightarrow> bm_ref f v w g \<noteq> 0
     \<Longrightarrow> bm_ref f v w g = bm_ref f v w' g' \<Longrightarrow> w = w' \<and> g = g'"
  unfolding layout_def by (elim conjE) blast

lemma same_meta_super:
  assumes "layout usable f v" "length bs = 1024"
  shows "same_meta f v (put_bytes EXT4_SUPER_OFFSET bs v)"
proof (rule same_meta_outside [OF assms(1)])
  fix k assume "meta_byte f v k"
  then have "2048 \<le> unat k"
    using assms(1) bitmap_span [of usable f] by (fastforce simp: meta_byte_def layout_def bitmap_ok_def gdt_end_def in_span_def)
  then show "put_bytes EXT4_SUPER_OFFSET bs v k = v k"
    using assms(2) by (subst put_bytes_span) (simp_all add: in_span_def)
qed

text \<open>Storing a descriptor that names the same bitmaps.\<close>

lemma same_meta_desc:
  assumes l: "layout usable f v" and g: "g < groups_count f" and n: "length gd = unat (desc_size f)"
    and r: "\<And>w. ref_in f w gd = bm_ref f v w g"
  shows "same_meta f v (put_bytes (ext4_group_desc_offset g f) gd v)"
proof -
  let ?v = "put_bytes (ext4_group_desc_offset g f) gd v"
  note d = desc_inside [OF g] gdt_end_bound [of f]
  have nw: "unat (ext4_group_desc_offset g f) + length gd \<le> 2 ^ 64" using d n by simp
  have desc: "desc_of f ?v g' = (if g' = g then gd else desc_of f v g')" if "g' < groups_count f" for g'
  proof (cases "g' = g")
    case True
    then show ?thesis using get_put_same [OF nw] n by (simp add: desc_of_def)
  next
    case False
    then have "unat g + 1 \<le> unat g' \<or> unat g' + 1 \<le> unat g" by (auto simp: word_unat_eq_iff)
    then have "unat (ext4_group_desc_offset g f) + unat (desc_size f) \<le> unat (ext4_group_desc_offset g' f)
        \<or> unat (ext4_group_desc_offset g' f) + unat (desc_size f) \<le> unat (ext4_group_desc_offset g f)"
      using mult_le_mono1 [of "unat g + 1" "unat g'" "unat (desc_size f)"]
        mult_le_mono1 [of "unat g' + 1" "unat g" "unat (desc_size f)"] by (auto simp: unat_desc_offset)
    then show ?thesis
      using False nw n desc_inside [OF that] d unfolding desc_of_def by (subst get_put_disjoint) simp_all
  qed
  have ref: "bm_ref f ?v w g' = bm_ref f v w g'" if "g' < groups_count f" for w g'
    using desc [OF that] r by (simp add: bm_ref_def)
  have bits: "bits_of f ?v w g' = bits_of f v w g'" if "g' < groups_count f" "bm_ref f v w g' \<noteq> 0" for w g'
  proof -
    have b: "bitmap_ok usable f (bm_ref f v w g')" using l that by (simp add: layout_def)
    show ?thesis
      unfolding bits_of_def ref [OF that(1)]
      by (rule blk_cong [OF b], subst put_bytes_span [OF nw])
        (use b d n bitmap_span [OF b] in \<open>auto simp: in_span_def bitmap_ok_def\<close>)
  qed
  show ?thesis using ref bits by (simp add: same_meta_def)
qed

text \<open>Storing the beginning of a new bitmap.\<close>

lemma bits_stored:
  assumes l: "layout usable f v" and g: "g < groups_count f" and nz: "bm_ref f v w g \<noteq> 0" and n: "length bs \<le> unat (block_size f)"
  defines "v' \<equiv> put_bytes (bm_ref f v w g * ucast (block_size f)) bs v"
  shows "layout usable f v'" "g' < groups_count f \<Longrightarrow> bm_ref f v' w' g' = bm_ref f v w' g'"
    "bits_of f v' w g = bs @ drop (length bs) (bits_of f v w g)"
    "g' < groups_count f \<Longrightarrow> bm_ref f v w' g' \<noteq> 0 \<Longrightarrow> (w', g') \<noteq> (w, g) \<Longrightarrow> bits_of f v' w' g' = bits_of f v w' g'"
proof -
  let ?b = "bm_ref f v w g" and ?n = "unat (block_size f)"
  have b: "bitmap_ok usable f ?b" using l g nz by (simp add: layout_def)
  have nw: "unat (?b * ucast (block_size f)) + length bs \<le> 2 ^ 64"
    using b n bitmap_span [OF b] by (simp add: bitmap_ok_def)
  have desc: "desc_of f v' g' = desc_of f v g'" if "g' < groups_count f" for g'
    unfolding v'_def
    by (rule desc_cong [OF that], subst put_bytes_span [OF nw]) (use b bitmap_span [OF b] in \<open>auto simp: in_span_def bitmap_ok_def\<close>)
  then show ref: "bm_ref f v' w' g' = bm_ref f v w' g'" if "g' < groups_count f" for w' g' using that by (simp add: bm_ref_def)
  show "layout usable f v'" using layout_refs [OF l] ref by blast
  show "bits_of f v' w' g' = bits_of f v w' g'" if "g' < groups_count f" "bm_ref f v w' g' \<noteq> 0" "(w', g') \<noteq> (w, g)" for w' g'
  proof -
    have b': "bitmap_ok usable f (bm_ref f v w' g')" using l that by (simp add: layout_def)
    have "bm_ref f v w' g' \<noteq> ?b" using layout_inj [OF l that(1) g that(2), of w] that(3) by auto
    note apart = blocks_apart [OF this, of ?n]
    show ?thesis
      unfolding bits_of_def ref [OF that(1)] unfolding v'_def
      by (rule blk_cong [OF b'], subst put_bytes_span [OF nw])
        (use apart n bitmap_span [OF b] bitmap_span [OF b'] in \<open>auto simp: in_span_def\<close>)
  qed
  show "bits_of f v' w g = bs @ drop (length bs) (bits_of f v w g)"
  proof (rule nth_equalityI)
    show "length (bits_of f v' w g) = length (bs @ drop (length bs) (bits_of f v w g))" using n by simp
    fix i assume "i < length (bits_of f v' w g)"
    then have i: "i < ?n" by simp
    have "unat ?b * ?n + ?n < 2 ^ 64" using b by (simp add: bitmap_ok_def)
    then have k: "unat (?b * ucast (block_size f) + of_nat i) = unat (?b * ucast (block_size f)) + i"
      using i bitmap_span [OF b] by (intro unat_add_small) simp
    show "bits_of f v' w g ! i = (bs @ drop (length bs) (bits_of f v w g)) ! i"
      using i n unfolding bits_of_def ref [OF g] unfolding blk_bytes_def v'_def
      by (simp add: get_bytes_nth nth_append put_bytes_span [OF nw] in_span_def k)
  qed
qed

section \<open>Growing bitmaps\<close>

text \<open>The same bitmaps, and no bit of them cleared.\<close>

definition grows :: "ext4_fs \<Rightarrow> (u64 \<Rightarrow> u8) \<Rightarrow> (u64 \<Rightarrow> u8) \<Rightarrow> bool" where
  "grows f v v' \<longleftrightarrow> (\<forall>w. \<forall>g < groups_count f. bm_ref f v' w g = bm_ref f v w g
     \<and> (bm_ref f v w g \<noteq> 0 \<longrightarrow> (\<forall>i. i div 8 < unat (block_size f) \<longrightarrow> bm_get (bits_of f v w g) i \<longrightarrow> bm_get (bits_of f v' w g) i)))"

lemma grows_refl [simp]: "grows f v v" by (simp add: grows_def)
lemma grows_trans: "grows f u v \<Longrightarrow> grows f v x \<Longrightarrow> grows f u x" by (simp add: grows_def)
lemma grows_same: "same_meta f v v' \<Longrightarrow> grows f v v'" by (simp add: grows_def same_meta_def)

lemma grows_get:
  "grows f v v' \<Longrightarrow> g < groups_count f \<Longrightarrow> bm_ref f v w g \<noteq> 0 \<Longrightarrow> i div 8 < unat (block_size f)
     \<Longrightarrow> bm_get (bits_of f v w g) i \<Longrightarrow> bm_get (bits_of f v' w g) i"
  by (simp add: grows_def)

lemma grows_part:
  fixes n :: nat
  assumes l: "layout usable f v" and g: "g < groups_count f" and nz: "bm_ref f v w g \<noteq> 0" and j: "j div 8 < unat (block_size f)"
  defines "v' \<equiv> put_bytes (bm_ref f v w g * ucast (block_size f)) (take n (bm_set (bits_of f v w g) j)) v"
  shows "layout usable f v'" "grows f v v'" "unat (block_size f) \<le> n \<Longrightarrow> bm_get (bits_of f v' w g) j"
proof -
  let ?bs = "take n (bm_set (bits_of f v w g) j)"
  have n: "length ?bs \<le> unat (block_size f)" by simp
  note st = bits_stored [OF l g nz n, folded v'_def]
  show "layout usable f v'" by (rule st(1))
  have bits: "bits_of f v' w g = ?bs @ drop n (bits_of f v w g)" using st(3) by (cases "n \<le> unat (block_size f)") simp_all
  have "bm_get (bits_of f v' w' g') i" if "g' < groups_count f" "bm_ref f v w' g' \<noteq> 0" "i div 8 < unat (block_size f)"
    "bm_get (bits_of f v w' g') i" for w' g' i
    using that st(4) [OF that(1,2)] bm_get_part_keeps [of "bits_of f v w g" i j n] j bits by (cases "(w', g') = (w, g)") auto
  then show "grows f v v'" using st(2) by (simp add: grows_def)
  show "bm_get (bits_of f v' w g) j" if "unat (block_size f) \<le> n"
    using that j bm_get_set [of j "bits_of f v w g" j] by (simp add: bits)
qed

section \<open>Blocks and their groups\<close>

lemma unat_ucast_64_32: "unat (x :: u64) < 2 ^ 32 \<Longrightarrow> unat (ucast x :: u32) = unat x"
  by (simp add: unsigned_ucast_eq take_bit_nat_eq_self)

definition group_first :: "ext4_fs \<Rightarrow> u32 \<Rightarrow> u64" where
  "group_first f g = ucast (first_data_block f) + ucast g * ucast (blocks_per_group f)"

lemma unat_group_first: "unat (group_first f g) = unat (first_data_block f) + unat g * unat (blocks_per_group f)"
proof -
  have "unat (first_data_block f) + unat g * unat (blocks_per_group f) < 2 ^ 64"
    using mult_u32_bound [of g "blocks_per_group f"] unat_u32 [of "first_data_block f"] by (simp del: unat_u32)
  then show ?thesis unfolding group_first_def by (subst unat_add_u64) (simp_all add: unat_mult_u32)
qed

lemma group_blocks_nat:
  assumes "idx < ext4_group_blocks_count g f"
  shows "unat idx < unat (blocks_per_group f)" "unat (group_first f g) + unat idx < unat (blocks_count f)"
proof -
  let ?m = "min (blocks_count f - group_first f g) (ucast (blocks_per_group f))"
  have lt: "group_first f g < blocks_count f" and idx: "idx < ucast ?m"
    using assms by (auto simp: ext4_group_blocks_count_def group_first_def Let_def not_le split: if_splits)
  have m: "unat ?m \<le> unat (blocks_per_group f)" "unat ?m \<le> unat (blocks_count f) - unat (group_first f g)"
    using unat_sub [of "group_first f g" "blocks_count f"] lt by (auto simp: min_def word_le_nat_alt word_less_nat_alt)
  then have "unat (ucast ?m :: u32) = unat ?m" using unat_u32 [of "blocks_per_group f"] by (intro unat_ucast_64_32) (simp del: unat_u32)
  then have "unat idx < unat ?m" using idx by (simp add: word_less_nat_alt)
  then show "unat idx < unat (blocks_per_group f)" "unat (group_first f g) + unat idx < unat (blocks_count f)" using m by auto
qed

lemma block_in_group:
  assumes i: "idx < ext4_group_blocks_count g f" and g: "g < groups_count f"
  shows "ext4_block_to_group_idx (group_first f g + ucast idx) f = Some (g, idx)"
proof -
  let ?B = "unat (blocks_per_group f)" and ?b = "group_first f g + ucast idx"
  note n = group_blocks_nat [OF i]
  have b: "unat ?b = unat (group_first f g) + unat idx"
    using n(2) unat_u64 [of "blocks_count f"] by (subst unat_add_u64) (simp_all del: unat_u64)
  have ge: "ucast (first_data_block f) \<le> ?b" "?b < blocks_count f"
    using n(2) by (simp_all add: word_le_nat_alt word_less_nat_alt b unat_group_first)
  have rel: "unat (?b - ucast (first_data_block f)) = unat g * ?B + unat idx"
    using ge(1) by (simp add: unat_sub b unat_group_first)
  have "unat ((?b - ucast (first_data_block f)) div ucast (blocks_per_group f)) = unat g"
    "unat ((?b - ucast (first_data_block f)) mod ucast (blocks_per_group f)) = unat idx"
    using n(1) by (simp_all add: unat_div unat_mod rel)
  then have "ucast ((?b - ucast (first_data_block f)) div ucast (blocks_per_group f)) = g"
    "ucast ((?b - ucast (first_data_block f)) mod ucast (blocks_per_group f)) = idx"
    by (simp_all add: word_unat_eq_iff unat_ucast_64_32)
  then show ?thesis using ge g i by (simp add: ext4_block_to_group_idx_def Let_def not_le not_less)
qed

text \<open>Whether the bitmap of its group says that a block is in use; one without a bitmap is not at hand.\<close>

definition blk_used :: "ext4_fs \<Rightarrow> (u64 \<Rightarrow> u8) \<Rightarrow> u64 \<Rightarrow> bool" where
  "blk_used f v b \<longleftrightarrow> (case ext4_block_to_group_idx b f of
     None \<Rightarrow> True
   | Some (g, idx) \<Rightarrow> bm_ref f v Blocks g = 0 \<or> unat (block_size f) \<le> unat idx div 8 \<or> bm_get (bits_of f v Blocks g) (unat idx))"

lemma block_to_group_bound: "ext4_block_to_group_idx b f = Some (g, i) \<Longrightarrow> g < groups_count f \<and> i < ext4_group_blocks_count g f"
  by (auto simp: ext4_block_to_group_idx_def Let_def not_le split: if_splits)

lemma blk_used_grows:
  assumes "grows f v v'" "blk_used f v b"
  shows "blk_used f v' b"
proof (cases "ext4_block_to_group_idx b f")
  case (Some p)
  obtain g i where p: "p = (g, i)" by fastforce
  then have g: "g < groups_count f" using Some block_to_group_bound by simp
  then have "bm_ref f v' Blocks g = bm_ref f v Blocks g" using assms(1) by (simp add: grows_def)
  then show ?thesis
    using assms(2) Some p grows_get [OF assms(1) g, of Blocks "unat i"] by (simp add: blk_used_def) (metis not_le)
qed (simp add: blk_used_def)

text \<open>With as many groups as the blocks need, a group and an index stand for one block.\<close>

lemma block_of_group:
  assumes n: "unat (blocks_count f) \<le> unat (first_data_block f) + unat (groups_count f) * unat (blocks_per_group f)"
    and b: "ext4_block_to_group_idx b f = Some (g, i)"
  shows "b = group_first f g + ucast i"
proof -
  let ?B = "unat (blocks_per_group f)" and ?r = "b - ucast (first_data_block f)"
  have range: "unat (first_data_block f) \<le> unat b" "unat b < unat (blocks_count f)"
    and g: "g = ucast (?r div ucast (blocks_per_group f))" and i: "i = ucast (?r mod ucast (blocks_per_group f))"
    using b by (auto simp: ext4_block_to_group_idx_def Let_def not_le not_less word_le_nat_alt word_less_nat_alt split: if_splits)
  have r: "unat ?r = unat b - unat (first_data_block f)" using range by (simp add: unat_sub word_le_nat_alt)
  have lt: "unat ?r < unat (groups_count f) * ?B" using range n r by simp
  then have pos: "0 < ?B" by (cases ?B) auto
  have "unat ?r div ?B < unat (groups_count f)" using lt by (simp add: less_mult_imp_div_less)
  then have "unat ?r div ?B < 2 ^ 32" using unat_u32 [of "groups_count f"] by (simp del: unat_u32)
  then have ug: "unat g = unat ?r div ?B" unfolding g by (subst unat_ucast_64_32) (simp_all add: unat_div)
  have "unat ?r mod ?B < ?B" using pos by simp
  then have "unat ?r mod ?B < 2 ^ 32" using unat_u32 [of "blocks_per_group f"] by (simp del: unat_u32)
  then have ui: "unat i = unat ?r mod ?B" unfolding i by (subst unat_ucast_64_32) (simp_all add: unat_mod)
  have "unat (group_first f g) + unat i = unat b"
    using range by (simp add: unat_group_first ug ui r)
  then have "unat (group_first f g + ucast i) = unat b"
    using unat_u64 [of b] by (subst unat_add_u64) (simp_all del: unat_u64)
  then show ?thesis by (simp add: word_unat_eq_iff)
qed

lemma blk_used_group:
  assumes "layout usable f v" "idx < ext4_group_blocks_count g f" "g < groups_count f" "bm_ref f v Blocks g \<noteq> 0"
    "unat idx div 8 < unat (block_size f)"
  shows "blk_used f v (group_first f g + ucast idx) \<longleftrightarrow> bm_get (bits_of f v Blocks g) (unat idx)"
  using assms by (simp add: blk_used_def block_in_group)

lemma blk_used_same:
  assumes "same_meta f v v'"
  shows "blk_used f v' b = blk_used f v b"
proof (cases "ext4_block_to_group_idx b f")
  case (Some p)
  obtain g i where p: "p = (g, i)" by fastforce
  then have "g < groups_count f" using Some block_to_group_bound by simp
  then show ?thesis using assms Some p by (auto simp: blk_used_def same_meta_def)
qed (simp add: blk_used_def)

lemma blk_used_clear:
  assumes l: "layout usable f v" and b: "ext4_block_to_group_idx b f = Some (g, idx)" and nz: "bm_ref f v Blocks g \<noteq> 0"
    and i: "unat idx div 8 < unat (block_size f)"
  defines "v' \<equiv> put_bytes (bm_ref f v Blocks g * ucast (block_size f)) (bm_clear (bits_of f v Blocks g) (unat idx)) v"
  shows "layout usable f v'" "\<not> blk_used f v' b" "b' \<noteq> b \<Longrightarrow> blk_used f v' b' = blk_used f v b'"
proof -
  have g: "g < groups_count f" using block_to_group_bound [OF b] by simp
  have n: "length (bm_clear (bits_of f v Blocks g) (unat idx)) \<le> unat (block_size f)" by simp
  note st = bits_stored [OF l g nz n, folded v'_def]
  show "layout usable f v'" by (rule st(1))
  have bits: "bm_get (bits_of f v' Blocks g) j \<longleftrightarrow> j \<noteq> unat idx \<and> bm_get (bits_of f v Blocks g) j" for j
    using st(3) i bm_get_clear [of "unat idx" "bits_of f v Blocks g" j] by simp
  show "\<not> blk_used f v' b" using b nz i st(2) [OF g] bits by (simp add: blk_used_def)
  show "blk_used f v' b' = blk_used f v b'" if "b' \<noteq> b"
  proof (cases "ext4_block_to_group_idx b' f")
    case (Some p)
    obtain g' i' where p: "p = (g', i')" by fastforce
    have g': "g' < groups_count f" using Some p block_to_group_bound by simp
    have cnt: "unat (blocks_count f) \<le> unat (first_data_block f) + unat (groups_count f) * unat (blocks_per_group f)"
      using l by (simp add: layout_def)
    have ref: "bm_ref f v' Blocks g' = bm_ref f v Blocks g'" by (rule st(2) [OF g'])
    have other: "bits_of f v' Blocks g' = bits_of f v Blocks g'" if "g' \<noteq> g" "bm_ref f v Blocks g' \<noteq> 0"
      by (rule st(4) [OF g' that(2)]) (use that(1) in simp)
    have "g' = g \<Longrightarrow> unat i' \<noteq> unat idx"
      using that block_of_group [OF cnt b] block_of_group [OF cnt Some [unfolded p]] by (auto simp: word_unat_eq_iff [symmetric])
    then show ?thesis
      unfolding blk_used_def Some p option.case prod.case ref using bits [of "unat i'"] other by (cases "g' = g") auto
  qed (simp add: blk_used_def)
qed

end
