(* ===== verification/Ext4Store.thy ===== *)
theory Ext4Store
  imports Ext4Layout
begin

text \<open>
  The contract between the metadata code of \<^verbatim>\<open>src/kernel/ext4.c\<close> and the byte access below it
  (\<^verbatim>\<open>ext4_disk_read_bytes\<close>, \<^verbatim>\<open>ext4_disk_write_bytes\<close>): reads return the contents, writes change them,
  whether they go to the disk, to a redo transaction or to a JBD2 transaction. What the allocators
  do to the bitmaps is proved from the contract alone.
\<close>

section \<open>The geometry does not depend on the free counts\<close>

lemma geometry_counts [simp]:
  "ext4_group_desc_offset g (f\<lparr>free_blocks_count := n\<rparr>) = ext4_group_desc_offset g f"
  "ext4_group_desc_offset g (f\<lparr>free_inodes_count := m\<rparr>) = ext4_group_desc_offset g f"
  "ext4_group_get_block_ref (f\<lparr>free_blocks_count := n\<rparr>) = ext4_group_get_block_ref f"
  "ext4_group_get_block_ref (f\<lparr>free_inodes_count := m\<rparr>) = ext4_group_get_block_ref f"
  "blk_bytes (f\<lparr>free_blocks_count := n\<rparr>) = blk_bytes f" "blk_bytes (f\<lparr>free_inodes_count := m\<rparr>) = blk_bytes f"
  "desc_of (f\<lparr>free_blocks_count := n\<rparr>) = desc_of f" "desc_of (f\<lparr>free_inodes_count := m\<rparr>) = desc_of f"
  "ext4_group_blocks_count g (f\<lparr>free_blocks_count := n\<rparr>) = ext4_group_blocks_count g f"
  "ext4_group_blocks_count g (f\<lparr>free_inodes_count := m\<rparr>) = ext4_group_blocks_count g f"
  by (simp_all add: ext4_group_desc_offset_def ext4_group_get_block_ref_def wide_desc_def blk_bytes_def desc_of_def
      ext4_group_blocks_count_def fun_eq_iff Let_def)

lemma refs_counts [simp]:
  "ref_in (f\<lparr>free_blocks_count := n\<rparr>) w = ref_in f w" "ref_in (f\<lparr>free_inodes_count := m\<rparr>) w = ref_in f w"
  "bm_ref (f\<lparr>free_blocks_count := n\<rparr>) = bm_ref f" "bm_ref (f\<lparr>free_inodes_count := m\<rparr>) = bm_ref f"
  "bits_of (f\<lparr>free_blocks_count := n\<rparr>) = bits_of f" "bits_of (f\<lparr>free_inodes_count := m\<rparr>) = bits_of f"
proof -
  show r: "ref_in (f\<lparr>free_blocks_count := n\<rparr>) w = ref_in f w" "ref_in (f\<lparr>free_inodes_count := m\<rparr>) w = ref_in f w" for w
    by (cases w; simp add: fun_eq_iff)+
  show b: "bm_ref (f\<lparr>free_blocks_count := n\<rparr>) = bm_ref f" "bm_ref (f\<lparr>free_inodes_count := m\<rparr>) = bm_ref f"
    by (simp_all add: bm_ref_def fun_eq_iff r)
  show "bits_of (f\<lparr>free_blocks_count := n\<rparr>) = bits_of f" "bits_of (f\<lparr>free_inodes_count := m\<rparr>) = bits_of f"
    by (simp_all add: bits_of_def fun_eq_iff b)
qed

lemma layout_counts [simp]:
  "layout usable (f\<lparr>free_blocks_count := n\<rparr>) = layout usable f" "layout usable (f\<lparr>free_inodes_count := m\<rparr>) = layout usable f"
  "same_meta (f\<lparr>free_blocks_count := n\<rparr>) = same_meta f" "same_meta (f\<lparr>free_inodes_count := m\<rparr>) = same_meta f"
  by (simp_all add: layout_def fun_eq_iff gdt_base_def gdt_end_def bitmap_ok_def same_meta_def)

lemma block_to_group_counts [simp]:
  "ext4_block_to_group_idx b (f\<lparr>free_blocks_count := n\<rparr>) = ext4_block_to_group_idx b f"
  "ext4_block_to_group_idx b (f\<lparr>free_inodes_count := m\<rparr>) = ext4_block_to_group_idx b f"
  by (simp_all add: ext4_block_to_group_idx_def Let_def)

text \<open>The counts of a descriptor lie apart from its references.\<close>

lemma rd_apart:
  "off + 2 \<le> length p \<Longrightarrow> o2 + 4 \<le> length p \<Longrightarrow> o2 + 4 \<le> off \<or> off + 2 \<le> o2 \<Longrightarrow> rd_le32 (wr_le16 p off v) o2 = rd_le32 p o2"
  by (auto simp: rd_le32_def wr_le16_def put_at_nth)

lemma ref_set_count:
  assumes "32 \<le> length gd" "wide_desc f \<Longrightarrow> 64 \<le> length gd" "(lo, hi) \<in> {(0x0C, 0x2C), (0x0E, 0x2E)}"
  shows "ref_in f w (ext4_group_set_count16 f lo hi v gd) = ref_in f w gd" "length (ext4_group_set_count16 f lo hi v gd) = length gd"
  using assms by (cases w; auto simp: ext4_group_set_count16_def ext4_group_get_block_ref_def Let_def rd_apart)+

section \<open>The contract\<close>

locale disk_bytes =
  fixes D :: "'d blkdrv"
    and inv :: "'d ext4 \<Rightarrow> bool"
    and view :: "'d ext4 \<Rightarrow> u64 \<Rightarrow> u8"
    and usable :: "u64 \<Rightarrow> nat \<Rightarrow> bool"
  assumes read_law: "inv s \<Longrightarrow> usable off n \<Longrightarrow> ext4_disk_read_bytes D off n s = (r, s') \<Longrightarrow>
        inv s' \<and> fs s' = fs s \<and> view s' = view s \<and> (\<forall>bs. r = Some bs \<longrightarrow> bs = get_bytes (view s) off n)"
    and write_law: "inv s \<Longrightarrow> usable off (length buf) \<Longrightarrow> ext4_disk_write_bytes D off buf s = (q, s') \<Longrightarrow>
        inv s' \<and> fs s' = fs s \<and> (\<exists>n. view s' = put_bytes off (take n buf) (view s) \<and> (q \<noteq> None \<longrightarrow> length buf \<le> n))"
    and revoke_law: "inv s \<Longrightarrow> inv (ext4_jbd2_note_revoke b s) \<and> fs (ext4_jbd2_note_revoke b s) = fs s
        \<and> (\<forall>k. \<not> in_span (b * ucast (block_size (fs s))) (unat (block_size (fs s))) k
              \<longrightarrow> view (ext4_jbd2_note_revoke b s) k = view s k)"
    and counts_law: "inv s \<Longrightarrow> inv (upd_fs (\<lambda>f. f\<lparr>free_blocks_count := c\<rparr>) s) \<and> view (upd_fs (\<lambda>f. f\<lparr>free_blocks_count := c\<rparr>) s) = view s"
      "inv s \<Longrightarrow> inv (upd_fs (\<lambda>f. f\<lparr>free_inodes_count := m\<rparr>) s) \<and> view (upd_fs (\<lambda>f. f\<lparr>free_inodes_count := m\<rparr>) s) = view s"
begin

definition stay :: "'d ext4 \<Rightarrow> 'd ext4 \<Rightarrow> bool" where
  "stay s s' \<longleftrightarrow> inv s' \<and> fs s' = fs s \<and> view s' = view s"

lemma write_done:
  assumes "inv s" "usable off (length buf)" "ext4_disk_write_bytes D off buf s = (Some x, s')"
  shows "inv s'" "fs s' = fs s" "view s' = put_bytes off buf (view s)"
proof -
  obtain n where n: "view s' = put_bytes off (take n buf) (view s)" "length buf \<le> n"
    using write_law [OF assms] by auto
  show "inv s'" "fs s' = fs s" using write_law [OF assms] by auto
  show "view s' = put_bytes off buf (view s)" using n by simp
qed

lemma read_block:
  assumes "inv s" "usable (b * ucast (block_size (fs s))) (unat (block_size (fs s)))" "ext4_read_block D b s = (r, s')"
  shows "stay s s'" "r = Some bm \<Longrightarrow> bm = blk_bytes (fs s) (view s) b"
  using read_law [OF assms(1,2), of r s'] assms(3) by (auto simp: ext4_read_block_def stay_def blk_bytes_def)

lemma read_desc:
  assumes "inv s" "layout usable (fs s) (view s)" "ext4_group_read_desc D g s = (r, s')"
  shows "stay s s'" "r = Some gd \<Longrightarrow> g < groups_count (fs s) \<and> 32 \<le> desc_size (fs s) \<and> gd = desc_of (fs s) (view s) g"
proof -
  have u: "usable (ext4_group_desc_offset g (fs s)) (unat (desc_size (fs s)))" if "g < groups_count (fs s)"
    using assms(2) that by (simp add: layout_def)
  show "stay s s'" "r = Some gd \<Longrightarrow> g < groups_count (fs s) \<and> 32 \<le> desc_size (fs s) \<and> gd = desc_of (fs s) (view s) g"
    using assms(1,3) read_law [OF assms(1) u, of r s']
    by (auto simp: ext4_group_read_desc_def op_simps stay_def desc_of_def not_le not_less split: if_splits)
qed

section \<open>Counts\<close>

lemma length_put_counts: "length sb = 1024 \<Longrightarrow> length (put_counts f sb) = 1024"
  by (simp add: put_counts_def Let_def)

lemma super_written:
  assumes i: "inv s" and l: "layout usable (fs s) (view s)" and run: "ext4_super_write_counts D s = (Some x, s')"
  shows "inv s'" "fs s' = fs s" "same_meta (fs s) (view s) (view s')"
proof -
  have u: "usable EXT4_SUPER_OFFSET EXT4_SUPER_SIZE" using l by (simp add: layout_def)
  obtain sb s1 where rd: "ext4_disk_read_bytes D EXT4_SUPER_OFFSET EXT4_SUPER_SIZE s = (Some sb, s1)"
      and wr: "ext4_disk_write_bytes D EXT4_SUPER_OFFSET (put_counts (fs s1) sb) s1 = (Some x, s')"
    using run by (auto simp: ext4_super_write_counts_def seq_Some op_simps)
  note r = read_law [OF i u rd]
  have len: "length (put_counts (fs s1) sb) = 1024" using r by (intro length_put_counts) simp
  note w = write_done [OF _ _ wr, unfolded len]
  show "inv s'" "fs s' = fs s" "same_meta (fs s) (view s) (view s')"
    using w r u same_meta_super [OF l len] by auto
qed

lemma adjusted:
  assumes i: "inv s" and l: "layout usable (fs s) (view s)" and run: "ext4_group_adjust_free D g db di s = (Some x, s')"
  shows "inv s'" "fs s' = fs s" "same_meta (fs s) (view s) (view s')"
proof -
  let ?f = "fs s"
  obtain gd s1 where rd: "ext4_group_read_desc D g s = (Some gd, s1)" using run by (auto simp: ext4_group_adjust_free_def seq_Some)
  note r = read_desc [OF i l rd]
  have gd: "g < groups_count ?f" "32 \<le> length gd" "gd = desc_of ?f (view s) g" using r(2) by (auto simp: word_le_nat_alt)
  have wide: "wide_desc ?f \<Longrightarrow> 64 \<le> length gd" using gd(3) by (simp add: wide_desc_def word_le_nat_alt)
  obtain a b gd2 where gd2: "gd2 = ext4_group_set_count16 ?f 0x0E 0x2E a (ext4_group_set_count16 ?f 0x0C 0x2C b gd)"
      and w0: "ext4_group_write_desc D g gd2 s1 = (Some x, s')"
    using run rd r(1) by (auto simp: ext4_group_adjust_free_def seq_Some op_simps Let_def stay_def split: if_splits)
  have c: "ref_in ?f w gd2 = ref_in ?f w gd" "length gd2 = unat (desc_size ?f)" for w
    unfolding gd2 using gd wide by (simp_all add: ref_set_count)
  have w: "ext4_disk_write_bytes D (ext4_group_desc_offset g ?f) gd2 s1 = (Some x, s')"
    using w0 r(1) c(2) by (auto simp: ext4_group_write_desc_def op_simps stay_def split: if_splits)
  have u: "usable (ext4_group_desc_offset g ?f) (length gd2)" using l gd(1) c(2) by (simp add: layout_def)
  have i1: "inv s1" "fs s1 = ?f" "view s1 = view s" using r(1) by (auto simp: stay_def)
  have "same_meta ?f (view s) (put_bytes (ext4_group_desc_offset g ?f) gd2 (view s))"
    by (rule same_meta_desc [OF l gd(1) c(2)]) (simp add: c gd(3) bm_ref_def)
  then show "inv s'" "fs s' = fs s" "same_meta (fs s) (view s) (view s')"
    using write_done [OF i1(1) u w] i1 by auto
qed

section \<open>Bitmaps\<close>

text \<open>What a scan of the bitmap of group \<open>g\<close> can do: set bit \<open>i\<close>, or a part of the bytes that would set it.\<close>

lemma scan_spec:
  assumes i: "inv s" and l: "layout usable (fs s) (view s)" and g: "g < groups_count (fs s)" "bm_ref (fs s) (view s) w g \<noteq> 0"
    and run: "bitmap_scan D (bm_ref (fs s) (view s) w g) (bits_of (fs s) (view s) w g) is s = (r, s')"
  shows "inv s' \<and> fs s' = fs s \<and> (s' = s \<and> r = None \<or> (\<exists>j \<in> set is. \<exists>n. j div 8 < unat (block_size (fs s))
      \<and> \<not> bm_get (bits_of (fs s) (view s) w g) j \<and> (\<forall>x. r = Some x \<longrightarrow> x = of_nat j \<and> unat (block_size (fs s)) \<le> n)
      \<and> view s' = put_bytes (bm_ref (fs s) (view s) w g * ucast (block_size (fs s)))
          (take n (bm_set (bits_of (fs s) (view s) w g) j)) (view s)))"
  using run
proof (induction "is")
  case Nil
  then show ?case using i by (simp add: fail_def)
next
  case (Cons j js)
  let ?bm = "bits_of (fs s) (view s) w g" and ?b = "bm_ref (fs s) (view s) w g"
  consider "j div 8 \<ge> length ?bm" | "j div 8 < length ?bm" "bm_get ?bm j" | "j div 8 < length ?bm" "\<not> bm_get ?bm j" by linarith
  then show ?case
  proof cases
    case 1
    then show ?thesis using Cons.prems i by (simp add: fail_def)
  next
    case 2
    then show ?thesis using Cons by auto
  next
    case 3
    obtain q s1 where w: "ext4_write_block D ?b (bm_set ?bm j) s = (q, s1)" by fastforce
    have u: "usable (?b * ucast (block_size (fs s))) (length (bm_set ?bm j))" using l g by (simp add: layout_def bitmap_ok_def)
    have w': "ext4_disk_write_bytes D (?b * ucast (block_size (fs s))) (bm_set ?bm j) s = (q, s1)"
      using w by (simp add: ext4_write_block_def)
    have res: "s' = s1 \<and> r = map_option (\<lambda>_. of_nat j) q"
      using Cons.prems 3 w by (auto simp: seq_def ret_def split: option.splits)
    obtain n where n: "inv s1" "fs s1 = fs s" "view s1 = put_bytes (?b * ucast (block_size (fs s))) (take n (bm_set ?bm j)) (view s)"
        "q \<noteq> None \<longrightarrow> unat (block_size (fs s)) \<le> n"
      using write_law [OF i u w'] by auto
    show ?thesis
      using res n 3 by (intro conjI disjI2 bexI [of _ j] exI [of _ n]) auto
  qed
qed

lemma from_bitmap_spec:
  assumes i: "inv s" and l: "layout usable (fs s) (view s)" and g: "g < groups_count (fs s)" "bm_ref (fs s) (view s) w g \<noteq> 0"
    and run: "ext4_alloc_from_bitmap D (bm_ref (fs s) (view s) w g) nbits start s = (r, s')"
  shows "inv s' \<and> fs s' = fs s \<and> layout usable (fs s) (view s') \<and> grows (fs s) (view s) (view s')
    \<and> (\<forall>x. r = Some x \<longrightarrow> start \<le> x \<and> x < nbits \<and> unat x div 8 < unat (block_size (fs s))
          \<and> \<not> bm_get (bits_of (fs s) (view s) w g) (unat x) \<and> bm_get (bits_of (fs s) (view s') w g) (unat x))"
proof (cases "nbits = 0 \<or> start \<ge> nbits")
  case True
  then show ?thesis using i l run by (auto simp: ext4_alloc_from_bitmap_def op_simps)
next
  case False
  let ?b = "bm_ref (fs s) (view s) w g"
  have u: "usable (?b * ucast (block_size (fs s))) (unat (block_size (fs s)))" using l g by (simp add: layout_def bitmap_ok_def)
  obtain q s1 where rd: "ext4_read_block D ?b s = (q, s1)" by fastforce
  note r1 = read_block [OF i u rd]
  show ?thesis
  proof (cases q)
    case None
    then show ?thesis using run rd False r1(1) l by (auto simp: ext4_alloc_from_bitmap_def op_simps stay_def) (simp_all add: seq_def)
  next
    case (Some bm)
    have s1: "inv s1" "fs s1 = fs s" "view s1 = view s" "bm = bits_of (fs s) (view s) w g"
      using r1 Some by (auto simp: stay_def bits_of_def)
    have scan: "bitmap_scan D (bm_ref (fs s1) (view s1) w g) (bits_of (fs s1) (view s1) w g) [unat start..<unat nbits] s1 = (r, s')"
      using run rd False Some s1 by (simp add: ext4_alloc_from_bitmap_def op_simps) (simp add: seq_def)
    have l1: "layout usable (fs s1) (view s1)" "g < groups_count (fs s1)" "bm_ref (fs s1) (view s1) w g \<noteq> 0" using l g s1 by simp_all
    consider "s' = s1" "r = None" "inv s'" | j n where "inv s'" "fs s' = fs s" "j \<in> {unat start..<unat nbits}" "j div 8 < unat (block_size (fs s))"
        "\<not> bm_get (bits_of (fs s) (view s) w g) j" "\<forall>x. r = Some x \<longrightarrow> x = of_nat j \<and> unat (block_size (fs s)) \<le> n"
        "view s' = put_bytes (?b * ucast (block_size (fs s))) (take n (bm_set (bits_of (fs s) (view s) w g) j)) (view s)"
      using scan_spec [OF s1(1) l1 scan, unfolded s1(2,3) set_upt] by blast
    then show ?thesis
    proof cases
      case 1
      then show ?thesis using s1 l by simp
    next
      case (2 j n)
      note gp = grows_part [OF l g 2(4), of n, folded 2(7)]
      have "j < 2 ^ 32" using 2(3) unat_u32 [of nbits] by (simp del: unat_u32)
      then have uj: "unat (of_nat j :: u32) = j" by (simp add: unat_of_nat_small)
      have "start \<le> x \<and> x < nbits \<and> unat x div 8 < unat (block_size (fs s))
          \<and> \<not> bm_get (bits_of (fs s) (view s) w g) (unat x) \<and> bm_get (bits_of (fs s) (view s') w g) (unat x)" if "r = Some x" for x
      proof -
        have x: "x = of_nat j" "unat (block_size (fs s)) \<le> n" using 2(6) that by auto
        show ?thesis using 2(3-5) gp(3) [OF x(2)] by (simp only: x(1) uj word_le_nat_alt word_less_nat_alt) simp
      qed
      then show ?thesis using 2(1,2) gp(1,2) by blast
    qed
  qed
qed

section \<open>Allocation\<close>

lemma alloc_groups_spec:
  assumes "inv s" "layout usable (fs s) (view s)" "set is \<subseteq> {..<unat (groups_count (fs s))}"
    "alloc_block_groups D is s = (Some b, s')"
  shows "\<exists>g idx. g < groups_count (fs s) \<and> idx < ext4_group_blocks_count g (fs s) \<and> b = group_first (fs s) g + ucast idx
    \<and> bm_ref (fs s) (view s) Blocks g \<noteq> 0 \<and> unat idx div 8 < unat (block_size (fs s))
    \<and> \<not> bm_get (bits_of (fs s) (view s) Blocks g) (unat idx) \<and> bm_get (bits_of (fs s) (view s') Blocks g) (unat idx)
    \<and> grows (fs s) (view s) (view s') \<and> layout usable (fs s) (view s') \<and> inv s'
    \<and> fs s' = (fs s)\<lparr>free_blocks_count := free_blocks_count (fs s) - 1\<rparr>"
  using assms
proof (induction "is" arbitrary: s)
  case Nil
  then show ?case by (simp add: fail_def)
next
  case (Cons i js)
  let ?f = "fs s" and ?g = "of_nat i :: u32"
  have "i < unat (groups_count ?f)" using Cons.prems(3) by simp
  moreover from this have "i < 2 ^ 32" using unat_u32 [of "groups_count ?f"] by (simp del: unat_u32)
  ultimately have g: "?g < groups_count ?f" by (simp add: word_less_nat_alt unat_of_nat_small)
  have cont: ?case if t: "alloc_block_groups D js s1 = (Some b, s')" "inv s1" "fs s1 = ?f" "grows ?f (view s) (view s1)"
      "layout usable ?f (view s1)" for s1
  proof -
    obtain g idx where *: "g < groups_count ?f" "idx < ext4_group_blocks_count g ?f" "b = group_first ?f g + ucast idx"
        "bm_ref ?f (view s1) Blocks g \<noteq> 0" "unat idx div 8 < unat (block_size ?f)"
        "\<not> bm_get (bits_of ?f (view s1) Blocks g) (unat idx)" "bm_get (bits_of ?f (view s') Blocks g) (unat idx)"
        "grows ?f (view s1) (view s')" "layout usable ?f (view s')" "inv s'" "fs s' = ?f\<lparr>free_blocks_count := free_blocks_count ?f - 1\<rparr>"
      using Cons.IH [OF t(2) _ _ t(1)] t(3,5) Cons.prems(3) by auto
    have r: "bm_ref ?f (view s) Blocks g \<noteq> 0" using t(4) *(1,4) by (simp add: grows_def)
    then have "\<not> bm_get (bits_of ?f (view s) Blocks g) (unat idx)" using *(1,5,6) grows_get [OF t(4)] by blast
    then show ?case using * r grows_trans [OF t(4)] by blast
  qed
  show ?case
  proof (cases "ext4_group_blocks_count ?g ?f = 0")
    case True
    then show ?thesis using Cons.prems cont [of s] by (simp add: op_simps Let_def)
  next
    case False
    obtain gd s1 where rd: "ext4_group_read_desc D ?g s = (Some gd, s1)"
      using Cons.prems(4) False by (auto simp: op_simps Let_def seq_Some)
    note d = read_desc [OF Cons.prems(1,2) rd]
    have s1: "inv s1" "fs s1 = ?f" "view s1 = view s" "gd = desc_of ?f (view s) ?g" using d by (auto simp: stay_def)
    let ?bb = "ext4_group_get_block_ref ?f gd EXT4_BG_BLOCK_BITMAP_LO EXT4_BG_BLOCK_BITMAP_HI"
    have bb: "?bb = bm_ref (fs s1) (view s1) Blocks ?g" using s1 by (simp add: bm_ref_def)
    show ?thesis
    proof (cases "ext4_group_get_count16 ?f gd EXT4_BG_FREE_BLOCKS_COUNT_LO EXT4_BG_FREE_BLOCKS_COUNT_HI = 0 \<or> ?bb = 0")
      case True
      then have "alloc_block_groups D js s1 = (Some b, s')"
        using Cons.prems(4) False rd by (auto simp: op_simps Let_def seq_Some split: if_splits)
      then show ?thesis using cont s1 Cons.prems(2) by simp
    next
      case b0: False
      obtain r s2 where fb: "ext4_alloc_from_bitmap D ?bb (ext4_group_blocks_count ?g ?f) 0 s1 = (r, s2)" by fastforce
      have sp: "inv s2" "fs s2 = ?f" "layout usable ?f (view s2)" "grows ?f (view s) (view s2)"
          "r = Some x \<Longrightarrow> x < ext4_group_blocks_count ?g ?f \<and> unat x div 8 < unat (block_size ?f)
            \<and> \<not> bm_get (bits_of ?f (view s) Blocks ?g) (unat x) \<and> bm_get (bits_of ?f (view s2) Blocks ?g) (unat x)" for x
        using from_bitmap_spec [OF s1(1) _ _ _ fb [unfolded bb]] Cons.prems(2) g b0 by (auto simp: s1(2,3) bb)
      show ?thesis
      proof (cases r)
        case None
        then have "alloc_block_groups D js s2 = (Some b, s')"
          using Cons.prems(4) False rd b0 fb by (auto simp: op_simps Let_def seq_Some attempt_def)
        then show ?thesis using cont sp by simp
      next
        case (Some idx)
        obtain s3 x y where ad: "ext4_group_adjust_free D ?g (-1) 0 s2 = (Some x, s3)"
            and sup: "ext4_super_write_counts D (upd_free_blocks (\<lambda>n. n - 1) s3) = (Some y, s')"
            and b: "b = ucast (first_data_block ?f) + ucast ?g * ucast (blocks_per_group ?f) + ucast idx"
          using Cons.prems(4) False rd b0 fb Some
          by (auto simp: op_simps Let_def seq_Some attempt_def split: if_splits)
        note a = adjusted [OF sp(1) _ ad, unfolded sp(2), OF sp(3)]
        define s4 where "s4 = upd_free_blocks (\<lambda>n. n - 1) s3"
        have s4: "inv s4" "view s4 = view s3" "fs s4 = ?f\<lparr>free_blocks_count := free_blocks_count ?f - 1\<rparr>"
          using counts_law(1) [OF a(1), of "free_blocks_count (fs s3) - 1"] a(2) by (simp_all add: s4_def upd_fs_def)
        note l3 = layout_same [OF sp(3) a(3)]
        note w = super_written [OF s4(1) _ sup [folded s4_def], unfolded s4(2,3) layout_counts, OF l3]
        have gr: "grows ?f (view s2) (view s')" using grows_trans [OF grows_same [OF a(3)] grows_same [OF w(3)]] .
        have nz: "bm_ref ?f (view s) Blocks ?g \<noteq> 0" using b0 bb by (simp add: s1(2,3))
        have "bm_ref ?f (view s2) Blocks ?g \<noteq> 0" using sp(4) g nz by (simp add: grows_def)
        then have "bm_get (bits_of ?f (view s') Blocks ?g) (unat idx)" using grows_get [OF gr g] sp(5) [OF Some] by blast
        then show ?thesis
          using g sp(5) [OF Some] b nz grows_trans [OF sp(4) gr] w(1,2) layout_same [OF l3 w(3)]
          by (intro exI [of _ ?g] exI [of _ idx]) (simp add: group_first_def)
      qed
    qed
  qed
qed

lemma alloc_block_sound:
  assumes i: "inv s" and l: "layout usable (fs s) (view s)" and run: "ext4_alloc_block D s = (Some b, s')"
  shows "\<not> blk_used (fs s) (view s) b" "blk_used (fs s) (view s') b"
    "blk_used (fs s) (view s) b' \<Longrightarrow> blk_used (fs s) (view s') b'"
    "ucast (first_data_block (fs s)) \<le> b" "b < blocks_count (fs s)"
    "inv s'" "layout usable (fs s') (view s')" "fs s' = (fs s)\<lparr>free_blocks_count := free_blocks_count (fs s) - 1\<rparr>"
proof -
  have "alloc_block_groups D [0..<unat (groups_count (fs s))] s = (Some b, s')"
    using run by (auto simp: ext4_alloc_block_def op_simps split: if_splits)
  then obtain g idx where *: "g < groups_count (fs s)" "idx < ext4_group_blocks_count g (fs s)" "b = group_first (fs s) g + ucast idx"
      "bm_ref (fs s) (view s) Blocks g \<noteq> 0" "unat idx div 8 < unat (block_size (fs s))"
      "\<not> bm_get (bits_of (fs s) (view s) Blocks g) (unat idx)" "bm_get (bits_of (fs s) (view s') Blocks g) (unat idx)"
      "grows (fs s) (view s) (view s')" "layout usable (fs s) (view s')" "inv s'"
      "fs s' = (fs s)\<lparr>free_blocks_count := free_blocks_count (fs s) - 1\<rparr>"
    using alloc_groups_spec [OF i l, of "[0..<unat (groups_count (fs s))]" b s'] by (auto simp: subset_iff)
  have r': "bm_ref (fs s) (view s') Blocks g \<noteq> 0" using * by (simp add: grows_def)
  show "\<not> blk_used (fs s) (view s) b" "blk_used (fs s) (view s') b"
    using blk_used_group [OF l *(2,1,4,5)] blk_used_group [OF *(9,2,1) r' *(5)] *(3,6,7) by simp_all
  show "blk_used (fs s) (view s) b' \<Longrightarrow> blk_used (fs s) (view s') b'" by (rule blk_used_grows [OF *(8)])
  note n = group_blocks_nat [OF *(2)]
  have "unat b = unat (group_first (fs s) g) + unat idx"
    unfolding *(3) using n(2) unat_u64 [of "blocks_count (fs s)"] by (subst unat_add_u64) (simp_all del: unat_u64)
  then show "ucast (first_data_block (fs s)) \<le> b" "b < blocks_count (fs s)"
    using n(2) by (simp_all add: word_le_nat_alt word_less_nat_alt unat_group_first)
  show "inv s'" "layout usable (fs s') (view s')" "fs s' = (fs s)\<lparr>free_blocks_count := free_blocks_count (fs s) - 1\<rparr>"
    using * by simp_all
qed

section \<open>Release\<close>

lemma free_block_sound:
  assumes i: "inv s" and l: "layout usable (fs s) (view s)"
    and out: "\<And>k. in_span (b * ucast (block_size (fs s))) (unat (block_size (fs s))) k \<Longrightarrow> \<not> meta_byte (fs s) (view s) k"
    and run: "ext4_free_block D b s = (Some x, s')"
  shows "\<not> blk_used (fs s) (view s') b" "b' \<noteq> b \<Longrightarrow> blk_used (fs s) (view s') b' = blk_used (fs s) (view s) b'"
    "inv s'" "layout usable (fs s') (view s')"
proof -
  let ?f = "fs s"
  obtain g idx where gi: "ext4_block_to_group_idx b ?f = Some (g, idx)"
    using run by (auto simp: ext4_free_block_def op_simps split: option.splits)
  have g: "g < groups_count ?f" "idx < ext4_group_blocks_count g ?f" using block_to_group_bound [OF gi] by auto
  obtain gd s1 where rd: "ext4_group_read_desc D g s = (Some gd, s1)"
    using run gi by (auto simp: ext4_free_block_def op_simps seq_Some)
  note d = read_desc [OF i l rd]
  have s1: "inv s1" "fs s1 = ?f" "view s1 = view s" "gd = desc_of ?f (view s) g" using d by (auto simp: stay_def)
  let ?bb = "bm_ref ?f (view s) Blocks g"
  have bb: "ext4_group_get_block_ref ?f gd EXT4_BG_BLOCK_BITMAP_LO EXT4_BG_BLOCK_BITMAP_HI = ?bb" using s1 by (simp add: bm_ref_def)
  have nz: "?bb \<noteq> 0" using run gi rd by (auto simp: ext4_free_block_def op_simps seq_Some Let_def bb split: if_splits)
  have u: "usable (?bb * ucast (block_size ?f)) (unat (block_size ?f))" using l g nz by (simp add: layout_def bitmap_ok_def)
  obtain bm s2 where rb: "ext4_read_block D ?bb s1 = (Some bm, s2)"
    using run gi rd nz by (auto simp: ext4_free_block_def op_simps seq_Some Let_def bb)
  have s2: "inv s2" "fs s2 = ?f" "view s2 = view s" "bm = bits_of ?f (view s) Blocks g"
    using read_block [OF s1(1) _ rb] u by (auto simp: stay_def s1(2,3) bits_of_def)
  have idx: "unat idx div 8 < unat (block_size ?f)"
    using run gi rd nz rb s2(4) by (auto simp: ext4_free_block_def op_simps seq_Some Let_def bb split: if_splits)
  have step: "(if \<not> bm_get bm (unat idx) then ret () else seq (modify (ext4_jbd2_note_revoke b)) (\<lambda>_.
       seq (ext4_write_block D ?bb (bm_clear bm (unat idx))) (\<lambda>_. seq (ext4_group_adjust_free D g 1 0) (\<lambda>_.
       seq (modify (upd_free_blocks (\<lambda>n. n + 1))) (\<lambda>_. ext4_super_write_counts D))))) s2 = (Some x, s')"
    using run gi rd nz rb s2(4) idx by (auto simp: ext4_free_block_def op_simps seq_Some Let_def bb split: if_splits)
  have "(\<not> blk_used ?f (view s') b) \<and> (\<forall>b'. b' \<noteq> b \<longrightarrow> blk_used ?f (view s') b' = blk_used ?f (view s) b')
      \<and> inv s' \<and> layout usable (fs s') (view s')"
  proof (cases "bm_get bm (unat idx)")
    case False
    then have "s' = s2" using step by (simp add: ret_def)
    then show ?thesis using False gi nz idx s2 l by (simp add: blk_used_def)
  next
    case True
    define s3 where "s3 = ext4_jbd2_note_revoke b s2"
    have rl: "inv s3" "fs s3 = ?f" "\<not> in_span (b * ucast (block_size ?f)) (unat (block_size ?f)) k \<Longrightarrow> view s3 k = view s k" for k
      using revoke_law [OF s2(1), of b] by (simp_all add: s3_def s2(2,3))
    have m3: "same_meta ?f (view s) (view s3)" using same_meta_outside [OF l] rl(3) out by blast
    note l3 = layout_same [OF l m3]
    have r3: "bm_ref ?f (view s3) Blocks g = ?bb" "bits_of ?f (view s3) Blocks g = bm" using m3 g(1) nz s2(4) by (auto simp: same_meta_def)
    obtain s4 s5 y z where wb: "ext4_write_block D ?bb (bm_clear bm (unat idx)) s3 = (Some y, s4)"
        and ad: "ext4_group_adjust_free D g 1 0 s4 = (Some z, s5)"
        and sup: "ext4_super_write_counts D (upd_free_blocks (\<lambda>n. n + 1) s5) = (Some x, s')"
      using step True by (auto simp: op_simps seq_Some s3_def)
    have wd: "ext4_disk_write_bytes D (?bb * ucast (block_size ?f)) (bm_clear bm (unat idx)) s3 = (Some y, s4)"
      using wb by (simp add: ext4_write_block_def rl(2) s2(4))
    have s4: "inv s4" "fs s4 = ?f" "view s4 = put_bytes (?bb * ucast (block_size ?f)) (bm_clear bm (unat idx)) (view s3)"
      using write_done [OF rl(1) _ wd] u rl(2) s2(4) by auto
    note cl = blk_used_clear [OF l3 gi, unfolded r3, OF nz idx, folded s4(3)]
    note a = adjusted [OF s4(1) _ ad, unfolded s4(2), OF cl(1)]
    define s6 where "s6 = upd_free_blocks (\<lambda>n. n + 1) s5"
    have s6: "inv s6" "view s6 = view s5" "fs s6 = ?f\<lparr>free_blocks_count := free_blocks_count ?f + 1\<rparr>"
      using counts_law(1) [OF a(1), of "free_blocks_count (fs s5) + 1"] a(2) by (simp_all add: s6_def upd_fs_def)
    note l5 = layout_same [OF cl(1) a(3)]
    note w = super_written [OF s6(1) _ sup [folded s6_def], unfolded s6(2,3) layout_counts, OF l5]
    have used: "blk_used ?f (view s') c = blk_used ?f (view s4) c" for c
      using blk_used_same [OF a(3)] blk_used_same [OF w(3)] by simp
    show ?thesis
      using used cl(2,3) blk_used_same [OF m3] w(1,2) layout_same [OF l5 w(3)] by simp
  qed
  then show "\<not> blk_used (fs s) (view s') b" "b' \<noteq> b \<Longrightarrow> blk_used (fs s) (view s') b' = blk_used (fs s) (view s) b'"
    "inv s'" "layout usable (fs s') (view s')" by blast+
qed

end

end
