(* ===== verification/Ext4Jbd2.thy ===== *)
theory Ext4Jbd2
  imports Ext4Map
begin

text \<open>
  The JBD2 journal of \<^verbatim>\<open>src/kernel/ext4.c\<close>: the ring of journal blocks, the checksums, the
  checkpointing of committed transactions, committing and replaying. Buffers on the stack are
  \<open>block_size\<close> bytes long here; console output is left out.
\<close>

section \<open>The ring of journal blocks\<close>

abbreviation (input) EXT4_JBD2_MAX_PENDING_TX :: nat where "EXT4_JBD2_MAX_PENDING_TX \<equiv> 4"
abbreviation (input) EXT4_JBD2_CHECKPOINT_BATCH :: nat where "EXT4_JBD2_CHECKPOINT_BATCH \<equiv> 4"
abbreviation (input) EXT4_JBD2_CHECKPOINT_AGE :: u64 where "EXT4_JBD2_CHECKPOINT_AGE \<equiv> 20"
abbreviation (input) JBD2_MAGIC_NUMBER :: u32 where "JBD2_MAGIC_NUMBER \<equiv> 0xC03B3998"

definition jb_ring :: "ext4_jbd2 \<Rightarrow> u32" where
  "jb_ring b = jb_maxlen b - jb_first b"

definition ext4_jbd2_next_block :: "u32 \<Rightarrow> u32 \<Rightarrow> u32 \<Rightarrow> u32" where
  "ext4_jbd2_next_block cur first maxlen =
     (if maxlen \<le> first \<or> cur < first \<or> cur \<ge> maxlen then 0
      else let cur = cur + 1 in if cur \<ge> maxlen then first else cur)"

definition ext4_jbd2_ring_advance :: "ext4_jbd2 \<Rightarrow> u32 \<Rightarrow> u32 \<Rightarrow> u32" where
  "ext4_jbd2_ring_advance b cur steps =
     (let ring = jb_ring b in
      if ring = 0 \<or> cur < jb_first b \<or> cur \<ge> jb_maxlen b then 0
      else jb_first b + (cur - jb_first b + steps mod ring) mod ring)"

definition ext4_jbd2_ring_distance :: "ext4_jbd2 \<Rightarrow> u32 \<Rightarrow> u32 \<Rightarrow> u32" where
  "ext4_jbd2_ring_distance b from to =
     (let ring = jb_ring b in
      if ring = 0 \<or> from < jb_first b \<or> from \<ge> jb_maxlen b \<or> to < jb_first b \<or> to \<ge> jb_maxlen b then 0
      else
        let from_idx = from - jb_first b; to_idx = to - jb_first b in
        if to_idx \<ge> from_idx then to_idx - from_idx else ring - (from_idx - to_idx))"

definition ring_clamp :: "ext4_jbd2 \<Rightarrow> u32 \<Rightarrow> u32" where \<comment> \<open>a position outside the ring is read as the first block\<close>
  "ring_clamp b p = (if p < jb_first b \<or> p \<ge> jb_maxlen b then jb_first b else p)"

definition ext4_jbd2_ring_free_blocks :: "ext4_jbd2 \<Rightarrow> u32" where
  "ext4_jbd2_ring_free_blocks b =
     (let ring = jb_ring b in
      if ring \<le> 1 then 0
      else
        let head = ring_clamp b (jb_head b);
            tail = ring_clamp b (if jb_pending b \<noteq> [] then jb_tail b else head)
        in if jb_pending b = [] then ring - 1
           else if head = tail then 0
           else let distance = ext4_jbd2_ring_distance b head tail in
                if distance \<le> 1 then 0 else distance - 1)"

definition ext4_jbd2_pending_log_blocks :: "ext4_jbd2 \<Rightarrow> jbd2_pending \<Rightarrow> u32" where
  "ext4_jbd2_pending_log_blocks b p = ext4_jbd2_ring_distance b (p_start p) (p_end p)"

definition ext4_jbd2_target_free_blocks :: "ext4_jbd2 \<Rightarrow> u32" where
  "ext4_jbd2_target_free_blocks b =
     (let ring = jb_ring b in
      if ring \<le> 1 then 0
      else let target = ring div 4;
               target = (if target < 8 then 8 else target)
           in if target \<ge> ring then ring - 1 else target)"

definition ext4_jbd2_tx_tag_bytes :: "ext4_jbd2 \<Rightarrow> u32" where
  "ext4_jbd2_tx_tag_bytes b = (if jb_csum_v3 b then 16 else if jb_feat_64bit b then 12 else 8)"

definition jb_csum :: "ext4_jbd2 \<Rightarrow> bool" where "jb_csum b \<longleftrightarrow> jb_csum_v2 b \<or> jb_csum_v3 b"

definition tags_per_desc :: "ext4_jbd2 \<Rightarrow> u32" where
  "tags_per_desc b = (jb_block_size b - 12 - (if jb_csum b then 4 else 0)) div ext4_jbd2_tx_tag_bytes b"

definition revoke_per_block :: "ext4_jbd2 \<Rightarrow> u32" where
  "revoke_per_block b =
     (let n = (jb_block_size b - 16 - (if jb_csum b then 4 else 0)) div (if jb_feat_64bit b then 8 else 4)
      in if n = 0 then 1 else n)"

definition ext4_jbd2_tx_reserve_blocks :: "ext4_jbd2 \<Rightarrow> u32" where
  "ext4_jbd2_tx_reserve_blocks b =
     (if \<not> jb_enabled b then 0
      else
        let ring = jb_ring b in
        if ring \<le> 1 \<or> jb_block_size b = 0 then 0
        else if jb_block_size b \<le> 12 + (if jb_csum b then 4 else 0) then ring - 1
        else if tags_per_desc b = 0 then ring - 1
        else
          let desc_blocks = (256 + tags_per_desc b - 1) div tags_per_desc b;
              revoke_blocks = (512 + revoke_per_block b - 1) div revoke_per_block b;
              total = 256 + desc_blocks + revoke_blocks + 1
          in if total \<ge> ring then ring - 1 else total)"

definition ext4_jbd2_pressure_min_free_blocks :: "ext4_jbd2 \<Rightarrow> u32" where
  "ext4_jbd2_pressure_min_free_blocks b =
     (let target = ext4_jbd2_target_free_blocks b; reserve = ext4_jbd2_tx_reserve_blocks b
      in if reserve > target then reserve else target)"

fun batch_loop :: "ext4_jbd2 \<Rightarrow> u32 \<Rightarrow> jbd2_pending list \<Rightarrow> nat \<Rightarrow> u32 \<Rightarrow> nat" where
  "batch_loop b need [] batch reclaim = batch"
| "batch_loop b need (p # ps) batch reclaim =
     (if batch \<ge> EXT4_JBD2_CHECKPOINT_BATCH then batch
      else
        let blocks = ext4_jbd2_pending_log_blocks b p;
            reclaim = reclaim + (if blocks = 0 then 1 else blocks)
        in if reclaim \<ge> need then Suc batch else batch_loop b need ps (Suc batch) reclaim)"

definition ext4_jbd2_checkpoint_batch_for_need :: "ext4_jbd2 \<Rightarrow> u32 \<Rightarrow> nat" where
  "ext4_jbd2_checkpoint_batch_for_need b min_free_blocks =
     (let free_blocks = ext4_jbd2_ring_free_blocks b in
      if jb_pending b = [] \<or> free_blocks \<ge> min_free_blocks then 0
      else batch_loop b (min_free_blocks - free_blocks) (jb_pending b) 0 0)"

definition ext4_jbd2_reserve_ring :: "ext4_jbd2 \<Rightarrow> u32 \<Rightarrow> (u32 \<times> u32) option" where
  "ext4_jbd2_reserve_ring b blocks =
     (if blocks = 0 then None
      else
        let ring = jb_ring b in
        if ring \<le> 1 \<or> blocks \<ge> ring then None
        else if blocks > ext4_jbd2_ring_free_blocks b then None
        else
          let head = ring_clamp b (jb_head b);
              next_head = ext4_jbd2_ring_advance b head blocks
          in if next_head = 0 then None
             else if jb_pending b = [] then (if next_head \<noteq> head then Some (head, next_head) else None)
             else if next_head \<noteq> ring_clamp b (jb_tail b) then Some (head, next_head) else None)"

section \<open>Journal blocks and checksums\<close>

definition ext4_jbd2_read_jblock :: "'d blkdrv \<Rightarrow> ext4_meta \<Rightarrow> u32 \<Rightarrow> ('d ext4, u8 list) op" where
  "ext4_jbd2_read_jblock D journal_meta j_block =
     seq (ext4_map_file_block D journal_meta j_block) (\<lambda>pblock.
     seq (check (pblock \<noteq> 0)) (\<lambda>_. ext4_read_block D pblock))"

definition ext4_jbd2_write_jblock :: "'d blkdrv \<Rightarrow> ext4_meta \<Rightarrow> u32 \<Rightarrow> u8 list \<Rightarrow> ('d ext4, unit) op" where
  "ext4_jbd2_write_jblock D journal_meta j_block buf =
     seq (ext4_map_file_block D journal_meta j_block) (\<lambda>pblock.
     seq (check (pblock \<noteq> 0)) (\<lambda>_. ext4_write_block D pblock buf))"

definition ext4_jbd2_seed_from_uuid :: "u8 list \<Rightarrow> u32" where
  "ext4_jbd2_seed_from_uuid uuid = crc32c_update 0 (take 16 uuid)"

definition ext4_jbd2_checksum_with_hole :: "u32 \<Rightarrow> u8 list \<Rightarrow> nat \<Rightarrow> nat \<Rightarrow> u32" where
  "ext4_jbd2_checksum_with_hole seed blk blk_size csum_off =
     (let crc = crc32c_update seed (take csum_off blk);
          crc = crc32c_update crc [0, 0, 0, 0]
      in crc32c_update crc (take (blk_size - csum_off - 4) (drop (csum_off + 4) blk)))"

abbreviation (input) JBD2_SB_CHECKSUM_OFF :: nat where "JBD2_SB_CHECKSUM_OFF \<equiv> 252"
abbreviation (input) JBD2_COMMIT_CSUM_OFF :: nat where "JBD2_COMMIT_CSUM_OFF \<equiv> 16"

definition ext4_jbd2_verify_tail_checksum :: "ext4_jbd2 \<Rightarrow> u8 list \<Rightarrow> bool" where
  "ext4_jbd2_verify_tail_checksum b blk =
     (let n = unat (jb_block_size b) in
      if n < 4 then False
      else if \<not> jb_csum b then True
      else rd_be32 blk (n - 4) = ext4_jbd2_checksum_with_hole (jb_csum_seed b) blk n (n - 4))"

definition ext4_jbd2_set_tail_checksum :: "ext4_jbd2 \<Rightarrow> u8 list \<Rightarrow> u8 list" where
  "ext4_jbd2_set_tail_checksum b blk =
     (let n = unat (jb_block_size b) in
      if \<not> jb_csum b \<or> n < 4 then blk
      else let blk = wr_be32 blk (n - 4) 0
           in wr_be32 blk (n - 4) (ext4_jbd2_checksum_with_hole (jb_csum_seed b) blk n (n - 4)))"

definition ext4_jbd2_verify_commit_checksum :: "ext4_jbd2 \<Rightarrow> u8 list \<Rightarrow> bool" where
  "ext4_jbd2_verify_commit_checksum b blk =
     (let n = unat (jb_block_size b) in
      if n < JBD2_COMMIT_CSUM_OFF + 4 then False
      else if \<not> jb_csum b then True
      else if blk ! 12 \<noteq> 4 \<or> blk ! 13 \<noteq> 4 then False
      else rd_be32 blk JBD2_COMMIT_CSUM_OFF
             = ext4_jbd2_checksum_with_hole (jb_csum_seed b) blk n JBD2_COMMIT_CSUM_OFF)"

definition ext4_jbd2_set_commit_checksum :: "ext4_jbd2 \<Rightarrow> u8 list \<Rightarrow> u8 list" where
  "ext4_jbd2_set_commit_checksum b blk =
     (let n = unat (jb_block_size b) in
      if \<not> jb_csum b \<or> n < JBD2_COMMIT_CSUM_OFF + 4 then blk
      else let blk = wr_be32 (blk[12 := 4, 13 := 4]) JBD2_COMMIT_CSUM_OFF 0
           in wr_be32 blk JBD2_COMMIT_CSUM_OFF
                (ext4_jbd2_checksum_with_hole (jb_csum_seed b) blk n JBD2_COMMIT_CSUM_OFF))"

definition ext4_jbd2_data_checksum32 :: "ext4_jbd2 \<Rightarrow> u32 \<Rightarrow> u8 list \<Rightarrow> u32" where
  "ext4_jbd2_data_checksum32 b seq_no data =
     crc32c_update (crc32c_update (jb_csum_seed b) (be32 seq_no)) (take (unat (jb_block_size b)) data)"

definition ext4_jbd2_verify_super_checksum :: "ext4_jbd2 \<Rightarrow> u8 list \<Rightarrow> bool" where
  "ext4_jbd2_verify_super_checksum b sb =
     (let n = unat (jb_block_size b) in
      if n \<le> JBD2_SB_CHECKSUM_OFF then False
      else if \<not> jb_csum b then True
      else rd_be32 sb JBD2_SB_CHECKSUM_OFF
             = ext4_jbd2_checksum_with_hole (jb_csum_seed b) sb n JBD2_SB_CHECKSUM_OFF)"

section \<open>The journal superblock and the queue of committed transactions\<close>

definition ext4_jbd2_store_super :: "'d blkdrv \<Rightarrow> ('d ext4, unit) op" where
  "ext4_jbd2_store_super D =
     seq (gets jb) (\<lambda>b.
       let super_seq = (case jb_pending b of [] \<Rightarrow> jb_sequence b | p # _ \<Rightarrow> p_seq p) in
       seq (check (\<not> (\<not> jb_enabled b \<or> jb_block_size b > 4096))) (\<lambda>_.
       seq (ext4_jbd2_read_jblock D (jb_journal_meta b) 0) (\<lambda>sb0.
         let sb = wr_be32 sb0 24 super_seq;
             sb = wr_be32 sb 28 (jb_start b);
             sb = wr_be32 sb 88 (jb_head b);
             sb = (if jb_csum b then
                     let sb = wr_be32 sb 80 4; sb = wr_be32 sb JBD2_SB_CHECKSUM_OFF 0
                     in wr_be32 sb JBD2_SB_CHECKSUM_OFF
                          (ext4_jbd2_checksum_with_hole (jb_csum_seed b) sb (unat (jb_block_size b)) JBD2_SB_CHECKSUM_OFF)
                   else sb)
         in ext4_jbd2_write_jblock D (jb_journal_meta b) 0 sb)))"

definition ext4_jbd2_refresh_start_tail :: "ext4_jbd2 \<Rightarrow> ext4_jbd2" where
  "ext4_jbd2_refresh_start_tail b =
     (case jb_pending b of
        [] \<Rightarrow> b\<lparr>jb_start := 0, jb_tail := jb_head b\<rparr>
      | p # _ \<Rightarrow> b\<lparr>jb_start := p_start p, jb_tail := p_start p\<rparr>)"

definition ext4_jbd2_pending_push :: "u32 \<Rightarrow> u32 \<Rightarrow> u32 \<Rightarrow> jbd2_dirty list \<Rightarrow> ('d ext4, unit) op" where
  "ext4_jbd2_pending_push seq_no start endp ds s =
     (if length (jb_pending (jb s)) \<ge> EXT4_JBD2_MAX_PENDING_TX then (None, s)
      else if length ds > EXT4_JBD2_TX_MAX_BLOCKS then (None, s)
      else
        let copy = map (\<lambda>d. d\<lparr>d_data := take (unat (block_size (fs s))) (d_data d)\<rparr>) ds
        in (Some (), upd_jb (\<lambda>b. ext4_jbd2_refresh_start_tail (b\<lparr>jb_pending := jb_pending b @
             [\<lparr>p_seq = seq_no, p_start = start, p_end = endp, p_dirty = copy\<rparr>]\<rparr>)) s))"

definition ext4_jbd2_pending_pop :: "('d ext4, unit) op" where
  "ext4_jbd2_pending_pop s =
     (if jb_pending (jb s) = [] then (None, s)
      else (Some (), upd_jb (\<lambda>b. ext4_jbd2_refresh_start_tail (b\<lparr>jb_pending := tl (jb_pending b)\<rparr>)) s))"

definition set_bypass :: "bool \<Rightarrow> 'd ext4 \<Rightarrow> 'd ext4" where
  "set_bypass v = upd_jb (\<lambda>b. b\<lparr>jb_io_bypass := v\<rparr>)"

fun checkpoint_loop :: "'d blkdrv \<Rightarrow> nat \<Rightarrow> ('d ext4, unit) op" where
  "checkpoint_loop D 0 = ret ()"
| "checkpoint_loop D (Suc budget) = (\<lambda>s.
     case jb_pending (jb s) of
       [] \<Rightarrow> (Some (), s)
     | p # _ \<Rightarrow>
         seq (for_each (\<lambda>d. ext4_write_block D (d_fs_block d) (d_data d)) (p_dirty p)) (\<lambda>_.
         seq ext4_jbd2_pending_pop (\<lambda>_. checkpoint_loop D budget)) s)"

definition ext4_jbd2_checkpoint_some :: "'d blkdrv \<Rightarrow> nat \<Rightarrow> ('d ext4, unit) op" where
  "ext4_jbd2_checkpoint_some D budget s =
     (if \<not> jb_enabled (jb s) \<or> jb_tx_active (jb s) \<or> jb_pending (jb s) = [] then (Some (), s)
      else
        on_fail (set_bypass False)
          (seq (checkpoint_loop D budget) (\<lambda>_.
           seq (e4_flush D) (\<lambda>_.
           seq (ext4_jbd2_store_super D) (\<lambda>_.
           seq (e4_flush D) (\<lambda>_.
           modify (\<lambda>s. set_bypass False (upd_jb (\<lambda>b. b\<lparr>jb_last_checkpoint_tick := ticks s\<rparr>) s))))))) (set_bypass True s))"

fun until_free_loop :: "'d blkdrv \<Rightarrow> nat \<Rightarrow> u32 \<Rightarrow> ('d ext4, unit) op" where
  "until_free_loop D 0 min_free = ret ()"
| "until_free_loop D (Suc tries) min_free = (\<lambda>s.
     if jb_pending (jb s) \<noteq> [] \<and> ext4_jbd2_ring_free_blocks (jb s) < min_free then
       let batch = ext4_jbd2_checkpoint_batch_for_need (jb s) min_free;
           batch = (if batch = 0 then 1 else batch)
       in seq (ext4_jbd2_checkpoint_some D batch) (\<lambda>_. until_free_loop D tries min_free) s
     else (Some (), s))"

text \<open>The loop stops after its ninth round (\<^verbatim>\<open>tries > EXT4_JBD2_MAX_PENDING_TX * 2\<close>).\<close>

definition ext4_jbd2_checkpoint_until_free :: "'d blkdrv \<Rightarrow> u32 \<Rightarrow> ('d ext4, unit) op" where
  "ext4_jbd2_checkpoint_until_free D min_free_blocks s =
     (if \<not> jb_enabled (jb s) then (Some (), s)
      else
        let ring = jb_ring (jb s) in
        if ring \<le> 1 then (None, s)
        else
          let min_free = (if min_free_blocks \<ge> ring then ring - 1 else min_free_blocks)
          in seq (until_free_loop D 9 min_free) (\<lambda>_.
             seq (gets (\<lambda>s. ext4_jbd2_ring_free_blocks (jb s))) (\<lambda>free. check (free \<ge> min_free))) s)"

definition ext4_jbd2_maybe_checkpoint :: "'d blkdrv \<Rightarrow> bool \<Rightarrow> ('d ext4, unit) op" where
  "ext4_jbd2_maybe_checkpoint D force s =
     (let b = jb s in
      if \<not> jb_enabled b \<or> jb_pending b = [] then (Some (), s)
      else if force then ext4_jbd2_checkpoint_some D EXT4_JBD2_CHECKPOINT_BATCH s
      else
        let min_free = ext4_jbd2_pressure_min_free_blocks b in
        if min_free \<noteq> 0 \<and> ext4_jbd2_ring_free_blocks b < min_free then ext4_jbd2_checkpoint_until_free D min_free s
        else if length (jb_pending b) \<ge> EXT4_JBD2_CHECKPOINT_BATCH
        then ext4_jbd2_checkpoint_some D EXT4_JBD2_CHECKPOINT_BATCH s
        else if ticks s - jb_last_checkpoint_tick b \<ge> EXT4_JBD2_CHECKPOINT_AGE then ext4_jbd2_checkpoint_some D 1 s
        else (Some (), s))"

section \<open>Transactions\<close>

definition ext4_jbd2_log_enospc :: "'d ext4 \<Rightarrow> 'd ext4" where \<comment> \<open>the message itself is left out\<close>
  "ext4_jbd2_log_enospc s =
     (if ticks s - jb_last_enospc_log_tick (jb s) < 20 then s
      else upd_jb (\<lambda>b. b\<lparr>jb_last_enospc_log_tick := ticks s\<rparr>) s)"

definition set_enospc :: "bool \<Rightarrow> 'd ext4 \<Rightarrow> 'd ext4" where
  "set_enospc v = upd_jb (\<lambda>b. b\<lparr>jb_tx_enospc := v\<rparr>)"

definition enospc_fail :: "('d ext4, 'a) op" where \<comment> \<open>tx_enospc = true; log; return false\<close>
  "enospc_fail s = (None, ext4_jbd2_log_enospc (set_enospc True s))"

text \<open>The test both ends of a transaction make when the queue is full.\<close>

definition make_room :: "'d blkdrv \<Rightarrow> ('d ext4, unit) op" where
  "make_room D s =
     (if length (jb_pending (jb s)) \<ge> EXT4_JBD2_MAX_PENDING_TX then
        case ext4_jbd2_checkpoint_some D EXT4_JBD2_CHECKPOINT_BATCH s of (r, s1) \<Rightarrow>
          if r = None \<or> length (jb_pending (jb s1)) \<ge> EXT4_JBD2_MAX_PENDING_TX then enospc_fail s1
          else (Some (), s1)
      else (Some (), s))"

definition ext4_jbd2_tx_start :: "'d blkdrv \<Rightarrow> ('d ext4, unit) op" where
  "ext4_jbd2_tx_start D s =
     (if \<not> jb_enabled (jb s) then (Some (), s)
      else
        let min_free = ext4_jbd2_pressure_min_free_blocks (jb s) in
        seq (make_room D) (\<lambda>_.
        seq (\<lambda>s. if min_free \<noteq> 0 \<and> ext4_jbd2_ring_free_blocks (jb s) < min_free then
                   (case ext4_jbd2_checkpoint_until_free D min_free s of
                      (None, s1) \<Rightarrow> enospc_fail s1
                    | (Some x, s1) \<Rightarrow> (Some x, s1))
                 else (Some (), s)) (\<lambda>_.
        seq (ext4_jbd2_maybe_checkpoint D False) (\<lambda>_.
        seq (gets jb) (\<lambda>b.
        seq (check (\<not> (\<not> jb_write_ready b \<or> jb_tx_active b))) (\<lambda>_.
        modify (upd_jb (\<lambda>b. b\<lparr>jb_tx_active := True, jb_io_bypass := False, jb_tx_enospc := False,
                              jb_tx_dirty := [], jb_tx_revokes := [], jb_tx_revoke_overflow := False\<rparr>)))))))
          (set_enospc False s))"

definition tx_reset :: "ext4_jbd2 \<Rightarrow> ext4_jbd2" where
  "tx_reset b = b\<lparr>jb_tx_active := False, jb_io_bypass := False, jb_tx_enospc := False,
     jb_tx_dirty := [], jb_tx_revokes := [], jb_tx_revoke_overflow := False\<rparr>"

definition ext4_jbd2_tx_abort :: "'d ext4 \<Rightarrow> 'd ext4" where
  "ext4_jbd2_tx_abort s = (if \<not> jb_enabled (jb s) \<or> \<not> jb_tx_active (jb s) then s else upd_jb tx_reset s)"

text \<open>A journal block with its header filled in.\<close>

definition jblock_hdr :: "nat \<Rightarrow> u32 \<Rightarrow> u32 \<Rightarrow> u8 list" where
  "jblock_hdr bs type seq_no =
     wr_be32 (wr_be32 (wr_be32 (replicate bs 0) 0 JBD2_MAGIC_NUMBER) 4 type) 8 seq_no"

abbreviation (input) JBD2_DESCRIPTOR_BLOCK :: u32 where "JBD2_DESCRIPTOR_BLOCK \<equiv> 1"
abbreviation (input) JBD2_COMMIT_BLOCK :: u32 where "JBD2_COMMIT_BLOCK \<equiv> 2"
abbreviation (input) JBD2_REVOKE_BLOCK :: u32 where "JBD2_REVOKE_BLOCK \<equiv> 5"

text \<open>The next journal block, a failure where the code tests the result for 0.\<close>

definition advance :: "u32 \<Rightarrow> ('d ext4, u32) op" where
  "advance cur s =
     (let n = ext4_jbd2_next_block cur (jb_first (jb s)) (jb_maxlen (jb s)) in (if n = 0 then None else Some n, s))"

definition ext4_jbd2_tx_emit_commit :: "'d blkdrv \<Rightarrow> u32 \<Rightarrow> u32 \<Rightarrow> ('d ext4, u32) op" where
  "ext4_jbd2_tx_emit_commit D tx_seq cursor =
     seq (gets jb) (\<lambda>b.
     seq (check (\<not> jb_block_size b > 4096)) (\<lambda>_.
     seq (ext4_jbd2_write_jblock D (jb_journal_meta b) cursor
            (ext4_jbd2_set_commit_checksum b (jblock_hdr (unat (jb_block_size b)) JBD2_COMMIT_BLOCK tx_seq))) (\<lambda>_.
     advance cursor)))"

text \<open>A tag of a descriptor block: flags 1 is ESCAPE, 2 is SAME_UUID, 8 is LAST_TAG. A data block
  that starts with the journal's magic number is stored with a zero in its place.\<close>

definition is_escape :: "u8 list \<Rightarrow> bool" where
  "is_escape data \<longleftrightarrow> rd_be32 data 0 = JBD2_MAGIC_NUMBER"

definition tag_flags :: "bool \<Rightarrow> bool \<Rightarrow> u32" where
  "tag_flags escape fin = 2 OR (if escape then 1 else 0) OR (if fin then 8 else 0)"

definition tag_bytes :: "ext4_jbd2 \<Rightarrow> u64 \<Rightarrow> u32 \<Rightarrow> u32 \<Rightarrow> u8 list" where
  "tag_bytes b fs_block flags csum =
     (if jb_csum_v3 b then be32 (ucast (fs_block AND 0xFFFFFFFF)) @ be32 flags @ be32 (ucast (drop_bit 32 fs_block)) @ be32 csum
      else be32 (ucast (fs_block AND 0xFFFFFFFF)) @ be16 (if jb_csum_v2 b then ucast csum else 0)
           @ be16 (ucast (flags AND 0xFFFF)) @ (if jb_feat_64bit b then be32 (ucast (drop_bit 32 fs_block)) else []))"

definition tag_sum :: "ext4_jbd2 \<Rightarrow> u32 \<Rightarrow> u8 list \<Rightarrow> u32" where
  "tag_sum b tx_seq data =
     crc32c_update (crc32c_update (jb_csum_seed b) (be32 tx_seq)) (take (unat (jb_block_size b)) data)"

definition escape_data :: "nat \<Rightarrow> u8 list \<Rightarrow> u8 list" where
  "escape_data bs data = (let blk = take bs data in if is_escape data then wr_be32 blk 0 0 else blk)"

fun emit_tags :: "'d blkdrv \<Rightarrow> u32 \<Rightarrow> jbd2_dirty list \<Rightarrow> nat \<Rightarrow> u32 \<Rightarrow> u8 list \<Rightarrow> ('d ext4, u32 \<times> u8 list) op" where
  "emit_tags D tx_seq [] off dpos desc = ret (dpos, desc)"
| "emit_tags D tx_seq (d # ds) off dpos desc =
     seq (gets jb) (\<lambda>b.
       let tag = tag_bytes b (d_fs_block d) (tag_flags (is_escape (d_data d)) (ds = [])) (tag_sum b tx_seq (d_data d))
       in seq (ext4_jbd2_write_jblock D (jb_journal_meta b) dpos (escape_data (unat (jb_block_size b)) (d_data d))) (\<lambda>_.
          seq (advance dpos) (\<lambda>dpos'.
          emit_tags D tx_seq ds (off + length tag) dpos' (put_at off tag desc))))"

function emit_descs :: "'d blkdrv \<Rightarrow> u32 \<Rightarrow> nat \<Rightarrow> jbd2_dirty list \<Rightarrow> u32 \<Rightarrow> ('d ext4, u32) op" where
  "emit_descs D tx_seq tpd ds cursor =
     (if ds = [] \<or> tpd = 0 then ret cursor
      else
        seq (gets jb) (\<lambda>b.
        seq (advance cursor) (\<lambda>dpos.
        seq (emit_tags D tx_seq (take tpd ds) 12 dpos (jblock_hdr (unat (jb_block_size b)) JBD2_DESCRIPTOR_BLOCK tx_seq)) (\<lambda>(dpos', desc).
        seq (ext4_jbd2_write_jblock D (jb_journal_meta b) cursor (ext4_jbd2_set_tail_checksum b desc)) (\<lambda>_.
        emit_descs D tx_seq tpd (drop tpd ds) dpos')))))"
  by pat_completeness auto
termination
  by (relation "measure (\<lambda>(_, _, _, ds, _). length ds)") auto

declare emit_descs.simps [simp del]

definition revoke_entry :: "ext4_jbd2 \<Rightarrow> u64 \<Rightarrow> u8 list" where
  "revoke_entry b blk = be32 (ucast (blk AND 0xFFFFFFFF)) @ (if jb_feat_64bit b then be32 (ucast (drop_bit 32 blk)) else [])"

definition revoke_block :: "ext4_jbd2 \<Rightarrow> u32 \<Rightarrow> u64 list \<Rightarrow> u8 list" where
  "revoke_block b tx_seq rs =
     (let entries = concat (map (revoke_entry b) rs);
          blk = put_at 16 entries (jblock_hdr (unat (jb_block_size b)) JBD2_REVOKE_BLOCK tx_seq)
      in ext4_jbd2_set_tail_checksum b (wr_be32 blk 12 (of_nat (16 + length entries))))"

function emit_revokes :: "'d blkdrv \<Rightarrow> u32 \<Rightarrow> nat \<Rightarrow> u64 list \<Rightarrow> u32 \<Rightarrow> ('d ext4, u32) op" where
  "emit_revokes D tx_seq rpb rs cursor =
     (if rs = [] \<or> rpb = 0 then ret cursor
      else
        seq (gets jb) (\<lambda>b.
        seq (ext4_jbd2_write_jblock D (jb_journal_meta b) cursor (revoke_block b tx_seq (take rpb rs))) (\<lambda>_.
        seq (advance cursor) (\<lambda>cursor'. emit_revokes D tx_seq rpb (drop rpb rs) cursor'))))"
  by pat_completeness auto
termination
  by (relation "measure (\<lambda>(_, _, _, rs, _). length rs)") auto

declare emit_revokes.simps [simp del]

fun reserve_loop :: "'d blkdrv \<Rightarrow> nat \<Rightarrow> u32 \<Rightarrow> ('d ext4, u32 \<times> u32) op" where
  "reserve_loop D 0 nblocks = enospc_fail"
| "reserve_loop D (Suc n) nblocks = (\<lambda>s.
     case ext4_jbd2_reserve_ring (jb s) nblocks of
       Some r \<Rightarrow> (Some r, s)
     | None \<Rightarrow>
         if jb_pending (jb s) = [] then enospc_fail s
         else seq (ext4_jbd2_checkpoint_until_free D nblocks) (\<lambda>_. reserve_loop D n nblocks) s)"

text \<open>The part of the commit that writes the journal, under \<^verbatim>\<open>io_bypass\<close>.\<close>

definition tx_write_log :: "'d blkdrv \<Rightarrow> u32 \<Rightarrow> u32 \<Rightarrow> ('d ext4, unit) op" where
  "tx_write_log D tx_start tx_next_head =
     seq (modify (upd_jb (\<lambda>b. (if jb_pending b = [] then b\<lparr>jb_start := tx_start\<rparr> else b)\<lparr>jb_head := tx_next_head\<rparr>))) (\<lambda>_.
     seq (gets jb) (\<lambda>b.
       let tx_seq = jb_sequence b in
       seq (ext4_jbd2_store_super D) (\<lambda>_.
       seq (e4_flush D) (\<lambda>_.
       seq (emit_descs D tx_seq (unat (tags_per_desc b)) (jb_tx_dirty b) tx_start) (\<lambda>cursor.
       seq (emit_revokes D tx_seq (unat (revoke_per_block b)) (jb_tx_revokes b) cursor) (\<lambda>cursor.
       seq (ext4_jbd2_tx_emit_commit D tx_seq cursor) (\<lambda>cursor.
       seq (e4_flush D) (\<lambda>_.
       seq (ext4_jbd2_pending_push tx_seq tx_start cursor (jb_tx_dirty b)) (\<lambda>_.
       seq (modify (upd_jb (\<lambda>b. b\<lparr>jb_head := cursor, jb_sequence := tx_seq + 1\<rparr>))) (\<lambda>_.
       seq (ext4_jbd2_store_super D) (\<lambda>_.
       e4_flush D)))))))))))"

definition ext4_jbd2_tx_commit :: "'d blkdrv \<Rightarrow> ('d ext4, unit) op" where
  "ext4_jbd2_tx_commit D s0 =
     (if \<not> jb_enabled (jb s0) then (Some (), s0)
      else if \<not> jb_tx_active (jb s0) \<or> \<not> jb_write_ready (jb s0) then (None, s0)
      else
        let s = set_enospc False s0; b = jb s in
        if jb_tx_revoke_overflow b then enospc_fail s
        else if jb_tx_dirty b = [] \<and> jb_tx_revokes b = []
        then (Some (), upd_jb (\<lambda>b. b\<lparr>jb_tx_active := False\<rparr>) s)
        else
          seq (make_room D) (\<lambda>_.
          seq (check (\<not> jb_block_size b \<le> 12 + (if jb_csum b then 4 else 0))) (\<lambda>_.
          seq (check (\<not> tags_per_desc b = 0)) (\<lambda>_.
            let dirty_count = of_nat (length (jb_tx_dirty b)) :: u32;
                revoke_count = of_nat (length (jb_tx_revokes b)) :: u32;
                desc_blocks = (dirty_count + tags_per_desc b - 1) div tags_per_desc b;
                revoke_blocks = (if revoke_count = 0 then 0
                                 else (revoke_count + revoke_per_block b - 1) div revoke_per_block b);
                total_blocks = dirty_count + desc_blocks + revoke_blocks + 1
            in if jb_ring b \<le> 1 \<or> total_blocks \<ge> jb_ring b then enospc_fail
               else
                 seq (reserve_loop D 5 total_blocks) (\<lambda>(tx_start, tx_next_head).
                 seq (modify (set_bypass True)) (\<lambda>_.
                 seq (on_fail (set_bypass False) (tx_write_log D tx_start tx_next_head)) (\<lambda>_.
                 seq (modify (upd_jb tx_reset)) (\<lambda>_.
                 seq (gets jb) (\<lambda>b.
                   let min_free = ext4_jbd2_pressure_min_free_blocks b in
                   if length (jb_pending b) \<ge> EXT4_JBD2_CHECKPOINT_BATCH
                      \<or> (min_free \<noteq> 0 \<and> ext4_jbd2_ring_free_blocks b < min_free)
                   then seq (attempt (ext4_jbd2_maybe_checkpoint D False)) (\<lambda>_. ret ())
                   else ret ()))))))))
            s)"

end
