(* ===== verification/Ext4Replay.thy ===== *)
theory Ext4Replay
  imports Ext4Jbd2
begin

text \<open>
  Loading the JBD2 journal and replaying it (\<^verbatim>\<open>src/kernel/ext4.c\<close>, \<^verbatim>\<open>ext4_jbd2_load_state\<close>,
  \<^verbatim>\<open>ext4_jbd2_replay_if_needed\<close> and the parsers they use). The tables of updates and revokes are
  lists; the tables' capacities are arguments as in the code. Console output is left out.
\<close>

section \<open>The tables\<close>

abbreviation (input) EXT4_JBD2_MAX_UPDATES :: nat where "EXT4_JBD2_MAX_UPDATES \<equiv> 8192"
abbreviation (input) EXT4_JBD2_MAX_REVOKES :: nat where "EXT4_JBD2_MAX_REVOKES \<equiv> 8192"

definition ext4_jbd2_revoke_contains :: "jbd2_revoke list \<Rightarrow> u64 \<Rightarrow> bool" where
  "ext4_jbd2_revoke_contains revokes fs_block = list_ex (\<lambda>r. r_fs_block r = fs_block) revokes"

fun upd_first :: "('a \<Rightarrow> bool) \<Rightarrow> ('a \<Rightarrow> 'a) \<Rightarrow> 'a list \<Rightarrow> 'a list" where \<comment> \<open>update the first hit of a search loop\<close>
  "upd_first P f [] = []"
| "upd_first P f (x # xs) = (if P x then f x # xs else x # upd_first P f xs)"

definition ext4_jbd2_add_revoke ::
  "ext4_fs \<Rightarrow> nat \<Rightarrow> u64 \<Rightarrow> u32 \<Rightarrow> bool \<Rightarrow> jbd2_revoke list \<Rightarrow> jbd2_revoke list option" where
  "ext4_jbd2_add_revoke f revoke_max fs_block seq_no keep_latest_seq revokes =
     (if fs_block \<ge> blocks_count f then None
      else if list_ex (\<lambda>r. r_fs_block r = fs_block) revokes
      then Some (upd_first (\<lambda>r. r_fs_block r = fs_block)
                   (\<lambda>r. if keep_latest_seq \<and> r_seq r < seq_no then r\<lparr>r_seq := seq_no\<rparr> else r) revokes)
      else if length revokes \<ge> revoke_max then None
      else Some (revokes @ [\<lparr>r_fs_block = fs_block, r_seq = seq_no\<rparr>]))"

definition ext4_jbd2_add_update ::
  "ext4_fs \<Rightarrow> ext4_jbd2 \<Rightarrow> nat \<Rightarrow> u64 \<Rightarrow> u32 \<Rightarrow> u32 \<Rightarrow> bool \<Rightarrow> bool \<Rightarrow> jbd2_update list \<Rightarrow> jbd2_update list option" where
  "ext4_jbd2_add_update f b update_max fs_block j_block seq_no escape dedupe_same_seq updates =
     (let hit = (\<lambda>u. u_fs_block u = fs_block \<and> dedupe_same_seq \<and> u_seq u = seq_no) in
      if fs_block \<ge> blocks_count f then None
      else if j_block < jb_first b \<or> j_block \<ge> jb_maxlen b then None
      else if list_ex hit updates then Some (upd_first hit (\<lambda>u. u\<lparr>u_j_block := j_block, u_escape := escape\<rparr>) updates)
      else if length updates \<ge> update_max then None
      else Some (updates @ [\<lparr>u_fs_block = fs_block, u_j_block = j_block, u_seq = seq_no, u_escape = escape\<rparr>]))"

definition ext4_jbd2_revoke_hits_update :: "jbd2_revoke list \<Rightarrow> u64 \<Rightarrow> u32 \<Rightarrow> bool" where
  "ext4_jbd2_revoke_hits_update revokes fs_block update_seq =
     list_ex (\<lambda>r. r_fs_block r = fs_block \<and> r_seq r \<ge> update_seq) revokes"

section \<open>Parsing\<close>

function parse_revoke_loop ::
  "ext4_fs \<Rightarrow> ext4_jbd2 \<Rightarrow> u8 list \<Rightarrow> u32 \<Rightarrow> nat \<Rightarrow> nat \<Rightarrow> nat \<Rightarrow> jbd2_revoke list \<Rightarrow> jbd2_revoke list option" where
  "parse_revoke_loop f b blk seq_no revoke_max used off revokes =
     (if off + 4 \<le> used then
        let lo = ucast (rd_be32 blk off) :: u64 in
        if jb_feat_64bit b then
          (if off + 4 + 4 > used then None
           else case ext4_jbd2_add_revoke f revoke_max (lo OR push_bit 32 (ucast (rd_be32 blk (off + 4)))) seq_no False revokes of
             None \<Rightarrow> None
           | Some revokes' \<Rightarrow> parse_revoke_loop f b blk seq_no revoke_max used (off + 8) revokes')
        else
          (case ext4_jbd2_add_revoke f revoke_max lo seq_no False revokes of
             None \<Rightarrow> None
           | Some revokes' \<Rightarrow> parse_revoke_loop f b blk seq_no revoke_max used (off + 4) revokes')
      else if off = used then Some revokes else None)"
  by pat_completeness auto
termination
  by (relation "measure (\<lambda>(_, _, _, _, _, used, off, _). used - off)") auto

declare parse_revoke_loop.simps [simp del]

definition ext4_jbd2_parse_revoke_block ::
  "ext4_fs \<Rightarrow> ext4_jbd2 \<Rightarrow> u8 list \<Rightarrow> u32 \<Rightarrow> nat \<Rightarrow> jbd2_revoke list \<Rightarrow> jbd2_revoke list option" where
  "ext4_jbd2_parse_revoke_block f b blk seq_no revoke_max revokes =
     (if unat (block_size f) < 16 then None
      else if \<not> ext4_jbd2_verify_tail_checksum b blk then None
      else
        let used = rd_be32 blk 12 in
        if used < 16 \<or> used > block_size f then None
        else parse_revoke_loop f b blk seq_no revoke_max (unat used) 16 revokes)"

record jtag =
  t_fs_block :: u64
  t_flags :: u32
  t_sum32 :: u32
  t_sum16 :: u16
  t_next :: nat \<comment> \<open>the offset after the tag\<close>

definition parse_tag :: "ext4_jbd2 \<Rightarrow> nat \<Rightarrow> u8 list \<Rightarrow> nat \<Rightarrow> jtag option" where
  "parse_tag b bs blk off =
     (if jb_csum_v3 b then
        if off + 16 > bs then None
        else
          let flags = rd_be32 blk (off + 4);
              t = \<lparr>t_fs_block = ucast (rd_be32 blk off) OR push_bit 32 (ucast (rd_be32 blk (off + 8))),
                   t_flags = flags, t_sum32 = rd_be32 blk (off + 12), t_sum16 = 0, t_next = off + 16\<rparr>
          in if flags AND 2 = 0 then (if off + 32 > bs then None else Some (t\<lparr>t_next := off + 32\<rparr>)) else Some t
      else
        if off + 8 > bs then None
        else
          let flags = ucast (rd_be16 blk (off + 6)) :: u32;
              lo = ucast (rd_be32 blk off) :: u64;
              off8 = off + 8
          in if jb_feat_64bit b \<and> off8 + 4 > bs then None
             else
               let fs_block = (if jb_feat_64bit b then lo OR push_bit 32 (ucast (rd_be32 blk off8)) else lo);
                   off' = (if jb_feat_64bit b then off8 + 4 else off8);
                   t = \<lparr>t_fs_block = fs_block, t_flags = flags, t_sum32 = 0, t_sum16 = rd_be16 blk (off + 4), t_next = off'\<rparr>
               in if flags AND 2 = 0 then (if off' + 16 > bs then None else Some (t\<lparr>t_next := off' + 16\<rparr>)) else Some t)"

lemma parse_tag_next: "parse_tag b bs blk off = Some t \<Longrightarrow> off + 8 \<le> t_next t"
  by (auto simp: parse_tag_def Let_def split: if_splits)

definition tag_sum_ok :: "ext4_jbd2 \<Rightarrow> u32 \<Rightarrow> u8 list \<Rightarrow> jtag \<Rightarrow> bool" where
  "tag_sum_ok b seq_no data_blk t =
     (if jb_csum b then
        let calc32 = ext4_jbd2_data_checksum32 b seq_no data_blk in
        if jb_csum_v3 b then calc32 = t_sum32 t else ucast calc32 = t_sum16 t
      else True)"

text \<open>One turn of the loop over the tags, given the tag: the flags 1, 2, 4, 8 are ESCAPE, SAME_UUID,
  DELETED and LAST_TAG. The result is the next data block and the updates.\<close>

definition parse_one_tag ::
  "'d blkdrv \<Rightarrow> ext4_fs \<Rightarrow> ext4_jbd2 \<Rightarrow> ext4_meta \<Rightarrow> u32 \<Rightarrow> u32 \<Rightarrow> u32 \<Rightarrow> jbd2_revoke list \<Rightarrow> nat \<Rightarrow> jtag \<Rightarrow> u32
     \<Rightarrow> jbd2_update list \<Rightarrow> ('d ext4, u32 \<times> jbd2_update list) op" where
  "parse_one_tag D f b journal_meta seq_no first maxlen revokes update_max t data_block updates =
     seq (check (\<not> t_flags t AND NOT 15 \<noteq> 0)) (\<lambda>_.
     seq (check (\<not> t_fs_block t \<ge> blocks_count f)) (\<lambda>_.
     seq (ext4_jbd2_read_jblock D journal_meta data_block) (\<lambda>data_blk.
     seq (check (tag_sum_ok b seq_no data_blk t)) (\<lambda>_.
       let upd = (if t_flags t AND 4 = 0 \<and> \<not> ext4_jbd2_revoke_contains revokes (t_fs_block t)
                  then ext4_jbd2_add_update f b update_max (t_fs_block t) data_block seq_no (t_flags t AND 1 \<noteq> 0) True updates
                  else Some updates)
       in case upd of
            None \<Rightarrow> fail
          | Some updates' \<Rightarrow>
              let next = ext4_jbd2_next_block data_block first maxlen in
              seq (check (next \<noteq> 0)) (\<lambda>_. ret (next, updates'))))))"

function parse_tags ::
  "'d blkdrv \<Rightarrow> ext4_fs \<Rightarrow> ext4_jbd2 \<Rightarrow> ext4_meta \<Rightarrow> u8 list \<Rightarrow> u32 \<Rightarrow> u32 \<Rightarrow> u32 \<Rightarrow> jbd2_revoke list \<Rightarrow> nat \<Rightarrow> nat \<Rightarrow> u32
     \<Rightarrow> jbd2_update list \<Rightarrow> ('d ext4, u32 \<times> jbd2_update list) op" where
  "parse_tags D f b jm blk seq_no first maxlen revokes update_max off data_block updates =
     (if off + 8 \<le> unat (block_size f) then
        case parse_tag b (unat (block_size f)) blk off of
          None \<Rightarrow> fail
        | Some t \<Rightarrow>
            seq (parse_one_tag D f b jm seq_no first maxlen revokes update_max t data_block updates) (\<lambda>(next, updates').
            if t_flags t AND 8 \<noteq> 0 then ret (next, updates')
            else parse_tags D f b jm blk seq_no first maxlen revokes update_max (t_next t) next updates')
      else fail)"
  by pat_completeness auto
termination
  by (relation "measure (\<lambda>(_, f, _, _, _, _, _, _, _, _, off, _, _). unat (block_size f) - off)")
    (auto dest: parse_tag_next)

declare parse_tags.simps [simp del]

definition ext4_jbd2_parse_descriptor_block ::
  "'d blkdrv \<Rightarrow> ext4_meta \<Rightarrow> u8 list \<Rightarrow> u32 \<Rightarrow> u32 \<Rightarrow> u32 \<Rightarrow> u32 \<Rightarrow> jbd2_revoke list \<Rightarrow> nat \<Rightarrow> jbd2_update list
     \<Rightarrow> ('d ext4, u32 \<times> jbd2_update list) op" where
  "ext4_jbd2_parse_descriptor_block D jm blk seq_no first maxlen cursor revokes update_max updates =
     seq (gets fs) (\<lambda>f. seq (gets jb) (\<lambda>b.
     seq (check (\<not> cursor = 0)) (\<lambda>_.
     seq (check (ext4_jbd2_verify_tail_checksum b blk)) (\<lambda>_.
       let data_block = ext4_jbd2_next_block cursor first maxlen in
       seq (check (\<not> data_block = 0)) (\<lambda>_.
       parse_tags D f b jm blk seq_no first maxlen revokes update_max 12 data_block updates)))))"

definition apply_one_update :: "'d blkdrv \<Rightarrow> ext4_meta \<Rightarrow> jbd2_revoke list \<Rightarrow> jbd2_update \<Rightarrow> ('d ext4, unit) op" where
  "apply_one_update D jm revokes u =
     seq (gets fs) (\<lambda>f.
     seq (check (\<not> u_fs_block u \<ge> blocks_count f)) (\<lambda>_.
       if ext4_jbd2_revoke_hits_update revokes (u_fs_block u) (u_seq u) then ret ()
       else seq (ext4_jbd2_read_jblock D jm (u_j_block u)) (\<lambda>blk.
            ext4_write_block D (u_fs_block u) (if u_escape u then wr_be32 blk 0 JBD2_MAGIC_NUMBER else blk))))"

definition ext4_jbd2_apply_updates :: "'d blkdrv \<Rightarrow> ext4_meta \<Rightarrow> jbd2_update list \<Rightarrow> jbd2_revoke list \<Rightarrow> ('d ext4, unit) op" where
  "ext4_jbd2_apply_updates D jm updates revokes =
     seq (gets fs) (\<lambda>f.
     seq (check (\<not> block_size f > 4096)) (\<lambda>_. for_each (apply_one_update D jm revokes) updates))"

section \<open>Loading the journal\<close>

definition meta_zero :: ext4_meta where
  "meta_zero = \<lparr>m_valid = False, m_ino = 0, m_mode = 0, m_links = 0, m_flags = 0, m_blocks_lo = 0, m_size = 0,
     m_block = replicate 15 0\<rparr>"

definition jbd2_zero :: ext4_jbd2 where \<comment> \<open>memset(&g_jbd2, 0, ...)\<close>
  "jbd2_zero = \<lparr>jb_enabled = False, jb_write_ready = False, jb_tx_active = False, jb_io_bypass = False,
     jb_feat_64bit = False, jb_csum_v2 = False, jb_csum_v3 = False, jb_block_size = 0, jb_maxlen = 0,
     jb_first = 0, jb_sequence = 0, jb_start = 0, jb_head = 0, jb_tail = 0, jb_checksum_type = 0,
     jb_feature_compat = 0, jb_feature_incompat = 0, jb_uuid = replicate 16 0, jb_csum_seed = 0,
     jb_last_checkpoint_tick = 0, jb_journal_meta = meta_zero, jb_tx_dirty = [], jb_tx_revokes = [],
     jb_tx_revoke_overflow = False, jb_tx_enospc = False, jb_last_enospc_log_tick = 0, jb_pending = []\<rparr>"

text \<open>The fields read from the journal superblock. Feature bits: 1 REVOKE, 2 64BIT, 4 ASYNC, 8 CSUM_V2,
  16 CSUM_V3, 32 FAST_COMMIT.\<close>

definition read_jsb :: "u8 list \<Rightarrow> ext4_jbd2 \<Rightarrow> ext4_jbd2" where
  "read_jsb jsb b =
     (let incompat = rd_be32 jsb 40; uuid = take 16 (drop 48 jsb) in
      b\<lparr>jb_block_size := rd_be32 jsb 12, jb_maxlen := rd_be32 jsb 16, jb_first := rd_be32 jsb 20,
        jb_sequence := rd_be32 jsb 24, jb_start := rd_be32 jsb 28, jb_feature_compat := rd_be32 jsb 36,
        jb_feature_incompat := incompat, jb_checksum_type := rd_be32 jsb 80, jb_head := rd_be32 jsb 88,
        jb_feat_64bit := (incompat AND 2 \<noteq> 0), jb_csum_v2 := (incompat AND 8 \<noteq> 0),
        jb_csum_v3 := (incompat AND 16 \<noteq> 0), jb_uuid := uuid, jb_csum_seed := ext4_jbd2_seed_from_uuid uuid\<rparr>)"

definition ext4_jbd2_load_state :: "'d blkdrv \<Rightarrow> u8 list \<Rightarrow> ('d ext4, unit) op" where
  "ext4_jbd2_load_state D ext4_sb =
     (let journal_inum = rd_le32 ext4_sb 0xE0 in
      seq (check (journal_inum \<noteq> 0)) (\<lambda>_.
      seq (modify (upd_jb (\<lambda>_. jbd2_zero))) (\<lambda>_.
      seq (ext4_load_meta D journal_inum) (\<lambda>jm.
      seq (modify (upd_jb (\<lambda>b. b\<lparr>jb_journal_meta := jm\<rparr>))) (\<lambda>_.
      seq (gets fs) (\<lambda>f.
      seq (check (\<not> block_size f > 4096)) (\<lambda>_.
      seq (ext4_jbd2_read_jblock D jm 0) (\<lambda>jsb.
      seq (check (rd_be32 jsb 0 = JBD2_MAGIC_NUMBER)) (\<lambda>_.
      seq (check (rd_be32 jsb 4 = 3 \<or> rd_be32 jsb 4 = 4)) (\<lambda>_.
      seq (modify (upd_jb (read_jsb jsb))) (\<lambda>_.
      seq (gets jb) (\<lambda>b.
      seq (check (\<not> (jb_block_size b \<noteq> block_size f \<or> jb_maxlen b = 0 \<or> jb_first b = 0 \<or> jb_first b \<ge> jb_maxlen b))) (\<lambda>_.
      seq (check (jb_feature_incompat b AND NOT 63 = 0)) (\<lambda>_.
      seq (check (\<not> (jb_feature_incompat b AND 32 \<noteq> 0 \<and> rd_be32 jsb 84 \<noteq> 0))) (\<lambda>_.
      seq (modify (\<lambda>s. upd_jb (\<lambda>b.
             let b = (if jb_head b < jb_first b \<or> jb_head b \<ge> jb_maxlen b then b\<lparr>jb_head := jb_first b\<rparr> else b)
             in b\<lparr>jb_tail := (if jb_start b \<noteq> 0 then jb_start b else jb_head b), jb_pending := [],
                  jb_last_checkpoint_tick := ticks s\<rparr>) s)) (\<lambda>_.
      seq (check (\<not> (jb_csum b \<and> jb_checksum_type b \<noteq> 4))) (\<lambda>_.
      seq (modify (upd_jb (\<lambda>b. b\<lparr>jb_enabled := True\<rparr>))) (\<lambda>_.
      seq (check (ext4_jbd2_verify_super_checksum b jsb)) (\<lambda>_.
      modify (upd_jb (\<lambda>b. b\<lparr>jb_write_ready := True\<rparr>)))))))))))))))))))))"

section \<open>Replaying\<close>

record replay =
  rp_cursor :: u32
  rp_seq :: u32
  rp_updates :: "jbd2_update list" \<comment> \<open>g_jbd2_updates\<close>
  rp_revokes :: "jbd2_revoke list" \<comment> \<open>g_jbd2_revokes\<close>
  rp_tx_updates :: "jbd2_update list"
  rp_tx_revokes :: "jbd2_revoke list"
  rp_replayed :: nat
  rp_tx_open :: bool

text \<open>What a commit block does: the transaction's revokes and updates join the tables.\<close>

fun join_revokes :: "ext4_fs \<Rightarrow> jbd2_revoke list \<Rightarrow> jbd2_revoke list \<Rightarrow> jbd2_revoke list option" where
  "join_revokes f [] revokes = Some revokes"
| "join_revokes f (r # rs) revokes =
     (case ext4_jbd2_add_revoke f EXT4_JBD2_MAX_REVOKES (r_fs_block r) (r_seq r) True revokes of
        None \<Rightarrow> None | Some revokes' \<Rightarrow> join_revokes f rs revokes')"

fun join_updates :: "ext4_fs \<Rightarrow> ext4_jbd2 \<Rightarrow> jbd2_update list \<Rightarrow> jbd2_update list \<Rightarrow> jbd2_update list option" where
  "join_updates f b [] updates = Some updates"
| "join_updates f b (u # us) updates =
     (case ext4_jbd2_add_update f b EXT4_JBD2_MAX_UPDATES (u_fs_block u) (u_j_block u) (u_seq u) (u_escape u) False updates of
        None \<Rightarrow> None | Some updates' \<Rightarrow> join_updates f b us updates')"

definition commit_tx :: "ext4_fs \<Rightarrow> ext4_jbd2 \<Rightarrow> replay \<Rightarrow> replay option" where
  "commit_tx f b rp =
     (case join_revokes f (rp_tx_revokes rp) (rp_revokes rp) of
        None \<Rightarrow> None
      | Some revokes \<Rightarrow>
          (case join_updates f b (rp_tx_updates rp) (rp_updates rp) of
             None \<Rightarrow> None
           | Some updates \<Rightarrow>
               Some (rp\<lparr>rp_revokes := revokes, rp_updates := updates, rp_tx_updates := [], rp_tx_revokes := [],
                        rp_tx_open := False, rp_replayed := Suc (rp_replayed rp), rp_seq := rp_seq rp + 1\<rparr>)))"

definition opt_op :: "'a option \<Rightarrow> ('s, 'a) op" where
  "opt_op x = (case x of None \<Rightarrow> fail | Some y \<Rightarrow> ret y)"

fun replay_loop :: "'d blkdrv \<Rightarrow> nat \<Rightarrow> replay \<Rightarrow> ('d ext4, replay) op" where
  "replay_loop D 0 rp = fail" \<comment> \<open>exhausted\<close>
| "replay_loop D (Suc guard) rp =
     seq (gets fs) (\<lambda>f. seq (gets jb) (\<lambda>b.
     seq (ext4_jbd2_read_jblock D (jb_journal_meta b) (rp_cursor rp)) (\<lambda>blk.
       let type = rd_be32 blk 4 in
       if rd_be32 blk 0 \<noteq> JBD2_MAGIC_NUMBER \<or> rd_be32 blk 8 \<noteq> rp_seq rp
       then ret (rp\<lparr>rp_tx_updates := [], rp_tx_revokes := [], rp_tx_open := False\<rparr>)
       else if type = JBD2_DESCRIPTOR_BLOCK then
         seq (ext4_jbd2_parse_descriptor_block D (jb_journal_meta b) blk (rp_seq rp) (jb_first b) (jb_maxlen b)
                (rp_cursor rp) (rp_tx_revokes rp) EXT4_JBD2_TX_MAX_BLOCKS (rp_tx_updates rp)) (\<lambda>(cursor, tx_updates).
         replay_loop D guard (rp\<lparr>rp_tx_open := True, rp_cursor := cursor, rp_tx_updates := tx_updates\<rparr>))
       else if type = JBD2_REVOKE_BLOCK then
         seq (check (jb_feature_incompat b AND 1 \<noteq> 0)) (\<lambda>_.
         seq (opt_op (ext4_jbd2_parse_revoke_block f b blk (rp_seq rp) EXT4_JBD2_TX_MAX_REVOKES (rp_tx_revokes rp))) (\<lambda>tx_revokes.
         seq (advance (rp_cursor rp)) (\<lambda>cursor.
         replay_loop D guard (rp\<lparr>rp_tx_open := True, rp_cursor := cursor, rp_tx_revokes := tx_revokes\<rparr>))))
       else if type = JBD2_COMMIT_BLOCK then
         seq (check (rp_tx_open rp \<and> ext4_jbd2_verify_commit_checksum b blk)) (\<lambda>_.
         seq (opt_op (commit_tx f b rp)) (\<lambda>rp'.
         seq (advance (rp_cursor rp)) (\<lambda>cursor. replay_loop D guard (rp'\<lparr>rp_cursor := cursor\<rparr>))))
       else if type = 3 \<or> type = 4 then
         seq (check (\<not> (rp_tx_open rp \<or> rp_tx_updates rp \<noteq> [] \<or> rp_tx_revokes rp \<noteq> []))) (\<lambda>_.
         seq (check (ext4_jbd2_verify_super_checksum b blk)) (\<lambda>_.
         seq (advance (rp_cursor rp)) (\<lambda>cursor. replay_loop D guard (rp\<lparr>rp_cursor := cursor\<rparr>))))
       else fail)))"

abbreviation (input) EXT4_SUPER_OFFSET :: u64 where "EXT4_SUPER_OFFSET \<equiv> 1024"
abbreviation (input) EXT4_SUPER_SIZE :: nat where "EXT4_SUPER_SIZE \<equiv> 1024"

text \<open>Clearing the RECOVER flag (0x4) of the file system superblock.\<close>

definition clear_recover :: "'d blkdrv \<Rightarrow> ('d ext4, unit) op" where
  "clear_recover D s =
     (if feature_incompat (fs s) AND 4 \<noteq> 0 then
        seq (ext4_disk_read_bytes D EXT4_SUPER_OFFSET EXT4_SUPER_SIZE) (\<lambda>sb.
          let incompat = rd_le32 sb 0x60 AND NOT 4 in
          seq (ext4_disk_write_bytes D EXT4_SUPER_OFFSET (wr_le32 sb 0x60 incompat)) (\<lambda>_.
          modify (upd_fs (\<lambda>f. f\<lparr>feature_incompat := incompat\<rparr>)))) s
      else (Some (), s))"

definition ext4_jbd2_replay_if_needed :: "'d blkdrv \<Rightarrow> u8 list \<Rightarrow> ('d ext4, unit) op" where
  "ext4_jbd2_replay_if_needed D ext4_sb s =
     (if feature_compat (fs s) AND 4 = 0 then (Some (), s)
      else
        seq (ext4_jbd2_load_state D ext4_sb) (\<lambda>_.
        seq (gets jb) (\<lambda>b.
        if jb_start b = 0 then ret ()
        else
          seq (check (\<not> (jb_start b < jb_first b \<or> jb_start b \<ge> jb_maxlen b))) (\<lambda>_.
            let guard = jb_maxlen b * 4; guard = (if guard < 64 then 64 else guard) in
            seq (replay_loop D (unat guard) \<lparr>rp_cursor = jb_start b, rp_seq = jb_sequence b, rp_updates = [],
                   rp_revokes = [], rp_tx_updates = [], rp_tx_revokes = [], rp_replayed = 0, rp_tx_open = False\<rparr>) (\<lambda>rp.
            if rp_replayed rp = 0 then
              seq (modify (upd_jb (\<lambda>b. ext4_jbd2_refresh_start_tail (b\<lparr>jb_start := 0, jb_head := rp_cursor rp\<rparr>)))) (\<lambda>_.
              seq (ext4_jbd2_store_super D) (\<lambda>_. e4_flush D))
            else
              seq (ext4_jbd2_apply_updates D (jb_journal_meta b) (rp_updates rp) (rp_revokes rp)) (\<lambda>_.
              seq (modify (upd_jb (\<lambda>b. ext4_jbd2_refresh_start_tail (b\<lparr>jb_sequence := rp_seq rp, jb_start := 0,
                                          jb_head := rp_cursor rp\<rparr>)))) (\<lambda>_.
              seq (ext4_jbd2_store_super D) (\<lambda>_.
              seq (clear_recover D) (\<lambda>_. e4_flush D))))))))
          s)"

end
