(* ===== verification/Ext4Tx.thy ===== *)
theory Ext4Tx
  imports Ext4Replay
begin

text \<open>
  Transactions of the file system (\<^verbatim>\<open>src/kernel/ext4.c\<close>, \<^verbatim>\<open>ext4_tx_begin\<close>, \<^verbatim>\<open>ext4_tx_abort\<close>,
  \<^verbatim>\<open>ext4_tx_commit\<close>, \<^verbatim>\<open>ext4_sync_filesystem\<close>, \<^verbatim>\<open>ext4_periodic_maintenance\<close>), and the set-up and
  recovery of the redo log at the end of the partition (\<^verbatim>\<open>ext4_journal_setup\<close>,
  \<^verbatim>\<open>ext4_journal_replay_if_needed\<close>).
\<close>

section \<open>Operations\<close>

text \<open>Set the error number from what a JBD2 call found: 28 is ENOSPC, 5 is EIO.\<close>

definition jbd2_errno :: "'d ext4 \<Rightarrow> 'd ext4" where
  "jbd2_errno s = set_errno (if jb_tx_enospc (jb s) then 28 else 5) s"

definition set_jl_active :: "bool \<Rightarrow> 'd ext4 \<Rightarrow> 'd ext4" where
  "set_jl_active v = upd_jl (\<lambda>j. j\<lparr>jl_tx_active := v\<rparr>)"

definition ext4_tx_begin :: "'d blkdrv \<Rightarrow> ('d ext4, unit) op" where
  "ext4_tx_begin D s0 =
     (let s = set_errno 0 s0 in
      if jb_enabled (jb s) then on_fail jbd2_errno (ext4_jbd2_tx_start D) s
      else if \<not> jl_enabled (jl s) then (Some (), s)
      else if jl_tx_active (jl s) then (None, set_errno 16 s)
      else
        let s1 = upd_jl (\<lambda>j. j\<lparr>jl_tx_active := True, jl_recs := [], jl_data := [], jl_seq := jl_seq j + 1\<rparr>) s
        in on_fail (\<lambda>s. set_errno 5 (set_jl_active False s))
             (seq (ext4_journal_write_header D EXT4_JLOG_STATE_PREP 0 0 (jl_seq (jl s1))) (\<lambda>_. e4_flush D)) s1)"

definition ext4_tx_abort :: "'d blkdrv \<Rightarrow> 'd ext4 \<Rightarrow> 'd ext4" where
  "ext4_tx_abort D s =
     (if jb_enabled (jb s) then ext4_jbd2_tx_abort s
      else if \<not> jl_enabled (jl s) \<or> \<not> jl_tx_active (jl s) then s
      else upd_jl (\<lambda>j. j\<lparr>jl_tx_active := False, jl_recs := [], jl_data := []\<rparr>) (snd (ext4_journal_clear D s)))"

definition replay_rec :: "'d blkdrv \<Rightarrow> jlog_rec \<Rightarrow> ('d ext4, unit) op" where
  "replay_rec D r = (\<lambda>s. ext4_raw_write_bytes D (rec_byte_off r) (rec_src (jl s) r) s)"

definition set_replaying :: "bool \<Rightarrow> 'd ext4 \<Rightarrow> 'd ext4" where
  "set_replaying v = upd_jl (\<lambda>j. j\<lparr>jl_replaying := v\<rparr>)"

definition ext4_tx_commit :: "'d blkdrv \<Rightarrow> ('d ext4, unit) op" where
  "ext4_tx_commit D s =
     (if jb_enabled (jb s) then on_fail jbd2_errno (ext4_jbd2_tx_commit D) s
      else if \<not> jl_enabled (jl s) then (Some (), s)
      else if \<not> jl_tx_active (jl s) then (None, s)
      else
        let j = jl s in
        on_fail (set_errno 5)
          (seq (ext4_journal_write_header D EXT4_JLOG_STATE_COMMIT (of_nat (length (jl_recs j)))
                  (of_nat (length (jl_data j))) (jl_seq j)) (\<lambda>_.
           seq (e4_flush D) (\<lambda>_.
           seq (modify (set_replaying True)) (\<lambda>_.
           seq (on_fail (set_replaying False) (for_each (replay_rec D) (jl_recs j))) (\<lambda>_.
           seq (modify (set_replaying False)) (\<lambda>_.
           seq (e4_flush D) (\<lambda>_.
           seq (ext4_journal_clear D) (\<lambda>_.
           modify (\<lambda>s. set_errno 0 (upd_jl (\<lambda>j. j\<lparr>jl_recs := [], jl_data := []\<rparr>) s))))))))))
          (set_jl_active False s))"

definition ext4_periodic_maintenance :: "'d blkdrv \<Rightarrow> u64 \<Rightarrow> 'd ext4 \<Rightarrow> 'd ext4" where
  "ext4_periodic_maintenance D now_ticks s =
     (if \<not> mounted (fs s) then s
      else if jb_enabled (jb s) \<and> \<not> jb_tx_active (jb s) \<and> jb_pending (jb s) \<noteq> []
              \<and> (length (jb_pending (jb s)) \<ge> EXT4_JBD2_CHECKPOINT_BATCH
                 \<or> now_ticks - jb_last_checkpoint_tick (jb s) \<ge> 10)
      then snd (ext4_jbd2_maybe_checkpoint D False s)
      else s)"

text \<open>Each round of the loop of \<^verbatim>\<open>ext4_sync_filesystem\<close> removes a transaction from the queue, so as
  many rounds as there are transactions are enough.\<close>

fun sync_loop :: "'d blkdrv \<Rightarrow> nat \<Rightarrow> ('d ext4, unit) op" where
  "sync_loop D 0 = ret ()"
| "sync_loop D (Suc n) = (\<lambda>s.
     if jb_pending (jb s) \<noteq> []
     then seq (ext4_jbd2_checkpoint_some D EXT4_JBD2_CHECKPOINT_BATCH) (\<lambda>_. sync_loop D n) s
     else (Some (), s))"

definition ext4_sync_filesystem :: "'d blkdrv \<Rightarrow> ('d ext4, unit) op" where
  "ext4_sync_filesystem D s =
     (if \<not> mounted (fs s) then (Some (), s)
      else
        seq (if jb_enabled (jb s) then
               seq (check (\<not> jb_tx_active (jb s))) (\<lambda>_.
               seq (sync_loop D (length (jb_pending (jb s)))) (\<lambda>_. ext4_jbd2_store_super D))
             else ret ()) (\<lambda>_.
        seq (gets jl) (\<lambda>j.
        seq (check (\<not> jl_tx_active j)) (\<lambda>_. e4_flush D))) s)"

definition journal_zero :: ext4_journal where \<comment> \<open>memset(&g_journal, 0, ...)\<close>
  "journal_zero = \<lparr>jl_enabled = False, jl_tx_active = False, jl_replaying = False, jl_seq = 0, jl_base_off = 0,
     jl_area_bytes = 0, jl_recs = [], jl_data = []\<rparr>"

definition ext4_journal_setup :: "'d blkdrv \<Rightarrow> ('d ext4, unit) op" where
  "ext4_journal_setup D s =
     (case block_cache_capacity_sectors D (cache s) (dev s) of (cap, d) \<Rightarrow>
        let s1 = s\<lparr>dev := d, jl := journal_zero\<rparr>;
            cap_bytes = cap * 512;
            fs_bytes = blocks_count (fs s) * ucast (block_size (fs s))
        in if cap_bytes < fs_bytes + EXT4_JLOG_REGION_BYTES then (Some (), s1)
           else (Some (), upd_jl (\<lambda>j. j\<lparr>jl_enabled := True, jl_base_off := cap_bytes - EXT4_JLOG_REGION_BYTES,
                                       jl_area_bytes := EXT4_JLOG_REGION_BYTES\<rparr>) s1))"

text \<open>Replaying record \<open>i\<close> of the log whose header holds \<open>data_bytes\<close> bytes of data.\<close>

definition replay_disk_rec :: "'d blkdrv \<Rightarrow> u32 \<Rightarrow> nat \<Rightarrow> ('d ext4, unit) op" where
  "replay_disk_rec D data_bytes i =
     seq (gets jl) (\<lambda>j.
     seq (ext4_raw_read_bytes D (rec_pos j i) 16) (\<lambda>rb.
       let r = rec_of rb in
       seq (check (\<not> (rec_len r = 0 \<or> rec_data_off r > data_bytes
                       \<or> unat (rec_data_off r) + unat (rec_len r) > unat data_bytes))) (\<lambda>_.
       seq (ext4_raw_read_bytes D (data_pos j (rec_data_off r)) (unat (rec_len r))) (\<lambda>data.
       ext4_raw_write_bytes D (rec_byte_off r) data))))"

definition ext4_journal_replay_if_needed :: "'d blkdrv \<Rightarrow> ('d ext4, unit) op" where
  "ext4_journal_replay_if_needed D s =
     (if \<not> jl_enabled (jl s) then (Some (), s)
      else
        seq (ext4_raw_read_bytes D (jl_base_off (jl s)) 64) (\<lambda>hb.
          let h = hdr_of hb in
          if h_magic h \<noteq> EXT4_JLOG_MAGIC then ext4_journal_clear D
          else if h_state h = EXT4_JLOG_STATE_CLEAN \<or> h_rec_count h = 0 \<or> h_data_bytes h = 0 then ext4_journal_clear D
          else if h_state h \<noteq> EXT4_JLOG_STATE_COMMIT then ext4_journal_clear D
          else if unat (h_rec_count h) > EXT4_JLOG_MAX_RECORDS \<or> unat (h_data_bytes h) > EXT4_JLOG_DATA_BYTES
          then ext4_journal_clear D
          else
            seq (modify (set_replaying True)) (\<lambda>_.
            seq (on_fail (set_replaying False)
                   (for_each (replay_disk_rec D (h_data_bytes h)) [0..<unat (h_rec_count h)])) (\<lambda>_.
            seq (modify (set_replaying False)) (\<lambda>_.
            seq (e4_flush D) (\<lambda>_. ext4_journal_clear D))))) s)"

end
