(* ===== verification/Ext4Good.thy ===== *)
theory Ext4Good
  imports Ext4Tx
begin

text \<open>
  Disk operations of \<^verbatim>\<open>src/kernel/ext4.c\<close> on a device that completes its transfers: they return, with
  the bytes they are meant to return or store. And a state that satisfies the hypotheses, over a
  disk in memory, for the witnesses.
\<close>

section \<open>Disk operations on a device that serves its transfers\<close>

definition disk_good :: "'d blkdrv \<Rightarrow> ('d \<Rightarrow> u64 \<Rightarrow> sector) \<Rightarrow> 'd ext4 \<Rightarrow> bool" where
  "disk_good D media s \<longleftrightarrow> disk_ok D media s \<and> disk_live D s"

lemma disk_good_upd [simp]:
  "disk_good D media (upd_jl g s) = disk_good D media s" "disk_good D media (upd_jb h s) = disk_good D media s"
  "disk_good D media (set_errno e s) = disk_good D media s"
  by (simp_all add: disk_good_def)

lemma write_total:
  assumes "disk_good D media s" "in_part s off (length src)" "length src < 2 ^ 64"
  obtains s' where "ext4_raw_write_bytes D off src s = (Some (), s')" "disk_good D media s'" "same_rest s s'"
    "e4_bytes media s' = put_bytes off src (e4_bytes media s)"
proof -
  obtain s' where w: "ext4_raw_write_bytes D off src s = (Some (), s')" "disk_live D s'" "same_rest s s'"
    using e4_write_live assms by (metis disk_good_def)
  then show thesis
    using that [OF w(1)] raw_write_spec [OF _ w(1) assms(3)] assms(1) by (simp add: disk_good_def)
qed

lemma read_total:
  assumes "disk_good D media s" "in_part s off n"
  obtains s' where "ext4_raw_read_bytes D off n s = (Some (get_bytes (e4_bytes media s) off n), s')"
    "disk_good D media s'" "same_rest s s'" "e4_bytes media s' = e4_bytes media s"
proof -
  obtain bs s' where w: "ext4_raw_read_bytes D off n s = (Some bs, s')" "disk_live D s'" "same_rest s s'"
    using e4_read_live assms by (metis disk_good_def)
  have ok: "disk_ok D media s" using assms(1) by (simp add: disk_good_def)
  have "bs = get_bytes (e4_bytes media s) off n" by (rule raw_read_spec(4) [OF ok w(1) refl])
  then show thesis
    using that w raw_read_spec(1,2,3) [OF ok w(1)] by (simp add: disk_good_def)
qed

lemma flush_total:
  assumes "disk_good D media s"
  obtains s' where "e4_flush D s = (Some (), s')" "disk_good D media s'" "same_rest s s'"
    "e4_bytes media s' = e4_bytes media s" "medium media s' = e4_bytes media s"
proof -
  obtain s' where w: "e4_flush D s = (Some (), s')" "disk_live D s'" "same_rest s s'"
    using e4_flush_live assms by (metis disk_good_def)
  then show thesis
    using that w flush_spec [OF _ w(1)] assms by (simp add: disk_good_def)
qed

lemma disk_read_total:
  assumes "disk_good D media s" "jl_ok (jl s)" "jb_ok (jb s)" "in_part s off n" "unat off + n < 2 ^ 64"
  obtains s' where "ext4_disk_read_bytes D off n s = (Some (get_bytes (fs_view media s) off n), s')"
    "disk_good D media s'" "same_rest s s'" "e4_bytes media s' = e4_bytes media s"
proof -
  obtain s' where r: "ext4_raw_read_bytes D off n s = (Some (get_bytes (e4_bytes media s) off n), s')"
    "disk_good D media s'" "same_rest s s'" "e4_bytes media s' = e4_bytes media s"
    using read_total [OF assms(1,4)] by blast
  have "disk_ok D media s" using assms(1) by (simp add: disk_good_def)
  from that [OF disk_read_raw [OF this assms(2,3,5) r(1)] r(2-4)] show thesis .
qed

section \<open>A state over a disk in memory\<close>

definition example_cache :: "u64 \<Rightarrow> bcache" where
  "example_cache cap = bc_example\<lparr>active_lba_count := cap\<rparr>"

definition example_fs :: "u64 \<Rightarrow> ext4_fs" where
  "example_fs cap = \<lparr>mounted = True, write_enabled = True, has_filetype = True, has_64bit = False,
     feature_compat = 0, feature_incompat = 0, feature_ro_compat = 0, block_size = 1024, sectors_per_block = 2,
     inodes_count = 32, first_ino = 11, inode_size = 128, inodes_per_group = 32, blocks_per_group = 8192,
     desc_size = 32, first_data_block = 1, blocks_count = 128, free_blocks_count = 100, free_inodes_count = 20,
     groups_count = 1, source_dev_kind = DEV_VDA, source_lba_start = 0, source_lba_count = cap\<rparr>"

definition example_ext4 :: "u64 \<Rightarrow> (u64 \<Rightarrow> sector) \<Rightarrow> (u64 \<Rightarrow> sector) ext4" where
  "example_ext4 cap d = \<lparr>cache = example_cache cap, dev = d, ticks = 0, fs = example_fs cap, jl = journal_zero,
     jb = jbd2_zero, last_errno = 0\<rparr>"

lemma example_ext4_simps [simp]:
  "cache (example_ext4 cap d) = example_cache cap" "dev (example_ext4 cap d) = d" "ticks (example_ext4 cap d) = 0"
  "fs (example_ext4 cap d) = example_fs cap" "jl (example_ext4 cap d) = journal_zero" "jb (example_ext4 cap d) = jbd2_zero"
  by (simp_all add: example_ext4_def)

lemma example_view: "bc_view m (example_cache cap) = m"
proof
  fix l show "bc_view m (example_cache cap) l = m l"
    by (subst bc_view_media) (simp_all add: holds_def example_cache_def line_zero_def)
qed

lemma example_good:
  assumes "\<And>l. length (d l) = 512" "cap \<noteq> 0"
  shows "disk_good (mem_disk cap) (\<lambda>d. d) (example_ext4 cap d)"
proof -
  have "cache_inv m (example_cache cap)" "lines_in_range (example_cache cap)" for m
    by (simp_all add: cache_inv_def lines_in_range_def holds_def example_cache_def line_zero_def)
  then show ?thesis
    using assms mem_disk_ok [of cap] mem_disk_keeps [of cap] mem_disk_serves [of cap]
    by (simp add: disk_good_def disk_ok_def disk_live_def bc_ok_def bc_live_def bc_dev_def src_dev_def
        example_fs_def sized_def example_view driver_present_def driver_flushes_def dev_serves_def)
      (simp add: example_cache_def backend_flush_def backend_ready_def mem_disk_def)
qed

lemma example_bytes: "e4_bytes (\<lambda>d. d) (example_ext4 cap d) = byte_at d"
  by (simp add: e4_bytes_def st_view_def example_view)

text \<open>A disk with given bytes.\<close>

definition disk_of :: "(u64 \<Rightarrow> u8) \<Rightarrow> u64 \<Rightarrow> sector" where
  "disk_of g l = map (\<lambda>i. g (l * 512 + of_nat i)) [0..<512]"

lemma length_disk_of [simp]: "length (disk_of g l) = 512" by (simp add: disk_of_def)

lemma byte_at_disk_of [simp]: "byte_at (disk_of g) = g"
proof
  fix k :: u64
  have "k div 512 * 512 + of_nat (unat (k mod 512)) = k" by (simp add: word_mod_div_equality del: unat_mod_512)
  then show "byte_at (disk_of g) k = g k" by (simp add: byte_at_def disk_of_def)
qed

end
