(* ===== verification/RedoLog.thy ===== *)
theory RedoLog
  imports Ext4Good
begin

text \<open>
  Correctness of the redo log (\<^verbatim>\<open>src/kernel/ext4.c\<close>, \<^verbatim>\<open>g_journal\<close>): transactions take effect as a whole
  when they commit, leave no trace when they abort, and are completed or discarded by the recovery
  at mount time. The log's own region at the end of the partition is excluded from the statements.
\<close>

section \<open>Records applied to the bytes\<close>

text \<open>A byte is decided by the last record that covers it; what the others wrote there, and what was
  there before, does not matter. So applying the records again, or to bytes a crash left half
  written, gives the same result.\<close>

definition covered :: "ext4_journal \<Rightarrow> u64 \<Rightarrow> bool" where
  "covered j k \<longleftrightarrow> (\<exists>r \<in> set (jl_recs j). in_span (rec_byte_off r) (unat (rec_len r)) k)"

lemma put_recs_decided:
  "\<forall>r \<in> set rs. rec_fits j r \<Longrightarrow> m k = f k \<or> (\<exists>r \<in> set rs. in_span (rec_byte_off r) (unat (rec_len r)) k) \<Longrightarrow>
     fold (\<lambda>r. put_bytes (rec_byte_off r) (rec_src j r)) rs m k
     = fold (\<lambda>r. put_bytes (rec_byte_off r) (rec_src j r)) rs f k"
proof (induction rs arbitrary: m f)
  case (Cons r rs)
  have "put_bytes (rec_byte_off r) (rec_src j r) g k = (if in_span (rec_byte_off r) (unat (rec_len r)) k
      then rec_src j r ! (unat k - unat (rec_byte_off r)) else g k)" for g
    using Cons.prems(1) length_rec_src [of j r] by (subst put_bytes_span) (auto simp: rec_fits_def)
  then have "put_bytes (rec_byte_off r) (rec_src j r) m k = put_bytes (rec_byte_off r) (rec_src j r) f k
      \<or> (\<exists>r \<in> set rs. in_span (rec_byte_off r) (unat (rec_len r)) k)"
    using Cons.prems(2) by auto
  then show ?case using Cons.prems(1) by (simp add: Cons.IH)
qed simp

lemma apply_recs_decided: "jl_ok j \<Longrightarrow> m k = f k \<or> covered j k \<Longrightarrow> apply_recs j m k = apply_recs j f k"
  unfolding apply_recs_def covered_def by (rule put_recs_decided) (auto simp: jl_ok_def)

section \<open>The header\<close>

definition header_is :: "ext4_journal \<Rightarrow> u32 \<Rightarrow> nat \<Rightarrow> nat \<Rightarrow> (u64 \<Rightarrow> u8) \<Rightarrow> bool" where
  "header_is j state nrecs ndata f \<longleftrightarrow> get_bytes f (jl_base_off j) 64 =
     hdr_bytes \<lparr>h_magic = EXT4_JLOG_MAGIC, h_state = state, h_seq = jl_seq j,
       h_rec_count = of_nat nrecs, h_data_bytes = of_nat ndata\<rparr>"

text \<open>The log is in use and lies inside the partition.\<close>

definition log_in_part :: "'d ext4 \<Rightarrow> bool" where
  "log_in_part s \<longleftrightarrow> jl_enabled (jl s) \<and> jl_area_bytes (jl s) = EXT4_JLOG_REGION_BYTES \<and> base_ok (jl s)
     \<and> in_part s (jl_base_off (jl s)) 262144"

lemma in_part_less: "in_part s off n \<Longrightarrow> unat off \<le> unat p \<Longrightarrow> unat p + m \<le> unat off + n \<Longrightarrow> in_part s p m"
  by (simp add: in_part_def)

lemma log_on_disk_header:
  assumes "base_ok j" "jl_ok j" "length bs \<le> 64" "log_on_disk j f"
  shows "log_on_disk j (put_bytes (jl_base_off j) bs f)"
proof -
  note p = unat_rec_pos [OF assms(1)] and q = unat_data_pos [OF assms(1), of 0]
  have b: "unat (jl_base_off j) + 262144 \<le> 2 ^ 64" using assms(1) by (simp add: base_ok_def)
  have "get_bytes (put_bytes (jl_base_off j) bs f) (rec_pos j i) 16 = get_bytes f (rec_pos j i) 16"
    if "i < length (jl_recs j)" for i
    using that assms b by (intro get_put_disjoint) (simp_all add: p jl_ok_def)
  moreover have "get_bytes (put_bytes (jl_base_off j) bs f) (data_pos j 0) (length (jl_data j))
      = get_bytes f (data_pos j 0) (length (jl_data j))"
    using assms b by (intro get_put_disjoint) (simp_all add: q jl_ok_def)
  ultimately show ?thesis using assms(4) by (simp add: log_on_disk_def)
qed

lemma header_total:
  assumes "disk_good D media s" "log_in_part s"
  obtains s' where "ext4_journal_write_header D state (of_nat n) (of_nat m) (jl_seq (jl s)) s = (Some (), s')"
    "disk_good D media s'" "same_rest s s'" "same_home media s s'" "header_is (jl s) state n m (e4_bytes media s')"
    "base_ok (jl s) \<Longrightarrow> jl_ok (jl s) \<Longrightarrow> log_on_disk (jl s) (e4_bytes media s) \<Longrightarrow> log_on_disk (jl s) (e4_bytes media s')"
proof -
  let ?h = "hdr_bytes \<lparr>h_magic = EXT4_JLOG_MAGIC, h_state = state, h_seq = jl_seq (jl s),
       h_rec_count = of_nat n, h_data_bytes = of_nat m\<rparr>"
  have b: "base_ok (jl s)" "unat (jl_base_off (jl s)) + 64 \<le> 2 ^ 64"
    using assms(2) by (auto simp: log_in_part_def base_ok_def)
  have ip: "in_part s (jl_base_off (jl s)) (length ?h)" and len: "length ?h < 2 ^ 64"
    using assms(2) by (auto simp: log_in_part_def in_part_def)
  obtain s' where w: "ext4_raw_write_bytes D (jl_base_off (jl s)) ?h s = (Some (), s')" "disk_good D media s'"
    "same_rest s s'" "e4_bytes media s' = put_bytes (jl_base_off (jl s)) ?h (e4_bytes media s)"
    using write_total [OF assms(1) ip len] by blast
  show thesis
  proof (rule that [OF _ w(2,3)])
    show "ext4_journal_write_header D state (of_nat n) (of_nat m) (jl_seq (jl s)) s = (Some (), s')"
      using assms(2) w(1) by (simp add: ext4_journal_write_header_def log_in_part_def)
    show "same_home media s s'"
      unfolding same_home_def w(4) using b by (auto intro!: put_in_region)
    show "header_is (jl s) state n m (e4_bytes media s')"
      unfolding header_is_def w(4) using get_put_same [of "jl_base_off (jl s)" ?h] b by simp
    show "base_ok (jl s) \<Longrightarrow> jl_ok (jl s) \<Longrightarrow> log_on_disk (jl s) (e4_bytes media s) \<Longrightarrow> log_on_disk (jl s) (e4_bytes media s')"
      unfolding w(4) by (rule log_on_disk_header) simp_all
  qed
qed

lemma clear_total:
  assumes "disk_good D media s" "log_in_part s"
  obtains s' where "ext4_journal_clear D s = (Some (), s')" "disk_good D media s'" "same_rest s s'"
    "same_home media s s'" "medium media s' = e4_bytes media s'"
    "header_is (jl s) EXT4_JLOG_STATE_CLEAN 0 0 (medium media s')"
proof -
  obtain s1 where h: "ext4_journal_write_header D EXT4_JLOG_STATE_CLEAN 0 0 (jl_seq (jl s)) s = (Some (), s1)"
    "disk_good D media s1" "same_rest s s1" "same_home media s s1"
    "header_is (jl s) EXT4_JLOG_STATE_CLEAN 0 0 (e4_bytes media s1)"
    using header_total [OF assms, of EXT4_JLOG_STATE_CLEAN 0 0] by auto
  obtain s2 where f: "e4_flush D s1 = (Some (), s2)" "disk_good D media s2" "same_rest s1 s2"
    "e4_bytes media s2 = e4_bytes media s1" "medium media s2 = e4_bytes media s1"
    using flush_total [OF h(2)] by blast
  show thesis
  proof (rule that)
    show "ext4_journal_clear D s = (Some (), s2)"
      using assms(2) h(1) f(1) by (simp add: ext4_journal_clear_def log_in_part_def seq_def)
    show "disk_good D media s2" "same_rest s s2" using h f same_rest_trans by auto
    show "same_home media s s2" using h(4) f(4) by (simp add: same_home_def)
    show "medium media s2 = e4_bytes media s2" "header_is (jl s) EXT4_JLOG_STATE_CLEAN 0 0 (medium media s2)"
      using h(5) f(4,5) by simp_all
  qed
qed

section \<open>A transaction from begin to commit\<close>

text \<open>The log is set up and no transaction is open.\<close>

definition redo_idle :: "'d ext4 \<Rightarrow> bool" where
  "redo_idle s \<longleftrightarrow> \<not> jb_enabled (jb s) \<and> log_in_part s \<and> \<not> jl_tx_active (jl s) \<and> \<not> jl_replaying (jl s)"

lemma on_fail_Some: "m s = (Some x, s') \<Longrightarrow> on_fail f m s = (Some x, s')"
  by (simp add: on_fail_def)

lemma begin_total:
  assumes good: "disk_good D media s" and idle: "redo_idle s"
  obtains s' where "ext4_tx_begin D s = (Some (), s')" "jl_tx D media s'" "disk_good D media s'" "log_in_part s'"
    "jl_recs (jl s') = []" "jl_data (jl s') = []" "fs s' = fs s" "jb s' = jb s" "region (jl s') = region (jl s)"
    "jl_base_off (jl s') = jl_base_off (jl s)" "same_home media s s'"
proof -
  define s1 where "s1 = upd_jl (\<lambda>j. j\<lparr>jl_tx_active := True, jl_recs := [], jl_data := [], jl_seq := jl_seq j + 1\<rparr>) (set_errno 0 s)"
  have g1: "disk_good D media s1" and l1: "log_in_part s1"
    using good idle by (simp_all add: s1_def redo_idle_def log_in_part_def base_ok_def)
  obtain s2 where h: "ext4_journal_write_header D EXT4_JLOG_STATE_PREP 0 0 (jl_seq (jl s1)) s1 = (Some (), s2)"
    "disk_good D media s2" "same_rest s1 s2" "same_home media s1 s2"
    using header_total [OF g1 l1, of EXT4_JLOG_STATE_PREP 0 0] by auto
  obtain s3 where f: "e4_flush D s2 = (Some (), s3)" "disk_good D media s3" "same_rest s2 s3"
    "e4_bytes media s3 = e4_bytes media s2"
    using flush_total [OF h(2)] by blast
  have r: "same_rest s1 s3" using h f same_rest_trans by blast
  have reg: "region (jl s1) = region (jl s)" by (simp add: s1_def region_def)
  show thesis
  proof (rule that)
    show "ext4_tx_begin D s = (Some (), s3)"
      using idle h(1) f(1) by (simp add: ext4_tx_begin_def redo_idle_def log_in_part_def Let_def on_fail_def seq_def s1_def)
    show "log_in_part s3" using l1 r by (simp add: log_in_part_def same_rest_def in_part_def)
    show "jl_tx D media s3"
      using idle l1 f(2) r
      by (simp add: jl_tx_def disk_good_def redo_idle_def log_in_part_def same_rest_def jl_ok_def log_on_disk_def s1_def)
    show "same_home media s s3" using h(4) f(4) by (simp add: same_home_def reg) (simp add: s1_def)
  qed (use f r in \<open>auto simp: same_rest_def s1_def region_def\<close>)
qed

lemma log_write_total:
  assumes tx: "jl_tx D media s" and good: "disk_good D media s" and part: "log_in_part s"
    and n: "length (jl_recs (jl s)) < 512" "length (jl_data (jl s)) + length buf \<le> 196608"
  obtains s' where "ext4_disk_write_bytes D off buf s = (Some (), s')" "disk_good D media s'" "fs s' = fs s"
    "length (jl_recs (jl s')) \<le> Suc (length (jl_recs (jl s)))"
    "length (jl_data (jl s')) = length (jl_data (jl s)) + length buf"
    "set (jl_recs (jl s')) \<subseteq> insert \<lparr>rec_byte_off = off, rec_len = of_nat (length buf),
        rec_data_off = of_nat (length (jl_data (jl s)))\<rparr> (set (jl_recs (jl s)))"
proof (cases "buf = []")
  case True
  then have "ext4_disk_write_bytes D off buf s = (Some (), s)"
    using tx by (simp add: ext4_disk_write_bytes_def jl_tx_def Let_def)
  then show thesis using that good True by auto
next
  case False
  let ?j = "jl s"
  define c where "c = \<lparr>rec_byte_off = off, rec_len = of_nat (length buf), rec_data_off = of_nat (length (jl_data ?j))\<rparr>"
  have b: "base_ok ?j" "in_part s (jl_base_off ?j) 262144" using part by (auto simp: log_in_part_def)
  have u: "unat (of_nat (length (jl_data ?j)) :: u32) = length (jl_data ?j)"
    using n by (intro unat_of_nat_small) simp
  have "in_part s (rec_pos ?j (length (jl_recs ?j))) (length (rec_bytes c))"
    using b n by (intro in_part_less [OF b(2)]) (simp_all add: unat_rec_pos)
  then obtain s1 where w1: "ext4_raw_write_bytes D (rec_pos ?j (length (jl_recs ?j))) (rec_bytes c) s = (Some (), s1)"
    "disk_good D media s1" "same_rest s s1"
    using write_total [OF good, of _ "rec_bytes c"] by auto
  have "in_part s1 (data_pos ?j (of_nat (length (jl_data ?j)))) (length buf)"
    unfolding in_part_rest [OF w1(3)]
    using b n by (intro in_part_less [OF b(2)]) (simp_all add: unat_data_pos u)
  then obtain s2 where w2: "ext4_raw_write_bytes D (data_pos ?j (of_nat (length (jl_data ?j)))) buf s1 = (Some (), s2)"
    "disk_good D media s2" "same_rest s1 s2"
    using write_total [OF w1(2), of _ buf] n by auto
  have "ext4_disk_write_bytes D off buf s = (Some (), upd_jl (log_append c buf) s2)"
    using tx n False w1(1) w2(1)
    by (simp add: ext4_disk_write_bytes_def jl_tx_def Let_def seq_def modify_def log_append_eq c_def)
  then show thesis
    by (rule that) (use w1 w2 in \<open>auto simp: same_rest_def log_append_def c_def\<close>)
qed

definition tx_writes :: "'d blkdrv \<Rightarrow> (u64 \<times> u8 list) list \<Rightarrow> ('d ext4, unit) op" where
  "tx_writes D ws = for_each (\<lambda>(off, buf). ext4_disk_write_bytes D off buf) ws"

abbreviation put_writes :: "(u64 \<times> u8 list) list \<Rightarrow> (u64 \<Rightarrow> u8) \<Rightarrow> u64 \<Rightarrow> u8" where
  "put_writes \<equiv> fold (\<lambda>(off, buf). put_bytes off buf)"

lemma tx_writes_simps [simp]:
  "tx_writes D [] = ret ()"
  "tx_writes D ((off, buf) # ws) = seq (ext4_disk_write_bytes D off buf) (\<lambda>_. tx_writes D ws)"
  by (simp_all add: tx_writes_def)

definition recs_in_part :: "'d ext4 \<Rightarrow> bool" where
  "recs_in_part s \<longleftrightarrow> (\<forall>r \<in> set (jl_recs (jl s)). in_part s (rec_byte_off r) (unat (rec_len r)))"

lemma jl_logged_trans: "jl_logged D media a b \<Longrightarrow> jl_logged D media b c \<Longrightarrow> jl_logged D media a c"
  by (simp add: jl_logged_def same_home_def)

lemma jl_logged_log_in_part:
  assumes "jl_logged D media s s'" "log_in_part s"
  shows "log_in_part s'"
  using assms by (simp add: jl_logged_def log_in_part_def jl_tx_def in_part_def)

lemma tx_writes_total:
  assumes "jl_tx D media s" "disk_good D media s" "log_in_part s" "recs_in_part s"
    and "length (jl_recs (jl s)) + length ws \<le> 512"
    and "length (jl_data (jl s)) + sum_list (map (length \<circ> snd) ws) \<le> 196608"
    and "\<forall>(off, buf) \<in> set ws. in_part s off (length buf) \<and> unat off + length buf < 2 ^ 64"
  shows "\<exists>s'. tx_writes D ws s = (Some (), s') \<and> jl_logged D media s s' \<and> disk_good D media s' \<and> recs_in_part s'
    \<and> (\<forall>f. apply_recs (jl s') f = put_writes ws (apply_recs (jl s) f))"
  using assms
proof (induction ws arbitrary: s)
  case Nil
  then show ?case by (auto simp: ret_def jl_logged_def same_home_def)
next
  case (Cons w ws)
  obtain off buf where w: "w = (off, buf)" by fastforce
  have n: "length (jl_recs (jl s)) < 512" "length (jl_data (jl s)) + length buf \<le> 196608"
    "unat off + length buf < 2 ^ 64" "in_part s off (length buf)"
    using Cons.prems(5,6,7) by (auto simp: w)
  obtain s1 where s1: "ext4_disk_write_bytes D off buf s = (Some (), s1)" "disk_good D media s1" "fs s1 = fs s"
    "length (jl_recs (jl s1)) \<le> Suc (length (jl_recs (jl s)))"
    "length (jl_data (jl s1)) = length (jl_data (jl s)) + length buf"
    "set (jl_recs (jl s1)) \<subseteq> insert \<lparr>rec_byte_off = off, rec_len = of_nat (length buf),
        rec_data_off = of_nat (length (jl_data (jl s)))\<rparr> (set (jl_recs (jl s)))"
    using log_write_total [OF Cons.prems(1,2,3) n(1,2)] by blast
  have lg: "jl_logged D media s s1" and ap: "\<And>f. apply_recs (jl s1) f = put_bytes off buf (apply_recs (jl s) f)"
    using jl_write_spec [OF Cons.prems(1) s1(1) n(3)] by auto
  have ip: "in_part s1 = in_part s" using s1(3) by (simp add: in_part_def fun_eq_iff)
  have "unat (of_nat (length buf) :: u32) = length buf" using n(2) by (intro unat_of_nat_small) simp
  then have rp: "recs_in_part s1"
    using s1(6) Cons.prems(4) n(4) by (auto simp: recs_in_part_def ip)
  obtain s' where s': "tx_writes D ws s1 = (Some (), s')" "jl_logged D media s1 s'" "disk_good D media s'"
    "recs_in_part s'" "\<forall>f. apply_recs (jl s') f = put_writes ws (apply_recs (jl s1) f)"
    using Cons.IH [OF _ s1(2) jl_logged_log_in_part [OF lg Cons.prems(3)] rp] lg s1(4,5) Cons.prems(5,6,7)
    by (auto simp: jl_logged_def ip w)
  then show ?case
    using s1(1) jl_logged_trans [OF lg s'(2)] by (auto simp: w ap seq_def)
qed

lemma replay_recs_total:
  assumes "disk_good D media s" "\<forall>r \<in> set rs. in_part s (rec_byte_off r) (unat (rec_len r)) \<and> rec_fits (jl s) r"
  shows "\<exists>s'. for_each (replay_rec D) rs s = (Some (), s') \<and> disk_good D media s' \<and> same_rest s s'
    \<and> e4_bytes media s' = fold (\<lambda>r. put_bytes (rec_byte_off r) (rec_src (jl s) r)) rs (e4_bytes media s)"
  using assms
proof (induction rs arbitrary: s)
  case (Cons r rs)
  have len: "length (rec_src (jl s) r) = unat (rec_len r)" using Cons.prems(2) by (simp add: length_rec_src)
  then have "in_part s (rec_byte_off r) (length (rec_src (jl s) r))" "length (rec_src (jl s) r) < 2 ^ 64"
    using Cons.prems(2) unat_u32 [of "rec_len r"] by (auto simp del: unat_u32)
  then obtain s1 where w: "ext4_raw_write_bytes D (rec_byte_off r) (rec_src (jl s) r) s = (Some (), s1)"
    "disk_good D media s1" "same_rest s s1"
    "e4_bytes media s1 = put_bytes (rec_byte_off r) (rec_src (jl s) r) (e4_bytes media s)"
    using write_total [OF Cons.prems(1)] by blast
  have j1: "jl s1 = jl s" using w(3) by (simp add: same_rest_def)
  obtain s' where "for_each (replay_rec D) rs s1 = (Some (), s')" "disk_good D media s'" "same_rest s1 s'"
    "e4_bytes media s' = fold (\<lambda>r. put_bytes (rec_byte_off r) (rec_src (jl s) r)) rs (e4_bytes media s1)"
    using Cons.IH [OF w(2)] Cons.prems(2) by (auto simp: in_part_rest [OF w(3)] j1)
  moreover have "replay_rec D r s = (Some (), s1)" using w(1) by (simp add: replay_rec_def)
  ultimately show ?case using w(4) same_rest_trans [OF w(3)] by (auto simp: seq_def)
qed (simp add: ret_def)

lemma commit_total:
  assumes tx: "jl_tx D media s" and good: "disk_good D media s" and part: "log_in_part s" and recs: "recs_in_part s"
  obtains s' where "ext4_tx_commit D s = (Some (), s')" "disk_good D media s'" "redo_idle s'"
    "region (jl s') = region (jl s)" "last_errno s' = 0" "header_is (jl s) EXT4_JLOG_STATE_CLEAN 0 0 (medium media s')"
    "\<And>k. \<not> region (jl s) k \<Longrightarrow> medium media s' k = apply_recs (jl s) (e4_bytes media s) k"
proof -
  let ?j = "jl s"
  define a where "a = set_jl_active False s"
  have ja: "jl_recs (jl a) = jl_recs ?j" "jl_data (jl a) = jl_data ?j" "jl_seq (jl a) = jl_seq ?j"
    "region (jl a) = region ?j" "fs a = fs s" "jb a = jb s" "e4_bytes media a = e4_bytes media s"
    "\<not> jl_tx_active (jl a)" "\<not> jl_replaying (jl a)" "jl_base_off (jl a) = jl_base_off ?j" "log_in_part a"
    "rec_src (jl a) = rec_src ?j" "disk_good D media a" "\<And>r. rec_fits (jl a) r = rec_fits ?j r"
    using tx part good
    by (simp_all add: a_def set_jl_active_def region_def jl_tx_def log_in_part_def base_ok_def rec_src_def fun_eq_iff rec_fits_def)
  obtain s1 where h: "ext4_journal_write_header D EXT4_JLOG_STATE_COMMIT (of_nat (length (jl_recs ?j)))
      (of_nat (length (jl_data ?j))) (jl_seq ?j) a = (Some (), s1)" "disk_good D media s1" "same_rest a s1" "same_home media a s1"
    using header_total [OF ja(13,11)] unfolding ja(3) by metis
  obtain s2 where f: "e4_flush D s1 = (Some (), s2)" "disk_good D media s2" "same_rest s1 s2"
    "e4_bytes media s2 = e4_bytes media s1" using flush_total [OF h(2)] by blast
  define b where "b = set_replaying True s2"
  have r2: "same_rest a s2" using h(3) f(3) by (rule same_rest_trans)
  have jb': "jl_recs (jl b) = jl_recs ?j" "rec_src (jl b) = rec_src ?j" "disk_good D media b"
    "e4_bytes media b = e4_bytes media s1" "\<And>r. rec_fits (jl b) r = rec_fits ?j r" "fs b = fs s"
    using r2 ja f(2,4) by (simp_all add: b_def set_replaying_def same_rest_def rec_src_def fun_eq_iff rec_fits_def)
  have "\<forall>r \<in> set (jl_recs ?j). in_part b (rec_byte_off r) (unat (rec_len r)) \<and> rec_fits (jl b) r"
    using recs tx by (simp add: recs_in_part_def in_part_def jb' jl_tx_def jl_ok_def)
  then obtain s3 where l: "for_each (replay_rec D) (jl_recs ?j) b = (Some (), s3)" "disk_good D media s3" "same_rest b s3"
    "e4_bytes media s3 = apply_recs ?j (e4_bytes media s1)"
    using replay_recs_total [OF jb'(3)] by (auto simp: jb' apply_recs_def)
  define c where "c = set_replaying False s3"
  have jc: "disk_good D media c" "e4_bytes media c = apply_recs ?j (e4_bytes media s1)" "jl c = jl a" "fs c = fs s" "jb c = jb s"
    using l r2 ja by (simp_all add: c_def b_def set_replaying_def same_rest_def)
  obtain s4 where f4: "e4_flush D c = (Some (), s4)" "disk_good D media s4" "same_rest c s4"
    "e4_bytes media s4 = e4_bytes media c" using flush_total [OF jc(1)] by blast
  have l4: "log_in_part s4" using f4(3) jc ja(11) by (simp add: log_in_part_def same_rest_def in_part_def ja)
  obtain s5 where cl: "ext4_journal_clear D s4 = (Some (), s5)" "disk_good D media s5" "same_rest s4 s5"
    "same_home media s4 s5" "medium media s5 = e4_bytes media s5" "header_is (jl s4) EXT4_JLOG_STATE_CLEAN 0 0 (medium media s5)"
    using clear_total [OF f4(2) l4] by blast
  define s' where "s' = set_errno 0 (upd_jl (\<lambda>j. j\<lparr>jl_recs := [], jl_data := []\<rparr>) s5)"
  have j4: "jl s4 = jl a" "jl s5 = jl a" "fs s5 = fs s" "jb s5 = jb s"
    using f4(3) jc cl(3) by (simp_all add: same_rest_def)
  show thesis
  proof (rule that [of s'])
    show "ext4_tx_commit D s = (Some (), s')"
      using tx h(1) f(1) l(1) f4(1) cl(1)
      by (simp add: ext4_tx_commit_def jl_tx_def Let_def on_fail_def seq_def modify_def a_def [symmetric]
          b_def [symmetric] c_def [symmetric] s'_def)
    show "disk_good D media s'" "last_errno s' = 0" using cl(2) by (simp_all add: s'_def) (simp add: set_errno_def)
    show "redo_idle s'" using j4 ja tx by (simp add: s'_def redo_idle_def jl_tx_def log_in_part_def in_part_def base_ok_def)
    show "region (jl s') = region ?j" using j4 ja by (simp add: s'_def region_def)
    show "header_is ?j EXT4_JLOG_STATE_CLEAN 0 0 (medium media s')" using cl(6) j4 ja by (simp add: s'_def header_is_def)
    fix k assume k: "\<not> region ?j k"
    then have "e4_bytes media s1 k = e4_bytes media s k" "e4_bytes media s5 k = e4_bytes media s4 k"
      using h(4) cl(4) ja j4 by (simp_all add: same_home_def)
    moreover have "apply_recs ?j (e4_bytes media s1) k = apply_recs ?j (e4_bytes media s) k"
      using tx calculation(1) by (intro apply_recs_decided) (simp_all add: jl_tx_def)
    ultimately show "medium media s' k = apply_recs ?j (e4_bytes media s) k"
      using cl(5) f4(4) jc(2) by (simp add: s'_def)
  qed
qed

section \<open>Recovery\<close>

text \<open>A log found on the disk after a crash: its records are not empty and lie in the partition outside
  the log's region.\<close>

definition found_log :: "'d ext4 \<Rightarrow> ext4_journal \<Rightarrow> bool" where
  "found_log s j \<longleftrightarrow> jl_base_off j = jl_base_off (jl s) \<and> jl_ok j \<and> jl_recs j \<noteq> []
     \<and> (\<forall>r \<in> set (jl_recs j). rec_len r \<noteq> 0 \<and> in_part s (rec_byte_off r) (unat (rec_len r))
          \<and> (\<forall>k. in_span (rec_byte_off r) (unat (rec_len r)) k \<longrightarrow> \<not> region j k))"

lemma get_bytes_sub:
  assumes "a + b \<le> n"
  shows "take b (drop a (get_bytes f p n)) = get_bytes f (p + of_nat a) b"
  using assms by (intro nth_equalityI) (auto simp: get_bytes_nth add.assoc)

lemma log_data:
  assumes "log_on_disk j f" "rec_fits j r"
  shows "get_bytes f (data_pos j (rec_data_off r)) (unat (rec_len r)) = rec_src j r"
proof -
  have "data_pos j (rec_data_off r) = data_pos j 0 + of_nat (unat (rec_data_off r))"
    by (simp add: data_pos_def of_nat_unat_32_64)
  then have "get_bytes f (data_pos j (rec_data_off r)) (unat (rec_len r))
      = take (unat (rec_len r)) (drop (unat (rec_data_off r)) (get_bytes f (data_pos j 0) (length (jl_data j))))"
    using get_bytes_sub [of "unat (rec_data_off r)" "unat (rec_len r)" "length (jl_data j)" f "data_pos j 0"] assms(2)
    by (simp add: rec_fits_def)
  then show ?thesis using assms(1) by (simp add: log_on_disk_def rec_src_def)
qed

lemma log_on_disk_cong:
  assumes "base_ok j" "jl_ok j" "\<And>k. region j k \<Longrightarrow> g k = f k" "log_on_disk j f"
  shows "log_on_disk j g"
proof -
  note p = unat_rec_pos [OF assms(1)] and q = unat_data_pos [OF assms(1), of 0]
  have b: "unat (jl_base_off j) + 262144 \<le> 2 ^ 64" using assms(1) by (simp add: base_ok_def)
  have "get_bytes g (rec_pos j i) 16 = get_bytes f (rec_pos j i) 16" if "i < length (jl_recs j)" for i
    using that assms(2) b
    by (intro get_bytes_cong assms(3)) (simp add: region_def in_span_def p jl_ok_def unat_add_small)
  moreover have "get_bytes g (data_pos j 0) (length (jl_data j)) = get_bytes f (data_pos j 0) (length (jl_data j))"
    using assms(2) b by (intro get_bytes_cong assms(3)) (simp add: region_def in_span_def q jl_ok_def unat_add_small)
  ultimately show ?thesis using assms(4) by (simp add: log_on_disk_def)
qed

lemma region_base: "jl_base_off j = jl_base_off j' \<Longrightarrow> region j = region j' \<and> base_ok j = base_ok j'"
  by (simp add: region_def base_ok_def)

lemma pos_base: "jl_base_off j = jl_base_off j' \<Longrightarrow> rec_pos j = rec_pos j' \<and> data_pos j = data_pos j'"
  by (simp add: rec_pos_def data_pos_def fun_eq_iff)

lemma replay_disk_rec_total:
  assumes good: "disk_good D media s" and part: "log_in_part s" and fnd: "found_log s j"
    and log: "log_on_disk j (e4_bytes media s)" and i: "i < length (jl_recs j)"
  obtains s' where "replay_disk_rec D (of_nat (length (jl_data j))) i s = (Some (), s')" "disk_good D media s'"
    "same_rest s s'" "e4_bytes media s' = put_bytes (rec_byte_off (jl_recs j ! i)) (rec_src j (jl_recs j ! i)) (e4_bytes media s)"
    "log_on_disk j (e4_bytes media s')"
proof -
  define r where "r = jl_recs j ! i"
  have base: "jl_base_off j = jl_base_off (jl s)" "jl_ok j" "base_ok j" "in_part s (jl_base_off j) 262144"
    using fnd part region_base [of j "jl s"] by (auto simp: found_log_def log_in_part_def)
  have r: "rec_len r \<noteq> 0" "in_part s (rec_byte_off r) (unat (rec_len r))" "rec_fits j r"
    "\<And>k. in_span (rec_byte_off r) (unat (rec_len r)) k \<Longrightarrow> \<not> region j k"
    using fnd i by (auto simp: r_def found_log_def jl_ok_def)
  have n: "length (jl_recs j) \<le> 512" "length (jl_data j) \<le> 196608" using base(2) by (auto simp: jl_ok_def)
  have u: "unat (of_nat (length (jl_data j)) :: u32) = length (jl_data j)" using n by (intro unat_of_nat_small) simp
  have d: "unat (rec_data_off r) + unat (rec_len r) \<le> length (jl_data j)" using r(3) by (simp add: rec_fits_def)
  have "in_part s (rec_pos j i) 16"
    by (rule in_part_less [OF base(4)]) (use i n in \<open>simp_all add: unat_rec_pos [OF base(3)]\<close>)
  then obtain s1 where r1: "ext4_raw_read_bytes D (rec_pos j i) 16 s = (Some (get_bytes (e4_bytes media s) (rec_pos j i) 16), s1)"
    "disk_good D media s1" "same_rest s s1" "e4_bytes media s1 = e4_bytes media s"
    using read_total [OF good] by blast
  have rb: "rec_of (get_bytes (e4_bytes media s) (rec_pos j i) 16) = r" using log i by (simp add: log_on_disk_def r_def)
  have "in_part s1 (data_pos j (rec_data_off r)) (unat (rec_len r))"
    unfolding in_part_rest [OF r1(3)]
    by (rule in_part_less [OF base(4)]) (use d n in \<open>simp_all add: unat_data_pos [OF base(3)]\<close>)
  then obtain s2 where r2: "ext4_raw_read_bytes D (data_pos j (rec_data_off r)) (unat (rec_len r)) s1 = (Some (rec_src j r), s2)"
    "disk_good D media s2" "same_rest s1 s2" "e4_bytes media s2 = e4_bytes media s"
    using read_total [OF r1(2)] log_data [OF log r(3)] r1(4) by metis
  have len: "length (rec_src j r) = unat (rec_len r)" using r(3) by (rule length_rec_src)
  have rest: "same_rest s s2" using r1(3) r2(3) by (rule same_rest_trans)
  have "in_part s2 (rec_byte_off r) (length (rec_src j r))" "length (rec_src j r) < 2 ^ 64"
    using r(2) d n by (simp_all add: in_part_rest [OF rest] len)
  then obtain s' where w: "ext4_raw_write_bytes D (rec_byte_off r) (rec_src j r) s2 = (Some (), s')" "disk_good D media s'"
    "same_rest s2 s'" "e4_bytes media s' = put_bytes (rec_byte_off r) (rec_src j r) (e4_bytes media s)"
    using write_total [OF r2(2)] r2(4) by metis
  show thesis
  proof (rule that [OF _ w(2)])
    show "replay_disk_rec D (of_nat (length (jl_data j))) i s = (Some (), s')"
      using r1(1) r2(1) w(1) r(1) d u rb pos_base [OF base(1)]
      by (simp add: replay_disk_rec_def op_simps seq_def Let_def word_less_nat_alt)
    show "same_rest s s'" using rest w(3) by (rule same_rest_trans)
    show "e4_bytes media s' = put_bytes (rec_byte_off (jl_recs j ! i)) (rec_src j (jl_recs j ! i)) (e4_bytes media s)"
      using w(4) by (simp add: r_def)
    show "log_on_disk j (e4_bytes media s')"
    proof (rule log_on_disk_cong [OF base(3,2) _ log])
      fix k assume "region j k"
      then show "e4_bytes media s' k = e4_bytes media s k"
        using r(3,4) unfolding w(4) by (subst put_bytes_span) (auto simp: len rec_fits_def)
    qed
  qed
qed

lemma replay_disk_recs_total:
  assumes "disk_good D media s" "log_in_part s" "found_log s j" "log_on_disk j (e4_bytes media s)"
    "set is \<subseteq> {..<length (jl_recs j)}"
  shows "\<exists>s'. for_each (replay_disk_rec D (of_nat (length (jl_data j)))) is s = (Some (), s') \<and> disk_good D media s'
    \<and> same_rest s s' \<and> e4_bytes media s' = fold (\<lambda>i. put_bytes (rec_byte_off (jl_recs j ! i)) (rec_src j (jl_recs j ! i))) is (e4_bytes media s)"
  using assms
proof (induction "is" arbitrary: s)
  case (Cons i "is")
  obtain s1 where s1: "replay_disk_rec D (of_nat (length (jl_data j))) i s = (Some (), s1)" "disk_good D media s1"
    "same_rest s s1" "e4_bytes media s1 = put_bytes (rec_byte_off (jl_recs j ! i)) (rec_src j (jl_recs j ! i)) (e4_bytes media s)"
    "log_on_disk j (e4_bytes media s1)"
    using replay_disk_rec_total [OF Cons.prems(1-4), of i] Cons.prems(5) by auto
  have "log_in_part s1" "found_log s1 j"
    using s1(3) Cons.prems(2,3) by (simp_all add: log_in_part_def found_log_def in_part_rest [OF s1(3)]) (simp_all add: same_rest_def)
  then obtain s' where "for_each (replay_disk_rec D (of_nat (length (jl_data j)))) is s1 = (Some (), s')" "disk_good D media s'"
    "same_rest s1 s'" "e4_bytes media s' = fold (\<lambda>i. put_bytes (rec_byte_off (jl_recs j ! i)) (rec_src j (jl_recs j ! i))) is (e4_bytes media s1)"
    using Cons.IH [OF s1(2) _ _ s1(5)] Cons.prems(5) by auto
  then show ?case using s1 same_rest_trans [OF s1(3)] by (auto simp: seq_def)
qed (simp add: ret_def)

lemma fold_nth_upt: "fold (\<lambda>i. f (xs ! i)) [0..<length xs] = fold f xs"
proof -
  have "fold f (map (nth xs) [0..<length xs]) = fold (f \<circ> nth xs) [0..<length xs]" by (rule fold_map)
  then show ?thesis by (simp add: map_nth comp_def)
qed

lemma replay_log_total:
  assumes "disk_good D media s" "log_in_part s" "found_log s j" "log_on_disk j (e4_bytes media s)"
  obtains s' where
    "for_each (replay_disk_rec D (of_nat (length (jl_data j)))) [0..<length (jl_recs j)] s = (Some (), s')"
    "disk_good D media s'" "same_rest s s'" "e4_bytes media s' = apply_recs j (e4_bytes media s)"
  using replay_disk_recs_total [OF assms, of "[0..<length (jl_recs j)]"]
    fold_nth_upt [of "\<lambda>r. put_bytes (rec_byte_off r) (rec_src j r)" "jl_recs j"]
  by (auto simp: apply_recs_def lessThan_atLeast0)

section \<open>Failing and aborted transactions\<close>

lemma tx_writes_home:
  assumes "jl_tx D media s" "\<forall>(off, buf) \<in> set ws. unat off + length buf < 2 ^ 64"
  shows "jl_logged D media s (snd (tx_writes D ws s))"
  using assms
proof (induction ws arbitrary: s)
  case Nil
  then show ?case by (simp add: ret_def jl_logged_def same_home_def)
next
  case (Cons w ws)
  obtain off buf where w: "w = (off, buf)" by fastforce
  obtain r s1 where s1: "ext4_disk_write_bytes D off buf s = (r, s1)" by fastforce
  have lg: "jl_logged D media s s1" using jl_write_spec [OF Cons.prems(1) s1] Cons.prems(2) by (auto simp: w)
  show ?case
  proof (cases r)
    case None
    then show ?thesis using lg s1 by (simp add: w seq_def)
  next
    case (Some x)
    have "jl_logged D media s1 (snd (tx_writes D ws s1))"
      using Cons.IH [of s1] lg Cons.prems(2) by (simp add: jl_logged_def)
    then show ?thesis using lg s1 Some jl_logged_trans by (fastforce simp: w seq_def)
  qed
qed

lemma header_home:
  assumes "disk_ok D media s" "base_ok (jl s)" "ext4_journal_write_header D st n m q s = (r, s')"
  shows "disk_ok D media s' \<and> same_rest s s' \<and> same_home media s s'"
proof (cases "\<not> jl_enabled (jl s) \<or> jl_area_bytes (jl s) < EXT4_JLOG_REGION_BYTES")
  case True
  then show ?thesis using assms by (auto simp: ext4_journal_write_header_def same_home_def split: if_splits)
next
  case False
  define h where "h = hdr_bytes \<lparr>h_magic = EXT4_JLOG_MAGIC, h_state = st, h_seq = q, h_rec_count = n, h_data_bytes = m\<rparr>"
  have w: "ext4_raw_write_bytes D (jl_base_off (jl s)) h s = (r, s')" "length h = 64"
    using False assms(3) by (auto simp: ext4_journal_write_header_def h_def)
  obtain k where k: "k \<le> length h" "e4_bytes media s' = put_bytes (jl_base_off (jl s)) (take k h) (e4_bytes media s)"
    using raw_write_spec(4) [OF assms(1) w(1)] w(2) by auto
  have "same_home media s s'"
    unfolding same_home_def k(2) using assms(2) k(1) w(2) by (auto intro!: put_in_region)
  then show ?thesis using raw_write_spec(1,2) [OF assms(1) w(1)] w(2) by auto
qed

lemma header_flush_home:
  assumes "disk_ok D media s" "base_ok (jl s)"
    "seq (ext4_journal_write_header D st n m q) (\<lambda>_. e4_flush D) s = (r, s')"
  shows "disk_ok D media s' \<and> same_rest s s' \<and> same_home media s s'"
  using assms(3)
proof (cases rule: seq_elim)
  case (fails s1)
  then show ?thesis using header_home [OF assms(1,2)] by auto
next
  case (goes x s1)
  have h: "disk_ok D media s1" "same_rest s s1" "same_home media s s1" using header_home [OF assms(1,2) goes(1)] by auto
  have "disk_ok D media s'" "same_rest s1 s'" "e4_bytes media s' = e4_bytes media s1"
    using flush_spec [OF h(1) goes(2)] by auto
  then show ?thesis using h same_rest_trans by (fastforce simp: same_home_def)
qed

lemma begin_home:
  assumes ok: "disk_ok D media s" and idle: "redo_idle s" and run: "ext4_tx_begin D s = (r, s')"
  shows "same_home media s s' \<and> region (jl s') = region (jl s) \<and> (r = None \<longrightarrow> \<not> jl_tx_active (jl s'))
    \<and> (r = Some () \<longrightarrow> jl_tx D media s')"
proof -
  define s1 where "s1 = upd_jl (\<lambda>j. j\<lparr>jl_tx_active := True, jl_recs := [], jl_data := [], jl_seq := jl_seq j + 1\<rparr>) (set_errno 0 s)"
  obtain q s2 where h: "seq (ext4_journal_write_header D EXT4_JLOG_STATE_PREP 0 0 (jl_seq (jl s1))) (\<lambda>_. e4_flush D) s1 = (q, s2)"
    by fastforce
  have o: "disk_ok D media s1" "base_ok (jl s1)" "region (jl s1) = region (jl s)" "e4_bytes media s1 = e4_bytes media s"
    using ok idle by (simp_all add: s1_def redo_idle_def log_in_part_def base_ok_def region_def)
  have s2: "disk_ok D media s2" "same_rest s1 s2" "same_home media s1 s2" using header_flush_home [OF o(1,2) h] by auto
  have s': "r = q" "s' = (if q = None then set_errno 5 (set_jl_active False s2) else s2)"
    using run idle h by (auto simp: ext4_tx_begin_def redo_idle_def log_in_part_def Let_def on_fail_def s1_def split: option.splits)
  have "jl s2 = jl s1" "jb s2 = jb s" using s2(2) by (simp_all add: same_rest_def s1_def)
  moreover have "same_home media s s'" using s2(3) o(3,4) by (simp add: same_home_def s'(2) set_jl_active_def)
  ultimately show ?thesis
    using s' s2(1) o idle
    by (auto simp: set_jl_active_def region_def jl_tx_def jl_ok_def log_on_disk_def)
      (simp_all add: s1_def redo_idle_def log_in_part_def base_ok_def)
qed

lemma abort_home:
  assumes tx: "jl_tx D media s"
  shows "same_home media s (ext4_tx_abort D s)" "\<not> jl_tx_active (jl (ext4_tx_abort D s))"
proof -
  obtain r s1 where c: "ext4_journal_clear D s = (r, s1)" by fastforce
  then have "seq (ext4_journal_write_header D EXT4_JLOG_STATE_CLEAN 0 0 (jl_seq (jl s))) (\<lambda>_. e4_flush D) s = (r, s1)"
    using tx by (simp add: ext4_journal_clear_def jl_tx_def)
  then have "same_home media s s1" using tx header_flush_home by (fastforce simp: jl_tx_def)
  then show "same_home media s (ext4_tx_abort D s)" "\<not> jl_tx_active (jl (ext4_tx_abort D s))"
    using tx c by (simp_all add: ext4_tx_abort_def jl_tx_def same_home_def)
qed

section \<open>Properties of the redo log\<close>

definition redo_example :: "(u64 \<Rightarrow> sector) \<Rightarrow> (u64 \<Rightarrow> sector) ext4" where
  "redo_example d = upd_jl (\<lambda>j. j\<lparr>jl_enabled := True, jl_base_off := 262144, jl_area_bytes := 262144\<rparr>) (example_ext4 1024 d)"

lemma redo_example:
  assumes "\<And>l. length (d l) = 512"
  shows "disk_good (mem_disk 1024) (\<lambda>d. d) (redo_example d)" "redo_idle (redo_example d)" "log_in_part (redo_example d)"
    "e4_bytes (\<lambda>d. d) (redo_example d) = byte_at d" "in_part (redo_example d) off n = (unat off + n \<le> 524288)"
    "region (jl (redo_example d)) k = in_span 262144 262144 k"
  using example_good [of d 1024] assms
  by (simp_all add: redo_example_def redo_idle_def log_in_part_def base_ok_def in_part_def example_fs_def
      jbd2_zero_def journal_zero_def example_bytes region_def)

text \<open>
  C10. A transaction of the redo log takes effect as a whole when it commits: on a partition with an
  idle log, whose device completes its transfers, \<^verbatim>\<open>ext4_tx_begin\<close>, any writes inside the partition
  that fit the log (512 records, 196608 bytes) and \<^verbatim>\<open>ext4_tx_commit\<close> all succeed; before the commit not one
  byte of the partition outside the log has changed, and after it the medium itself holds the result
  of all the writes in order, the log is marked clean on the medium and no transaction is open.
\<close>

theorem redo_tx_commits:
  assumes "disk_good D media s" "redo_idle s" "length ws \<le> 512" "sum_list (map (length \<circ> snd) ws) \<le> 196608"
    "\<forall>(off, buf) \<in> set ws. in_part s off (length buf) \<and> unat off + length buf < 2 ^ 64"
  shows "\<exists>s1 s2 s3. ext4_tx_begin D s = (Some (), s1) \<and> tx_writes D ws s1 = (Some (), s2)
    \<and> (\<forall>k. \<not> region (jl s) k \<longrightarrow> e4_bytes media s2 k = e4_bytes media s k)
    \<and> ext4_tx_commit D s2 = (Some (), s3) \<and> redo_idle s3 \<and> last_errno s3 = 0
    \<and> (\<forall>k. \<not> region (jl s) k \<longrightarrow> medium media s3 k = put_writes ws (e4_bytes media s) k)
    \<and> header_is (jl s2) EXT4_JLOG_STATE_CLEAN 0 0 (medium media s3)"
proof -
  obtain s1 where b: "ext4_tx_begin D s = (Some (), s1)" "jl_tx D media s1" "disk_good D media s1" "log_in_part s1"
    "jl_recs (jl s1) = []" "jl_data (jl s1) = []" "fs s1 = fs s" "region (jl s1) = region (jl s)" "same_home media s s1"
    using begin_total [OF assms(1,2)] by blast
  have ip: "in_part s1 = in_part s" using b(7) by (simp add: in_part_def fun_eq_iff)
  have "recs_in_part s1" by (simp add: recs_in_part_def b(5))
  then obtain s2 where w: "tx_writes D ws s1 = (Some (), s2)" "jl_logged D media s1 s2" "disk_good D media s2" "recs_in_part s2"
    "\<And>f. apply_recs (jl s2) f = put_writes ws (apply_recs (jl s1) f)"
    using tx_writes_total [OF b(2,3,4), of ws] assms(3-5) by (auto simp: ip b(5,6))
  have tx: "jl_tx D media s2" and reg: "region (jl s2) = region (jl s)"
    using w(2) b(8) by (simp_all add: jl_logged_def)
  obtain s3 where c: "ext4_tx_commit D s2 = (Some (), s3)" "redo_idle s3" "last_errno s3 = 0"
    "header_is (jl s2) EXT4_JLOG_STATE_CLEAN 0 0 (medium media s3)"
    "\<And>k. \<not> region (jl s2) k \<Longrightarrow> medium media s3 k = apply_recs (jl s2) (e4_bytes media s2) k"
    using commit_total [OF tx w(3) jl_logged_log_in_part [OF w(2) b(4)] w(4)] by metis
  have home: "e4_bytes media s2 k = e4_bytes media s k" if "\<not> region (jl s) k" for k
    using that w(2) b(8,9) by (simp add: jl_logged_def same_home_def)
  have "medium media s3 k = put_writes ws (e4_bytes media s) k" if k: "\<not> region (jl s) k" for k
  proof -
    have "medium media s3 k = apply_recs (jl s2) (e4_bytes media s) k"
      using c(5) k reg tx home by (simp add: apply_recs_decided [of _ "e4_bytes media s2" _ "e4_bytes media s"] jl_tx_def)
    then show ?thesis using w(5) by (simp add: apply_recs_def b(5))
  qed
  then show ?thesis using b(1) w(1) c home by blast
qed

theorem redo_tx_commits_witness:
  "\<exists>s1 s2 s3. ext4_tx_begin (mem_disk 1024) (redo_example (\<lambda>_. replicate 512 0)) = (Some (), s1)
    \<and> tx_writes (mem_disk 1024) [(1000, [1, 2, 3]), (1001, [9])] s1 = (Some (), s2)
    \<and> ext4_tx_commit (mem_disk 1024) s2 = (Some (), s3)
    \<and> medium (\<lambda>d. d) s3 1001 = 9 \<and> medium (\<lambda>d. d) s3 1002 = 3"
proof -
  note e = redo_example [of "\<lambda>_. replicate 512 0", simplified]
  have b: "\<forall>(off, buf) \<in> set [(1000, [1, 2, 3]), (1001, [9])].
      in_part (redo_example (\<lambda>_. replicate 512 0)) off (length buf) \<and> unat off + length (buf :: u8 list) < 2 ^ 64"
    by (simp add: e)
  have k: "\<not> region (jl (redo_example (\<lambda>_. replicate 512 0))) 1001" "\<not> region (jl (redo_example (\<lambda>_. replicate 512 0))) 1002"
    by (simp_all add: e in_span_def)
  have v: "put_writes [(1000, [1, 2, 3]), (1001, [9])] f 1001 = 9" "put_writes [(1000, [1, 2, 3]), (1001, [9])] f 1002 = 3" for f
    by (simp_all add: put_bytes_def)
  show ?thesis
    using redo_tx_commits [OF e(1,2) _ _ b] k v by (auto simp del: fold_simps)
qed



text \<open>
  C12. Recovery completes a committed transaction: if the log on the disk is marked committed, then,
  whatever a crash left in the bytes its records cover, \<^verbatim>\<open>ext4_journal_replay_if_needed\<close> at the next mount
  succeeds on a device that completes its transfers, and the medium then holds, everywhere outside
  the log, exactly what all the records written in order make of the contents \<open>f\<close> before the
  transaction; the log is marked clean.
\<close>

theorem redo_recovery_completes:
  assumes "disk_good D media s" "log_in_part s" "found_log s j" "jl_seq j = seqno" "jl_data j \<noteq> []"
    and "header_is j EXT4_JLOG_STATE_COMMIT (length (jl_recs j)) (length (jl_data j)) (e4_bytes media s)"
    and "log_on_disk j (e4_bytes media s)"
    and "\<forall>k. \<not> region j k \<and> \<not> covered j k \<longrightarrow> e4_bytes media s k = f k"
  shows "\<exists>s'. ext4_journal_replay_if_needed D s = (Some (), s')
    \<and> (\<forall>k. \<not> region j k \<longrightarrow> medium media s' k = apply_recs j f k)
    \<and> header_is (jl s) EXT4_JLOG_STATE_CLEAN 0 0 (medium media s')"
proof -
  have base: "jl_base_off j = jl_base_off (jl s)" "jl_ok j" "region j = region (jl s)"
    using assms(3) region_base [of j "jl s"] by (auto simp: found_log_def)
  have n: "length (jl_recs j) \<le> 512" "length (jl_data j) \<le> 196608" using base(2) by (auto simp: jl_ok_def)
  have u: "unat (of_nat (length (jl_recs j)) :: u32) = length (jl_recs j)"
    "unat (of_nat (length (jl_data j)) :: u32) = length (jl_data j)"
    using n by (auto intro!: unat_of_nat_small)
  then have nz: "of_nat (length (jl_recs j)) \<noteq> (0 :: u32)" "of_nat (length (jl_data j)) \<noteq> (0 :: u32)"
    using assms(3,5) by (auto simp: found_log_def simp flip: unat_eq_0)
  have "in_part s (jl_base_off (jl s)) 64" using assms(2) by (simp add: log_in_part_def in_part_def)
  then obtain s1 where r: "ext4_raw_read_bytes D (jl_base_off (jl s)) 64 s = (Some (get_bytes (e4_bytes media s) (jl_base_off (jl s)) 64), s1)"
    "disk_good D media s1" "same_rest s s1" "e4_bytes media s1 = e4_bytes media s"
    using read_total [OF assms(1)] by blast
  have hd: "hdr_of (get_bytes (e4_bytes media s) (jl_base_off (jl s)) 64) = \<lparr>h_magic = EXT4_JLOG_MAGIC,
      h_state = EXT4_JLOG_STATE_COMMIT, h_seq = seqno, h_rec_count = of_nat (length (jl_recs j)), h_data_bytes = of_nat (length (jl_data j))\<rparr>"
    using assms(4,6) base(1) by (simp add: header_is_def)
  define a where "a = set_replaying True s1"
  have a: "disk_good D media a" "log_in_part a" "found_log a j" "e4_bytes media a = e4_bytes media s"
    using r assms(2,3) by (simp_all add: a_def set_replaying_def log_in_part_def found_log_def same_rest_def in_part_def base_ok_def)
  obtain s2 where l: "for_each (replay_disk_rec D (of_nat (length (jl_data j)))) [0..<length (jl_recs j)] a = (Some (), s2)"
    "disk_good D media s2" "same_rest a s2" "e4_bytes media s2 = apply_recs j (e4_bytes media s)"
    using replay_log_total [OF a(1,2,3)] assms(7) a(4) by metis
  define c where "c = set_replaying False s2"
  have c: "disk_good D media c" "e4_bytes media c = apply_recs j (e4_bytes media s)" using l by (simp_all add: c_def set_replaying_def)
  obtain s3 where f3: "e4_flush D c = (Some (), s3)" "disk_good D media s3" "same_rest c s3" "e4_bytes media s3 = e4_bytes media c"
    using flush_total [OF c(1)] by blast
  have j3: "jl_base_off (jl s3) = jl_base_off (jl s)" "jl_seq (jl s3) = jl_seq (jl s)" "log_in_part s3"
    using f3(3) l(3) r(3) assms(2)
    by (simp_all add: same_rest_def c_def a_def set_replaying_def log_in_part_def base_ok_def in_part_def)
  obtain s' where cl: "ext4_journal_clear D s3 = (Some (), s')" "same_home media s3 s'" "medium media s' = e4_bytes media s'"
    "header_is (jl s3) EXT4_JLOG_STATE_CLEAN 0 0 (medium media s')"
    using clear_total [OF f3(2) j3(3)] by blast
  have "ext4_journal_replay_if_needed D s = (Some (), s')"
    using assms(2) r(1) hd nz u n l(1) f3(1) cl(1)
    by (simp add: ext4_journal_replay_if_needed_def log_in_part_def seq_def modify_def on_fail_def Let_def
        a_def [symmetric] c_def [symmetric])
  moreover have "medium media s' k = apply_recs j f k" if k: "\<not> region j k" for k
  proof -
    have "medium media s' k = apply_recs j (e4_bytes media s) k"
      using k cl(2,3) f3(4) c(2) base(3) region_base [OF j3(1)] by (simp add: same_home_def)
    then show ?thesis using k assms(8) apply_recs_decided [OF base(2), of "e4_bytes media s" k f] by auto
  qed
  ultimately show ?thesis using cl(4) j3 by (auto simp: header_is_def)
qed

definition crash_log :: ext4_journal where \<comment> \<open>a log of one record: bytes 5, 6 for offset 1000\<close>
  "crash_log = log_append \<lparr>rec_byte_off = 1000, rec_len = 2, rec_data_off = 0\<rparr> [5, 6] (journal_zero\<lparr>jl_base_off := 262144\<rparr>)"

definition crash_bytes :: "u64 \<Rightarrow> u8" where
  "crash_bytes = put_bytes 262144 (hdr_bytes \<lparr>h_magic = EXT4_JLOG_MAGIC, h_state = EXT4_JLOG_STATE_COMMIT, h_seq = 0,
       h_rec_count = 1, h_data_bytes = 2\<rparr>)
     (put_bytes (data_pos crash_log 0) [5, 6]
       (put_bytes (rec_pos crash_log 0) (rec_bytes \<lparr>rec_byte_off = 1000, rec_len = 2, rec_data_off = 0\<rparr>) (\<lambda>_. 0)))"

lemma crash_log_fields [simp]:
  "jl_recs crash_log = [\<lparr>rec_byte_off = 1000, rec_len = 2, rec_data_off = 0\<rparr>]" "jl_data crash_log = [5, 6]"
  "jl_base_off crash_log = 262144" "jl_seq crash_log = 0" "jl_ok crash_log" "base_ok crash_log"
  by (simp_all add: crash_log_def log_append_def journal_zero_def jl_ok_def rec_fits_def base_ok_def)

lemma crash_log_on_disk: "log_on_disk crash_log crash_bytes"
proof -
  have "log_on_disk crash_log (put_bytes (data_pos crash_log 0) [5, 6]
       (put_bytes (rec_pos crash_log 0) (rec_bytes \<lparr>rec_byte_off = 1000, rec_len = 2, rec_data_off = 0\<rparr>) (\<lambda>_. 0)))"
    using log_append_on_disk [of "journal_zero\<lparr>jl_base_off := 262144\<rparr>" "[5, 6]" "\<lambda>_. 0" "\<lparr>rec_byte_off = 1000, rec_len = 2, rec_data_off = 0\<rparr>"]
    by (simp add: crash_log_def base_ok_def log_on_disk_def journal_zero_def)
  then show ?thesis using log_on_disk_header [of crash_log] by (simp add: crash_bytes_def)
qed

theorem redo_recovery_completes_witness:
  "\<exists>s'. ext4_journal_replay_if_needed (mem_disk 1024) (redo_example (disk_of crash_bytes)) = (Some (), s')
    \<and> medium (\<lambda>d. d) s' 1000 = 5 \<and> medium (\<lambda>d. d) s' 1001 = 6"
proof -
  note e = redo_example [of "disk_of crash_bytes", simplified]
  let ?s = "redo_example (disk_of crash_bytes)"
  have b: "jl_base_off (jl ?s) = 262144" by (simp add: redo_example_def)
  have f: "found_log ?s crash_log" by (simp add: found_log_def b e(5) region_def in_span_def)
  have h: "header_is crash_log EXT4_JLOG_STATE_COMMIT (length (jl_recs crash_log)) (length (jl_data crash_log)) (e4_bytes (\<lambda>d. d) ?s)"
    using get_put_same [of 262144 "hdr_bytes \<lparr>h_magic = EXT4_JLOG_MAGIC, h_state = EXT4_JLOG_STATE_COMMIT, h_seq = 0,
       h_rec_count = 1, h_data_bytes = 2\<rparr>"] unfolding header_is_def e(4) by (simp add: crash_bytes_def)
  have "\<not> region crash_log 1000" "\<not> region crash_log 1001" by (simp_all add: region_def in_span_def)
  moreover have "apply_recs crash_log crash_bytes 1000 = 5" "apply_recs crash_log crash_bytes 1001 = 6"
    by (simp_all add: apply_recs_def rec_src_def put_bytes_def)
  ultimately show ?thesis
    using redo_recovery_completes [OF e(1,3) f _ _ h, of 0 crash_bytes] crash_log_on_disk by (auto simp: e(4))
qed

text \<open>
  C13. Recovery discards an unfinished transaction: if the log on the disk is not marked committed (or
  carries no magic number, or is empty), \<^verbatim>\<open>ext4_journal_replay_if_needed\<close> succeeds on a device that
  completes its transfers, the contents of the partition outside the log stay what they are and are
  on the medium, and the log is marked clean.
\<close>

theorem redo_recovery_discards:
  assumes "disk_good D media s" "log_in_part s"
    and "h = hdr_of (get_bytes (e4_bytes media s) (jl_base_off (jl s)) 64)"
    and "h_magic h \<noteq> EXT4_JLOG_MAGIC \<or> h_state h \<noteq> EXT4_JLOG_STATE_COMMIT \<or> h_rec_count h = 0 \<or> h_data_bytes h = 0"
  shows "\<exists>s'. ext4_journal_replay_if_needed D s = (Some (), s')
    \<and> (\<forall>k. \<not> region (jl s) k \<longrightarrow> medium media s' k = e4_bytes media s k)
    \<and> header_is (jl s) EXT4_JLOG_STATE_CLEAN 0 0 (medium media s')"
proof -
  have "in_part s (jl_base_off (jl s)) 64" using assms(2) by (simp add: log_in_part_def in_part_def)
  then obtain s1 where r: "ext4_raw_read_bytes D (jl_base_off (jl s)) 64 s = (Some (get_bytes (e4_bytes media s) (jl_base_off (jl s)) 64), s1)"
    "disk_good D media s1" "same_rest s s1" "e4_bytes media s1 = e4_bytes media s"
    using read_total [OF assms(1)] by blast
  have l: "log_in_part s1" "jl s1 = jl s"
    using r(3) assms(2) by (simp_all add: log_in_part_def in_part_rest [OF r(3)]) (simp_all add: same_rest_def)
  obtain s' where cl: "ext4_journal_clear D s1 = (Some (), s')" "same_home media s1 s'" "medium media s' = e4_bytes media s'"
    "header_is (jl s1) EXT4_JLOG_STATE_CLEAN 0 0 (medium media s')"
    using clear_total [OF r(2) l(1)] by blast
  have "ext4_journal_replay_if_needed D s = (Some (), s')"
    using assms(2,4) r(1) cl(1) by (auto simp: ext4_journal_replay_if_needed_def log_in_part_def seq_def Let_def assms(3))
  then show ?thesis using cl l(2) r(4) by (simp add: same_home_def)
qed

theorem redo_recovery_discards_witness:
  "\<exists>s'. ext4_journal_replay_if_needed (mem_disk 1024) (redo_example (\<lambda>_. replicate 512 7)) = (Some (), s')
    \<and> medium (\<lambda>d. d) s' 1000 = 7"
proof -
  note e = redo_example [of "\<lambda>_. replicate 512 7", simplified]
  have by7: "e4_bytes (\<lambda>d. d) (redo_example (\<lambda>_. replicate 512 7)) = (\<lambda>_. 7)" by (simp add: e(4) byte_at_def fun_eq_iff)
  have "h_magic (hdr_of (get_bytes (\<lambda>_. 7) x 64)) \<noteq> EXT4_JLOG_MAGIC" for x
    by (simp add: hdr_of_def rd_le32_def get_bytes_nth)
  moreover have "\<not> region (jl (redo_example (\<lambda>_. replicate 512 7))) 1000" by (simp add: e in_span_def)
  ultimately show ?thesis using redo_recovery_discards [OF e(1,3) refl] by (auto simp: by7)
qed

end
