(* ===== verification/Jbd2View.thy ===== *)
theory Jbd2View
  imports Ext4Good
begin

text \<open>
  What the file system sees through the JBD2 journal (\<^verbatim>\<open>src/kernel/ext4.c\<close>): a write inside a
  transaction changes the contents as seen and nothing on the disk, and a read returns what was
  written; checkpointing moves committed blocks to their places without changing what is seen.
\<close>

section \<open>Blocks over bytes\<close>

lemma dirty_span:
  assumes "dirty_ok bs d"
  shows "put_dirty bs d f k = (if in_span (d_fs_block d * ucast bs) (unat bs) k
      then d_data d ! (unat k - unat (d_fs_block d) * unat bs) else f k)"
  using assms dirty_base [OF assms]
  by (simp add: put_dirty_def put_bytes_span dirty_ok_def)

lemma div_span:
  assumes "0 < (b :: nat)"
  shows "q * b \<le> k \<and> k < q * b + b \<longleftrightarrow> k div b = q"
proof
  assume "q * b \<le> k \<and> k < q * b + b"
  then show "k div b = q" by (intro div_nat_eqI) (simp_all add: mult.commute)
next
  assume "k div b = q"
  then show "q * b \<le> k \<and> k < q * b + b"
    using div_times_less_eq_dividend [of k b] dividend_less_div_times [OF assms, of k] by (simp add: add.commute)
qed

lemma dirty_span_div:
  assumes "dirty_ok bs d" "bs \<noteq> 0"
  shows "in_span (d_fs_block d * ucast bs) (unat bs) k \<longleftrightarrow> unat k div unat bs = unat (d_fs_block d)"
  using div_span [of "unat bs" "unat (d_fs_block d)" "unat k"] assms(2)
  by (simp add: in_span_def dirty_base [OF assms(1)] unat_gt_0)

lemma puts_outside:
  "bs \<noteq> 0 \<Longrightarrow> \<forall>d \<in> set ds. dirty_ok bs d \<and> unat k div unat bs \<noteq> unat (d_fs_block d) \<Longrightarrow> fold (put_dirty bs) ds f k = f k"
  by (induction ds arbitrary: f) (simp_all add: dirty_span dirty_span_div)

lemma puts_inside:
  assumes "\<forall>d \<in> set ds. dirty_ok bs d" "distinct (map d_fs_block ds)" "d \<in> set ds" "bs \<noteq> 0"
    "unat k div unat bs = unat (d_fs_block d)"
  shows "fold (put_dirty bs) ds f k = d_data d ! (unat k mod unat bs)"
  using assms
proof (induction ds arbitrary: f)
  case (Cons e ds)
  show ?case
  proof (cases "d = e")
    case True
    then have "\<forall>x \<in> set ds. dirty_ok bs x \<and> unat k div unat bs \<noteq> unat (d_fs_block x)"
      using Cons.prems by (auto simp: word_unat_eq_iff [symmetric] dest: rev_image_eqI)
    then have "fold (put_dirty bs) (e # ds) f k = put_dirty bs e f k" using puts_outside Cons.prems(4) by simp
    then show ?thesis
      using True Cons.prems by (simp add: dirty_span dirty_span_div modulo_nat_def mult.commute)
  next
    case False
    then show ?thesis using Cons by auto
  qed
qed simp

lemma puts_patch:
  assumes ok: "\<forall>d \<in> set ds. dirty_ok bs d" and dist: "distinct (map d_fs_block ds)" and bs: "bs \<noteq> 0"
    and i: "i < length ds" and c: "ib + length c \<le> unat bs"
    and d': "d' = (ds ! i)\<lparr>d_data := put_at ib c (d_data (ds ! i))\<rparr>"
  shows "fold (put_dirty bs) (ds[i := d']) f
    = put_bytes (d_fs_block (ds ! i) * ucast bs + of_nat ib) c (fold (put_dirty bs) ds f)"
proof
  fix k
  let ?d = "ds ! i" and ?q = "unat (d_fs_block (ds ! i)) * unat bs"
  have d: "dirty_ok bs ?d" "length (d_data ?d) = unat bs" "?q + unat bs < 2 ^ 64"
    using ok i by (auto simp: dirty_ok_def)
  have ok': "\<forall>d \<in> set (ds[i := d']). dirty_ok bs d"
    using ok d c set_update_subset_insert [of ds i d'] by (auto simp: d' dirty_ok_def)
  have map': "map d_fs_block (ds[i := d']) = map d_fs_block ds" using i by (simp add: map_update d' list_update_same_conv)
  have base: "unat (d_fs_block ?d * ucast bs + of_nat ib) = ?q + ib"
    using dirty_base [OF d(1)] d(3) c by (subst unat_add_small) simp_all
  have put: "put_bytes (d_fs_block ?d * ucast bs + of_nat ib) c g k =
      (if ?q + ib \<le> unat k \<and> unat k < ?q + ib + length c then c ! (unat k - (?q + ib)) else g k)" for g
    using base d(3) c by (subst put_bytes_span) (auto simp: in_span_def)
  show "fold (put_dirty bs) (ds[i := d']) f k = put_bytes (d_fs_block ?d * ucast bs + of_nat ib) c (fold (put_dirty bs) ds f) k"
  proof (cases "unat k div unat bs = unat (d_fs_block ?d)")
    case True
    have "d' \<in> set (ds[i := d'])" using i by (rule set_update_memI)
    then have l: "fold (put_dirty bs) (ds[i := d']) f k = put_at ib c (d_data ?d) ! (unat k mod unat bs)"
      using puts_inside [OF ok' _ _ bs, of d' k f] map' dist True by (simp add: d')
    have r: "fold (put_dirty bs) ds f k = d_data ?d ! (unat k mod unat bs)"
      using puts_inside [OF ok dist _ bs True, of f] i by simp
    have k: "unat k = ?q + unat k mod unat bs" "unat k mod unat bs < unat bs"
      using True bs div_mult_mod_eq [of "unat k" "unat bs"] by (auto simp: unat_gt_0)
    moreover have "unat k mod unat bs - ib = unat k - (?q + ib)" using k(1) by linarith
    ultimately show ?thesis unfolding put l r using d(2) c by (simp add: put_at_nth)
  next
    case False
    then have o: "\<not> (?q + ib \<le> unat k \<and> unat k < ?q + ib + length c)"
      using div_span [of "unat bs" "unat (d_fs_block ?d)" "unat k"] c bs by (auto simp: unat_gt_0)
    show ?thesis
    proof (cases "\<exists>j < length ds. unat k div unat bs = unat (d_fs_block (ds ! j))")
      case True
      then obtain j where j: "j < length ds" "unat k div unat bs = unat (d_fs_block (ds ! j))" by blast
      then have "j \<noteq> i" using False by auto
      then have "ds ! j \<in> set (ds[i := d'])" using j by (metis length_list_update nth_list_update_neq nth_mem)
      then have "fold (put_dirty bs) (ds[i := d']) f k = d_data (ds ! j) ! (unat k mod unat bs)"
        using puts_inside [OF ok' _ _ bs j(2)] map' dist by simp
      moreover have "fold (put_dirty bs) ds f k = d_data (ds ! j) ! (unat k mod unat bs)"
        using puts_inside [OF ok dist _ bs j(2)] j(1) by simp
      ultimately show ?thesis unfolding put using o by auto
    next
      case none: False
      then have "unat k div unat bs \<noteq> unat (d_fs_block x)" if "x \<in> set ds \<or> x = d'" for x
        using that i False by (auto simp: in_set_conv_nth d')
      then have "\<forall>x \<in> set (ds[i := d']). dirty_ok bs x \<and> unat k div unat bs \<noteq> unat (d_fs_block x)"
        "\<forall>x \<in> set ds. dirty_ok bs x \<and> unat k div unat bs \<noteq> unat (d_fs_block x)"
        using ok ok' set_update_subset_insert [of ds i d'] by blast+
      then show ?thesis unfolding put using o by (auto simp: puts_outside [OF bs])
    qed
  qed
qed

section \<open>Writes of a transaction\<close>

text \<open>An open JBD2 transaction: its blocks are whole, different, and inside the address space.\<close>

definition jtx :: "'d blkdrv \<Rightarrow> ('d \<Rightarrow> u64 \<Rightarrow> sector) \<Rightarrow> 'd ext4 \<Rightarrow> bool" where
  "jtx D media s \<longleftrightarrow> disk_ok D media s \<and> jb_enabled (jb s) \<and> jb_tx_active (jb s) \<and> \<not> jb_io_bypass (jb s)
     \<and> \<not> (jl_enabled (jl s) \<and> jl_tx_active (jl s)) \<and> jl_ok (jl s) \<and> jb_ok (jb s)
     \<and> distinct (map d_fs_block (jb_tx_dirty (jb s))) \<and> jb_block_size (jb s) \<noteq> 0
     \<and> unat (blocks_count (fs s)) * unat (jb_block_size (jb s)) < 2 ^ 64"

lemma find_dirty_Some:
  "find_dirty_in q ds = Some i \<Longrightarrow> i < length ds \<and> d_fs_block (ds ! i) = q"
  by (induction ds arbitrary: i) (auto split: if_splits)

lemma find_dirty_None: "find_dirty_in q ds = None \<longleftrightarrow> q \<notin> d_fs_block ` set ds"
  by (induction ds) auto

text \<open>The part of the state that stays, and the view of the transaction.\<close>

definition jtx_step :: "'d blkdrv \<Rightarrow> ('d \<Rightarrow> u64 \<Rightarrow> sector) \<Rightarrow> 'd ext4 \<Rightarrow> 'd ext4 \<Rightarrow> bool" where
  "jtx_step D media s s' \<longleftrightarrow> jtx D media s' \<and> fs s' = fs s \<and> jl s' = jl s
     \<and> jb_block_size (jb s') = jb_block_size (jb s) \<and> jb_pending (jb s') = jb_pending (jb s)
     \<and> e4_bytes media s' = e4_bytes media s"

lemma jtx_step_refl: "jtx D media s \<Longrightarrow> jtx_step D media s s"
  by (simp add: jtx_step_def)

lemma jtx_step_trans: "jtx_step D media a b \<Longrightarrow> jtx_step D media b c \<Longrightarrow> jtx_step D media a c"
  by (simp add: jtx_step_def)

lemma jtx_view:
  "jtx D media s \<Longrightarrow> fs_view media s = fold (put_dirty (jb_block_size (jb s))) (jb_tx_dirty (jb s))
     (fold (\<lambda>p. fold (put_dirty (jb_block_size (jb s))) (p_dirty p)) (jb_pending (jb s)) (e4_bytes media s))"
  by (auto simp: jtx_def fs_view_def jl_view_def tx_view_def pend_view_def)

lemma put_dirty_self:
  assumes "unat q * unat bs + unat bs < 2 ^ 64"
  shows "put_dirty bs \<lparr>d_fs_block = q, d_data = get_bytes f (q * ucast bs) (unat bs)\<rparr> f = f"
proof -
  have b: "unat (q * ucast bs) = unat q * unat bs" using unat_mult_u64 [of q "ucast bs"] assms by simp
  have "get_bytes f (q * ucast bs) (unat bs) ! (unat k - unat q * unat bs) = f k" if "in_span (q * ucast bs) (unat bs) k" for k
  proof -
    have "q * ucast bs + of_nat (unat k - unat q * unat bs) = k"
      using that b assms unat_add_small [of "q * ucast bs" "unat k - unat q * unat bs"]
      by (auto simp: in_span_def word_unat_eq_iff)
    moreover have "unat k - unat q * unat bs < unat bs" using that b by (auto simp: in_span_def)
    ultimately show ?thesis using get_bytes_nth [of "unat k - unat q * unat bs" "unat bs" f "q * ucast bs"] by simp
  qed
  then show ?thesis using b assms by (auto simp: fun_eq_iff put_dirty_def put_bytes_span)
qed

lemma block_in_space:
  assumes "jtx D media s" "q < blocks_count (fs s)"
  shows "unat q * unat (jb_block_size (jb s)) + unat (jb_block_size (jb s)) < 2 ^ 64"
    "unat (q * ucast (jb_block_size (jb s))) = unat q * unat (jb_block_size (jb s))"
proof -
  have "(unat q + 1) * unat (jb_block_size (jb s)) \<le> unat (blocks_count (fs s)) * unat (jb_block_size (jb s))"
    using assms(2) by (intro mult_le_mono1) (simp add: word_less_nat_alt)
  then show l: "unat q * unat (jb_block_size (jb s)) + unat (jb_block_size (jb s)) < 2 ^ 64"
    using assms(1) by (simp add: jtx_def algebra_simps)
  show "unat (q * ucast (jb_block_size (jb s))) = unat q * unat (jb_block_size (jb s))"
    using unat_mult_u64 [of q "ucast (jb_block_size (jb s))"] l by simp
qed

text \<open>Taking a block into the transaction does not change the contents seen.\<close>

definition add_dirty :: "u64 \<Rightarrow> u8 list \<Rightarrow> ext4_jbd2 \<Rightarrow> ext4_jbd2" where
  "add_dirty q data b = b\<lparr>jb_tx_dirty := jb_tx_dirty b @ [\<lparr>d_fs_block = q, d_data = data\<rparr>]\<rparr>"

lemma add_dirty_step:
  assumes tx: "jtx D media s" and q: "q < blocks_count (fs s)" "q \<notin> d_fs_block ` set (jb_tx_dirty (jb s))"
    and rd: "disk_ok D media s1" "same_rest s s1" "e4_bytes media s1 = e4_bytes media s"
    and data: "data = get_bytes (fs_view media s) (q * ucast (jb_block_size (jb s))) (unat (jb_block_size (jb s)))"
  shows "jtx_step D media s (upd_jb (add_dirty q data) s1) \<and> fs_view media (upd_jb (add_dirty q data) s1) = fs_view media s"
proof -
  let ?s' = "upd_jb (add_dirty q data) s1"
  have j1: "jb s1 = jb s" "jl s1 = jl s" "fs s1 = fs s" using rd(2) by (simp_all add: same_rest_def)
  have "dirty_ok (jb_block_size (jb s)) \<lparr>d_fs_block = q, d_data = data\<rparr>"
    using block_in_space [OF tx q(1)] by (simp add: dirty_ok_def data)
  then have tx': "jtx D media ?s'"
    using tx rd q j1 by (auto simp: jtx_def add_dirty_def jb_ok_def)
  moreover have "fs_view media ?s' = put_dirty (jb_block_size (jb s)) \<lparr>d_fs_block = q, d_data = data\<rparr> (fs_view media s)"
    unfolding jtx_view [OF tx'] jtx_view [OF tx] using j1 rd(3) by (simp add: add_dirty_def)
  moreover have "put_dirty (jb_block_size (jb s)) \<lparr>d_fs_block = q, d_data = data\<rparr> (fs_view media s) = fs_view media s"
    unfolding data using block_in_space(1) [OF tx q(1)] by (rule put_dirty_self)
  ultimately show ?thesis using j1 rd(3) by (simp add: jtx_step_def add_dirty_def)
qed

lemma alloc_dirty_total:
  assumes tx: "jtx D media s" and good: "disk_good D media s"
    and q: "q < blocks_count (fs s)" "q \<notin> d_fs_block ` set (jb_tx_dirty (jb s))"
    and n: "length (jb_tx_dirty (jb s)) < 256" "in_part s (q * ucast (jb_block_size (jb s))) (unat (jb_block_size (jb s)))"
  obtains s' where "ext4_jbd2_alloc_dirty D q s = (Some (length (jb_tx_dirty (jb s))), s')" "jtx_step D media s s'"
    "disk_good D media s'" "fs_view media s' = fs_view media s"
    "map d_fs_block (jb_tx_dirty (jb s')) = map d_fs_block (jb_tx_dirty (jb s)) @ [q]"
proof -
  let ?bs = "jb_block_size (jb s)"
  note b = block_in_space [OF tx q(1)]
  have ok: "jl_ok (jl s)" "jb_ok (jb s)" using tx by (auto simp: jtx_def)
  obtain s1 where r: "ext4_disk_read_bytes D (q * ucast ?bs) (unat ?bs) s
      = (Some (get_bytes (fs_view media s) (q * ucast ?bs) (unat ?bs)), s1)"
    "disk_good D media s1" "same_rest s s1" "e4_bytes media s1 = e4_bytes media s"
    using disk_read_total [OF good ok n(2)] b by auto
  let ?s' = "upd_jb (add_dirty q (get_bytes (fs_view media s) (q * ucast ?bs) (unat ?bs))) s1"
  have "ext4_jbd2_alloc_dirty D q s = (Some (length (jb_tx_dirty (jb s))), ?s')"
    using r(1) n(1) by (simp add: ext4_jbd2_alloc_dirty_def Let_def seq_def add_dirty_def [abs_def])
  moreover have "jb s1 = jb s" using r(3) by (simp add: same_rest_def)
  ultimately show thesis
    using that add_dirty_step [OF tx q _ r(3,4) refl] r(2) by (simp add: disk_good_def add_dirty_def)
qed

lemma patch_step:
  assumes tx: "jtx D media s" and i: "i < length (jb_tx_dirty (jb s))" and c: "ib + length c \<le> unat (jb_block_size (jb s))"
    and s': "s' = upd_jb (patch_dirty i ib c \<circ> ext4_jbd2_remove_revoke r) s"
  shows "jtx_step D media s s'" "fs_view media s' = put_bytes (d_fs_block (jb_tx_dirty (jb s) ! i)
      * ucast (jb_block_size (jb s)) + of_nat ib) c (fs_view media s)"
    "map d_fs_block (jb_tx_dirty (jb s')) = map d_fs_block (jb_tx_dirty (jb s))"
proof -
  let ?ds = "jb_tx_dirty (jb s)" and ?bs = "jb_block_size (jb s)"
  define d' where "d' = (?ds ! i)\<lparr>d_data := put_at ib c (d_data (?ds ! i))\<rparr>"
  have ds': "jb_tx_dirty (jb s') = ?ds[i := d']"
    by (simp add: s' patch_dirty_def ext4_jbd2_remove_revoke_def d'_def)
  have ok: "\<forall>d \<in> set ?ds. dirty_ok ?bs d" using tx by (auto simp: jtx_def jb_ok_def)
  then have "dirty_ok ?bs d'" using i c by (auto simp: d'_def dirty_ok_def)
  then have ok': "\<forall>d \<in> set (?ds[i := d']). dirty_ok ?bs d"
    using ok set_update_subset_insert [of ?ds i d'] by auto
  show m: "map d_fs_block (jb_tx_dirty (jb s')) = map d_fs_block ?ds"
    unfolding ds' using i by (simp add: map_update d'_def list_update_same_conv)
  have tx': "jtx D media s'"
    using tx ok' m ds' by (simp add: jtx_def jb_ok_def s' patch_dirty_def ext4_jbd2_remove_revoke_def)
  then show "jtx_step D media s s'" by (simp add: jtx_step_def s' patch_dirty_def ext4_jbd2_remove_revoke_def)
  show "fs_view media s' = put_bytes (d_fs_block (?ds ! i) * ucast ?bs + of_nat ib) c (fs_view media s)"
    unfolding jtx_view [OF tx'] jtx_view [OF tx] ds'
    using puts_patch [OF ok _ _ i c d'_def] tx
    by (simp add: jtx_def s' patch_dirty_def ext4_jbd2_remove_revoke_def)
qed

text \<open>The number of blocks a write of \<open>n\<close> bytes at \<open>off\<close> touches.\<close>

definition blocks_touched :: "nat \<Rightarrow> nat \<Rightarrow> nat \<Rightarrow> nat" where
  "blocks_touched bs off n = (off mod bs + n + bs - 1) div bs"

lemma blocks_touched_next:
  assumes "0 < bs" "c = bs - off mod bs" "c < n"
  shows "blocks_touched bs off n = Suc (blocks_touched bs (off + c) (n - c))"
proof -
  have "off mod bs < bs" using assms(1) by simp
  then have c: "off mod bs + c = bs" using assms(2) by simp
  have "(off + c) mod bs = (off mod bs + c) mod bs" by (simp add: mod_add_left_eq)
  then have m: "(off + c) mod bs = 0" unfolding c by simp
  define x where "x = n - c + bs - 1"
  have "off mod bs + n + bs - 1 = bs + x" using c assms(1,3) unfolding x_def by linarith
  moreover have "(bs + x) div bs = Suc (x div bs)" using assms(1) by (simp add: div_add_self1)
  ultimately show ?thesis unfolding blocks_touched_def m by (simp add: x_def)
qed

lemma blocks_touched_pos: "0 < bs \<Longrightarrow> 0 < n \<Longrightarrow> 1 \<le> blocks_touched bs off n"
  by (simp add: blocks_touched_def div_greater_zero_iff Suc_le_eq)

text \<open>One round of the copy loop: the block is in the transaction afterwards.\<close>

lemma take_block_total:
  assumes tx: "jtx D media s" and good: "disk_good D media s" and q: "q < blocks_count (fs s)"
    and n: "length (jb_tx_dirty (jb s)) < 256" "in_part s (q * ucast (jb_block_size (jb s))) (unat (jb_block_size (jb s)))"
  obtains i s1 where "(case ext4_jbd2_find_dirty q s of Some i \<Rightarrow> (Some i, s) | None \<Rightarrow> ext4_jbd2_alloc_dirty D q s) = (Some i, s1)"
    "jtx_step D media s s1" "disk_good D media s1" "fs_view media s1 = fs_view media s"
    "i < length (jb_tx_dirty (jb s1))" "d_fs_block (jb_tx_dirty (jb s1) ! i) = q"
    "length (jb_tx_dirty (jb s1)) \<le> Suc (length (jb_tx_dirty (jb s)))"
proof (cases "ext4_jbd2_find_dirty q s")
  case None
  then have nq: "q \<notin> d_fs_block ` set (jb_tx_dirty (jb s))" by (simp add: ext4_jbd2_find_dirty_def find_dirty_None)
  obtain s1 where a: "ext4_jbd2_alloc_dirty D q s = (Some (length (jb_tx_dirty (jb s))), s1)" "jtx_step D media s s1"
    "disk_good D media s1" "fs_view media s1 = fs_view media s"
    "map d_fs_block (jb_tx_dirty (jb s1)) = map d_fs_block (jb_tx_dirty (jb s)) @ [q]"
    using alloc_dirty_total [OF tx good q nq n] by blast
  have l: "length (jb_tx_dirty (jb s1)) = Suc (length (jb_tx_dirty (jb s)))" using arg_cong [OF a(5), of length] by simp
  moreover have "d_fs_block (jb_tx_dirty (jb s1) ! length (jb_tx_dirty (jb s))) = q"
    using arg_cong [OF a(5), of "\<lambda>xs. xs ! length (jb_tx_dirty (jb s))"] l by (simp add: nth_append)
  ultimately show thesis by (intro that [of "length (jb_tx_dirty (jb s))" s1]) (use None a in simp_all)
next
  case (Some i)
  then show thesis
    using that [of i s] good jtx_step_refl [OF tx] find_dirty_Some [of q "jb_tx_dirty (jb s)" i]
    by (simp add: ext4_jbd2_find_dirty_def)
qed

lemma tx_write_total:
  assumes "jtx D media s" "disk_good D media s"
    "unat off + length src \<le> unat (blocks_count (fs s)) * unat (jb_block_size (jb s))"
    "in_part s 0 (unat (blocks_count (fs s)) * unat (jb_block_size (jb s)))"
    "length (jb_tx_dirty (jb s)) + blocks_touched (unat (jb_block_size (jb s))) (unat off) (length src) \<le> 256"
  shows "\<exists>s'. tx_write_loop D off src s = (Some (), s') \<and> jtx_step D media s s' \<and> disk_good D media s'
    \<and> fs_view media s' = put_bytes off src (fs_view media s)"
  using assms
proof (induction src arbitrary: off s rule: measure_induct_rule [where f = length])
  case (less src)
  let ?bs = "unat (jb_block_size (jb s))" and ?w = "ucast (jb_block_size (jb s)) :: u64"
  define c where "c = min (?bs - unat (off mod ?w)) (length src)"
  show ?case
  proof (cases "src = []")
    case True
    then show ?thesis using less.prems by (auto simp: tx_write_loop.simps jtx_step_refl)
  next
    case False
    have bs: "0 < ?bs" "unat (blocks_count (fs s)) * ?bs < 2 ^ 64" "jb_block_size (jb s) \<noteq> 0"
      using less.prems(1) by (auto simp: jtx_def unat_gt_0)
    have u: "unat (off mod ?w) = unat off mod ?bs" "unat (off div ?w) = unat off div ?bs"
      by (simp_all add: unat_mod unat_div)
    have "unat off < unat (blocks_count (fs s)) * ?bs" using less.prems(3) False by (cases src) auto
    then have ql: "unat off div ?bs < unat (blocks_count (fs s))" using bs(1) by (simp add: less_mult_imp_div_less)
    then have q: "off div ?w < blocks_count (fs s)" by (simp add: word_less_nat_alt u)
    have "(unat off div ?bs + 1) * ?bs \<le> unat (blocks_count (fs s)) * ?bs" using ql by (intro mult_le_mono1) simp
    then have ip: "in_part s (off div ?w * ?w) ?bs"
      using less.prems(4) block_in_space(2) [OF less.prems(1) q] by (simp add: in_part_def u)
    have n: "length (jb_tx_dirty (jb s)) < 256"
      using less.prems(5) blocks_touched_pos [OF bs(1), of "length src" "unat off"] False by (cases src) auto
    obtain i s1 where t: "(case ext4_jbd2_find_dirty (off div ?w) s of Some i \<Rightarrow> (Some i, s)
        | None \<Rightarrow> ext4_jbd2_alloc_dirty D (off div ?w) s) = (Some i, s1)"
      "jtx_step D media s s1" "disk_good D media s1" "fs_view media s1 = fs_view media s" "i < length (jb_tx_dirty (jb s1))"
      "d_fs_block (jb_tx_dirty (jb s1) ! i) = off div ?w" "length (jb_tx_dirty (jb s1)) \<le> Suc (length (jb_tx_dirty (jb s)))"
      using take_block_total [OF less.prems(1,2) q n ip] by blast
    have s1: "jtx D media s1" "fs s1 = fs s" "jb_block_size (jb s1) = jb_block_size (jb s)"
      using t(2) by (simp_all add: jtx_step_def)
    define s2 where "s2 = upd_jb (patch_dirty i (unat (off mod ?w)) (take c src) \<circ> ext4_jbd2_remove_revoke (off div ?w)) s1"
    have c: "unat (off mod ?w) + length (take c src) \<le> unat (jb_block_size (jb s1))" "0 < c" "c \<le> length src"
      using bs(1) False mod_less_divisor [OF bs(1), of "unat off"] by (auto simp: c_def s1 u)
    note p = patch_step [OF s1(1) t(5) c(1) s2_def]
    have "off div ?w * ?w + of_nat (unat (off mod ?w)) = off" by (simp add: word_mod_div_equality)
    then have v2: "fs_view media s2 = put_bytes off (take c src) (fs_view media s)"
      using p(2) t(4,6) s1(3) by simp
    have st2: "jtx_step D media s s2" using t(2) p(1) by (rule jtx_step_trans)
    have "\<not> (blocks_count (fs s) \<le> off div ?w \<or> jb_block_size (jb s) = 0)" using q bs(3) by simp
    then have run: "tx_write_loop D off src s = tx_write_loop D (off + of_nat c) (drop c src) s2"
      using False t(1) by (subst tx_write_loop.simps) (simp only: Let_def if_False c_def [symmetric] s2_def prod.case option.case)
    have uo: "unat (off + of_nat c) = unat off + c" using less.prems(3) bs(2) c(3) by (intro unat_add_small) linarith
    have s2: "jb_block_size (jb s2) = jb_block_size (jb s)" "fs s2 = fs s" "jtx D media s2" "disk_good D media s2"
      "length (jb_tx_dirty (jb s2)) \<le> Suc (length (jb_tx_dirty (jb s)))"
      using st2 t(3,7) arg_cong [OF p(3), of length] by (simp_all add: jtx_step_def s2_def)
    show ?thesis
    proof (cases "c < length src")
      case True
      then have "c = ?bs - unat off mod ?bs" by (auto simp: c_def u)
      then have "length (jb_tx_dirty (jb s2)) + blocks_touched ?bs (unat off + c) (length src - c) \<le> 256"
        using blocks_touched_next [OF bs(1) _ True] less.prems(5) s2(5) by simp
      moreover have "length (drop c src) < length src" using c(2) True by simp
      ultimately obtain s' where "tx_write_loop D (off + of_nat c) (drop c src) s2 = (Some (), s')" "jtx_step D media s2 s'"
        "disk_good D media s'" "fs_view media s' = put_bytes (off + of_nat c) (drop c src) (fs_view media s2)"
        using less.IH [of "drop c src" s2 "off + of_nat c"] s2 uo less.prems(3,4) c(3) by (auto simp: in_part_def)
      moreover have "put_bytes off src f = put_bytes (off + of_nat c) (drop c src) (put_bytes off (take c src) f)" for f
        using put_bytes_append [of "take c src" "drop c src" off f] less.prems(3) bs(2) True by simp
      ultimately show ?thesis using run v2 jtx_step_trans [OF st2] by auto
    next
      case False
      then have "drop c src = []" "take c src = src" using c(3) by simp_all
      then show ?thesis using run v2 st2 s2(4) by (simp add: tx_write_loop.simps)
    qed
  qed
qed

text \<open>
  C14. Reads inside a JBD2 transaction see its writes, and the disk does not: with room for the blocks
  it touches, a write of an open transaction inside the file system succeeds on a device that completes its
  transfers, leaves every byte of the partition as it was, and every later read returns the contents as
  they were seen before with the written bytes replaced, whatever other blocks of this transaction
  and of committed ones lie over the disk.
\<close>

theorem jbd2_tx_write_read:
  assumes "jtx D media s" "disk_good D media s"
    "unat off + length buf \<le> unat (blocks_count (fs s)) * unat (jb_block_size (jb s))"
    "in_part s 0 (unat (blocks_count (fs s)) * unat (jb_block_size (jb s)))"
    "length (jb_tx_dirty (jb s)) + blocks_touched (unat (jb_block_size (jb s))) (unat off) (length buf) \<le> 256"
    "in_part s o2 n" "unat o2 + n < 2 ^ 64"
  shows "\<exists>s1 s2. ext4_disk_write_bytes D off buf s = (Some (), s1) \<and> e4_bytes media s1 = e4_bytes media s
    \<and> ext4_disk_read_bytes D o2 n s1 = (Some (get_bytes (put_bytes off buf (fs_view media s)) o2 n), s2)"
proof -
  obtain s1 where w: "tx_write_loop D off buf s = (Some (), s1)" "jtx_step D media s s1" "disk_good D media s1"
    "fs_view media s1 = put_bytes off buf (fs_view media s)"
    using tx_write_total [OF assms(1-5)] by blast
  have "ext4_disk_write_bytes D off buf s = (Some (), s1)"
    using assms(1) w(1) by (simp add: ext4_disk_write_bytes_def ext4_jbd2_tx_write_bytes_def jtx_def Let_def)
  moreover have "jl_ok (jl s1)" "jb_ok (jb s1)" "in_part s1 o2 n" "e4_bytes media s1 = e4_bytes media s"
    using w(2) assms(6) by (auto simp: jtx_step_def jtx_def in_part_def)
  ultimately show ?thesis using disk_read_total [OF w(3) _ _ _ assms(7)] w(4) by metis
qed

definition jbd2_example :: "(u64 \<Rightarrow> sector) \<Rightarrow> (u64 \<Rightarrow> sector) ext4" where
  "jbd2_example d = upd_jb (\<lambda>b. b\<lparr>jb_enabled := True, jb_write_ready := True, jb_tx_active := True, jb_block_size := 1024,
     jb_first := 1, jb_maxlen := 64, jb_head := 1, jb_tail := 1\<rparr>) (example_ext4 1024 d)"

lemma jbd2_example:
  assumes "\<And>l. length (d l) = 512"
  shows "disk_good (mem_disk 1024) (\<lambda>d. d) (jbd2_example d)" "jtx (mem_disk 1024) (\<lambda>d. d) (jbd2_example d)"
    "e4_bytes (\<lambda>d. d) (jbd2_example d) = byte_at d" "in_part (jbd2_example d) off n = (unat off + n \<le> 524288)"
    "jb_tx_dirty (jb (jbd2_example d)) = []" "jb_block_size (jb (jbd2_example d)) = 1024" "blocks_count (fs (jbd2_example d)) = 128"
    "fs_view (\<lambda>d. d) (jbd2_example d) = byte_at d"
  using example_good [of d 1024] assms
  by (simp_all add: jbd2_example_def jtx_def in_part_def example_fs_def jbd2_zero_def journal_zero_def example_bytes
      disk_good_def jl_ok_def jb_ok_def fs_view_def jl_view_def tx_view_def pend_view_def)

theorem jbd2_tx_write_read_witness:
  "\<exists>s1 s2. ext4_disk_write_bytes (mem_disk 1024) 1023 [5, 6] (jbd2_example (\<lambda>_. replicate 512 0)) = (Some (), s1)
    \<and> ext4_disk_read_bytes (mem_disk 1024) 1023 3 s1 = (Some [5, 6, 0], s2)"
proof -
  note e = jbd2_example [of "\<lambda>_. replicate 512 0", simplified]
  have b: "get_bytes (put_bytes 1023 [5, 6] (byte_at (\<lambda>_. replicate 512 0))) 1023 3 = [5, 6, 0]"
    by (simp add: get_bytes_def put_bytes_def byte_at_def numeral_3_eq_3)
  show ?thesis
    using jbd2_tx_write_read [OF e(2,1), of 1023 "[5, 6]" 1023 3] b
    by (auto simp: e(4-8) blocks_touched_def)
qed

section \<open>Checkpointing\<close>

text \<open>Operations that only read: everything but the cache's lines stays.\<close>

definition reads :: "'d blkdrv \<Rightarrow> ('d \<Rightarrow> u64 \<Rightarrow> sector) \<Rightarrow> 'd ext4 \<Rightarrow> 'd ext4 \<Rightarrow> bool" where
  "reads D media s0 s \<longleftrightarrow> disk_ok D media s \<and> same_rest s0 s \<and> e4_bytes media s = e4_bytes media s0"

lemma disk_read_reads: "preserves (reads D media s0) (ext4_disk_read_bytes D off n)"
  unfolding preserves_def
proof (intro allI impI)
  fix s assume r: "reads D media s0 s"
  obtain q s1 where raw: "ext4_raw_read_bytes D off n s = (q, s1)" by fastforce
  then have "snd (ext4_disk_read_bytes D off n s) = s1"
    by (auto simp: ext4_disk_read_bytes_def seq_def split: option.splits)
  then show "reads D media s0 (snd (ext4_disk_read_bytes D off n s))"
    using r raw_read_spec(1-3) [of D media s off n q s1] raw same_rest_trans by (auto simp: reads_def)
qed

lemma read_block_reads [pres]: "preserves (reads D media s0) (ext4_read_block D b)"
  using disk_read_reads [of D media s0] by (simp add: preserves_def ext4_read_block_def)

lemma extent_walk_reads [pres]: "preserves (reads D media s0) (extent_walk D fuel lb node)"
proof (induction fuel arbitrary: node)
  case 0
  show ?case by (simp only: extent_walk.simps) (rule preserves_fail)
next
  case (Suc fuel)
  show ?case by (simp only: extent_walk.simps Let_def) (intro pres Suc)
qed

lemma map_file_block_reads [pres]: "preserves (reads D media s0) (ext4_map_file_block D m lb)"
  unfolding ext4_map_file_block_def ext4_extent_map_def ext4_map_block_direct_def Let_def by (intro pres)

lemma read_jblock_reads [pres]: "preserves (reads D media s0) (ext4_jbd2_read_jblock D m j)"
  unfolding ext4_jbd2_read_jblock_def by (intro pres)

text \<open>The blocks of committed transactions over the bytes of the partition.\<close>

abbreviation put_pending :: "u32 \<Rightarrow> jbd2_pending list \<Rightarrow> (u64 \<Rightarrow> u8) \<Rightarrow> u64 \<Rightarrow> u8" where
  "put_pending bs \<equiv> fold (\<lambda>p. fold (put_dirty bs) (p_dirty p))"

lemma puts_decided:
  assumes "bs \<noteq> 0" "\<forall>d \<in> set ds. dirty_ok bs d" "f k = g k \<or> (\<exists>d \<in> set ds. unat k div unat bs = unat (d_fs_block d))"
  shows "fold (put_dirty bs) ds f k = fold (put_dirty bs) ds g k"
  using assms(2,3)
proof (induction ds arbitrary: f g)
  case (Cons d ds)
  then have "put_dirty bs d f k = put_dirty bs d g k \<or> (\<exists>d \<in> set ds. unat k div unat bs = unat (d_fs_block d))"
    by (auto simp: dirty_span dirty_span_div [OF _ assms(1)])
  then show ?case using Cons by simp
qed simp

lemma pending_cong:
  assumes "bs \<noteq> 0" "\<forall>p \<in> set ps. \<forall>d \<in> set (p_dirty p). dirty_ok bs d" "f k = g k"
  shows "put_pending bs ps f k = put_pending bs ps g k"
  using assms(2,3)
proof (induction ps arbitrary: f g)
  case (Cons p ps)
  have "fold (put_dirty bs) (p_dirty p) f k = fold (put_dirty bs) (p_dirty p) g k"
    by (rule puts_decided [OF assms(1)]) (use Cons.prems in auto)
  with Cons.IH [of "fold (put_dirty bs) (p_dirty p) f" "fold (put_dirty bs) (p_dirty p) g"]
  show ?case using Cons.prems(1) by simp
qed simp

text \<open>Writing home a block of the oldest transaction, even in part, does not show.\<close>

lemma put_part_decided:
  assumes bs: "bs \<noteq> 0" and p: "\<forall>d \<in> set (p_dirty p). dirty_ok bs d" and d: "d \<in> set (p_dirty p)"
    and ps: "\<forall>p \<in> set ps. \<forall>d \<in> set (p_dirty p). dirty_ok bs d"
  shows "put_pending bs (p # ps) (put_bytes (d_fs_block d * ucast bs) (take m (d_data d)) f) = put_pending bs (p # ps) f"
proof
  fix k
  have dok: "dirty_ok bs d" using p d by blast
  have "put_bytes (d_fs_block d * ucast bs) (take m (d_data d)) f k = f k \<or> unat k div unat bs = unat (d_fs_block d)"
  proof (cases "in_span (d_fs_block d * ucast bs) (unat bs) k")
    case True
    then show ?thesis using dirty_span_div [OF dok bs] by simp
  next
    case False
    moreover have "length (take m (d_data d)) \<le> unat bs" using dok by (simp add: dirty_ok_def)
    ultimately show ?thesis
      using dok dirty_base [OF dok] by (subst put_bytes_span) (auto simp: in_span_def dirty_ok_def)
  qed
  then have "fold (put_dirty bs) (p_dirty p) (put_bytes (d_fs_block d * ucast bs) (take m (d_data d)) f) k
      = fold (put_dirty bs) (p_dirty p) f k"
    using d by (intro puts_decided [OF bs p]) auto
  with pending_cong [OF bs ps, of "fold (put_dirty bs) (p_dirty p) (put_bytes (d_fs_block d * ucast bs) (take m (d_data d)) f)" k
      "fold (put_dirty bs) (p_dirty p) f"]
  show "put_pending bs (p # ps) (put_bytes (d_fs_block d * ucast bs) (take m (d_data d)) f) k = put_pending bs (p # ps) f k"
    by simp
qed

text \<open>The state of a checkpoint: writes go straight to the disk.\<close>

definition ckpt :: "'d blkdrv \<Rightarrow> ('d \<Rightarrow> u64 \<Rightarrow> sector) \<Rightarrow> 'd ext4 \<Rightarrow> bool" where
  "ckpt D media s \<longleftrightarrow> disk_ok D media s \<and> jb_enabled (jb s) \<and> \<not> jb_tx_active (jb s)
     \<and> \<not> (jl_enabled (jl s) \<and> jl_tx_active (jl s)) \<and> jb_ok (jb s)
     \<and> jb_block_size (jb s) = block_size (fs s) \<and> block_size (fs s) \<noteq> 0"

definition ckpt_view :: "('d \<Rightarrow> u64 \<Rightarrow> sector) \<Rightarrow> 'd ext4 \<Rightarrow> u64 \<Rightarrow> u8" where
  "ckpt_view media s = put_pending (jb_block_size (jb s)) (jb_pending (jb s)) (e4_bytes media s)"

lemma ckpt_fs_view: "ckpt D media s \<Longrightarrow> \<not> jb_io_bypass (jb s) \<Longrightarrow> fs_view media s = ckpt_view media s"
  by (auto simp: ckpt_def ckpt_view_def fs_view_def jl_view_def tx_view_def pend_view_def)

lemma write_block_raw:
  "ckpt D media s \<Longrightarrow> ext4_write_block D b buf s
     = ext4_raw_write_bytes D (b * ucast (block_size (fs s))) (take (unat (block_size (fs s))) buf) s"
  by (auto simp: ckpt_def ext4_write_block_def ext4_disk_write_bytes_def Let_def)

lemma ckpt_rest: "ckpt D media s \<Longrightarrow> disk_ok D media s' \<Longrightarrow> same_rest s s' \<Longrightarrow> ckpt D media s'"
  by (simp add: ckpt_def same_rest_def)

lemma ckpt_write:
  assumes c: "ckpt D media s" and p: "jb_pending (jb s) = p # ps" "d \<in> set (p_dirty p)"
    and w: "ext4_write_block D (d_fs_block d) (d_data d) s = (r, s')"
  shows "ckpt D media s' \<and> same_rest s s' \<and> ckpt_view media s' = ckpt_view media s
    \<and> (r = Some () \<longrightarrow> e4_bytes media s' = put_dirty (jb_block_size (jb s)) d (e4_bytes media s))"
proof -
  let ?bs = "block_size (fs s)"
  have bs: "jb_block_size (jb s) = ?bs" "?bs \<noteq> 0" "disk_ok D media s" using c by (auto simp: ckpt_def)
  have oks: "\<forall>q \<in> set (jb_pending (jb s)). \<forall>d \<in> set (p_dirty q). dirty_ok ?bs d"
    using c by (auto simp: ckpt_def jb_ok_def)
  then have d: "dirty_ok ?bs d" "length (d_data d) = unat ?bs" using p by (auto simp: dirty_ok_def)
  have len: "length (d_data d) < 2 ^ 64" using d(2) unat_u32 [of ?bs] by (simp del: unat_u32)
  have w': "ext4_raw_write_bytes D (d_fs_block d * ucast ?bs) (d_data d) s = (r, s')"
    using w d(2) by (simp add: write_block_raw [OF c])
  note sp = raw_write_spec [OF bs(3) w' len]
  obtain m where m: "e4_bytes media s' = put_bytes (d_fs_block d * ucast ?bs) (take m (d_data d)) (e4_bytes media s)"
    using sp(4) by blast
  have "ckpt_view media s' = ckpt_view media s"
    using put_part_decided [OF bs(2), of p d ps m "e4_bytes media s"] oks p sp(2) bs(1)
    by (simp add: ckpt_view_def m same_rest_def)
  then show ?thesis using sp(1-3) ckpt_rest [OF c sp(1,2)] bs(1) by (auto simp: put_dirty_def)
qed

lemma ckpt_writes:
  assumes "ckpt D media s" "jb_pending (jb s) = p # ps" "set ds \<subseteq> set (p_dirty p)"
    "for_each (\<lambda>d. ext4_write_block D (d_fs_block d) (d_data d)) ds s = (r, s')"
  shows "ckpt D media s' \<and> same_rest s s' \<and> ckpt_view media s' = ckpt_view media s
    \<and> (r = Some () \<longrightarrow> e4_bytes media s' = fold (put_dirty (jb_block_size (jb s))) ds (e4_bytes media s))"
  using assms
proof (induction ds arbitrary: s)
  case (Cons d ds)
  from Cons.prems(4) have "seq (ext4_write_block D (d_fs_block d) (d_data d))
      (\<lambda>_. for_each (\<lambda>d. ext4_write_block D (d_fs_block d) (d_data d)) ds) s = (r, s')" by simp
  then show ?case
  proof (cases rule: seq_elim)
    case (fails s1)
    then show ?thesis using ckpt_write [OF Cons.prems(1,2)] Cons.prems(3) by auto
  next
    case (goes x s1)
    have w: "ckpt D media s1" "same_rest s s1" "ckpt_view media s1 = ckpt_view media s"
      "e4_bytes media s1 = put_dirty (jb_block_size (jb s)) d (e4_bytes media s)"
      using ckpt_write [OF Cons.prems(1,2) _ goes(1)] Cons.prems(3) by auto
    then have "jb s1 = jb s" by (simp add: same_rest_def)
    then show ?thesis using Cons.IH [OF w(1) _ _ goes(2)] Cons.prems(2,3) w same_rest_trans [OF w(2)] by auto
  qed
qed (simp add: ret_def)

text \<open>What a checkpoint leaves alone.\<close>

definition ckpt_frame :: "'d ext4 \<Rightarrow> 'd ext4 \<Rightarrow> bool" where
  "ckpt_frame s s' \<longleftrightarrow> fs s' = fs s \<and> jl s' = jl s \<and> jb_block_size (jb s') = jb_block_size (jb s)
     \<and> jb_journal_meta (jb s') = jb_journal_meta (jb s)"

lemma ckpt_frame_rest: "same_rest s s' \<Longrightarrow> ckpt_frame s s'" by (simp add: ckpt_frame_def same_rest_def)
lemma ckpt_frame_trans: "ckpt_frame a b \<Longrightarrow> ckpt_frame b c \<Longrightarrow> ckpt_frame a c" by (simp add: ckpt_frame_def)

lemma refresh_fields [simp]:
  "jb_pending (ext4_jbd2_refresh_start_tail b) = jb_pending b" "jb_block_size (ext4_jbd2_refresh_start_tail b) = jb_block_size b"
  "jb_journal_meta (ext4_jbd2_refresh_start_tail b) = jb_journal_meta b" "jb_io_bypass (ext4_jbd2_refresh_start_tail b) = jb_io_bypass b"
  "jb_enabled (ext4_jbd2_refresh_start_tail b) = jb_enabled b" "jb_tx_active (ext4_jbd2_refresh_start_tail b) = jb_tx_active b"
  "jb_tx_dirty (ext4_jbd2_refresh_start_tail b) = jb_tx_dirty b"
  by (simp_all add: ext4_jbd2_refresh_start_tail_def split: list.split)

lemma checkpoint_loop_spec:
  assumes "ckpt D media s" "checkpoint_loop D n s = (r, s')"
  shows "ckpt D media s' \<and> ckpt_frame s s' \<and> ckpt_view media s' = ckpt_view media s
    \<and> (r = Some () \<longrightarrow> jb_pending (jb s') = drop n (jb_pending (jb s)))"
  using assms
proof (induction n arbitrary: s)
  case 0
  then show ?case by (simp add: ret_def ckpt_frame_def)
next
  case (Suc n)
  show ?case
  proof (cases "jb_pending (jb s)")
    case Nil
    then show ?thesis using Suc.prems by (simp add: ckpt_frame_def)
  next
    case (Cons p ps)
    let ?w = "for_each (\<lambda>d. ext4_write_block D (d_fs_block d) (d_data d)) (p_dirty p)"
    have run: "seq ?w (\<lambda>_. seq ext4_jbd2_pending_pop (\<lambda>_. checkpoint_loop D n)) s = (r, s')"
      using Suc.prems(2) Cons by simp
    then show ?thesis
    proof (cases rule: seq_elim)
      case (fails s1)
      then show ?thesis using ckpt_writes [OF Suc.prems(1) Cons subset_refl] ckpt_frame_rest by auto
    next
      case (goes x s1)
      have w: "ckpt D media s1" "same_rest s s1"
        "e4_bytes media s1 = fold (put_dirty (jb_block_size (jb s))) (p_dirty p) (e4_bytes media s)"
        using ckpt_writes [OF Suc.prems(1) Cons subset_refl goes(1)] by auto
      have j1: "jb s1 = jb s" using w(2) by (simp add: same_rest_def)
      define s2 where "s2 = upd_jb (\<lambda>b. ext4_jbd2_refresh_start_tail (b\<lparr>jb_pending := tl (jb_pending b)\<rparr>)) s1"
      have l: "checkpoint_loop D n s2 = (r, s')"
        using goes(2) Cons by (simp add: seq_def ext4_jbd2_pending_pop_def j1 s2_def)
      have c2: "ckpt D media s2" "ckpt_frame s s2" "jb_pending (jb s2) = ps"
        using w(1,2) Cons by (auto simp: ckpt_def ckpt_frame_def s2_def jb_ok_def j1 same_rest_def)
      have "ckpt_view media s2 = ckpt_view media s"
        using w(3) Cons by (simp add: ckpt_view_def s2_def j1)
      then show ?thesis using Suc.IH [OF c2(1) l] c2 Cons ckpt_frame_trans [OF c2(2)] by auto
    qed
  qed
qed

section \<open>The journal superblock\<close>

text \<open>Where the journal's block 0 is: the journal inode maps its first block without reading others.\<close>

definition shallow :: "ext4_meta \<Rightarrow> bool" where
  "shallow m \<longleftrightarrow> uses_extents m \<longrightarrow> eh_depth (root_bytes m @ replicate 4036 0) = 0"

definition jsb_block :: "ext4_meta \<Rightarrow> u64" where
  "jsb_block m = (if uses_extents m
     then let node = root_bytes m @ replicate 4036 0 in leaf_scan node 0 [0..<unat (eh_entries node)]
     else ucast (m_block m ! 0))"

lemma map_jsb:
  assumes "shallow m"
  shows "ext4_map_file_block D m 0 s = (None, s) \<or> ext4_map_file_block D m 0 s = (Some (jsb_block m), s)"
proof (cases "uses_extents m")
  case True
  have "\<exists>n. (65536 :: nat) = Suc n" by presburger
  then obtain n where n: "(65536 :: nat) = Suc n" by blast
  show ?thesis
    using True assms unfolding ext4_map_file_block_def ext4_extent_map_def n
    by (simp add: shallow_def jsb_block_def Let_def op_simps)
next
  case False
  then show ?thesis by (simp add: ext4_map_file_block_def ext4_map_block_direct_def jsb_block_def op_simps)
qed

definition jsb_span :: "'d ext4 \<Rightarrow> u64 \<Rightarrow> bool" where \<comment> \<open>the bytes of the journal superblock\<close>
  "jsb_span s = in_span (jsb_block (jb_journal_meta (jb s)) * ucast (block_size (fs s))) (unat (block_size (fs s)))"

definition jsb_ok :: "'d ext4 \<Rightarrow> bool" where
  "jsb_ok s \<longleftrightarrow> shallow (jb_journal_meta (jb s))
     \<and> unat (jsb_block (jb_journal_meta (jb s)) * ucast (block_size (fs s))) + unat (block_size (fs s)) \<le> 2 ^ 64"

lemma jsb_frame: "ckpt_frame s s' \<Longrightarrow> jsb_span s' = jsb_span s \<and> jsb_ok s' = jsb_ok s"
  by (simp add: ckpt_frame_def jsb_span_def jsb_ok_def)

lemma write_jsb:
  assumes c: "ckpt D media s" and j: "jsb_ok s" and w: "ext4_jbd2_write_jblock D (jb_journal_meta (jb s)) 0 sb s = (r, s')"
  shows "ckpt D media s' \<and> same_rest s s' \<and> (\<forall>k. \<not> jsb_span s k \<longrightarrow> e4_bytes media s' k = e4_bytes media s k)"
proof -
  let ?m = "jb_journal_meta (jb s)" and ?bs = "block_size (fs s)"
  let ?o = "jsb_block ?m * ucast ?bs"
  consider "s' = s" | "ext4_raw_write_bytes D ?o (take (unat ?bs) sb) s = (r, s')"
    using map_jsb [of ?m D s] j w write_block_raw [OF c]
    by (auto simp: ext4_jbd2_write_jblock_def seq_def check_apply jsb_ok_def split: if_splits)
  then show ?thesis
  proof cases
    case 1
    then show ?thesis using c by simp
  next
    case 2
    have len: "length (take (unat ?bs) sb) < 2 ^ 64" using unat_u32 [of ?bs] by (simp del: unat_u32)
    have ok: "disk_ok D media s" using c by (simp add: ckpt_def)
    note sp = raw_write_spec [OF ok 2 len]
    obtain n where "e4_bytes media s' = put_bytes ?o (take n (take (unat ?bs) sb)) (e4_bytes media s)" using sp(4) by blast
    moreover have "length (take n (take (unat ?bs) sb)) \<le> unat ?bs" by simp
    ultimately have "\<forall>k. \<not> jsb_span s k \<longrightarrow> e4_bytes media s' k = e4_bytes media s k"
      using j by (auto simp: put_bytes_span jsb_ok_def jsb_span_def in_span_def)
    then show ?thesis using sp(1,2) ckpt_rest [OF c] by auto
  qed
qed

lemma store_super_spec:
  assumes c: "ckpt D media s" and j: "jsb_ok s" and st: "ext4_jbd2_store_super D s = (r, s')"
  shows "ckpt D media s' \<and> same_rest s s' \<and> (\<forall>k. \<not> jsb_span s k \<longrightarrow> e4_bytes media s' k = e4_bytes media s k)"
proof (cases "\<not> (\<not> jb_enabled (jb s) \<or> jb_block_size (jb s) > 4096)")
  case True
  let ?m = "jb_journal_meta (jb s)"
  obtain q s1 where rd: "ext4_jbd2_read_jblock D ?m 0 s = (q, s1)" by fastforce
  have "reads D media s s" using c by (simp add: reads_def ckpt_def)
  then have r1: "disk_ok D media s1" "same_rest s s1" "e4_bytes media s1 = e4_bytes media s"
    using preservesD [OF read_jblock_reads _ rd, of media s] by (auto simp: reads_def)
  have c1: "ckpt D media s1" using ckpt_rest [OF c r1(1,2)] .
  have j1: "jsb_ok s1" "jsb_span s1 = jsb_span s" "jb_journal_meta (jb s1) = ?m"
    using jsb_frame [OF ckpt_frame_rest [OF r1(2)]] j r1(2) by (auto simp: same_rest_def)
  show ?thesis
  proof (cases q)
    case None
    then show ?thesis
      using st True rd r1 c1 by (simp add: ext4_jbd2_store_super_def op_simps Let_def) (auto simp: seq_def)
  next
    case (Some sb0)
    then obtain sb where "ext4_jbd2_write_jblock D (jb_journal_meta (jb s1)) 0 sb s1 = (r, s')"
      using st True rd j1(3) by (simp add: ext4_jbd2_store_super_def op_simps Let_def seq_def)
    then show ?thesis using write_jsb [OF c1 j1(1)] r1 j1(2) same_rest_trans by fastforce
  qed
next
  case False
  then show ?thesis using st c by (auto simp: ext4_jbd2_store_super_def op_simps Let_def)
qed

lemma flush_ckpt:
  assumes "ckpt D media s" "e4_flush D s = (r, s')"
  shows "ckpt D media s' \<and> same_rest s s' \<and> e4_bytes media s' = e4_bytes media s \<and> (r = Some () \<longrightarrow> medium media s' = e4_bytes media s)"
  using flush_spec [of D media s r s'] assms ckpt_rest [OF assms(1)] by (auto simp: ckpt_def)

text \<open>The contents seen stay the same outside the journal superblock.\<close>

definition ckpt_keeps :: "'d blkdrv \<Rightarrow> ('d \<Rightarrow> u64 \<Rightarrow> sector) \<Rightarrow> 'd ext4 \<Rightarrow> 'd ext4 \<Rightarrow> bool" where
  "ckpt_keeps D media s s' \<longleftrightarrow> ckpt D media s' \<and> jsb_ok s' \<and> ckpt_frame s s' \<and> jb_pending (jb s') = jb_pending (jb s)
     \<and> (\<forall>k. \<not> jsb_span s k \<longrightarrow> ckpt_view media s' k = ckpt_view media s k)"

lemma ckpt_keeps_trans:
  assumes "ckpt_keeps D media a b" "ckpt_keeps D media b c"
  shows "ckpt_keeps D media a c"
proof -
  have "jsb_span b = jsb_span a" using jsb_frame [of a b] assms(1) by (simp add: ckpt_keeps_def)
  then show ?thesis using assms ckpt_frame_trans [of a b c] by (simp add: ckpt_keeps_def)
qed

lemma ckpt_keeps_bytes:
  assumes "ckpt D media s" "jsb_ok s" "ckpt D media s'" "same_rest s s'"
    "\<forall>k. \<not> jsb_span s k \<longrightarrow> e4_bytes media s' k = e4_bytes media s k"
  shows "ckpt_keeps D media s s'"
proof -
  have bs: "jb_block_size (jb s) \<noteq> 0" "\<forall>p \<in> set (jb_pending (jb s)). \<forall>d \<in> set (p_dirty p). dirty_ok (jb_block_size (jb s)) d"
    using assms(1) by (auto simp: ckpt_def jb_ok_def)
  have eq: "jb s' = jb s" using assms(4) by (simp add: same_rest_def)
  have "ckpt_view media s' k = ckpt_view media s k" if "\<not> jsb_span s k" for k
    unfolding ckpt_view_def eq by (rule pending_cong [OF bs]) (use assms(5) that in blast)
  moreover have "ckpt_frame s s'" using ckpt_frame_rest [OF assms(4)] .
  ultimately show ?thesis using assms(2,3) jsb_frame [of s s'] eq by (simp add: ckpt_keeps_def)
qed

lemma flush_keeps: "ckpt D media s \<Longrightarrow> jsb_ok s \<Longrightarrow> e4_flush D s = (r, s') \<Longrightarrow> ckpt_keeps D media s s'"
  by (rule ckpt_keeps_bytes) (use flush_ckpt [of D media s r s'] in auto)

lemma store_keeps: "ckpt D media s \<Longrightarrow> jsb_ok s \<Longrightarrow> ext4_jbd2_store_super D s = (r, s') \<Longrightarrow> ckpt_keeps D media s s'"
  by (rule ckpt_keeps_bytes) (use store_super_spec [of D media s r s'] in auto)

lemma stamp_keeps:
  "ckpt D media s \<Longrightarrow> jsb_ok s
     \<Longrightarrow> ckpt_keeps D media s (set_bypass False (upd_jb (\<lambda>b. b\<lparr>jb_last_checkpoint_tick := t\<rparr>) s))"
  by (auto simp: ckpt_keeps_def set_bypass_def ckpt_def jb_ok_def jsb_ok_def ckpt_frame_def ckpt_view_def)

lemma ckpt_seq:
  assumes "seq m f s = (r, s')" "ckpt D media s" "jsb_ok s"
    "\<And>q s1. ckpt D media s \<Longrightarrow> jsb_ok s \<Longrightarrow> m s = (q, s1) \<Longrightarrow> ckpt_keeps D media s s1"
    "\<And>x s1. ckpt D media s1 \<Longrightarrow> jsb_ok s1 \<Longrightarrow> f x s1 = (r, s') \<Longrightarrow> ckpt_keeps D media s1 s'"
  shows "ckpt_keeps D media s s'"
  using assms(1)
proof (cases rule: seq_elim)
  case (fails s1)
  then show ?thesis using assms(2-4) by simp
next
  case (goes x s1)
  have k: "ckpt_keeps D media s s1" using assms(2-4) goes(1) by blast
  then have "ckpt D media s1" "jsb_ok s1" by (auto simp: ckpt_keeps_def)
  then show ?thesis using ckpt_keeps_trans [OF k] assms(5) goes(2) by blast
qed

lemma checkpoint_finish:
  assumes c: "ckpt D media s" and j: "jsb_ok s" and run:
    "seq (e4_flush D) (\<lambda>_. seq (ext4_jbd2_store_super D) (\<lambda>_. seq (e4_flush D) (\<lambda>_.
       modify (\<lambda>s. set_bypass False (upd_jb (\<lambda>b. b\<lparr>jb_last_checkpoint_tick := ticks s\<rparr>) s))))) s = (r, s')"
  shows "ckpt_keeps D media s s'"
  by (rule ckpt_seq [OF run c j flush_keeps], assumption+)
    (erule (2) ckpt_seq [OF _ _ _ store_keeps], assumption+,
      erule (2) ckpt_seq [OF _ _ _ flush_keeps], assumption+, auto simp: modify_def intro: stamp_keeps)

lemma seq_last: "seq m f s = (Some x, s') \<Longrightarrow> \<exists>y s1. f y s1 = (Some x, s')"
  by (auto simp: seq_def split: option.splits prod.splits)

lemma checkpoint_spec:
  assumes c: "ckpt D media s" and nb: "\<not> jb_io_bypass (jb s)" and j: "jsb_ok s"
  shows "case ext4_jbd2_checkpoint_some D n s of (r, s') \<Rightarrow>
    (\<forall>k. \<not> jsb_span s k \<longrightarrow> ckpt_view media s' k = ckpt_view media s k) \<and> ckpt D media s' \<and> \<not> jb_io_bypass (jb s')
    \<and> ckpt_frame s s'
    \<and> (r = Some () \<longrightarrow> jb_pending (jb s') = drop n (jb_pending (jb s)))"
proof (cases "jb_pending (jb s) = []")
  case True
  then show ?thesis using c nb by (simp add: ext4_jbd2_checkpoint_some_def ckpt_frame_def)
next
  case False
  define a where "a = set_bypass True s"
  let ?body = "seq (checkpoint_loop D n) (\<lambda>_. seq (e4_flush D) (\<lambda>_. seq (ext4_jbd2_store_super D) (\<lambda>_. seq (e4_flush D) (\<lambda>_.
       modify (\<lambda>s. set_bypass False (upd_jb (\<lambda>b. b\<lparr>jb_last_checkpoint_tick := ticks s\<rparr>) s))))))"
  obtain r s' where run: "?body a = (r, s')" by fastforce
  have ca: "ckpt D media a" "ckpt_view media a = ckpt_view media s" "jsb_ok a" "jsb_span a = jsb_span s" "jb_pending (jb a) = jb_pending (jb s)"
    using c j by (auto simp: a_def set_bypass_def ckpt_def jb_ok_def ckpt_view_def jsb_ok_def jsb_span_def)
  have main: "ckpt D media s' \<and> ckpt_frame a s' \<and> (\<forall>k. \<not> jsb_span s k \<longrightarrow> ckpt_view media s' k = ckpt_view media s k)
    \<and> (r = Some () \<longrightarrow> \<not> jb_io_bypass (jb s') \<and> jb_pending (jb s') = drop n (jb_pending (jb s)))"
    using run
  proof (cases rule: seq_elim)
    case (fails s1)
    then show ?thesis using checkpoint_loop_spec [OF ca(1)] ca by auto
  next
    case (goes x s1)
    have l: "ckpt D media s1" "ckpt_frame a s1" "ckpt_view media s1 = ckpt_view media s" "jb_pending (jb s1) = drop n (jb_pending (jb s))"
      using checkpoint_loop_spec [OF ca(1) goes(1)] ca by auto
    have "jsb_ok s1" "jsb_span s1 = jsb_span s" using jsb_frame [OF l(2)] ca by auto
    then have k: "ckpt_keeps D media s1 s'" "jsb_span s1 = jsb_span s" using checkpoint_finish [OF l(1) _ goes(2)] by auto
    have "\<not> jb_io_bypass (jb s')" if r: "r = Some ()"
      using goes(2) unfolding r by (auto dest!: seq_last simp: modify_def set_bypass_def)
    then show ?thesis using k l(3,4) ckpt_frame_trans [OF l(2)] by (simp add: ckpt_keeps_def)
  qed
  have eq: "ext4_jbd2_checkpoint_some D n s = (r, if r = None then set_bypass False s' else s')"
    using c False run by (auto simp: ext4_jbd2_checkpoint_some_def ckpt_def on_fail_def a_def split: option.splits)
  have "ckpt_frame s s'" "ckpt_frame s (set_bypass False s')"
    using main by (simp_all add: a_def ckpt_frame_def set_bypass_def)
  moreover have "ckpt D media (set_bypass False s')" "ckpt_view media (set_bypass False s') = ckpt_view media s'"
    "\<not> jb_io_bypass (jb (set_bypass False s'))"
    using main by (auto simp: set_bypass_def ckpt_def jb_ok_def ckpt_view_def)
  ultimately show ?thesis using main eq by (cases r) auto
qed


definition ckpt_example :: "(u64 \<Rightarrow> sector) \<Rightarrow> (u64 \<Rightarrow> sector) ext4" where
  "ckpt_example d = upd_jb (\<lambda>b. b\<lparr>jb_tx_active := False, jb_journal_meta := meta_zero\<lparr>m_block := replicate 15 20\<rparr>,
     jb_pending := [\<lparr>p_seq = 1, p_start = 1, p_end = 4, p_dirty = [\<lparr>d_fs_block = 5, d_data = replicate 1024 7\<rparr>]\<rparr>]\<rparr>)
     (jbd2_example d)"

lemma ckpt_example:
  assumes "\<And>l. length (d l) = 512"
  shows "ckpt (mem_disk 1024) (\<lambda>d. d) (ckpt_example d)" "\<not> jb_io_bypass (jb (ckpt_example d))" "jsb_ok (ckpt_example d)"
    "jsb_span (ckpt_example d) = in_span 20480 1024" "mounted (fs (ckpt_example d))"
    "fs_view (\<lambda>d. d) (ckpt_example d) = put_bytes 5120 (replicate 1024 7) (byte_at d)"
  using jbd2_example [of d] assms
  by (simp_all add: ckpt_example_def jbd2_example_def jtx_def ckpt_def disk_good_def jb_ok_def jsb_ok_def jsb_span_def
      shallow_def jsb_block_def uses_extents_def meta_zero_def example_fs_def dirty_ok_def jbd2_zero_def journal_zero_def
      fs_view_def jl_view_def tx_view_def pend_view_def put_dirty_def example_bytes)


section \<open>Syncing\<close>

lemma sync_loop_spec:
  assumes "ckpt D media s" "\<not> jb_io_bypass (jb s)" "jsb_ok s" "sync_loop D n s = (r, s')"
  shows "ckpt D media s' \<and> ckpt_frame s s' \<and> \<not> jb_io_bypass (jb s')
    \<and> (\<forall>k. \<not> jsb_span s k \<longrightarrow> ckpt_view media s' k = ckpt_view media s k)
    \<and> (r = Some () \<longrightarrow> length (jb_pending (jb s)) \<le> n \<longrightarrow> jb_pending (jb s') = [])"
  using assms
proof (induction n arbitrary: s)
  case 0
  then show ?case by (simp add: ret_def ckpt_frame_def)
next
  case (Suc n)
  show ?case
  proof (cases "jb_pending (jb s) = []")
    case True
    then show ?thesis using Suc.prems by (simp add: ckpt_frame_def)
  next
    case False
    have "seq (ext4_jbd2_checkpoint_some D EXT4_JBD2_CHECKPOINT_BATCH) (\<lambda>_. sync_loop D n) s = (r, s')"
      using Suc.prems(4) False by simp
    then show ?thesis
    proof (cases rule: seq_elim)
      case (fails s1)
      then show ?thesis using checkpoint_spec [OF Suc.prems(1-3), of EXT4_JBD2_CHECKPOINT_BATCH] by simp
    next
      case (goes x s1)
      then have k: "ckpt D media s1" "\<not> jb_io_bypass (jb s1)" "ckpt_frame s s1"
        "\<forall>k. \<not> jsb_span s k \<longrightarrow> ckpt_view media s1 k = ckpt_view media s k"
        "jb_pending (jb s1) = drop EXT4_JBD2_CHECKPOINT_BATCH (jb_pending (jb s))"
        using checkpoint_spec [OF Suc.prems(1-3), of EXT4_JBD2_CHECKPOINT_BATCH] by simp_all
      note f = jsb_frame [OF k(3)]
      have "length (jb_pending (jb s1)) \<le> n" if "length (jb_pending (jb s)) \<le> Suc n"
        using that k(5) by simp
      then show ?thesis
        using Suc.IH [OF k(1,2) _ goes(2)] f Suc.prems(3) k(4) ckpt_frame_trans [OF k(3)] by simp
    qed
  qed
qed

section \<open>Progress of a sync\<close>

text \<open>On a device that serves its transfers, with the journal's superblock and the waiting blocks inside the partition.\<close>

definition blk_in :: "ext4_fs \<Rightarrow> u64 \<Rightarrow> bool" where
  "blk_in F b \<longleftrightarrow> unat (b * ucast (block_size F)) + unat (block_size F) \<le> 512 * unat (source_lba_count F)
     \<and> unat (b * ucast (block_size F)) + unat (block_size F) < 2 ^ 64"

definition jsb_live :: "'d blkdrv \<Rightarrow> ext4_fs \<Rightarrow> ext4_meta \<Rightarrow> bool" where
  "jsb_live D F m \<longleftrightarrow> (\<forall>s. ext4_map_file_block D m 0 s = (Some (jsb_block m), s)) \<and> jsb_block m \<noteq> 0 \<and> blk_in F (jsb_block m)"

definition ckpt_live :: "'d blkdrv \<Rightarrow> ('d \<Rightarrow> u64 \<Rightarrow> sector) \<Rightarrow> ext4_fs \<Rightarrow> ext4_meta \<Rightarrow> 'd ext4 \<Rightarrow> bool" where
  "ckpt_live D media F m s \<longleftrightarrow> ckpt D media s \<and> disk_good D media s \<and> fs s = F \<and> jb_journal_meta (jb s) = m
     \<and> jb_block_size (jb s) \<le> 4096 \<and> jl_ok (jl s) \<and> \<not> jl_tx_active (jl s)
     \<and> (\<forall>p \<in> set (jb_pending (jb s)). \<forall>d \<in> set (p_dirty p). blk_in F (d_fs_block d))"

lemma ckpt_live_rest: "ckpt_live D media F m s \<Longrightarrow> disk_good D media s' \<Longrightarrow> same_rest s s' \<Longrightarrow> ckpt_live D media F m s'"
  using ckpt_rest [of D media s s'] by (auto simp: ckpt_live_def same_rest_def disk_good_def)

lemma flush_works [progress]: "works (ckpt_live D media F m) (e4_flush D)"
  unfolding works_def
proof (intro allI impI)
  fix s assume l: "ckpt_live D media F m s"
  then have "disk_good D media s" by (simp add: ckpt_live_def)
  then obtain s' where "e4_flush D s = (Some (), s')" "disk_good D media s'" "same_rest s s'" by (rule flush_total)
  then show "\<exists>x s'. e4_flush D s = (Some x, s') \<and> ckpt_live D media F m s'" using ckpt_live_rest [OF l] by blast
qed

lemma read_works [progress]: "blk_in F b \<Longrightarrow> works (ckpt_live D media F m) (ext4_read_block D b)"
  unfolding works_def
proof (intro allI impI)
  fix s assume b: "blk_in F b" and l: "ckpt_live D media F m s"
  have "disk_good D media s" "jl_ok (jl s)" "jb_ok (jb s)" "in_part s (b * ucast (block_size (fs s))) (unat (block_size (fs s)))"
    "unat (b * ucast (block_size (fs s))) + unat (block_size (fs s)) < 2 ^ 64"
    using b l by (auto simp: ckpt_live_def ckpt_def blk_in_def in_part_def)
  from disk_read_total [OF this] obtain q s' where
    "ext4_read_block D b s = (Some q, s')" "disk_good D media s'" "same_rest s s'"
    unfolding ext4_read_block_def by metis
  then show "\<exists>x s'. ext4_read_block D b s = (Some x, s') \<and> ckpt_live D media F m s'" using ckpt_live_rest [OF l] by blast
qed

lemma write_works_jb:
  assumes b: "blk_in F b"
  shows "works (\<lambda>s. ckpt_live D media F m s \<and> jb s = J) (ext4_write_block D b buf)"
  unfolding works_def
proof (intro allI impI)
  fix s assume "ckpt_live D media F m s \<and> jb s = J"
  then have l: "ckpt_live D media F m s" "jb s = J" by auto
  let ?src = "take (unat (block_size (fs s))) buf"
  have "disk_good D media s" "in_part s (b * ucast (block_size (fs s))) (length ?src)" "length ?src < 2 ^ 64"
    using b l by (auto simp: ckpt_live_def blk_in_def in_part_def)
  from write_total [OF this] obtain s' where
    "ext4_write_block D b buf s = (Some (), s')" "disk_good D media s'" "same_rest s s'"
    using l by (metis write_block_raw ckpt_live_def)
  then show "\<exists>x s'. ext4_write_block D b buf s = (Some x, s') \<and> ckpt_live D media F m s' \<and> jb s' = J"
    using ckpt_live_rest [OF l(1)] l(2) by (auto simp: same_rest_def)
qed

lemma write_works [progress]: "blk_in F b \<Longrightarrow> works (ckpt_live D media F m) (ext4_write_block D b buf)"
  using write_works_jb [of F b D media m _ buf] by (fastforce simp: works_def)

lemma map_works: "jsb_live D F m \<Longrightarrow> seq (ext4_map_file_block D m 0) f = f (jsb_block m)"
  by (simp add: jsb_live_def seq_def fun_eq_iff)

lemma store_works [progress]:
  assumes "jsb_live D F m"
  shows "works (ckpt_live D media F m) (ext4_jbd2_store_super D)"
proof -
  have b: "jsb_block m \<noteq> 0" "blk_in F (jsb_block m)" using assms by (auto simp: jsb_live_def)
  have w: "works (ckpt_live D media F m) (seq (ext4_jbd2_read_jblock D m 0) (\<lambda>sb. ext4_jbd2_write_jblock D m 0 (g sb)))" for g
    unfolding ext4_jbd2_read_jblock_def ext4_jbd2_write_jblock_def map_works [OF assms]
    by (intro progress b)
  have "\<exists>x s'. ext4_jbd2_store_super D s = (Some x, s') \<and> ckpt_live D media F m s'" if l: "ckpt_live D media F m s" for s
  proof -
    have e: "jb_enabled (jb s)" "\<not> 4096 < jb_block_size (jb s)" "jb_journal_meta (jb s) = m"
      using l by (auto simp: ckpt_live_def ckpt_def)
    obtain g where "ext4_jbd2_store_super D s = seq (ext4_jbd2_read_jblock D m 0) (\<lambda>sb. ext4_jbd2_write_jblock D m 0 (g sb)) s"
      using e by (simp add: ext4_jbd2_store_super_def op_simps Let_def)
    then show ?thesis using worksD [OF w l] by simp
  qed
  then show ?thesis by (simp add: works_def)
qed

lemma loop_works [progress]: "works (ckpt_live D media F m) (checkpoint_loop D n)"
proof (induction n)
  case 0
  show ?case by (simp add: works_ret)
next
  case (Suc n)
  have "\<exists>x s'. checkpoint_loop D (Suc n) s = (Some x, s') \<and> ckpt_live D media F m s'" if l: "ckpt_live D media F m s" for s
  proof (cases "jb_pending (jb s)")
    case Nil
    then show ?thesis using l by simp
  next
    case (Cons p ps)
    have "works (\<lambda>t. ckpt_live D media F m t \<and> jb t = jb s)
        (for_each (\<lambda>d. ext4_write_block D (d_fs_block d) (d_data d)) (p_dirty p))"
      by (intro works_for_each write_works_jb) (use l Cons in \<open>auto simp: ckpt_live_def\<close>)
    then obtain x s1 where w: "for_each (\<lambda>d. ext4_write_block D (d_fs_block d) (d_data d)) (p_dirty p) s = (Some x, s1)"
        "ckpt_live D media F m s1" "jb s1 = jb s"
      using worksD [of _ _ s] l by fastforce
    define s2 where "s2 = upd_jb (\<lambda>b. ext4_jbd2_refresh_start_tail (b\<lparr>jb_pending := tl (jb_pending b)\<rparr>)) s1"
    have "ckpt_live D media F m s2"
      using w(2,3) Cons by (auto simp: s2_def ckpt_live_def ckpt_def jb_ok_def)
    from worksD [OF Suc this] show ?thesis
      using w(1,3) Cons by (simp add: seq_def ext4_jbd2_pending_pop_def s2_def)
  qed
  then show ?case by (simp add: works_def)
qed

lemma some_works [progress]:
  assumes "jsb_live D F m"
  shows "works (ckpt_live D media F m) (ext4_jbd2_checkpoint_some D n)"
proof -
  have byp: "ckpt_live D media F m (upd_jb (\<lambda>b. b\<lparr>jb_last_checkpoint_tick := t\<rparr>) s) = ckpt_live D media F m s"
    "ckpt_live D media F m (set_bypass v s) = ckpt_live D media F m s" for v t s
    by (auto simp: ckpt_live_def ckpt_def set_bypass_def jb_ok_def)
  let ?body = "on_fail (set_bypass False) (seq (checkpoint_loop D n) (\<lambda>_. seq (e4_flush D) (\<lambda>_. seq (ext4_jbd2_store_super D) (\<lambda>_.
    seq (e4_flush D) (\<lambda>_. modify (\<lambda>s. set_bypass False (upd_jb (\<lambda>b. b\<lparr>jb_last_checkpoint_tick := ticks s\<rparr>) s)))))))"
  have w: "works (ckpt_live D media F m) ?body" by (intro progress assms) (simp add: byp)
  have "\<exists>x s'. ext4_jbd2_checkpoint_some D n s = (Some x, s') \<and> ckpt_live D media F m s'" if l: "ckpt_live D media F m s" for s
    using worksD [OF w, of "set_bypass True s"] l by (simp add: ext4_jbd2_checkpoint_some_def byp)
  then show ?thesis by (simp add: works_def)
qed

lemma sync_loop_works [progress]: "jsb_live D F m \<Longrightarrow> works (ckpt_live D media F m) (sync_loop D n)"
proof (induction n)
  case 0
  show ?case by (simp add: works_ret)
next
  case (Suc n)
  have w: "works (ckpt_live D media F m) (seq (ext4_jbd2_checkpoint_some D EXT4_JBD2_CHECKPOINT_BATCH) (\<lambda>_. sync_loop D n))"
    by (intro progress Suc)
  have "\<exists>x s'. sync_loop D (Suc n) s = (Some x, s') \<and> ckpt_live D media F m s'" if "ckpt_live D media F m s" for s
    using worksD [OF w that] that by simp
  then show ?case by (simp add: works_def)
qed

lemma sync_total:
  assumes l: "ckpt_live D media (fs s) (jb_journal_meta (jb s)) s" and j: "jsb_live D (fs s) (jb_journal_meta (jb s))"
  shows "\<exists>s'. ext4_sync_filesystem D s = (Some (), s')"
proof (cases "mounted (fs s)")
  case True
  let ?P = "\<lambda>s'. ckpt_live D media (fs s) (jb_journal_meta (jb s)) s'"
  have w: "works ?P (seq (sync_loop D n) (\<lambda>_. ext4_jbd2_store_super D))" for n by (intro progress j)
  obtain s1 where s1: "seq (sync_loop D (length (jb_pending (jb s)))) (\<lambda>_. ext4_jbd2_store_super D) s = (Some (), s1)" "?P s1"
    using worksD [OF w l] by auto
  have "\<not> jl_tx_active (jl s1)" using s1(2) by (simp add: ckpt_live_def)
  moreover obtain s2 where "e4_flush D s1 = (Some (), s2)" using worksD [OF flush_works s1(2)] by auto
  ultimately show ?thesis using True l s1(1)
    by (simp add: ext4_sync_filesystem_def ckpt_live_def ckpt_def op_simps) (simp add: seq_def op_simps)
qed (simp add: ext4_sync_filesystem_def)


lemma ckpt_example_live:
  assumes "\<And>l. length (d l) = 512"
  defines "s \<equiv> ckpt_example d"
  shows "ckpt_live (mem_disk 1024) (\<lambda>d. d) (fs s) (jb_journal_meta (jb s)) s" "jsb_live (mem_disk 1024) (fs s) (jb_journal_meta (jb s))"
proof -
  have g: "disk_good (mem_disk 1024) (\<lambda>d. d) s" using jbd2_example(1) [of d] assms(1) by (simp add: s_def ckpt_example_def)
  show "ckpt_live (mem_disk 1024) (\<lambda>d. d) (fs s) (jb_journal_meta (jb s)) s"
    using ckpt_example(1) [of d] g assms(1)
    by (simp add: ckpt_live_def s_def) (simp add: ckpt_example_def jbd2_example_def example_fs_def blk_in_def jbd2_zero_def
      journal_zero_def jl_ok_def)
  show "jsb_live (mem_disk 1024) (fs s) (jb_journal_meta (jb s))"
    by (simp add: jsb_live_def s_def ckpt_example_def jbd2_example_def example_fs_def blk_in_def jsb_block_def uses_extents_def
      meta_zero_def ext4_map_file_block_def ext4_map_block_direct_def op_simps)
qed




end
