(* ===== verification/Ext4Modes.thy ===== *)
theory Ext4Modes
  imports Ext4Store RedoLog Jbd2View
begin

text \<open>
  The three ways in which \<^verbatim>\<open>ext4_disk_read_bytes\<close> and \<^verbatim>\<open>ext4_disk_write_bytes\<close> (\<^verbatim>\<open>src/kernel/ext4.c\<close>)
  reach the partition keep the contract of \<open>disk_bytes\<close>: straight to the block cache, inside a
  transaction of the redo log, and inside a JBD2 transaction. With it, what block allocation and
  release do to the bitmaps holds in each of them.
\<close>

section \<open>Straight to the disk\<close>

lemma fs_counts_upd [simp]:
  "disk_ok D media (upd_fs (\<lambda>f. f\<lparr>free_blocks_count := c\<rparr>) s) = disk_ok D media s"
  "disk_ok D media (upd_fs (\<lambda>f. f\<lparr>free_inodes_count := n\<rparr>) s) = disk_ok D media s"
  "e4_bytes media (upd_fs g s) = e4_bytes media s" "fs_view media (upd_fs g s) = fs_view media s"
  by (simp_all add: disk_ok_def e4_bytes_def st_view_def src_dev_def fs_view_def)

definition plain :: "'d blkdrv \<Rightarrow> ('d \<Rightarrow> u64 \<Rightarrow> sector) \<Rightarrow> 'd ext4 \<Rightarrow> bool" where
  "plain D media s \<longleftrightarrow> disk_ok D media s \<and> jl_ok (jl s) \<and> jb_ok (jb s) \<and> \<not> jb_enabled (jb s) \<and> \<not> jl_tx_active (jl s)"

definition no_wrap :: "u64 \<Rightarrow> nat \<Rightarrow> bool" where "no_wrap off n \<longleftrightarrow> unat off + n < 2 ^ 64"

lemma plain_view: "plain D media s \<Longrightarrow> fs_view media s = e4_bytes media s"
  by (simp add: plain_def fs_view_def jl_view_def tx_view_def pend_view_def)

lemma plain_rest: "plain D media s \<Longrightarrow> disk_ok D media s' \<Longrightarrow> same_rest s s' \<Longrightarrow> plain D media s'"
  by (simp add: plain_def same_rest_def)

interpretation direct: disk_bytes D "plain D media" "fs_view media" no_wrap for D media
proof
  fix s s' :: "'a ext4" and off n r
  assume p: "plain D media s" and n: "no_wrap off n" and rd: "ext4_disk_read_bytes D off n s = (r, s')"
  have "disk_ok D media s" "jl_ok (jl s)" "jb_ok (jb s)" using p by (auto simp: plain_def)
  note sp = disk_read_spec [OF this rd n [unfolded no_wrap_def]]
  then show "plain D media s' \<and> fs s' = fs s \<and> fs_view media s' = fs_view media s
      \<and> (\<forall>bs. r = Some bs \<longrightarrow> bs = get_bytes (fs_view media s) off n)"
    using plain_rest [OF p sp(1,2)] by (auto simp: fs_view_def same_rest_def)
next
  fix s s' :: "'a ext4" and off buf q
  assume p: "plain D media s" and n: "no_wrap off (length buf)" and wr: "ext4_disk_write_bytes D off buf s = (q, s')"
  have ok: "disk_ok D media s" using p by (simp add: plain_def)
  have raw: "ext4_raw_write_bytes D off buf s = (q, s')" using wr p by (simp add: ext4_disk_write_bytes_def Let_def plain_def)
  have len: "length buf < 2 ^ 64" using n by (simp add: no_wrap_def)
  note sp = raw_write_spec [OF ok raw len]
  note p' = plain_rest [OF p sp(1,2)]
  have "\<exists>n. e4_bytes media s' = put_bytes off (take n buf) (e4_bytes media s) \<and> (q \<noteq> None \<longrightarrow> length buf \<le> n)"
  proof (cases q)
    case None
    then show ?thesis using sp(4) by blast
  next
    case (Some u)
    then show ?thesis using sp(3) by (intro exI [of _ "length buf"]) simp
  qed
  then show "plain D media s' \<and> fs s' = fs s
      \<and> (\<exists>n. fs_view media s' = put_bytes off (take n buf) (fs_view media s) \<and> (q \<noteq> None \<longrightarrow> length buf \<le> n))"
    using p' sp(2) by (simp add: plain_view [OF p] plain_view [OF p'] same_rest_def)
next
  fix s :: "'a ext4" and b
  assume "plain D media s"
  then show "plain D media (ext4_jbd2_note_revoke b s) \<and> fs (ext4_jbd2_note_revoke b s) = fs s
      \<and> (\<forall>k. \<not> in_span (b * ucast (block_size (fs s))) (unat (block_size (fs s))) k
            \<longrightarrow> fs_view media (ext4_jbd2_note_revoke b s) k = fs_view media s k)"
    by (simp add: ext4_jbd2_note_revoke_def plain_def)
qed (simp_all add: plain_def)

section \<open>Inside a transaction of the redo log\<close>

text \<open>Everything outside the log's region, at \<open>base\<close>.\<close>

definition redo_tx :: "'d blkdrv \<Rightarrow> ('d \<Rightarrow> u64 \<Rightarrow> sector) \<Rightarrow> u64 \<Rightarrow> 'd ext4 \<Rightarrow> bool" where
  "redo_tx D media base s \<longleftrightarrow> jl_tx D media s \<and> jb_ok (jb s) \<and> jl_base_off (jl s) = base"

definition redo_view :: "('d \<Rightarrow> u64 \<Rightarrow> sector) \<Rightarrow> u64 \<Rightarrow> 'd ext4 \<Rightarrow> u64 \<Rightarrow> u8" where
  "redo_view media base s k = (if in_span base 262144 k then 0 else fs_view media s k)"

definition outside_log :: "u64 \<Rightarrow> u64 \<Rightarrow> nat \<Rightarrow> bool" where
  "outside_log base off n \<longleftrightarrow> unat off + n < 2 ^ 64 \<and> (unat off + n \<le> unat base \<or> unat base + 262144 \<le> unat off)"

lemma redo_fs_view: "jl_tx D media s \<Longrightarrow> fs_view media s = apply_recs (jl s) (e4_bytes media s)"
  by (simp add: jl_tx_def fs_view_def jl_view_def tx_view_def pend_view_def)

lemma redo_view_get: "outside_log base off n \<Longrightarrow> get_bytes (redo_view media base s) off n = get_bytes (fs_view media s) off n"
  by (intro get_bytes_cong) (auto simp: redo_view_def outside_log_def in_span_def unat_add_small)

lemma redo_view_put:
  assumes "outside_log base off (length buf)" "\<And>k. \<not> in_span base 262144 k \<Longrightarrow> fs_view media s' k = put_bytes off buf (fs_view media s) k"
  shows "redo_view media base s' = put_bytes off buf (redo_view media base s)"
  using assms by (intro ext) (auto simp: redo_view_def put_bytes_span outside_log_def in_span_def)

lemma put_bytes_cong: "f k = g k \<Longrightarrow> put_bytes off bs f k = put_bytes off bs g k" by (simp add: put_bytes_def)

lemma logged_view:
  assumes tx: "jl_tx D media s" and lg: "jl_logged D media s s'" and out: "\<not> region (jl s) k"
    and ap: "\<And>f. apply_recs (jl s') f = put_bytes off buf (apply_recs (jl s) f)"
  shows "fs_view media s' k = put_bytes off buf (fs_view media s) k"
proof -
  have tx': "jl_tx D media s'" "e4_bytes media s' k = e4_bytes media s k" using lg out by (auto simp: jl_logged_def same_home_def)
  have "jl_ok (jl s)" using tx by (simp add: jl_tx_def)
  then have "apply_recs (jl s) (e4_bytes media s') k = apply_recs (jl s) (e4_bytes media s) k" using tx'(2) by (intro apply_recs_decided) auto
  then show ?thesis unfolding redo_fs_view [OF tx] redo_fs_view [OF tx'(1)] ap by (rule put_bytes_cong)
qed

interpretation redo: disk_bytes D "redo_tx D media base" "redo_view media base" "outside_log base" for D media base
proof
  fix s s' :: "'a ext4" and off n r
  assume p: "redo_tx D media base s" and n: "outside_log base off n" and rd: "ext4_disk_read_bytes D off n s = (r, s')"
  have tx: "jl_tx D media s" using p by (simp add: redo_tx_def)
  have nw: "unat off + n < 2 ^ 64" using n by (simp add: outside_log_def)
  have "disk_ok D media s" "jl_ok (jl s)" "jb_ok (jb s)" using p by (auto simp: redo_tx_def jl_tx_def)
  note sp = disk_read_spec [OF this rd nw]
  have "jl_tx D media s'" using jl_tx_rest [OF sp(2) tx sp(1)] tx sp(3) by (simp add: jl_tx_def)
  moreover have "fs_view media s' = fs_view media s" using sp(2,3) by (simp add: fs_view_def same_rest_def)
  ultimately show "redo_tx D media base s' \<and> fs s' = fs s \<and> redo_view media base s' = redo_view media base s
      \<and> (\<forall>bs. r = Some bs \<longrightarrow> bs = get_bytes (redo_view media base s) off n)"
    using p sp by (auto simp: redo_tx_def redo_view_def [abs_def] same_rest_def redo_view_get [OF n, unfolded redo_view_def [abs_def]])
next
  fix s s' :: "'a ext4" and off buf q
  assume p: "redo_tx D media base s" and n: "outside_log base off (length buf)" and wr: "ext4_disk_write_bytes D off buf s = (q, s')"
  have tx: "jl_tx D media s" and reg: "region (jl s) = in_span base 262144" using p by (auto simp: redo_tx_def region_def)
  have nw: "unat off + length buf < 2 ^ 64" using n by (simp add: outside_log_def)
  have w: "jl_logged D media s s'" "q = None \<Longrightarrow> jl s' = jl s"
      "q = Some () \<Longrightarrow> apply_recs (jl s') f = put_bytes off buf (apply_recs (jl s) f)" for f
    using jl_write_spec [OF tx wr nw] by auto
  have "redo_tx D media base s'" "fs s' = fs s" using p w(1) by (auto simp: redo_tx_def jl_logged_def)
  moreover have "redo_view media base s' = put_bytes off buf (redo_view media base s)" if "q = Some ()"
    using logged_view [OF tx w(1)] w(3) [OF that] reg by (intro redo_view_put [OF n]) auto
  moreover have "redo_view media base s' = put_bytes off [] (redo_view media base s)" if "q = None"
  proof (rule redo_view_put)
    show "outside_log base off (length [])" using n by (auto simp: outside_log_def)
    show "fs_view media s' k = put_bytes off [] (fs_view media s) k" if "\<not> in_span base 262144 k" for k
      using logged_view [OF tx w(1), of k off "[]"] that w(2) [OF \<open>q = None\<close>] reg by (simp add: put_bytes_def)
  qed
  ultimately show "redo_tx D media base s' \<and> fs s' = fs s
      \<and> (\<exists>n. redo_view media base s' = put_bytes off (take n buf) (redo_view media base s) \<and> (q \<noteq> None \<longrightarrow> length buf \<le> n))"
    by (cases q) (auto intro: exI [of _ 0] exI [of _ "length buf"])
next
  fix s :: "'a ext4" and b
  assume "redo_tx D media base s"
  then show "redo_tx D media base (ext4_jbd2_note_revoke b s) \<and> fs (ext4_jbd2_note_revoke b s) = fs s
      \<and> (\<forall>k. \<not> in_span (b * ucast (block_size (fs s))) (unat (block_size (fs s))) k
            \<longrightarrow> redo_view media base (ext4_jbd2_note_revoke b s) k = redo_view media base s k)"
    by (simp add: ext4_jbd2_note_revoke_def redo_tx_def jl_tx_def)
qed (simp_all add: redo_tx_def jl_tx_def redo_view_def fun_eq_iff)

section \<open>Inside a JBD2 transaction\<close>

definition jbd2_tx :: "'d blkdrv \<Rightarrow> ('d \<Rightarrow> u64 \<Rightarrow> sector) \<Rightarrow> 'd ext4 \<Rightarrow> bool" where
  "jbd2_tx D media s \<longleftrightarrow> jtx D media s \<and> jb_block_size (jb s) = block_size (fs s)"

lemma jtx_enospc: "jtx D media s \<Longrightarrow> jtx_step D media s (upd_jb (\<lambda>b. b\<lparr>jb_tx_enospc := True\<rparr>) s)"
  by (simp add: jtx_step_def jtx_def jb_ok_def)

lemma alloc_dirty_spec:
  assumes tx: "jtx D media s" and q: "q < blocks_count (fs s)" "q \<notin> d_fs_block ` set (jb_tx_dirty (jb s))"
    and run: "ext4_jbd2_alloc_dirty D q s = (r, s')"
  shows "jtx_step D media s s' \<and> fs_view media s' = fs_view media s
    \<and> (\<forall>i. r = Some i \<longrightarrow> i < length (jb_tx_dirty (jb s')) \<and> d_fs_block (jb_tx_dirty (jb s') ! i) = q)"
proof (cases "length (jb_tx_dirty (jb s)) \<ge> 256")
  case True
  then show ?thesis
    using run jtx_enospc [OF tx] by (auto simp: ext4_jbd2_alloc_dirty_def Let_def fs_view_def pend_view_def tx_view_def)
next
  case False
  let ?bs = "jb_block_size (jb s)"
  obtain v s1 where rd: "ext4_disk_read_bytes D (q * ucast ?bs) (unat ?bs) s = (v, s1)" by fastforce
  note b = block_in_space [OF tx q(1)]
  have "disk_ok D media s" "jl_ok (jl s)" "jb_ok (jb s)" using tx by (auto simp: jtx_def)
  from disk_read_spec [OF this rd] b have sp: "disk_ok D media s1" "same_rest s s1" "e4_bytes media s1 = e4_bytes media s"
      "v = Some data \<Longrightarrow> data = get_bytes (fs_view media s) (q * ucast ?bs) (unat ?bs)" for data by auto
  have j1: "jb s1 = jb s" "jl s1 = jl s" "fs s1 = fs s" using sp(2) by (auto simp: same_rest_def)
  show ?thesis
  proof (cases v)
    case None
    then have "s' = s1" "r = None" using run False rd by (auto simp: ext4_jbd2_alloc_dirty_def Let_def seq_def)
    then show ?thesis using sp j1 tx by (simp add: jtx_step_def jtx_def fs_view_def)
  next
    case (Some data)
    then have "s' = upd_jb (add_dirty q data) s1" "r = Some (length (jb_tx_dirty (jb s)))"
      using run False rd by (auto simp: ext4_jbd2_alloc_dirty_def Let_def seq_def add_dirty_def [abs_def])
    then show ?thesis using add_dirty_step [OF tx q sp(1-3) sp(4) [OF Some]] j1 by (simp add: add_dirty_def nth_append)
  qed
qed

lemma tx_write_spec:
  assumes "jtx D media s" "unat off + length src < 2 ^ 64" "tx_write_loop D off src s = (r, s')"
  shows "jtx_step D media s s' \<and> (\<exists>n. fs_view media s' = put_bytes off (take n src) (fs_view media s) \<and> (r \<noteq> None \<longrightarrow> length src \<le> n))"
  using assms
proof (induction src arbitrary: off s rule: measure_induct_rule [where f = length])
  case (less src)
  let ?bs = "unat (jb_block_size (jb s))" and ?w = "ucast (jb_block_size (jb s)) :: u64"
  define c where "c = min (?bs - unat (off mod ?w)) (length src)"
  have none: "put_bytes off (take 0 src) f = f" for f by (simp add: put_bytes_def)
  have stop: ?case if "jtx_step D media s s'" "fs_view media s' = fs_view media s" "r = None \<or> src = []"
    using that none by (intro conjI exI [of _ 0]) auto
  show ?case
  proof (cases "src = [] \<or> blocks_count (fs s) \<le> off div ?w \<or> jb_block_size (jb s) = 0")
    case True
    then show ?thesis using less.prems jtx_step_refl by (intro stop) (auto simp: tx_write_loop.simps [of D off src s] Let_def split: if_splits)
  next
    case go: False
    have bs: "0 < ?bs" using go by (simp add: unat_gt_0)
    have q: "off div ?w < blocks_count (fs s)" using go by (simp add: not_le)
    let ?tk = "case ext4_jbd2_find_dirty (off div ?w) s of Some i \<Rightarrow> (Some i, s) | None \<Rightarrow> ext4_jbd2_alloc_dirty D (off div ?w) s"
    obtain k s1 where t: "?tk = (k, s1)" by fastforce
    have t1: "jtx_step D media s s1 \<and> fs_view media s1 = fs_view media s
        \<and> (\<forall>i. k = Some i \<longrightarrow> i < length (jb_tx_dirty (jb s1)) \<and> d_fs_block (jb_tx_dirty (jb s1) ! i) = off div ?w)"
    proof (cases "ext4_jbd2_find_dirty (off div ?w) s")
      case None
      then have "off div ?w \<notin> d_fs_block ` set (jb_tx_dirty (jb s))" by (simp add: ext4_jbd2_find_dirty_def find_dirty_None)
      then show ?thesis using alloc_dirty_spec [OF less.prems(1) q] t None by simp
    next
      case (Some i)
      then show ?thesis
        using t jtx_step_refl [OF less.prems(1)] find_dirty_Some [of "off div ?w" "jb_tx_dirty (jb s)" i]
        by (auto simp: ext4_jbd2_find_dirty_def)
    qed
    have run: "(case (k, s1) of (None, s1) \<Rightarrow> (None, s1) | (Some idx, s1) \<Rightarrow> tx_write_loop D (off + of_nat c) (drop c src)
        (upd_jb (patch_dirty idx (unat (off mod ?w)) (take c src) \<circ> ext4_jbd2_remove_revoke (off div ?w)) s1)) = (r, s')"
      using less.prems(3) go unfolding tx_write_loop.simps [of D off src s] Let_def c_def [symmetric] t by simp
    show ?thesis
    proof (cases k)
      case None
      then show ?thesis using run t1 by (intro stop) auto
    next
      case (Some i)
      define s2 where "s2 = upd_jb (patch_dirty i (unat (off mod ?w)) (take c src) \<circ> ext4_jbd2_remove_revoke (off div ?w)) s1"
      have s1: "jtx D media s1" "fs s1 = fs s" "jb_block_size (jb s1) = jb_block_size (jb s)" using t1 by (simp_all add: jtx_step_def)
      have c: "unat (off mod ?w) + length (take c src) \<le> unat (jb_block_size (jb s1))" "0 < c" "c \<le> length src"
        using bs go mod_less_divisor [OF bs, of "unat off"] by (auto simp: c_def s1 unat_mod)
      note p = patch_step [OF s1(1) _ c(1) s2_def]
      have "off div ?w * ?w + of_nat (unat (off mod ?w)) = off" by (simp add: word_mod_div_equality)
      then have v2: "fs_view media s2 = put_bytes off (take c src) (fs_view media s)" using p(2) t1 Some s1(3) by simp
      have st2: "jtx_step D media s s2" using t1 p(1) Some jtx_step_trans by blast
      have lp: "tx_write_loop D (off + of_nat c) (drop c src) s2 = (r, s')" using run Some by (simp add: s2_def)
      have "unat (off + of_nat c) = unat off + c" using less.prems(2) c(3) by (intro unat_add_small) linarith
      then obtain n where n: "jtx_step D media s2 s'" "fs_view media s' = put_bytes (off + of_nat c) (take n (drop c src)) (fs_view media s2)"
          "r \<noteq> None \<longrightarrow> length (drop c src) \<le> n"
        using less.IH [OF _ _ _ lp] st2 c(2,3) less.prems(2) go by (auto simp: jtx_step_def)
      have "put_bytes off (take (c + n) src) f = put_bytes (off + of_nat c) (take n (drop c src)) (put_bytes off (take c src) f)" for f
        using put_bytes_append [of "take c src" "take n (drop c src)" off f] less.prems(2) c(3) by (simp add: take_add)
      then show ?thesis using n v2 jtx_step_trans [OF st2 n(1)] by (intro conjI exI [of _ "c + n"]) auto
    qed
  qed
qed

lemma remove_dirty_set: "set (remove_dirty_in b ds) \<subseteq> set ds" by (induction ds) auto

lemma remove_dirty_distinct: "distinct (map d_fs_block ds) \<Longrightarrow> distinct (map d_fs_block (remove_dirty_in b ds))"
  using remove_dirty_set by (induction ds) fastforce+

lemma puts_remove:
  assumes "bs \<noteq> 0" "\<forall>d \<in> set ds. dirty_ok bs d" "unat k div unat bs \<noteq> unat b"
  shows "fold (put_dirty bs) (remove_dirty_in b ds) f k = fold (put_dirty bs) ds f k"
  using assms(2)
proof (induction ds arbitrary: f)
  case (Cons d ds)
  show ?case
  proof (cases "d_fs_block d = b")
    case True
    have ok: "dirty_ok bs d" using Cons.prems by simp
    have "\<not> in_span (d_fs_block d * ucast bs) (unat bs) k" using dirty_span_div [OF ok assms(1), of k] True assms(3) by simp
    then have "put_dirty bs d f k = f k" by (simp add: dirty_span [OF ok])
    then have "fold (put_dirty bs) ds f k = fold (put_dirty bs) ds (put_dirty bs d f) k"
      using Cons.prems by (intro puts_decided [OF assms(1)]) auto
    then show ?thesis using True by simp
  qed (use Cons in simp)
qed simp

lemma revoke_jtx:
  assumes tx: "jbd2_tx D media s"
  shows "jbd2_tx D media (ext4_jbd2_note_revoke b s)" "fs (ext4_jbd2_note_revoke b s) = fs s"
    "\<not> in_span (b * ucast (block_size (fs s))) (unat (block_size (fs s))) k \<Longrightarrow>
      fs_view media (ext4_jbd2_note_revoke b s) k = fs_view media s k"
proof -
  let ?s = "ext4_jbd2_note_revoke b s" and ?ds = "jb_tx_dirty (jb s)"
  have j: "jtx D media s" "jb_block_size (jb s) = block_size (fs s)" using tx by (auto simp: jbd2_tx_def)
  show "fs ?s = fs s" by (simp add: ext4_jbd2_note_revoke_def)
  show j': "jbd2_tx D media ?s"
    using j remove_dirty_set [of b ?ds] remove_dirty_distinct [of ?ds b]
    by (auto simp: jbd2_tx_def jtx_def jb_ok_def ext4_jbd2_note_revoke_def ext4_jbd2_remove_dirty_def Let_def)
  assume k: "\<not> in_span (b * ucast (block_size (fs s))) (unat (block_size (fs s))) k"
  show "fs_view media ?s k = fs_view media s k"
  proof (cases "b < blocks_count (fs s)")
    case True
    have ne: "jb_block_size (jb s) \<noteq> 0" and ok: "\<forall>d \<in> set ?ds. dirty_ok (jb_block_size (jb s)) d" using j(1) by (auto simp: jtx_def jb_ok_def)
    have "unat k div unat (jb_block_size (jb s)) \<noteq> unat b"
      using k block_in_space(2) [OF j(1) True] div_span [of "unat (jb_block_size (jb s))" "unat b" "unat k"] ne
      by (auto simp: in_span_def j(2) unat_gt_0)
    note pr = puts_remove [OF ne ok this]
    have "jb_tx_dirty (jb ?s) = remove_dirty_in b ?ds" "jb_block_size (jb ?s) = jb_block_size (jb s)"
        "jb_pending (jb ?s) = jb_pending (jb s)" "e4_bytes media ?s = e4_bytes media s"
      using j(1) True by (auto simp: jtx_def ext4_jbd2_note_revoke_def ext4_jbd2_remove_dirty_def Let_def)
    then show ?thesis using jtx_view [OF j(1)] jtx_view [of D media ?s] j' pr by (simp add: jbd2_tx_def)
  qed (simp add: ext4_jbd2_note_revoke_def not_less)
qed

interpretation jbd2: disk_bytes D "jbd2_tx D media" "fs_view media" no_wrap for D media
proof
  fix s s' :: "'a ext4" and off n r
  assume p: "jbd2_tx D media s" and n: "no_wrap off n" and rd: "ext4_disk_read_bytes D off n s = (r, s')"
  have "disk_ok D media s" "jl_ok (jl s)" "jb_ok (jb s)" using p by (auto simp: jbd2_tx_def jtx_def)
  note sp = disk_read_spec [OF this rd n [unfolded no_wrap_def]]
  have "fs_view media s' = fs_view media s" using sp(2,3) by (simp add: fs_view_def same_rest_def)
  then show "jbd2_tx D media s' \<and> fs s' = fs s \<and> fs_view media s' = fs_view media s
      \<and> (\<forall>bs. r = Some bs \<longrightarrow> bs = get_bytes (fs_view media s) off n)"
    using p sp by (auto simp: jbd2_tx_def jtx_def same_rest_def)
next
  fix s s' :: "'a ext4" and off buf q
  assume p: "jbd2_tx D media s" and n: "no_wrap off (length buf)" and wr: "ext4_disk_write_bytes D off buf s = (q, s')"
  have tx: "jtx D media s" using p by (simp add: jbd2_tx_def)
  have lp: "tx_write_loop D off buf s = (q, s')"
    using wr tx by (simp add: ext4_disk_write_bytes_def ext4_jbd2_tx_write_bytes_def jtx_def)
  note sp = tx_write_spec [OF tx n [unfolded no_wrap_def] lp]
  then show "jbd2_tx D media s' \<and> fs s' = fs s
      \<and> (\<exists>n. fs_view media s' = put_bytes off (take n buf) (fs_view media s) \<and> (q \<noteq> None \<longrightarrow> length buf \<le> n))"
    using p by (auto simp: jbd2_tx_def jtx_step_def)
next
  fix s :: "'a ext4" and b
  assume "jbd2_tx D media s"
  from revoke_jtx [OF this] show "jbd2_tx D media (ext4_jbd2_note_revoke b s) \<and> fs (ext4_jbd2_note_revoke b s) = fs s
      \<and> (\<forall>k. \<not> in_span (b * ucast (block_size (fs s))) (unat (block_size (fs s))) k
            \<longrightarrow> fs_view media (ext4_jbd2_note_revoke b s) k = fs_view media s k)" by blast
qed (auto simp: jbd2_tx_def jtx_def)

section \<open>The three together\<close>

datatype mode = Direct | Redo u64 | Jbd2

fun mode_inv :: "'d blkdrv \<Rightarrow> ('d \<Rightarrow> u64 \<Rightarrow> sector) \<Rightarrow> mode \<Rightarrow> 'd ext4 \<Rightarrow> bool" where
  "mode_inv D media Direct = plain D media"
| "mode_inv D media (Redo base) = redo_tx D media base"
| "mode_inv D media Jbd2 = jbd2_tx D media"

fun mode_view :: "('d \<Rightarrow> u64 \<Rightarrow> sector) \<Rightarrow> mode \<Rightarrow> 'd ext4 \<Rightarrow> u64 \<Rightarrow> u8" where
  "mode_view media (Redo base) = redo_view media base"
| "mode_view media m = fs_view media"

fun mode_usable :: "mode \<Rightarrow> u64 \<Rightarrow> nat \<Rightarrow> bool" where
  "mode_usable (Redo base) = outside_log base"
| "mode_usable m = no_wrap"

interpretation any: disk_bytes D "mode_inv D media m" "mode_view media m" "mode_usable m" for D media m
  by (cases m) (simp_all add: direct.disk_bytes_axioms redo.disk_bytes_axioms jbd2.disk_bytes_axioms)

section \<open>Allocation and release succeed\<close>

text \<open>Straight on a device that serves its transfers: the geometry is \<open>F\<close>, the contents are \<open>v\<close>.\<close>

definition served :: "'d blkdrv \<Rightarrow> ('d \<Rightarrow> u64 \<Rightarrow> sector) \<Rightarrow> ext4_fs \<Rightarrow> (u64 \<Rightarrow> u8) \<Rightarrow> 'd ext4 \<Rightarrow> bool" where
  "served D media F v s \<longleftrightarrow> plain D media s \<and> disk_good D media s \<and> fs s = F \<and> fs_view media s = v"

definition inside :: "ext4_fs \<Rightarrow> u64 \<Rightarrow> nat \<Rightarrow> bool" where
  "inside F off n \<longleftrightarrow> unat off + n \<le> 512 * unat (source_lba_count F) \<and> unat off + n < 2 ^ 64"

lemma served_read:
  assumes "served D media F v s" "inside F off n"
  obtains s' where "ext4_disk_read_bytes D off n s = (Some (get_bytes v off n), s')" "served D media F v s'"
proof -
  have p: "plain D media s" "disk_good D media s" "fs s = F" "fs_view media s = v" using assms(1) by (auto simp: served_def)
  have "jl_ok (jl s)" "jb_ok (jb s)" "in_part s off n" "unat off + n < 2 ^ 64"
    using p assms(2) by (auto simp: plain_def in_part_def inside_def)
  from disk_read_total [OF p(2) this] obtain s' where r: "ext4_disk_read_bytes D off n s = (Some (get_bytes v off n), s')"
      "disk_good D media s'" "same_rest s s'" "e4_bytes media s' = e4_bytes media s" using p(4) by auto
  have pl: "plain D media s'" using plain_rest [OF p(1) _ r(3)] r(2) by (simp add: disk_good_def)
  have "served D media F v s'"
    using p pl r plain_view [OF p(1)] plain_view [OF pl] by (simp add: served_def same_rest_def)
  from that [OF r(1) this] show thesis .
qed

lemma served_write:
  assumes "served D media F v s" "inside F off (length buf)"
  obtains s' where "ext4_disk_write_bytes D off buf s = (Some (), s')" "served D media F (put_bytes off buf v) s'"
proof -
  have p: "plain D media s" "disk_good D media s" "fs s = F" "fs_view media s = v" using assms(1) by (auto simp: served_def)
  have "in_part s off (length buf)" "length buf < 2 ^ 64" using p assms(2) by (auto simp: in_part_def inside_def)
  from write_total [OF p(2) this] obtain s' where w: "ext4_raw_write_bytes D off buf s = (Some (), s')"
      "disk_good D media s'" "same_rest s s'" "e4_bytes media s' = put_bytes off buf (e4_bytes media s)" by auto
  have pl: "plain D media s'" using plain_rest [OF p(1) _ w(3)] w(2) by (simp add: disk_good_def)
  have "ext4_disk_write_bytes D off buf s = (Some (), s')"
    using w(1) p(1) by (simp add: ext4_disk_write_bytes_def Let_def plain_def)
  moreover have "served D media F (put_bytes off buf v) s'"
    using p pl w plain_view [OF p(1)] plain_view [OF pl] by (simp add: served_def same_rest_def)
  ultimately show thesis by (rule that)
qed

text \<open>The metadata of group \<open>g\<close> and the superblock lie inside the partition.\<close>

definition group_inside :: "ext4_fs \<Rightarrow> u32 \<Rightarrow> u64 \<Rightarrow> bool" where
  "group_inside F g bb \<longleftrightarrow> g < groups_count F \<and> 32 \<le> desc_size F \<and> desc_size F \<le> block_size F
     \<and> inside F EXT4_SUPER_OFFSET EXT4_SUPER_SIZE \<and> inside F (ext4_group_desc_offset g F) (unat (desc_size F))
     \<and> inside F (bb * ucast (block_size F)) (unat (block_size F))"

lemma served_desc:
  assumes "served D media F v s" "group_inside F g bb"
  obtains s' where "ext4_group_read_desc D g s = (Some (desc_of F v g), s')" "served D media F v s'"
proof -
  have F: "fs s = F" using assms(1) by (simp add: served_def)
  obtain s' where "ext4_disk_read_bytes D (ext4_group_desc_offset g F) (unat (desc_size F)) s = (Some (desc_of F v g), s')"
      "served D media F v s'"
    using served_read [OF assms(1), of "ext4_group_desc_offset g F" "unat (desc_size F)"] assms(2)
    by (auto simp: group_inside_def desc_of_def)
  moreover from this have "ext4_group_read_desc D g s = (Some (desc_of F v g), s')"
    using F assms(2) by (simp add: ext4_group_read_desc_def op_simps group_inside_def not_le not_less)
  ultimately show thesis using that by blast
qed

lemma served_adjust:
  assumes sv: "served D media F v s" and g: "group_inside F g bb"
    and n: "db < 0 \<Longrightarrow> of_int (- db) \<le> ext4_group_get_count16 F (desc_of F v g) 0x0C 0x2C" "0 \<le> di"
  shows "\<exists>s' v'. ext4_group_adjust_free D g db di s = (Some (), s') \<and> served D media F v' s'"
proof -
  have F: "fs s = F" using sv by (simp add: served_def)
  obtain s1 where rd: "ext4_group_read_desc D g s = (Some (desc_of F v g), s1)" and s1: "served D media F v s1"
    using served_desc [OF sv g] .
  have F1: "fs s1 = F" using s1 by (simp add: served_def)
  have gd: "32 \<le> length (desc_of F v g)" "wide_desc F \<Longrightarrow> 64 \<le> length (desc_of F v g)"
    using g by (auto simp: group_inside_def wide_desc_def word_le_nat_alt)
  define gd2 where "gd2 = ext4_group_set_count16 F 0x0E 0x2E (ext4_group_get_count16 F (desc_of F v g) 0x0E 0x2E + of_int di)
    (ext4_group_set_count16 F 0x0C 0x2C (ext4_group_get_count16 F (desc_of F v g) 0x0C 0x2C + of_int db) (desc_of F v g))"
  have len: "length gd2 = unat (desc_size F)" unfolding gd2_def using gd by (simp add: ref_set_count)
  obtain s2 where w: "ext4_disk_write_bytes D (ext4_group_desc_offset g F) gd2 s1 = (Some (), s2)"
      "served D media F (put_bytes (ext4_group_desc_offset g F) gd2 v) s2"
    using served_write [OF s1, of "ext4_group_desc_offset g F" gd2] g len by (auto simp: group_inside_def)
  have "ext4_group_write_desc D g gd2 s1 = (Some (), s2)"
    using w(1) g F1 len by (simp add: ext4_group_write_desc_def op_simps group_inside_def not_le not_less)
  then have "ext4_group_adjust_free D g db di s = (Some (), s2)"
    using rd F1 n
    by (cases "db < 0") (simp_all add: ext4_group_adjust_free_def seq_def [of "ext4_group_read_desc D g"] op_simps Let_def gd2_def not_less)
  then show ?thesis using w(2) by blast
qed

lemma served_super:
  assumes sv: "served D media F v s" and g: "group_inside F g bb"
  shows "\<exists>s' v'. ext4_super_write_counts D s = (Some (), s') \<and> served D media F v' s'"
proof -
  obtain s1 where r: "ext4_disk_read_bytes D EXT4_SUPER_OFFSET EXT4_SUPER_SIZE s = (Some (get_bytes v EXT4_SUPER_OFFSET EXT4_SUPER_SIZE), s1)"
      "served D media F v s1"
    using served_read [OF sv, of EXT4_SUPER_OFFSET EXT4_SUPER_SIZE] g by (auto simp: group_inside_def)
  have len: "length (put_counts F (get_bytes v EXT4_SUPER_OFFSET EXT4_SUPER_SIZE)) = EXT4_SUPER_SIZE"
    by (rule direct.length_put_counts) simp
  have "inside F EXT4_SUPER_OFFSET (length (put_counts F (get_bytes v EXT4_SUPER_OFFSET EXT4_SUPER_SIZE)))"
    unfolding len using g by (simp add: group_inside_def)
  from served_write [OF r(2) this] obtain s2 v2 where
    "ext4_disk_write_bytes D EXT4_SUPER_OFFSET (put_counts F (get_bytes v EXT4_SUPER_OFFSET EXT4_SUPER_SIZE)) s1 = (Some (), s2)"
    "served D media F v2 s2" by blast
  moreover have "fs s1 = F" using r(2) by (simp add: served_def)
  ultimately show ?thesis using r(1) by (auto simp: ext4_super_write_counts_def seq_def op_simps)
qed

lemma served_counts: "served D media F v s \<Longrightarrow> served D media (F\<lparr>free_blocks_count := n\<rparr>) v (upd_fs (\<lambda>f. f\<lparr>free_blocks_count := n\<rparr>) s)"
  using direct.counts_law(1) [of D media s n]
  by (auto simp: served_def disk_good_def disk_live_def in_part_def src_dev_def)

lemma served_block:
  assumes sv: "served D media F v s" and b: "inside F (b * ucast (block_size F)) (unat (block_size F))"
  obtains s' where "ext4_read_block D b s = (Some (blk_bytes F v b), s')" "served D media F v s'"
  using served_read [OF sv b] sv by (auto simp: ext4_read_block_def blk_bytes_def served_def)

lemma served_put:
  assumes sv: "served D media F v s" and b: "inside F (b * ucast (block_size F)) (unat (block_size F))" and n: "length buf = unat (block_size F)"
  obtains s' where "ext4_write_block D b buf s = (Some (), s')" "served D media F (put_bytes (b * ucast (block_size F)) buf v) s'"
  using served_write [OF sv, of "b * ucast (block_size F)" buf] sv b n by (auto simp: ext4_write_block_def served_def)

lemma served_scan:
  assumes sv: "served D media F v s" and b: "inside F (bb * ucast (block_size F)) (unat (block_size F))"
    and n: "length bm = unat (block_size F)" "\<forall>i \<in> set is. i div 8 < unat (block_size F)" "\<exists>i \<in> set is. \<not> bm_get bm i"
  shows "\<exists>i s'. bitmap_scan D bb bm is s = (Some (of_nat i), s')
    \<and> served D media F (put_bytes (bb * ucast (block_size F)) (bm_set bm i) v) s'"
  using n(2,3)
proof (induction "is")
  case (Cons i js)
  show ?case
  proof (cases "bm_get bm i")
    case True
    then show ?thesis using Cons n(1) by auto
  next
    case False
    obtain s' where "ext4_write_block D bb (bm_set bm i) s = (Some (), s')"
        "served D media F (put_bytes (bb * ucast (block_size F)) (bm_set bm i) v) s'"
      using served_put [OF sv b, of "bm_set bm i"] n(1) by auto
    then show ?thesis using False Cons.prems n(1) by (auto simp: seq_def ret_def)
  qed
qed simp

lemma alloc_total:
  assumes sv: "served D media F v s" and gi: "group_inside F 0 (bm_ref F v Blocks 0)" and nz: "bm_ref F v Blocks 0 \<noteq> 0"
    and cnt: "free_blocks_count F \<noteq> 0" "ext4_group_get_count16 F (desc_of F v 0) 0x0C 0x2C \<noteq> 0"
    and apart: "gdt_end F \<le> unat (bm_ref F v Blocks 0 * ucast (block_size F))"
    and bits: "ext4_group_blocks_count 0 F \<noteq> 0" "unat (ext4_group_blocks_count 0 F) \<le> 8 * unat (block_size F)"
      "\<exists>i < unat (ext4_group_blocks_count 0 F). \<not> bm_get (bits_of F v Blocks 0) i"
  shows "\<exists>b s'. ext4_alloc_block D s = (Some b, s')"
proof -
  let ?bb = "bm_ref F v Blocks 0" and ?n = "ext4_group_blocks_count 0 F"
  have F: "fs s = F" using sv by (simp add: served_def)
  have b: "inside F (?bb * ucast (block_size F)) (unat (block_size F))" using gi by (simp add: group_inside_def)
  obtain s1 where rd: "ext4_group_read_desc D 0 s = (Some (desc_of F v 0), s1)" and s1: "served D media F v s1"
    using served_desc [OF sv gi] .
  obtain s2 where rb: "ext4_read_block D ?bb s1 = (Some (bits_of F v Blocks 0), s2)" and s2: "served D media F v s2"
    using served_block [OF s1 b] unfolding bits_of_def .
  obtain i s3 where sc: "bitmap_scan D ?bb (bits_of F v Blocks 0) [0..<unat ?n] s2 = (Some (of_nat i), s3)"
      and s3: "served D media F (put_bytes (?bb * ucast (block_size F)) (bm_set (bits_of F v Blocks 0) i) v) s3"
  proof -
    have "\<forall>i \<in> set [0..<unat ?n]. i div 8 < unat (block_size F)" "\<exists>i \<in> set [0..<unat ?n]. \<not> bm_get (bits_of F v Blocks 0) i"
      using bits(2,3) by auto
    from served_scan [OF s2 b _ this] show thesis using that by auto
  qed
  let ?v3 = "put_bytes (?bb * ucast (block_size F)) (bm_set (bits_of F v Blocks 0) i) v"
  have g0: "0 < groups_count F" using gi by (simp add: group_inside_def)
  have d3: "desc_of F ?v3 0 = desc_of F v 0"
    using apart b by (intro desc_cong [OF g0], subst put_bytes_span) (auto simp: in_span_def inside_def)
  obtain s4 v4 where ad: "ext4_group_adjust_free D 0 (-1) 0 s3 = (Some (), s4)" and s4: "served D media F v4 s4"
    using served_adjust [OF s3 gi, of "-1" 0] cnt(2) by (auto simp: d3 word_le_nat_alt unat_gt_0 Suc_le_eq)
  have s5: "served D media (F\<lparr>free_blocks_count := free_blocks_count F - 1\<rparr>) v4 (upd_free_blocks (\<lambda>n. n - 1) s4)"
    using served_counts [OF s4, of "free_blocks_count F - 1"] s4 by (simp add: upd_fs_def served_def)
  obtain s6 where su: "ext4_super_write_counts D (upd_free_blocks (\<lambda>n. n - 1) s4) = (Some (), s6)"
    using served_super [OF s5, of 0 ?bb] gi by (auto simp: group_inside_def inside_def)
  have fb: "ext4_alloc_from_bitmap D ?bb ?n 0 s1 = (Some (of_nat i), s3)"
    using rb sc bits(1) by (simp add: ext4_alloc_from_bitmap_def op_simps seq_def word_gt_0)
  obtain js where gs: "[0..<unat (groups_count F)] = 0 # js" using g0 by (simp add: upt_conv_Cons word_less_nat_alt)
  have "fs s4 = F" using s4 by (simp add: served_def)
  then have "\<exists>b. ext4_alloc_block D s = (Some b, s6)"
    unfolding ext4_alloc_block_def using F cnt bits(1) rd nz fb ad su
    by (simp add: op_simps gs Let_def seq_def [of "ext4_group_read_desc D 0"] seq_def [of "attempt _"] attempt_def bm_ref_def
        seq_def [of "ext4_group_adjust_free D 0 _ _"] seq_def [of "ext4_super_write_counts D"])
  then show ?thesis by blast
qed

lemma free_total:
  assumes sv: "served D media F v s" and gi: "group_inside F g (bm_ref F v Blocks g)" and nz: "bm_ref F v Blocks g \<noteq> 0"
    and b: "ext4_block_to_group_idx b F = Some (g, idx)" and idx: "unat idx div 8 < unat (block_size F)"
    and used: "bm_get (bits_of F v Blocks g) (unat idx)"
  shows "\<exists>s'. ext4_free_block D b s = (Some (), s')"
proof -
  let ?bb = "bm_ref F v Blocks g"
  have F: "fs s = F" using sv by (simp add: served_def)
  have bi: "inside F (?bb * ucast (block_size F)) (unat (block_size F))" using gi by (simp add: group_inside_def)
  obtain s1 where rd: "ext4_group_read_desc D g s = (Some (desc_of F v g), s1)" and s1: "served D media F v s1"
    using served_desc [OF sv gi] .
  obtain s2 where rb: "ext4_read_block D ?bb s1 = (Some (bits_of F v Blocks g), s2)" and s2: "served D media F v s2"
    using served_block [OF s1 bi] unfolding bits_of_def .
  have rv: "ext4_jbd2_note_revoke b s2 = s2" using s2 by (simp add: served_def plain_def ext4_jbd2_note_revoke_def)
  obtain s3 v3 where wr: "ext4_write_block D ?bb (bm_clear (bits_of F v Blocks g) (unat idx)) s2 = (Some (), s3)"
      and s3: "served D media F v3 s3"
    by (rule served_put [OF s2 bi, of "bm_clear (bits_of F v Blocks g) (unat idx)"]) auto
  obtain s4 v4 where ad: "ext4_group_adjust_free D g 1 0 s3 = (Some (), s4)" and s4: "served D media F v4 s4"
    using served_adjust [OF s3 gi, of 1 0] by auto
  have s5: "served D media (F\<lparr>free_blocks_count := free_blocks_count F + 1\<rparr>) v4 (upd_free_blocks (\<lambda>n. n + 1) s4)"
    using served_counts [OF s4, of "free_blocks_count F + 1"] s4 by (simp add: upd_fs_def served_def)
  obtain s6 where su: "ext4_super_write_counts D (upd_free_blocks (\<lambda>n. n + 1) s4) = (Some (), s6)"
    using served_super [OF s5, of g ?bb] gi by (auto simp: group_inside_def inside_def)
  have "ext4_free_block D b s = (Some (), s6)"
    unfolding ext4_free_block_def using F b rd nz rb idx used rv wr ad su
    by (simp add: op_simps Let_def seq_def [of "ext4_group_read_desc D g"] bm_ref_def seq_def [of "ext4_read_block D _"]
        seq_def [of "ext4_write_block D _ _"] seq_def [of "ext4_group_adjust_free D g _ _"])
  then show ?thesis by blast
qed

section \<open>A partition\<close>

text \<open>Blocks 3 and 4 are the bitmaps; blocks 1 to 8 are in use; 100 blocks are free.\<close>

definition alloc_disk :: "u64 \<Rightarrow> u8" where
  "alloc_disk k = (if k = 2048 then 3 else if k = 2052 then 4 else if k = 2060 then 100 else if k = 3072 then 255 else 0)"

abbreviation alloc_example :: "(u64 \<Rightarrow> sector) ext4" where "alloc_example \<equiv> example_ext4 1024 (disk_of alloc_disk)"

lemma alloc_example_served: "served (mem_disk 1024) (\<lambda>d. d) (example_fs 1024) alloc_disk alloc_example"
proof -
  have g: "disk_good (mem_disk 1024) (\<lambda>d. d) alloc_example" by (rule example_good) simp_all
  have p: "plain (mem_disk 1024) (\<lambda>d. d) alloc_example"
    using g by (simp add: plain_def disk_good_def journal_zero_def jbd2_zero_def jl_ok_def jb_ok_def)
  show ?thesis using g p plain_view [OF p] by (simp add: served_def example_bytes)
qed

lemma alloc_example_desc:
  "desc_of (example_fs 1024) alloc_disk 0 = [3, 0, 0, 0, 4, 0, 0, 0, 0, 0, 0, 0, 100, 0, 0, 0, 0, 0, 0, 0, 0, 0, 0, 0, 0, 0, 0, 0, 0, 0, 0, 0]"
  by (simp add: desc_of_def get_bytes_def ext4_group_desc_offset_def example_fs_def alloc_disk_def upt_rec)

lemma alloc_example_refs:
  "bm_ref (example_fs 1024) alloc_disk Blocks 0 = 3" "bm_ref (example_fs 1024) alloc_disk Inodes 0 = 4"
  "ext4_group_get_count16 (example_fs 1024) (desc_of (example_fs 1024) alloc_disk 0) 0x0C 0x2C = 100"
  unfolding bm_ref_def alloc_example_desc
  by (simp_all add: ext4_group_get_block_ref_def ext4_group_get_count16_def wide_desc_def example_fs_def rd_le32_def rd_le16_def Let_def)


lemma alloc_example_layout: "layout no_wrap (example_fs 1024) alloc_disk"
proof -
  have g: "g < groups_count (example_fs 1024) \<longleftrightarrow> g = 0" for g by (simp add: example_fs_def word_less_nat_alt unat_eq_0)
  have r: "bm_ref (example_fs 1024) alloc_disk w 0 = (if w = Blocks then 3 else 4)" for w
    using alloc_example_refs by (cases w) auto
  have w: "w \<noteq> Blocks \<longleftrightarrow> w = Inodes" for w by (cases w) auto
  show ?thesis
    unfolding layout_def g
    by (auto simp: w r no_wrap_def bitmap_ok_def gdt_end_def gdt_base_def unat_desc_offset split: if_splits) (auto simp: example_fs_def)
qed

lemma alloc_example_bits:
  assumes "i < 8192"
  shows "bm_get (bits_of (example_fs 1024) alloc_disk Blocks 0) i \<longleftrightarrow> i < 8"
proof -
  have "bits_of (example_fs 1024) alloc_disk Blocks 0 ! (i div 8) = alloc_disk (3072 + of_nat (i div 8))"
    using assms unfolding bits_of_def alloc_example_refs blk_bytes_def by (simp add: get_bytes_nth example_fs_def)
  moreover have "unat (3072 + of_nat (i div 8) :: u64) = 3072 + i div 8" using assms by (subst unat_add_small) simp_all
  then have "alloc_disk (3072 + of_nat (i div 8)) = (if i < 8 then 255 else 0)"
    by (auto simp: alloc_disk_def word_unat_eq_iff)
  moreover have "bit (mask 8 :: u8) (i mod 8)" by (simp add: bit_mask_iff)
  then have "bit (255 :: u8) (i mod 8)" by (simp add: mask_eq_exp_minus_1)
  ultimately show ?thesis by (cases "i < 8") (simp_all add: bm_get_bit)
qed

lemma alloc_example_group: "group_inside (example_fs 1024) 0 3"
  by (simp add: group_inside_def inside_def unat_desc_offset gdt_base_def) (simp add: example_fs_def)


text \<open>
  C24. Releasing a block clears its bit and no other: when \<^verbatim>\<open>ext4_free_block\<close> succeeds on a block that is not
  itself one of the bitmaps or descriptors, the block is free afterwards and every other block is in use
  exactly if it was before.
\<close>

theorem ext4_free_block_exact:
  assumes "mode_inv D media m s" "layout (mode_usable m) (fs s) (mode_view media m s)"
    "\<forall>k. in_span (b * ucast (block_size (fs s))) (unat (block_size (fs s))) k \<longrightarrow> \<not> meta_byte (fs s) (mode_view media m s) k"
    "ext4_free_block D b s = (Some (), s')"
  shows "\<not> blk_used (fs s) (mode_view media m s') b
    \<and> (\<forall>b'. b' \<noteq> b \<longrightarrow> blk_used (fs s) (mode_view media m s') b' = blk_used (fs s) (mode_view media m s) b')"
  using any.free_block_sound [OF assms(1,2) _ assms(4)] assms(3) by blast

theorem ext4_free_block_exact_witness:
  "\<exists>s'. ext4_free_block (mem_disk 1024) 8 alloc_example = (Some (), s')
    \<and> blk_used (example_fs 1024) alloc_disk 8 \<and> \<not> blk_used (example_fs 1024) (fs_view (\<lambda>d. d) s') 8"
proof -
  note sv = alloc_example_served
  have b: "ext4_block_to_group_idx 8 (example_fs 1024) = Some (0, 7)"
    by (simp add: ext4_block_to_group_idx_def ext4_group_blocks_count_def example_fs_def word_le_nat_alt word_less_nat_alt min_def)
  have u: "bm_get (bits_of (example_fs 1024) alloc_disk Blocks 0) 7" by (simp add: alloc_example_bits)
  have ex: "\<exists>s'. ext4_free_block (mem_disk 1024) 8 alloc_example = (Some (), s')"
    by (rule free_total [OF sv _ _ b]) (use u in \<open>auto simp: alloc_example_refs alloc_example_group\<close>, simp add: example_fs_def)
  have m: "mode_inv (mem_disk 1024) (\<lambda>d. d) Direct alloc_example" "mode_view (\<lambda>d. d) Direct alloc_example = alloc_disk"
    using sv by (simp_all add: served_def)
  have out: "\<not> meta_byte (example_fs 1024) alloc_disk k" if "in_span 8192 1024 k" for k
  proof -
    have r: "unat (bm_ref (example_fs 1024) alloc_disk w 0 * 1024) \<le> 4096" for w using alloc_example_refs by (cases w) auto
    have g: "g < groups_count (example_fs 1024) \<longleftrightarrow> g = 0" for g by (simp add: example_fs_def word_less_nat_alt unat_eq_0)
    have b: "block_size (example_fs 1024) = 1024" and e: "gdt_end (example_fs 1024) \<le> 2080"
      by (simp_all add: example_fs_def gdt_end_def gdt_base_def)
    have "unat k < 5120" if "meta_byte (example_fs 1024) alloc_disk k"
      using that e unfolding meta_byte_def g b
    proof (elim disjE exE conjE)
      fix w and h :: u32
      assume "h = 0" "in_span (bm_ref (example_fs 1024) alloc_disk w h * ucast (1024 :: u32)) (unat (1024 :: u32)) k"
      then show ?thesis using r [of w] by (simp add: in_span_def)
    qed simp
    then show ?thesis using that by (auto simp: in_span_def)
  qed
  have used: "blk_used (example_fs 1024) alloc_disk 8" using b u by (simp add: blk_used_def)
  from ex obtain s' where s': "ext4_free_block (mem_disk 1024) 8 alloc_example = (Some (), s')" by blast
  have "\<not> blk_used (example_fs 1024) (fs_view (\<lambda>d. d) s') 8"
    using ext4_free_block_exact [OF m(1) _ _ s'] alloc_example_layout out by (simp add: m(2) [simplified]) (simp add: example_fs_def)
  then show ?thesis using s' used by blast
qed

end
