(* ===== verification/Ext4File.thy ===== *)
theory Ext4File
  imports Ext4Modes
begin

text \<open>
  Reading files of \<^verbatim>\<open>src/kernel/ext4.c\<close>: \<^verbatim>\<open>ext4_read_file_at\<close> over the block maps, iterating over the
  entries of a directory, and symbolic link targets. \<^verbatim>\<open>-1\<close> is \<open>None\<close>; a count is the list of the bytes read.
\<close>

section \<open>Reading\<close>

text \<open>A round of the loop reads up to the end of a block. A short read returns what was read so far,
  or \<^verbatim>\<open>-1\<close> when this is nothing. The block size is not 0 once a file system is mounted.\<close>

function read_file_loop :: "'d blkdrv \<Rightarrow> ext4_meta \<Rightarrow> u64 \<Rightarrow> nat \<Rightarrow> u8 list \<Rightarrow> ('d ext4, u8 list) op" where
  "read_file_loop D m cur remain acc s =
     (if remain = 0 then (Some acc, s)
      else
        let short = (if acc \<noteq> [] then Some acc else None);
            bs = ucast (block_size (fs s)) :: u64;
            lblock = ucast (cur div bs) :: u32;
            in_block = unat (cur mod bs);
            chunk = min (unat (block_size (fs s)) - in_block) remain
        in if block_size (fs s) = 0 then (None, s)
           else
             case ext4_map_file_block D m lblock s of
               (None, s1) \<Rightarrow> (short, s1)
             | (Some pblock, s1) \<Rightarrow>
                 if pblock = 0 then read_file_loop D m (cur + of_nat chunk) (remain - chunk) (acc @ replicate chunk 0) s1
                 else
                   case ext4_disk_read_bytes D (pblock * ucast (block_size (fs s1)) + of_nat in_block) chunk s1 of
                     (None, s2) \<Rightarrow> (short, s2)
                   | (Some b, s2) \<Rightarrow> read_file_loop D m (cur + of_nat chunk) (remain - chunk) (acc @ b) s2)"
  by pat_completeness auto
termination
proof (relation "measure (\<lambda>(_, _, _, remain, _, _). remain)")
  fix D :: "'d blkdrv" and m and cur bs :: u64 and remain in_block chunk :: nat and acc and s s1 s2 :: "'d ext4" and b
  assume d: "bs = ucast (block_size (fs s))" "in_block = unat (cur mod bs)" "chunk = min (unat (block_size (fs s)) - in_block) remain"
    "remain \<noteq> 0" "block_size (fs s) \<noteq> 0"
  have "unat bs = unat (block_size (fs s))" "bs \<noteq> 0" using d by (simp_all add: unat_eq_0 [symmetric] del: unat_eq_0)
  then have "in_block < unat (block_size (fs s))" by (metis d(2) mod_less_divisor unat_gt_0 unat_mod)
  then have "remain - chunk < remain" using d by simp
  then show "((D, m, cur + of_nat chunk, remain - chunk, acc @ replicate chunk 0, s1), D, m, cur, remain, acc, s)
      \<in> measure (\<lambda>(_, _, _, remain, _, _). remain)"
    "((D, m, cur + of_nat chunk, remain - chunk, acc @ b, s2), D, m, cur, remain, acc, s)
      \<in> measure (\<lambda>(_, _, _, remain, _, _). remain)" by simp_all
qed simp

declare read_file_loop.simps [simp del]

definition ext4_read_file_at :: "'d blkdrv \<Rightarrow> ext4_meta \<Rightarrow> u64 \<Rightarrow> nat \<Rightarrow> ('d ext4, u8 list) op" where
  "ext4_read_file_at D m off len =
     (if off \<ge> m_size m then ret []
      else
        let remain = (if off + of_nat len > m_size m then unat (m_size m - off) else len)
        in read_file_loop D m off remain [])"

section \<open>Directory entries in turn\<close>

text \<open>A C string in a buffer: the bytes before the first 0.\<close>

definition cstr :: "u8 list \<Rightarrow> u8 list" where "cstr b = takeWhile (\<lambda>x. x \<noteq> 0) b"

datatype iter = Entry u32 "u8 list" u8 | IterEnd | IterErr

text \<open>One round of the loop of \<^verbatim>\<open>ext4_dir_iter\<close>: stop with a result, or go on at the offset given. The
  offset the caller passes in is advanced past each record that was looked at.\<close>

definition iter_round :: "'d blkdrv \<Rightarrow> ext4_meta \<Rightarrow> u64 \<Rightarrow> 'd ext4 \<Rightarrow> (iter option \<times> u64) \<times> 'd ext4" where
  "iter_round D m off s =
     (case ext4_read_file_at D m off 8 s of
        (None, s1) \<Rightarrow> ((Some IterErr, off), s1)
      | (Some hdr, s1) \<Rightarrow>
          if length hdr \<noteq> 8 then ((Some IterErr, off), s1)
          else
            let ino = rd_le32 hdr 0; rec_len = rd_le16 hdr 4;
                file_type = (if has_filetype (fs s1) then hdr ! 7 else 0);
                name_len = (if has_filetype (fs s1) then hdr ! 6 else ucast (rd_le16 hdr 6 AND 0xFF))
            in if rec_len < 8 then ((Some IterErr, off), s1)
               else if off + ucast rec_len > m_size m then ((Some IterErr, off), s1)
               else if unat name_len > unat rec_len - 8 then ((Some IterErr, off), s1)
               else
                 case (if name_len > 0 then ext4_read_file_at D m (off + 8) (min (unat name_len) 255) s1 else (Some [], s1)) of
                   (None, s2) \<Rightarrow> ((Some IterErr, off), s2)
                 | (Some name, s2) \<Rightarrow>
                     if length name \<noteq> min (unat name_len) 255 then ((Some IterErr, off), s2)
                     else
                       let off' = off + ucast rec_len; nm = cstr name in
                       if ino = 0 \<or> nm = [46] \<or> nm = [46, 46] then ((None, off'), s2)
                       else ((Some (Entry ino nm file_type), off'), s2))"

text \<open>A record has at least 8 bytes, so a directory of \<open>n\<close> bytes has at most \<open>n / 8\<close> of them, and one round
  more than this many is enough (an offset that wraps around 64 bits, for a directory of almost that
  size, would go on in C).\<close>

fun dir_iter_loop :: "'d blkdrv \<Rightarrow> ext4_meta \<Rightarrow> nat \<Rightarrow> u64 \<Rightarrow> 'd ext4 \<Rightarrow> (iter \<times> u64) \<times> 'd ext4" where
  "dir_iter_loop D m 0 off s = ((IterErr, off), s)"
| "dir_iter_loop D m (Suc fuel) off s =
     (if off + 8 \<le> m_size m then
        case iter_round D m off s of
          ((Some r, off'), s1) \<Rightarrow> ((r, off'), s1)
        | ((None, off'), s1) \<Rightarrow> dir_iter_loop D m fuel off' s1
      else ((IterEnd, off), s))"

definition ext4_dir_iter :: "'d blkdrv \<Rightarrow> ext4_meta \<Rightarrow> u64 \<Rightarrow> 'd ext4 \<Rightarrow> (iter \<times> u64) \<times> 'd ext4" where
  "ext4_dir_iter D m off = dir_iter_loop D m (unat (m_size m) div 8 + 1) off"

definition ext4_dir_is_empty :: "'d blkdrv \<Rightarrow> ext4_meta \<Rightarrow> 'd ext4 \<Rightarrow> bool \<times> 'd ext4" where
  "ext4_dir_is_empty D m s =
     (if \<not> ext4_is_dir_mode (m_mode m) then (False, s)
      else case ext4_dir_iter D m 0 s of ((r, _), s1) \<Rightarrow> (r = IterEnd, s1))"

section \<open>Symbolic links\<close>

definition ext4_is_inline_symlink :: "ext4_meta \<Rightarrow> bool" where
  "ext4_is_inline_symlink m \<longleftrightarrow> ext4_is_lnk_mode (m_mode m) \<and> \<not> uses_extents m \<and> m_size m \<le> 60"

definition ext4_read_symlink_target :: "'d blkdrv \<Rightarrow> ext4_meta \<Rightarrow> nat \<Rightarrow> ('d ext4, u8 list) op" where
  "ext4_read_symlink_target D m outsz =
     seq (check (\<not> (outsz < 2 \<or> \<not> ext4_is_lnk_mode (m_mode m) \<or> m_size m = 0 \<or> unat (m_size m) \<ge> outsz))) (\<lambda>_.
       if \<not> uses_extents m \<and> m_size m \<le> 60 then ret (take (unat (m_size m)) (root_bytes m))
       else
         seq (ext4_read_file_at D m 0 (unat (m_size m))) (\<lambda>out.
         seq (check (length out = unat (m_size m))) (\<lambda>_. ret out)))"

end
