(* ===== verification/Ext4Dir.thy ===== *)
theory Ext4Dir
  imports Ext4File
begin

text \<open>
  Directory blocks of \<^verbatim>\<open>src/kernel/ext4.c\<close>: finding, adding, changing and removing an entry. A name is the
  list of its bytes. Positions inside a block are natural numbers: a block has at most 4096 bytes, so
  the 32-bit sums of the code do not wrap.
\<close>

section \<open>Records\<close>

text \<open>The record at a position of a block: inode number, record length, name length, file type, name.\<close>

definition de_ino :: "u8 list \<Rightarrow> nat \<Rightarrow> u32" where "de_ino blk pos = rd_le32 blk pos"
definition de_len :: "u8 list \<Rightarrow> nat \<Rightarrow> nat" where "de_len blk pos = unat (rd_le16 blk (pos + 4))"
definition de_nlen :: "u8 list \<Rightarrow> nat \<Rightarrow> nat" where "de_nlen blk pos = unat (blk ! (pos + 6))"
definition de_ftype :: "u8 list \<Rightarrow> nat \<Rightarrow> u8" where "de_ftype blk pos = blk ! (pos + 7)"
definition de_name :: "u8 list \<Rightarrow> nat \<Rightarrow> u8 list" where "de_name blk pos = take (de_nlen blk pos) (drop (pos + 8) blk)"

record dir_hit =
  hit_pblock :: u64
  hit_pos :: nat
  hit_rec_len :: nat
  hit_prev :: "nat option" \<comment> \<open>prev_pos, when has_prev\<close>
  hit_ino :: u32
  hit_ftype :: u8

text \<open>Walking the records of a block of \<open>bs\<close> bytes from \<open>pos\<close> on. \<open>None\<close>: a record that does not fit, the caller
  gives up; \<open>Some None\<close>: not in this block.\<close>

function find_in_block :: "nat \<Rightarrow> bool \<Rightarrow> u64 \<Rightarrow> u8 list \<Rightarrow> u8 list \<Rightarrow> nat \<Rightarrow> nat option \<Rightarrow> dir_hit option option" where
  "find_in_block bs ft pblock blk name pos prev =
     (if pos + 8 \<le> bs then
        let ino = de_ino blk pos; rec_len = de_len blk pos; name_len = de_nlen blk pos;
            ftype = (if ft then de_ftype blk pos else 0)
        in if rec_len < 8 \<or> pos + rec_len > bs then None
           else if name_len > rec_len - 8 then None
           else if ino \<noteq> 0 \<and> name_len = length name \<and> take (length name) (drop (pos + 8) blk) = name
           then Some (Some \<lparr>hit_pblock = pblock, hit_pos = pos, hit_rec_len = rec_len, hit_prev = prev,
                        hit_ino = ino, hit_ftype = ftype\<rparr>)
           else find_in_block bs ft pblock blk name (pos + rec_len) (Some pos)
      else Some None)"
  by pat_completeness auto
termination
  by (relation "measure (\<lambda>(bs, _, _, _, _, pos, _). bs - pos)") auto

declare find_in_block.simps [simp del]

definition dir_blocks :: "ext4_meta \<Rightarrow> ext4_fs \<Rightarrow> u64" where
  "dir_blocks m f = (m_size m + ucast (block_size f) - 1) div ucast (block_size f)"

text \<open>The blocks of the directory in turn; a hole, or a block whose map fails, is skipped.\<close>

fun find_entry_blocks :: "'d blkdrv \<Rightarrow> ext4_meta \<Rightarrow> u8 list \<Rightarrow> nat list \<Rightarrow> ('d ext4, dir_hit) op" where
  "find_entry_blocks D m name [] = fail"
| "find_entry_blocks D m name (lb # lbs) =
     seq (attempt (ext4_map_file_block D m (of_nat lb))) (\<lambda>r.
       if r = None \<or> r = Some 0 then find_entry_blocks D m name lbs
       else
         let pblock = the r in
         seq (ext4_read_block D pblock) (\<lambda>blk.
         seq (gets fs) (\<lambda>f.
           case find_in_block (unat (block_size f)) (has_filetype f) pblock blk name 0 None of
             None \<Rightarrow> fail
           | Some (Some hit) \<Rightarrow> ret hit
           | Some None \<Rightarrow> find_entry_blocks D m name lbs)))"

definition ext4_dir_find_entry :: "'d blkdrv \<Rightarrow> ext4_meta \<Rightarrow> u8 list \<Rightarrow> ('d ext4, dir_hit) op" where
  "ext4_dir_find_entry D m name =
     seq (check (\<not> (\<not> ext4_is_dir_mode (m_mode m) \<or> length name = 0 \<or> length name > 255))) (\<lambda>_.
     seq (gets fs) (\<lambda>f. find_entry_blocks D m name [0..<unat (dir_blocks m f)]))"

definition ext4_dir_update_entry_ino :: "'d blkdrv \<Rightarrow> ext4_meta \<Rightarrow> u8 list \<Rightarrow> u32 \<Rightarrow> ('d ext4, unit) op" where
  "ext4_dir_update_entry_ino D m name new_ino =
     seq (ext4_dir_find_entry D m name) (\<lambda>hit.
     seq (ext4_read_block D (hit_pblock hit)) (\<lambda>blk.
     ext4_write_block D (hit_pblock hit) (wr_le32 blk (hit_pos hit) new_ino)))"

text \<open>The block without the entry of a hit: its room goes to the record before it.\<close>

definition drop_entry :: "dir_hit \<Rightarrow> u8 list \<Rightarrow> u8 list" where
  "drop_entry hit blk =
     (case hit_prev hit of
        Some prev_pos \<Rightarrow> wr_le16 blk (prev_pos + 4) (of_nat (de_len blk prev_pos + hit_rec_len hit))
      | None \<Rightarrow> wr_le32 blk (hit_pos hit) 0)"

definition ext4_dir_remove_entry :: "'d blkdrv \<Rightarrow> ext4_meta \<Rightarrow> u8 list \<Rightarrow> ('d ext4, u32 \<times> u8) op" where
  "ext4_dir_remove_entry D m name =
     seq (ext4_dir_find_entry D m name) (\<lambda>hit.
     seq (ext4_read_block D (hit_pblock hit)) (\<lambda>blk.
     seq (ext4_write_block D (hit_pblock hit) (drop_entry hit blk)) (\<lambda>_.
     ret (hit_ino hit, hit_ftype hit))))"

section \<open>Adding an entry\<close>

definition rec_need :: "nat \<Rightarrow> nat" where \<comment> \<open>\<^verbatim>\<open>(uint16_t)(8U + align_up4(n))\<close>\<close>
  "rec_need n = unat (ucast (8 + align_up4 (of_nat n)) :: u16)"

definition put_entry :: "nat \<Rightarrow> u32 \<Rightarrow> nat \<Rightarrow> u8 list \<Rightarrow> u8 \<Rightarrow> u8 list \<Rightarrow> u8 list" where
  "put_entry pos ino rlen name ftype blk0 =
     (let blk = wr_le32 blk0 pos ino;
          blk = wr_le16 blk (pos + 4) (of_nat rlen);
          blk = blk[pos + 6 := of_nat (length name)];
          blk = blk[pos + 7 := ftype]
      in put_at (pos + 8) name blk)"

text \<open>\<open>None\<close>: a record that does not fit; \<open>Some None\<close>: no room in this block; \<open>Some (Some blk)\<close>: the block with the entry.\<close>

function add_in_block :: "nat \<Rightarrow> u8 list \<Rightarrow> u32 \<Rightarrow> u8 \<Rightarrow> u8 list \<Rightarrow> nat \<Rightarrow> u8 list option option" where
  "add_in_block bs name ino ftype blk pos =
     (if pos + 8 \<le> bs then
        let ino_cur = de_ino blk pos; rec_len = de_len blk pos; name_cur = de_nlen blk pos;
            need = rec_need (length name); ideal = rec_need name_cur
        in if rec_len < 8 \<or> pos + rec_len > bs then None
           else if ino_cur = 0 \<and> rec_len \<ge> need
           then Some (Some (put_entry pos ino rec_len name ftype blk))
           else if ino_cur \<noteq> 0 \<and> rec_len \<ge> ideal \<and> rec_len - ideal \<ge> need
           then Some (Some (put_entry (pos + ideal) ino (rec_len - ideal) name ftype (wr_le16 blk (pos + 4) (of_nat ideal))))
           else add_in_block bs name ino ftype blk (pos + rec_len)
      else Some None)"
  by pat_completeness auto
termination
  by (relation "measure (\<lambda>(bs, _, _, _, _, pos). bs - pos)") auto

declare add_in_block.simps [simp del]

fun add_entry_blocks :: "'d blkdrv \<Rightarrow> ext4_meta \<Rightarrow> u8 list \<Rightarrow> u32 \<Rightarrow> u8 \<Rightarrow> nat list \<Rightarrow> ('d ext4, unit) op" where
  "add_entry_blocks D m name ino ftype [] = fail"
| "add_entry_blocks D m name ino ftype (lb # lbs) =
     seq (ext4_map_file_block D m (of_nat lb)) (\<lambda>pblock.
     seq (check (pblock \<noteq> 0)) (\<lambda>_.
     seq (ext4_read_block D pblock) (\<lambda>blk.
     seq (gets fs) (\<lambda>f.
       case add_in_block (unat (block_size f)) name ino (if has_filetype f then ftype else 0) blk 0 of
         None \<Rightarrow> fail
       | Some (Some blk') \<Rightarrow> ext4_write_block D pblock blk'
       | Some None \<Rightarrow> add_entry_blocks D m name ino ftype lbs))))"

definition ext4_dir_add_entry :: "'d blkdrv \<Rightarrow> ext4_meta \<Rightarrow> u8 list \<Rightarrow> u32 \<Rightarrow> u8 \<Rightarrow> ('d ext4, unit) op" where
  "ext4_dir_add_entry D m name ino ftype =
     seq (check (\<not> (\<not> ext4_is_dir_mode (m_mode m) \<or> length name = 0 \<or> length name > 255))) (\<lambda>_.
     seq (gets fs) (\<lambda>f. add_entry_blocks D m name ino ftype [0..<unat (dir_blocks m f)]))"

section \<open>The entries of a block\<close>

text \<open>A block of records that follow one another up to its end, and the live entries in it: name, inode
  number and file type.\<close>

function chain :: "nat \<Rightarrow> u8 list \<Rightarrow> nat \<Rightarrow> bool" where
  "chain bs blk pos \<longleftrightarrow> (if pos + 8 \<le> bs then
       (if 8 \<le> de_len blk pos \<and> pos + de_len blk pos \<le> bs \<and> de_nlen blk pos \<le> de_len blk pos - 8
        then chain bs blk (pos + de_len blk pos) else False)
     else True)"
  by pat_completeness auto
termination
  by (relation "measure (\<lambda>(bs, _, pos). bs - pos)") auto

function entries :: "nat \<Rightarrow> u8 list \<Rightarrow> nat \<Rightarrow> (u8 list \<times> u32 \<times> u8) list" where
  "entries bs blk pos =
     (if pos + 8 \<le> bs \<and> 8 \<le> de_len blk pos
      then (if de_ino blk pos \<noteq> 0 then [(de_name blk pos, de_ino blk pos, de_ftype blk pos)] else [])
           @ entries bs blk (pos + de_len blk pos)
      else [])"
  by pat_completeness auto
termination
  by (relation "measure (\<lambda>(bs, _, pos). bs - pos)") auto

declare chain.simps [simp del] entries.simps [simp del]

lemma chain_unfold:
  "chain bs blk pos \<Longrightarrow> pos + 8 \<le> bs \<Longrightarrow> 8 \<le> de_len blk pos \<and> pos + de_len blk pos \<le> bs
     \<and> de_nlen blk pos \<le> de_len blk pos - 8 \<and> chain bs blk (pos + de_len blk pos)"
  by (subst (asm) chain.simps) (simp split: if_splits)

lemma chain_fold:
  "pos + 8 \<le> bs \<Longrightarrow> 8 \<le> de_len blk pos \<Longrightarrow> pos + de_len blk pos \<le> bs \<Longrightarrow> de_nlen blk pos \<le> de_len blk pos - 8
     \<Longrightarrow> chain bs blk (pos + de_len blk pos) \<Longrightarrow> chain bs blk pos"
  by (subst chain.simps) simp

lemma entries_step:
  "pos + 8 \<le> bs \<Longrightarrow> 8 \<le> de_len blk pos \<Longrightarrow> entries bs blk pos =
     (if de_ino blk pos \<noteq> 0 then [(de_name blk pos, de_ino blk pos, de_ftype blk pos)] else [])
     @ entries bs blk (pos + de_len blk pos)"
  by (subst entries.simps) simp

lemma entries_end: "\<not> pos + 8 \<le> bs \<Longrightarrow> entries bs blk pos = []" by (subst entries.simps) simp
lemma chain_end: "\<not> pos + 8 \<le> bs \<Longrightarrow> chain bs blk pos" by (subst chain.simps) simp

text \<open>Blocks that agree on some bytes have the same records there.\<close>

lemma de_same:
  assumes "\<And>i. pos \<le> i \<Longrightarrow> i < pos + 8 \<Longrightarrow> a ! i = b ! i"
  shows "de_ino a pos = de_ino b pos" "de_len a pos = de_len b pos" "de_nlen a pos = de_nlen b pos" "de_ftype a pos = de_ftype b pos"
  using assms by (auto simp: de_ino_def de_len_def de_nlen_def de_ftype_def rd_le32_def rd_le16_def)

lemma de_name_same:
  assumes "length a = length b" "de_nlen a pos = de_nlen b pos" "\<And>i. pos + 8 \<le> i \<Longrightarrow> i < pos + 8 + de_nlen b pos \<Longrightarrow> a ! i = b ! i"
  shows "de_name a pos = de_name b pos"
  unfolding de_name_def assms(2) using assms(1,3) by (intro nth_equalityI) auto

lemma tail_same:
  assumes "length a = length b" "\<And>i. pos \<le> i \<Longrightarrow> i < bs \<Longrightarrow> a ! i = b ! i" "chain bs b pos"
  shows "chain bs a pos \<and> entries bs a pos = entries bs b pos"
  using assms
proof (induction bs b pos rule: chain.induct)
  case (1 bs b pos)
  show ?case
  proof (cases "pos + 8 \<le> bs")
    case True
    note c = chain_unfold [OF 1(4) True]
    have d: "de_ino a pos = de_ino b pos" "de_len a pos = de_len b pos" "de_nlen a pos = de_nlen b pos" "de_ftype a pos = de_ftype b pos"
      by (rule de_same; use 1(3) True in auto)+
    have n: "de_name a pos = de_name b pos" by (rule de_name_same) (use 1(2,3) c d(3) in auto)
    have "chain bs a (pos + de_len b pos) \<and> entries bs a (pos + de_len b pos) = entries bs b (pos + de_len b pos)"
      by (rule 1(1)) (use True c 1(2,3) in auto)
    then show ?thesis
      using c d n entries_step [OF True, of a] entries_step [OF True, of b] chain_fold [OF True, of a] by simp
  qed (simp add: entries_end chain_end)
qed

text \<open>The room an entry needs: a header and the name, to a multiple of four.\<close>

lemma rec_need_eq: "n \<le> 255 \<Longrightarrow> rec_need n = 8 + (n + 3) div 4 * 4"
proof -
  assume n: "n \<le> 255"
  have u: "unat (of_nat n + 3 :: u32) = n + 3" using n by (simp add: unat_word_ariths unat_of_nat)
  have "unat (align_up4 (of_nat n)) = (n + 3) div 4 * 4"
    using unat_and_not_mask [of "of_nat n + 3 :: u32" 2] u by (simp add: align_up4_def mask_eq_exp_minus_1)
  moreover have "(n + 3) div 4 * 4 \<le> n + 3" by simp
  ultimately have "unat (8 + align_up4 (of_nat n)) = 8 + (n + 3) div 4 * 4" "8 + (n + 3) div 4 * 4 < 2 ^ 16"
    using n by (simp_all add: unat_word_ariths)
  then show ?thesis by (simp add: rec_need_def unsigned_ucast_eq take_bit_nat_eq_self)
qed

lemma rec_need_bounds: "n \<le> 255 \<Longrightarrow> 8 + n \<le> rec_need n" "n \<le> 255 \<Longrightarrow> rec_need n \<le> 266"
  by (simp_all add: rec_need_eq)

text \<open>Storing an entry.\<close>

lemma put_entry_length [simp]: "pos + 8 + length name \<le> length blk \<Longrightarrow> length (put_entry pos ino rlen name ft blk) = length blk"
  by (simp add: put_entry_def Let_def)

lemma put_entry_other:
  "pos + 8 + length name \<le> length blk \<Longrightarrow> i < length blk \<Longrightarrow> i < pos \<or> pos + 8 + length name \<le> i
     \<Longrightarrow> put_entry pos ino rlen name ft blk ! i = blk ! i"
  by (auto simp: put_entry_def Let_def put_at_nth wr_le32_def wr_le16_def)

lemma rd_same: "(\<And>i. off \<le> i \<Longrightarrow> i < off + 4 \<Longrightarrow> a ! i = b ! i) \<Longrightarrow> rd_le32 a off = rd_le32 b off"
  "(\<And>i. off \<le> i \<Longrightarrow> i < off + 2 \<Longrightarrow> a ! i = b ! i) \<Longrightarrow> rd_le16 a off = rd_le16 b off"
  by (auto simp: rd_le32_def rd_le16_def)

lemma put_entry_fields:
  fixes ino :: u32 and ft :: u8
  assumes n: "pos + 8 + length name \<le> length blk" "length name \<le> 255" "rlen < 65536"
  defines "blk' \<equiv> put_entry pos ino rlen name ft blk"
  shows "de_ino blk' pos = ino" "de_len blk' pos = rlen" "de_nlen blk' pos = length name" "de_ftype blk' pos = ft"
    "de_name blk' pos = name"
proof -
  let ?b1 = "wr_le32 blk pos ino"
  let ?b2 = "wr_le16 ?b1 (pos + 4) (of_nat rlen)"
  let ?b4 = "?b2[pos + 6 := of_nat (length name), pos + 7 := ft]"
  have e: "blk' = put_at (pos + 8) name ?b4" by (simp add: blk'_def put_entry_def Let_def)
  have len: "length ?b4 = length blk" using n by simp
  have lo: "blk' ! i = ?b4 ! i" if "i < pos + 8" for i using that n unfolding e by (simp add: put_at_nth)
  have "rd_le32 blk' pos = rd_le32 ?b1 pos" using n lo by (intro rd_same) (simp_all add: wr_le16_def put_at_nth)
  then show "de_ino blk' pos = ino" using n by (simp add: de_ino_def rd_put_at)
  have "rd_le16 blk' (pos + 4) = rd_le16 ?b2 (pos + 4)" using n lo by (intro rd_same) simp_all
  then show "de_len blk' pos = rlen" using n by (simp add: de_len_def rd_put_at16 unat_of_nat_small)
  show nl: "de_nlen blk' pos = length name" using n lo by (simp add: de_nlen_def unat_of_nat_small)
  show "de_ftype blk' pos = ft" using n lo by (simp add: de_ftype_def)
  show "de_name blk' pos = name" unfolding de_name_def nl unfolding e using n by (subst put_at_take) simp_all
qed

lemma de_len_bound: "de_len blk pos < 65536" using unsigned_less [where ?'a = nat and ?'b = 16, of "rd_le16 blk (pos + 4)"] by (simp add: de_len_def)
lemma de_nlen_bound: "de_nlen blk pos \<le> 255" using unsigned_less [where ?'a = nat and ?'b = 8, of "blk ! (pos + 6)"] by (simp add: de_nlen_def)

text \<open>What a change of a chain from \<open>pos\<close> on amounts to.\<close>

definition chain_to :: "nat \<Rightarrow> u8 list \<Rightarrow> nat \<Rightarrow> u8 list \<Rightarrow> (u8 list \<times> u32 \<times> u8) list \<Rightarrow> bool" where
  "chain_to bs blk pos blk' es \<longleftrightarrow> length blk' = length blk \<and> (\<forall>i < pos. blk' ! i = blk ! i) \<and> chain bs blk' pos \<and> entries bs blk' pos = es"

text \<open>A change behind a record leaves the record.\<close>

lemma chain_to_cons:
  assumes c: "chain bs blk pos" "pos + 8 \<le> bs" "length blk = bs" and t: "chain_to bs blk (pos + de_len blk pos) blk' es"
  shows "chain_to bs blk pos blk' ((if de_ino blk pos \<noteq> 0 then [(de_name blk pos, de_ino blk pos, de_ftype blk pos)] else []) @ es)"
proof -
  note u = chain_unfold [OF c(1,2)]
  have l: "length blk' = length blk" "chain bs blk' (pos + de_len blk pos)" "entries bs blk' (pos + de_len blk pos) = es"
      and same: "\<And>i. i < pos + de_len blk pos \<Longrightarrow> blk' ! i = blk ! i" using t by (auto simp: chain_to_def)
  have d: "de_ino blk' pos = de_ino blk pos" "de_len blk' pos = de_len blk pos" "de_nlen blk' pos = de_nlen blk pos"
    "de_ftype blk' pos = de_ftype blk pos" by (rule de_same; use same u in simp)+
  have "de_name blk' pos = de_name blk pos" by (rule de_name_same) (use same u l d in auto)
  then show ?thesis
    using u l same d c(2) chain_fold [OF c(2), of blk'] entries_step [OF c(2), of blk'] by (simp add: chain_to_def)
qed

text \<open>The two ways to store an entry: over a dead record, and behind a live one that has room to spare.\<close>

lemma reuse_record:
  assumes c: "chain bs blk pos" "pos + 8 \<le> bs" "length blk = bs" and n: "length name \<le> 255" "ino \<noteq> 0"
    and dead: "de_ino blk pos = 0" "rec_need (length name) \<le> de_len blk pos"
  shows "chain_to bs blk pos (put_entry pos ino (de_len blk pos) name ft blk) ((name, ino, ft) # entries bs blk pos)"
proof -
  let ?r = "de_len blk pos"
  define blk' where "blk' = put_entry pos ino ?r name ft blk"
  note u = chain_unfold [OF c(1,2)]
  have room: "pos + 8 + length name \<le> length blk" "8 + length name \<le> ?r"
    using rec_need_bounds(1) [OF n(1)] dead(2) u c(3) by linarith+
  note f = put_entry_fields [OF room(1) n(1) de_len_bound [of blk pos], of ino ft, folded blk'_def]
  have other: "i < pos \<or> pos + ?r \<le> i \<Longrightarrow> i < bs \<Longrightarrow> blk' ! i = blk ! i" for i
    unfolding blk'_def using room c(3) by (intro put_entry_other) auto
  have l: "length blk' = bs" unfolding blk'_def using room c(3) by simp
  have t: "chain bs blk' (pos + ?r) \<and> entries bs blk' (pos + ?r) = entries bs blk (pos + ?r)"
    using u by (intro tail_same) (simp add: l c(3), rule other, simp_all)
  have "chain bs blk' pos" using t u room by (simp add: chain_fold [OF c(2)] f)
  moreover have "entries bs blk' pos = (name, ino, ft) # entries bs blk pos"
    using entries_step [OF c(2), of blk'] entries_step [OF c(2), of blk] f u t n(2) dead(1) by simp
  ultimately show ?thesis using l c(2,3) other by (auto simp: chain_to_def blk'_def [symmetric])
qed

lemma split_record:
  assumes c: "chain bs blk pos" "pos + 8 \<le> bs" "length blk = bs" and n: "length name \<le> 255" "ino \<noteq> 0"
    and i: "i = rec_need (de_nlen blk pos)"
    and live: "de_ino blk pos \<noteq> 0" "i \<le> de_len blk pos" "rec_need (length name) \<le> de_len blk pos - i"
  shows "chain_to bs blk pos (put_entry (pos + i) ino (de_len blk pos - i) name ft (wr_le16 blk (pos + 4) (of_nat i)))
    ((de_name blk pos, de_ino blk pos, de_ftype blk pos) # (name, ino, ft) # entries bs blk (pos + de_len blk pos))"
proof -
  let ?r = "de_len blk pos" and ?b1 = "wr_le16 blk (pos + 4) (of_nat i)"
  define blk' where "blk' = put_entry (pos + i) ino (?r - i) name ft ?b1"
  note u = chain_unfold [OF c(1,2)]
  have ideal: "8 + de_nlen blk pos \<le> i" "i \<le> 266" using rec_need_bounds [OF de_nlen_bound, of blk pos] i by auto
  have l1: "length ?b1 = bs" using c(2,3) by simp
  have room: "pos + i + 8 + length name \<le> length ?b1" "8 + length name \<le> ?r - i"
    using rec_need_bounds(1) [OF n(1)] live(2,3) u l1 by linarith+
  have fit2: "pos + i + 8 \<le> bs" using room l1 by simp
  have r: "?r - i < 65536" "i < 65536" using de_len_bound [of blk pos] ideal(2) by auto
  note f = put_entry_fields [OF room(1) n(1) r(1), of ino ft, folded blk'_def]
  have l: "length blk' = bs" unfolding blk'_def using room l1 by simp
  have put: "blk' ! j = ?b1 ! j" if "j < pos + i \<or> pos + ?r \<le> j" "j < bs" for j
    unfolding blk'_def using that room live(2) l1 by (intro put_entry_other) auto
  have one: "?b1 ! j = blk ! j" if "j < pos + 4 \<or> pos + 6 \<le> j" "j < bs" for j
    using that c(2,3) by (auto simp: wr_le16_def put_at_nth)
  have other: "blk' ! j = blk ! j" if "j < pos + 4 \<or> pos + 6 \<le> j \<and> j < pos + i \<or> pos + ?r \<le> j" "j < bs" for j
    using that put [of j] one [of j] ideal(1) u by auto
  have d: "de_ino blk' pos = de_ino blk pos" "de_nlen blk' pos = de_nlen blk pos" "de_ftype blk' pos = de_ftype blk pos"
    using c(2) ideal(1) other [of "pos + 6"] other [of "pos + 7"]
    by (auto simp: de_ino_def de_nlen_def de_ftype_def intro!: rd_same other)
  have "rd_le16 blk' (pos + 4) = rd_le16 ?b1 (pos + 4)" using c(2) ideal(1) by (intro rd_same put) auto
  then have dl: "de_len blk' pos = i" using c(2,3) r(2) by (simp add: de_len_def rd_put_at16 unat_of_nat_small)
  have dn: "de_name blk' pos = de_name blk pos"
    unfolding de_name_def d using ideal(1) u live(2) l c(3) by (intro nth_equalityI) (auto intro!: other)
  have t: "chain bs blk' (pos + ?r) \<and> entries bs blk' (pos + ?r) = entries bs blk (pos + ?r)"
    using u by (intro tail_same) (simp add: l c(3), rule other, simp_all)
  have "chain bs blk' (pos + i) \<and> entries bs blk' (pos + i) = (name, ino, ft) # entries bs blk (pos + ?r)"
    using t u room live(2) n(2) by (simp add: chain_fold [OF fit2] entries_step [OF fit2] f)
  then have "chain bs blk' pos \<and> entries bs blk' pos
      = (de_name blk pos, de_ino blk pos, de_ftype blk pos) # (name, ino, ft) # entries bs blk (pos + ?r)"
    using u ideal live(1,2) by (simp add: chain_fold [OF c(2)] entries_step [OF c(2)] dl d dn)
  then show ?thesis using l c(2,3) other by (auto simp: chain_to_def blk'_def [symmetric])
qed

lemma add_in_block_spec:
  assumes "add_in_block bs name ino ft blk pos = Some (Some blk')" "chain bs blk pos" "length blk = bs" "length name \<le> 255" "ino \<noteq> 0"
  shows "\<exists>xs ys. entries bs blk pos = xs @ ys \<and> chain_to bs blk pos blk' (xs @ (name, ino, ft) # ys)"
  using assms
proof (induction bs name ino ft blk pos rule: add_in_block.induct)
  case (1 bs name ino ft blk pos)
  let ?r = "de_len blk pos" and ?i = "rec_need (de_nlen blk pos)" and ?n = "rec_need (length name)"
  let ?e = "if de_ino blk pos \<noteq> 0 then [(de_name blk pos, de_ino blk pos, de_ftype blk pos)] else []"
  have fit: "pos + 8 \<le> bs" using 1(2) by (subst (asm) add_in_block.simps) (simp split: if_splits)
  note u = chain_unfold [OF 1(3) fit]
  have es: "entries bs blk pos = ?e @ entries bs blk (pos + ?r)" using entries_step [OF fit, of blk] u by simp
  consider (dead) "de_ino blk pos = 0" "?n \<le> ?r" | (live) "de_ino blk pos \<noteq> 0" "?i \<le> ?r" "?n \<le> ?r - ?i"
    | (on) "\<not> (de_ino blk pos = 0 \<and> ?n \<le> ?r)" "\<not> (de_ino blk pos \<noteq> 0 \<and> ?i \<le> ?r \<and> ?n \<le> ?r - ?i)" by blast
  then show ?case
  proof cases
    case dead
    then have "blk' = put_entry pos ino ?r name ft blk" using 1(2) fit u by (subst (asm) add_in_block.simps) (simp add: Let_def)
    then show ?thesis using reuse_record [OF 1(3) fit 1(4-6) dead, of ft] by (intro exI [of _ "[]"] exI [of _ "entries bs blk pos"]) simp
  next
    case live
    then have "blk' = put_entry (pos + ?i) ino (?r - ?i) name ft (wr_le16 blk (pos + 4) (of_nat ?i))"
      using 1(2) fit u by (subst (asm) add_in_block.simps) (simp add: Let_def)
    then show ?thesis using split_record [OF 1(3) fit 1(4-6) refl live, of ft] es live(1)
      by (intro exI [of _ ?e] exI [of _ "entries bs blk (pos + ?r)"]) simp
  next
    case on
    have e: "add_in_block bs name ino ft blk (pos + ?r) = Some (Some blk')"
      using 1(2) fit u on by (subst (asm) add_in_block.simps) (auto simp: Let_def split: if_splits)
    have "\<exists>xs ys. entries bs blk (pos + ?r) = xs @ ys \<and> chain_to bs blk (pos + ?r) blk' (xs @ (name, ino, ft) # ys)"
      by (rule 1(1)) (use e fit u on 1(3-) in auto)
    then obtain xs ys where "entries bs blk (pos + ?r) = xs @ ys" "chain_to bs blk (pos + ?r) blk' (xs @ (name, ino, ft) # ys)" by blast
    then show ?thesis using chain_to_cons [OF 1(3) fit 1(4)] es by (intro exI [of _ "?e @ xs"] exI [of _ ys]) auto
  qed
qed

text \<open>Finding: on a chain the walk never gives up, and returns the first entry of the name.\<close>

lemma find_in_block_spec:
  assumes "chain bs blk pos" "length blk = bs"
  shows "\<exists>r. find_in_block bs ft pb blk name pos prev = Some r
    \<and> (r = None \<longrightarrow> name \<notin> fst ` set (entries bs blk pos))
    \<and> (\<forall>hit. r = Some hit \<longrightarrow> hit_pblock hit = pb
         \<and> map_of (entries bs blk pos) name = Some (hit_ino hit, de_ftype blk (hit_pos hit))
         \<and> hit_ftype hit = (if ft then de_ftype blk (hit_pos hit) else 0))"
  using assms
proof (induction bs ft pb blk name pos prev rule: find_in_block.induct)
  case (1 bs ft pb blk name pos prev)
  show ?case
  proof (cases "pos + 8 \<le> bs")
    case True
    note u = chain_unfold [OF 1(2) True]
    let ?m = "de_ino blk pos \<noteq> 0 \<and> de_nlen blk pos = length name \<and> take (length name) (drop (pos + 8) blk) = name"
    have m: "?m \<longleftrightarrow> de_ino blk pos \<noteq> 0 \<and> de_name blk pos = name"
      using u 1(3) by (auto simp: de_name_def min_def)
    have e: "entries bs blk pos = (if de_ino blk pos \<noteq> 0 then [(de_name blk pos, de_ino blk pos, de_ftype blk pos)] else [])
        @ entries bs blk (pos + de_len blk pos)" using entries_step [OF True, of blk] u by simp
    show ?thesis
    proof (cases ?m)
      case hit: True
      then show ?thesis using u m True e by (subst find_in_block.simps) (auto simp: Let_def)
    next
      case miss: False
      have run: "find_in_block bs ft pb blk name pos prev = find_in_block bs ft pb blk name (pos + de_len blk pos) (Some pos)"
        using u miss True by (subst find_in_block.simps) (auto simp: Let_def)
      have es: "name \<notin> fst ` set (entries bs blk pos) \<longleftrightarrow> name \<notin> fst ` set (entries bs blk (pos + de_len blk pos))"
          "map_of (entries bs blk pos) name = map_of (entries bs blk (pos + de_len blk pos)) name"
        using miss m e by (auto split: if_splits)
      show ?thesis unfolding run es by (rule 1(1)) (use u miss True 1(3) in auto)
    qed
  qed (subst find_in_block.simps, simp add: entries_end)
qed

text \<open>Removing: a hit's record is swallowed by the record before it, or, when it is the first of the block,
  marked dead.\<close>

lemma renumber_record:
  assumes c: "chain bs blk pos" "pos + 8 \<le> bs" "length blk = bs"
  shows "chain_to bs blk pos (wr_le32 blk pos new)
    ((if new \<noteq> 0 then [(de_name blk pos, new, de_ftype blk pos)] else []) @ entries bs blk (pos + de_len blk pos))"
proof -
  note u = chain_unfold [OF c(1,2)]
  let ?b = "wr_le32 blk pos new"
  have l: "length ?b = bs" using c(2,3) by simp
  have other: "i < pos \<or> pos + 4 \<le> i \<Longrightarrow> i < bs \<Longrightarrow> ?b ! i = blk ! i" for i
    using c(2,3) by (auto simp: wr_le32_def put_at_nth)
  have d: "de_ino ?b pos = new" "de_len ?b pos = de_len blk pos" "de_nlen ?b pos = de_nlen blk pos" "de_ftype ?b pos = de_ftype blk pos"
    using c(2,3) other [of "pos + 6"] other [of "pos + 7"] rd_same(2) [of "pos + 4" ?b blk] other
    by (auto simp: de_ino_def de_len_def de_nlen_def de_ftype_def rd_put_at)
  have dn: "de_name ?b pos = de_name blk pos" by (rule de_name_same) (use l c(3) d(3) u other in auto)
  have "chain bs ?b (pos + de_len blk pos) \<and> entries bs ?b (pos + de_len blk pos) = entries bs blk (pos + de_len blk pos)"
    using u by (intro tail_same) (simp add: l c(3), rule other, simp_all)
  then have "chain bs ?b pos \<and> entries bs ?b pos
      = (if new \<noteq> 0 then [(de_name blk pos, new, de_ftype blk pos)] else []) @ entries bs blk (pos + de_len blk pos)"
    using u by (simp add: chain_fold [OF c(2)] entries_step [OF c(2)] d dn)
  then show ?thesis using l c(2,3) other by (auto simp: chain_to_def)
qed

lemma swallow_record:
  assumes c: "chain bs blk p" "p + 8 \<le> bs" "length blk = bs" and q: "pos = p + de_len blk p" "pos + 8 \<le> bs" "bs < 65536"
  shows "chain_to bs blk p (wr_le16 blk (p + 4) (of_nat (de_len blk p + de_len blk pos)))
    ((if de_ino blk p \<noteq> 0 then [(de_name blk p, de_ino blk p, de_ftype blk p)] else []) @ entries bs blk (pos + de_len blk pos))"
proof -
  note u = chain_unfold [OF c(1,2)]
  have v: "8 \<le> de_len blk pos" "pos + de_len blk pos \<le> bs" "chain bs blk (pos + de_len blk pos)"
    using chain_unfold [OF _ q(2)] u q(1) by auto
  define n where "n = de_len blk p + de_len blk pos"
  let ?b = "wr_le16 blk (p + 4) (of_nat n)"
  have l: "length ?b = bs" using c(2,3) by simp
  have other: "i < p + 4 \<or> p + 6 \<le> i \<Longrightarrow> i < bs \<Longrightarrow> ?b ! i = blk ! i" for i
    using c(2,3) by (auto simp: wr_le16_def put_at_nth)
  have d: "de_ino ?b p = de_ino blk p" "de_nlen ?b p = de_nlen blk p" "de_ftype ?b p = de_ftype blk p"
    using c(2,3) other [of "p + 6"] other [of "p + 7"] by (auto simp: de_ino_def de_ftype_def de_nlen_def intro!: rd_same other)
  have "n < 2 ^ 16" using v q by (simp add: n_def)
  then have dl: "de_len ?b p = n" using c(2,3) by (simp add: de_len_def rd_put_at16 unat_of_nat_small)
  have dn: "de_name ?b p = de_name blk p"
    unfolding de_name_def d using u l c(3) by (intro nth_equalityI) (auto intro!: other)
  have "chain bs ?b (pos + de_len blk pos) \<and> entries bs ?b (pos + de_len blk pos) = entries bs blk (pos + de_len blk pos)"
    using v u q by (intro tail_same) (simp add: l c(3), rule other, simp_all)
  then have "chain bs ?b p \<and> entries bs ?b p = (if de_ino blk p \<noteq> 0 then [(de_name blk p, de_ino blk p, de_ftype blk p)] else [])
      @ entries bs blk (pos + de_len blk pos)"
  proof -
    have "pos + de_len blk pos = p + n" "8 \<le> n" "de_nlen blk p \<le> n - 8" using q(1) u v by (auto simp: n_def)
    then show ?thesis using v \<open>chain bs ?b _ \<and> _\<close> by (simp add: chain_fold [OF c(2)] entries_step [OF c(2)] d dl dn)
  qed
  then show ?thesis using l c(2,3) other unfolding n_def by (auto simp: chain_to_def simp del: of_nat_add)
qed

lemma drop_entry_spec:
  assumes "find_in_block bs ft pb blk name pos prev = Some (Some hit)" "length blk = bs" "bs < 65536"
    "chain bs blk base" "prev = None \<Longrightarrow> base = pos" "\<And>p. prev = Some p \<Longrightarrow> base = p \<and> p + 8 \<le> bs \<and> pos = p + de_len blk p"
  shows "\<exists>xs ys. entries bs blk base = xs @ (name, hit_ino hit, de_ftype blk (hit_pos hit)) # ys
    \<and> chain_to bs blk base (drop_entry hit blk) (xs @ ys)"
  using assms
proof (induction bs ft pb blk name pos prev arbitrary: base rule: find_in_block.induct)
  case (1 bs ft pb blk name pos prev)
  let ?e = "\<lambda>p. if de_ino blk p \<noteq> 0 then [(de_name blk p, de_ino blk p, de_ftype blk p)] else []"
  have fit: "pos + 8 \<le> bs" using 1(2) by (subst (asm) find_in_block.simps) (simp split: if_splits)
  have c: "chain bs blk pos" using 1(5-7) chain_unfold [of bs blk base] by (cases prev) auto
  note u = chain_unfold [OF c fit]
  have es: "entries bs blk pos = ?e pos @ entries bs blk (pos + de_len blk pos)" using entries_step [OF fit, of blk] u by simp
  have eb: "entries bs blk p = ?e p @ entries bs blk pos" "base = p" "p + 8 \<le> bs" "pos = p + de_len blk p" if p: "prev = Some p" for p
    using 1(5) 1(7) [OF p] chain_unfold [of bs blk p] entries_step [of p bs blk] by auto
  let ?m = "de_ino blk pos \<noteq> 0 \<and> de_nlen blk pos = length name \<and> take (length name) (drop (pos + 8) blk) = name"
  show ?case
  proof (cases ?m)
    case m: True
    have h: "hit = \<lparr>hit_pblock = pb, hit_pos = pos, hit_rec_len = de_len blk pos, hit_prev = prev, hit_ino = de_ino blk pos,
        hit_ftype = (if ft then de_ftype blk pos else 0)\<rparr>"
      using 1(2) m fit u by (subst (asm) find_in_block.simps) (simp add: Let_def)
    have e: "?e pos = [(name, hit_ino hit, de_ftype blk (hit_pos hit))]" using m by (simp add: h de_name_def)
    show ?thesis
    proof (cases prev)
      case None
      then show ?thesis using 1(6) es e renumber_record [OF c fit 1(3), of 0]
        by (intro exI [of _ "[]"] exI [of _ "entries bs blk (pos + de_len blk pos)"]) (simp add: h drop_entry_def)
    next
      case (Some p)
      note p = eb [OF Some]
      have "chain bs blk p" using 1(5) p(2) by simp
      from swallow_record [OF this p(3) 1(3) p(4) fit 1(4)] show ?thesis using p es e Some
        by (intro exI [of _ "?e p"] exI [of _ "entries bs blk (pos + de_len blk pos)"]) (simp add: h drop_entry_def)
    qed
  next
    case m: False
    have run: "find_in_block bs ft pb blk name (pos + de_len blk pos) (Some pos) = Some (Some hit)"
      using 1(2) m fit u by (subst (asm) find_in_block.simps) (auto simp: Let_def split: if_splits)
    have "\<exists>xs ys. entries bs blk pos = xs @ (name, hit_ino hit, de_ftype blk (hit_pos hit)) # ys
        \<and> chain_to bs blk pos (drop_entry hit blk) (xs @ ys)"
      by (rule 1(1)) (use run m fit u c 1(3,4) in auto)
    then obtain xs ys where xy: "entries bs blk pos = xs @ (name, hit_ino hit, de_ftype blk (hit_pos hit)) # ys"
        "chain_to bs blk pos (drop_entry hit blk) (xs @ ys)" by blast
    show ?thesis
    proof (cases prev)
      case None
      then show ?thesis using 1(6) xy by blast
    next
      case (Some p)
      note p = eb [OF Some]
      have "chain_to bs blk p (drop_entry hit blk) (?e p @ xs @ ys)"
        by (rule chain_to_cons) (use 1(3,5) p xy in auto)
      then show ?thesis using p xy by (intro exI [of _ "?e p @ xs"] exI [of _ ys]) simp
    qed
  qed
qed

lemma renumber_spec:
  assumes "find_in_block bs ft pb blk name pos prev = Some (Some hit)" "length blk = bs" "chain bs blk pos" "new \<noteq> 0"
  shows "\<exists>xs ys. entries bs blk pos = xs @ (name, hit_ino hit, de_ftype blk (hit_pos hit)) # ys
    \<and> chain_to bs blk pos (wr_le32 blk (hit_pos hit) new) (xs @ (name, new, de_ftype blk (hit_pos hit)) # ys)"
  using assms
proof (induction bs ft pb blk name pos prev rule: find_in_block.induct)
  case (1 bs ft pb blk name pos prev)
  let ?e = "if de_ino blk pos \<noteq> 0 then [(de_name blk pos, de_ino blk pos, de_ftype blk pos)] else []"
  have fit: "pos + 8 \<le> bs" using 1(2) by (subst (asm) find_in_block.simps) (simp split: if_splits)
  note u = chain_unfold [OF 1(4) fit]
  have es: "entries bs blk pos = ?e @ entries bs blk (pos + de_len blk pos)" using entries_step [OF fit, of blk] u by simp
  let ?m = "de_ino blk pos \<noteq> 0 \<and> de_nlen blk pos = length name \<and> take (length name) (drop (pos + 8) blk) = name"
  show ?case
  proof (cases ?m)
    case m: True
    then have h: "hit_pos hit = pos" "hit_ino hit = de_ino blk pos" "de_name blk pos = name"
      using 1(2) fit u by (subst (asm) find_in_block.simps; auto simp: Let_def de_name_def)+
    then show ?thesis using es m renumber_record [OF 1(4) fit 1(3), of new] 1(5)
      by (intro exI [of _ "[]"] exI [of _ "entries bs blk (pos + de_len blk pos)"]) simp
  next
    case m: False
    have run: "find_in_block bs ft pb blk name (pos + de_len blk pos) (Some pos) = Some (Some hit)"
      using 1(2) m fit u by (subst (asm) find_in_block.simps) (auto simp: Let_def split: if_splits)
    have "\<exists>xs ys. entries bs blk (pos + de_len blk pos) = xs @ (name, hit_ino hit, de_ftype blk (hit_pos hit)) # ys
        \<and> chain_to bs blk (pos + de_len blk pos) (wr_le32 blk (hit_pos hit) new) (xs @ (name, new, de_ftype blk (hit_pos hit)) # ys)"
      by (rule 1(1)) (use run m fit u 1(3,5) in auto)
    then obtain xs ys where xy: "entries bs blk (pos + de_len blk pos) = xs @ (name, hit_ino hit, de_ftype blk (hit_pos hit)) # ys"
        "chain_to bs blk (pos + de_len blk pos) (wr_le32 blk (hit_pos hit) new) (xs @ (name, new, de_ftype blk (hit_pos hit)) # ys)" by blast
    show ?thesis using es xy chain_to_cons [OF 1(4) fit 1(3) xy(2)] by (intro exI [of _ "?e @ xs"] exI [of _ ys]) simp
  qed
qed

end
