(* ===== verification/Ext4DirMap.thy ===== *)
theory Ext4DirMap
  imports Ext4Dir
begin

text \<open>
  A directory of \<^verbatim>\<open>src/kernel/ext4.c\<close> as what its users see: a finite map from names to inode numbers and file
  types. Finding, adding and removing entries refine lookup, update and deletion of the map, on top of any
  byte store that keeps the contract \<open>disk_bytes\<close>.
\<close>

section \<open>The blocks of a directory\<close>

definition block_span :: "ext4_fs \<Rightarrow> u64 \<Rightarrow> u64 \<Rightarrow> bool" where
  "block_span f p = in_span (p * ucast (block_size f)) (unat (block_size f))"

definition dir_list :: "ext4_fs \<Rightarrow> (u64 \<Rightarrow> u8) \<Rightarrow> u64 list \<Rightarrow> (u8 list \<times> u32 \<times> u8) list" where
  "dir_list f v pbs = concat (map (\<lambda>p. entries (unat (block_size f)) (blk_bytes f v p) 0) pbs)"

definition dir_map :: "ext4_fs \<Rightarrow> (u64 \<Rightarrow> u8) \<Rightarrow> u64 list \<Rightarrow> u8 list \<Rightarrow> (u32 \<times> u8) option" where
  "dir_map f v pbs = map_of (dir_list f v pbs)"

text \<open>Distinct blocks of the file system, each a chain of records; no name twice.\<close>

definition block_ok :: "(u64 \<Rightarrow> nat \<Rightarrow> bool) \<Rightarrow> ext4_fs \<Rightarrow> u64 \<Rightarrow> bool" where
  "block_ok usable f p \<longleftrightarrow> usable (p * ucast (block_size f)) (unat (block_size f))
     \<and> unat p * unat (block_size f) + unat (block_size f) < 2 ^ 64"

definition dir_wf :: "(u64 \<Rightarrow> nat \<Rightarrow> bool) \<Rightarrow> ext4_fs \<Rightarrow> (u64 \<Rightarrow> u8) \<Rightarrow> u64 list \<Rightarrow> bool" where
  "dir_wf usable f v pbs \<longleftrightarrow> unat (block_size f) < 65536 \<and> distinct pbs \<and> distinct (map fst (dir_list f v pbs))
     \<and> (\<forall>p \<in> set pbs. block_ok usable f p \<and> chain (unat (block_size f)) (blk_bytes f v p) 0)"

text \<open>The block map of the directory's inode: asked for a block of the directory, it answers with the
  block or fails, and does not depend on what the directory's own blocks hold.\<close>

definition maps_to :: "'d blkdrv \<Rightarrow> ('d ext4 \<Rightarrow> bool) \<Rightarrow> ('d ext4 \<Rightarrow> u64 \<Rightarrow> u8) \<Rightarrow> ext4_meta \<Rightarrow> ext4_fs \<Rightarrow> (u64 \<Rightarrow> u8) \<Rightarrow> u64 list \<Rightarrow> bool" where
  "maps_to D ok view m f v pbs \<longleftrightarrow> (\<forall>lb < length pbs. \<forall>s r s'. ok s \<longrightarrow> fs s = f
     \<longrightarrow> (\<forall>k. (\<forall>p \<in> set pbs. \<not> block_span f p k) \<longrightarrow> view s k = v k) \<longrightarrow> ext4_map_file_block D m (of_nat lb) s = (r, s')
     \<longrightarrow> ok s' \<and> fs s' = f \<and> view s' = view s \<and> (r = None \<or> r = Some (pbs ! lb)))"

definition dir_of :: "'d blkdrv \<Rightarrow> ('d ext4 \<Rightarrow> bool) \<Rightarrow> ('d ext4 \<Rightarrow> u64 \<Rightarrow> u8) \<Rightarrow> (u64 \<Rightarrow> nat \<Rightarrow> bool) \<Rightarrow> ext4_meta \<Rightarrow> u64 list \<Rightarrow> 'd ext4 \<Rightarrow> bool" where
  "dir_of D ok view usable m pbs s \<longleftrightarrow> ok s \<and> length pbs = unat (dir_blocks m (fs s))
     \<and> dir_wf usable (fs s) (view s) pbs \<and> maps_to D ok view m (fs s) (view s) pbs"

text \<open>An inode that names its blocks itself.\<close>

lemma maps_direct:
  assumes "\<not> uses_extents m" "length pbs \<le> 12" "\<forall>lb < length pbs. pbs ! lb = ucast (m_block m ! lb)"
  shows "maps_to D ok view m f v pbs"
  using assms by (auto simp: maps_to_def ext4_map_file_block_def ext4_map_block_direct_def ret_def word_less_nat_alt unat_of_nat)

lemma block_span_nat: "block_ok usable f p \<Longrightarrow> block_span f p k \<longleftrightarrow> unat p * unat (block_size f) \<le> unat k \<and> unat k < unat p * unat (block_size f) + unat (block_size f)"
  using unat_mult_u64 [of p "ucast (block_size f)"] by (auto simp: block_ok_def block_span_def in_span_def)

lemma put_block:
  assumes "block_ok usable f p" "length blk = unat (block_size f)"
  shows "blk_bytes f (put_bytes (p * ucast (block_size f)) blk v) p = blk" (is "blk_bytes f ?v p = _")
    "\<not> block_span f p k \<Longrightarrow> put_bytes (p * ucast (block_size f)) blk v k = v k"
    "block_ok usable f q \<Longrightarrow> q \<noteq> p \<Longrightarrow> blk_bytes f (put_bytes (p * ucast (block_size f)) blk v) q = blk_bytes f v q"
proof -
  have u: "unat (p * ucast (block_size f)) = unat p * unat (block_size f)" "unat p * unat (block_size f) + unat (block_size f) < 2 ^ 64"
    using assms(1) unat_mult_u64 [of p "ucast (block_size f)"] by (auto simp: block_ok_def)
  show "blk_bytes f ?v p = blk"
    unfolding blk_bytes_def using assms(2) u
    by (intro nth_equalityI) (auto simp: get_bytes_nth put_bytes_span in_span_def unat_add_small)
  show out: "\<not> block_span f p k \<Longrightarrow> ?v k = v k" for k
    using assms(2) u by (auto simp: put_bytes_span block_span_def)
  show "blk_bytes f ?v q = blk_bytes f v q" if q: "block_ok usable f q" "q \<noteq> p"
    unfolding blk_bytes_def
  proof (rule get_bytes_cong)
    fix i assume i: "i < unat (block_size f)"
    have "unat (q * ucast (block_size f) + of_nat i) = unat q * unat (block_size f) + i"
      using q(1) i unat_mult_u64 [of q "ucast (block_size f)"] by (subst unat_add_small) (auto simp: block_ok_def)
    then have "\<not> block_span f p (q * ucast (block_size f) + of_nat i)"
      using blocks_apart [OF q(2), of "unat (block_size f)"] i by (auto simp: block_span_nat [OF assms(1)])
    then show "?v (q * ucast (block_size f) + of_nat i) = v (q * ucast (block_size f) + of_nat i)" by (rule out)
  qed
qed

text \<open>Storing one block of a directory.\<close>

lemma dir_put:
  assumes wf: "dir_wf usable f v pbs" and lb: "lb < length pbs" and blk: "chain_to (unat (block_size f)) (blk_bytes f v (pbs ! lb)) 0 blk es"
  defines "v' \<equiv> put_bytes (pbs ! lb * ucast (block_size f)) blk v"
  shows "dir_list f v pbs = dir_list f v (take lb pbs) @ entries (unat (block_size f)) (blk_bytes f v (pbs ! lb)) 0 @ dir_list f v (drop (Suc lb) pbs)"
    "dir_list f v' pbs = dir_list f v (take lb pbs) @ es @ dir_list f v (drop (Suc lb) pbs)"
    "\<forall>p \<in> set pbs. chain (unat (block_size f)) (blk_bytes f v' p) 0"
    "(\<forall>p \<in> set pbs. \<not> block_span f p k) \<Longrightarrow> v' k = v k"
proof -
  let ?p = "pbs ! lb"
  have p: "?p \<in> set pbs" and bok: "block_ok usable f q" if "q \<in> set pbs" for q using wf lb that by (auto simp: dir_wf_def)
  have len: "length blk = unat (block_size f)" "chain (unat (block_size f)) blk 0" "entries (unat (block_size f)) blk 0 = es"
    using blk by (auto simp: chain_to_def)
  have pp: "?p \<in> set pbs" using lb by simp
  note put = put_block [OF bok [OF pp] len(1), where v = v, folded v'_def]
  have other: "blk_bytes f v' q = blk_bytes f v q" if "q \<in> set pbs" "q \<noteq> ?p" for q using put(3) bok that by blast
  have d: "pbs = take lb pbs @ ?p # drop (Suc lb) pbs" using lb by (simp add: id_take_nth_drop)
  have "distinct (take lb pbs @ ?p # drop (Suc lb) pbs)" using wf d by (simp add: dir_wf_def)
  then have ne: "?p \<notin> set (take lb pbs)" "?p \<notin> set (drop (Suc lb) pbs)" by auto
  have rest: "dir_list f v' ps = dir_list f v ps" if "set ps \<subseteq> set pbs" "?p \<notin> set ps" for ps
    unfolding dir_list_def using that other by (intro arg_cong [of _ _ concat] map_cong refl) (metis subsetD)
  show "dir_list f v pbs = dir_list f v (take lb pbs) @ entries (unat (block_size f)) (blk_bytes f v ?p) 0 @ dir_list f v (drop (Suc lb) pbs)"
    by (subst d) (simp add: dir_list_def)
  have "dir_list f v' pbs = dir_list f v' (take lb pbs) @ entries (unat (block_size f)) (blk_bytes f v' ?p) 0 @ dir_list f v' (drop (Suc lb) pbs)"
    by (subst d) (simp add: dir_list_def)
  then show "dir_list f v' pbs = dir_list f v (take lb pbs) @ es @ dir_list f v (drop (Suc lb) pbs)"
    using rest [of "take lb pbs"] rest [of "drop (Suc lb) pbs"] ne put(1) len(3) by (simp add: set_take_subset set_drop_subset)
  show "\<forall>p \<in> set pbs. chain (unat (block_size f)) (blk_bytes f v' p) 0"
    using wf other put(1) len(2) by (metis dir_wf_def)
  show "(\<forall>p \<in> set pbs. \<not> block_span f p k) \<Longrightarrow> v' k = v k" using put(2) pp by blast
qed

text \<open>Association lists as maps.\<close>

lemma map_of_insert: "x \<notin> fst ` set xs \<Longrightarrow> map_of (xs @ (x, y) # ys) = (map_of (xs @ ys))(x \<mapsto> y)"
  by (rule ext) (auto simp: map_add_def map_of_eq_None_iff [THEN iffD2] split: option.splits)

lemma map_of_delete: "distinct (map fst (xs @ (x, y) # ys)) \<Longrightarrow> map_of (xs @ ys) = (map_of (xs @ (x, y) # ys))(x := None)"
  by (rule ext) (auto simp: map_add_def map_of_eq_None_iff [THEN iffD2] split: option.splits dest: map_of_SomeD)

lemma map_of_renew:
  "distinct (map fst (xs @ (x, y) # ys)) \<Longrightarrow>
     map_of (xs @ (x, y) # ys) x = Some y \<and> map_of (xs @ (x, z) # ys) = (map_of (xs @ (x, y) # ys))(x \<mapsto> z)"
  using map_of_insert [of x xs y ys] map_of_insert [of x xs z ys] by auto

section \<open>The operations on any store of bytes\<close>

context disk_bytes
begin

abbreviation here :: "ext4_meta \<Rightarrow> u64 list \<Rightarrow> 'd ext4 \<Rightarrow> bool" where
  "here m pbs s \<equiv> dir_of D inv view usable m pbs s"

lemma here_stay: "here m pbs s \<Longrightarrow> stay s s' \<Longrightarrow> here m pbs s'" by (simp add: dir_of_def stay_def)
lemma stay_trans: "stay s s1 \<Longrightarrow> stay s1 s2 \<Longrightarrow> stay s s2" by (simp add: stay_def)
lemma stay_refl: "inv s \<Longrightarrow> stay s s" by (simp add: stay_def)
lemma here_inv: "here m pbs s \<Longrightarrow> inv s" by (simp add: dir_of_def)

lemma map_step:
  assumes "here m pbs s" "lb < length pbs" "ext4_map_file_block D m (of_nat lb) s = (r, s')"
  shows "stay s s'" "r = None \<or> r = Some (pbs ! lb)"
  using assms unfolding dir_of_def maps_to_def stay_def by blast+

lemma dir_block_read:
  assumes "here m pbs s" "p \<in> set pbs" "ext4_read_block D p s = (r, s')"
  shows "stay s s'" "r = Some b \<Longrightarrow> b = blk_bytes (fs s) (view s) p"
proof -
  have "usable (p * ucast (block_size (fs s))) (unat (block_size (fs s)))" "inv s"
    using assms(1,2) by (auto simp: dir_of_def dir_wf_def block_ok_def)
  from read_block [OF this(2,1) assms(3)] show "stay s s'" "r = Some b \<Longrightarrow> b = blk_bytes (fs s) (view s) p" .
qed

lemma dir_block_chain:
  "here m pbs s \<Longrightarrow> p \<in> set pbs \<Longrightarrow> chain (unat (block_size (fs s))) (blk_bytes (fs s) (view s) p) 0"
  by (simp add: dir_of_def dir_wf_def)

lemma find_blocks:
  assumes "here m pbs s" "set lbs \<subseteq> {..<length pbs}" "find_entry_blocks D m name lbs s = (r, s')"
  shows "stay s s' \<and> (\<forall>hit. r = Some hit \<longrightarrow> (\<exists>lb \<in> set lbs. hit_pblock hit = pbs ! lb \<and>
    find_in_block (unat (block_size (fs s))) (has_filetype (fs s)) (pbs ! lb) (blk_bytes (fs s) (view s) (pbs ! lb)) name 0 None = Some (Some hit)))"
  using assms
proof (induction lbs arbitrary: s)
  case Nil
  then show ?case using here_inv by (auto simp: fail_def stay_refl)
next
  case (Cons lb lbs)
  let ?p = "pbs ! lb" and ?bs = "unat (block_size (fs s))"
  have lb: "lb < length pbs" "?p \<in> set pbs" using Cons.prems(2) by auto
  obtain q s1 where m: "ext4_map_file_block D m (of_nat lb) s = (q, s1)" by fastforce
  note st1 = map_step [OF Cons.prems(1) lb(1) m]
  note h1 = here_stay [OF Cons.prems(1) st1(1)]
  have tail: ?case if "stay s s2" "find_entry_blocks D m name lbs s2 = (r, s')" for s2
  proof -
    have e: "fs s2 = fs s" "view s2 = view s" using that(1) by (auto simp: stay_def)
    have "set lbs \<subseteq> {..<length pbs}" using Cons.prems(2) by simp
    note ih = Cons.IH [OF here_stay [OF Cons.prems(1) that(1)] this that(2), unfolded e]
    show ?thesis using ih stay_trans [OF that(1), of s'] by fastforce
  qed
  show ?case
  proof (cases "q = None \<or> q = Some 0")
    case True
    then have "find_entry_blocks D m name lbs s1 = (r, s')" using Cons.prems(3) m by (auto simp: seq_def attempt_def)
    then show ?thesis by (rule tail [OF st1(1)])
  next
    case False
    then have q: "q = Some ?p" "?p \<noteq> 0" using st1(2) by auto
    obtain b s2 where rd: "ext4_read_block D ?p s1 = (b, s2)" by fastforce
    note st2 = dir_block_read [OF h1 lb(2) rd]
    have st: "stay s s2" "fs s2 = fs s" "fs s1 = fs s" "view s1 = view s" using stay_trans [OF st1(1) st2(1)] st1(1) by (auto simp: stay_def)
    show ?thesis
    proof (cases b)
      case None
      then show ?thesis using Cons.prems(3) m q rd st by (simp add: seq_def attempt_def Let_def)
    next
      case (Some blk)
      have blk: "blk = blk_bytes (fs s) (view s) ?p" using st2(2) Some st by simp
      have c: "chain ?bs blk 0" unfolding blk using Cons.prems(1) lb(2) by (rule dir_block_chain)
      then obtain x where x: "find_in_block ?bs (has_filetype (fs s)) ?p blk name 0 None = Some x"
          "\<forall>hit. x = Some hit \<longrightarrow> hit_pblock hit = ?p"
        using find_in_block_spec [OF c, of "has_filetype (fs s)" ?p name None] blk by auto
      show ?thesis
      proof (cases x)
        case None
        then have "find_entry_blocks D m name lbs s2 = (r, s')"
          using Cons.prems(3) m q rd Some x st by (simp add: seq_def attempt_def Let_def gets_def)
        then show ?thesis by (rule tail [OF st(1)])
      next
        case (Some hit)
        then have "r = Some hit" "s' = s2"
          using Cons.prems(3) m q rd \<open>b = Some blk\<close> x st by (auto simp: seq_def attempt_def Let_def gets_def ret_def)
        then show ?thesis using st(1) x Some blk by auto
      qed
    qed
  qed
qed

lemma add_blocks:
  assumes "here m pbs s" "set lbs \<subseteq> {..<length pbs}" "add_entry_blocks D m name ino ft lbs s = (Some x, s')"
  shows "\<exists>lb \<in> set lbs. \<exists>blk s1. add_in_block (unat (block_size (fs s))) name ino (if has_filetype (fs s) then ft else 0)
      (blk_bytes (fs s) (view s) (pbs ! lb)) 0 = Some (Some blk)
    \<and> stay s s1 \<and> ext4_write_block D (pbs ! lb) blk s1 = (Some x, s')"
  using assms
proof (induction lbs arbitrary: s)
  case (Cons lb lbs)
  let ?p = "pbs ! lb" and ?bs = "unat (block_size (fs s))" and ?ft = "if has_filetype (fs s) then ft else 0"
  have lb: "lb < length pbs" "?p \<in> set pbs" using Cons.prems(2) by auto
  obtain q s1 b s2 where m: "ext4_map_file_block D m (of_nat lb) s = (Some q, s1)" and rd: "ext4_read_block D q s1 = (Some b, s2)"
      and run: "(case add_in_block (unat (block_size (fs s2))) name ino (if has_filetype (fs s2) then ft else 0) b 0 of None \<Rightarrow> fail
        | Some (Some blk') \<Rightarrow> ext4_write_block D q blk' | Some None \<Rightarrow> add_entry_blocks D m name ino ft lbs) s2 = (Some x, s')"
    using Cons.prems(3) by (auto simp: seq_Some op_simps split: if_splits)
  note st1 = map_step [OF Cons.prems(1) lb(1) m]
  note h1 = here_stay [OF Cons.prems(1) st1(1)]
  have q: "q = ?p" using st1(2) by simp
  note st2 = dir_block_read [OF h1 lb(2) rd [unfolded q]]
  have st: "stay s s2" and e: "fs s2 = fs s" "view s2 = view s" "fs s1 = fs s" "view s1 = view s"
    using stay_trans [OF st1(1) st2(1)] st1(1) by (auto simp: stay_def)
  have b: "b = blk_bytes (fs s) (view s) ?p" using st2(2) e by simp
  show ?case
  proof (cases "add_in_block ?bs name ino ?ft b 0")
    case None
    then show ?thesis using run e by (simp add: fail_def)
  next
    case (Some y)
    show ?thesis
    proof (cases y)
      case None
      have "set lbs \<subseteq> {..<length pbs}" "add_entry_blocks D m name ino ft lbs s2 = (Some x, s')"
        using run Some None e Cons.prems(2) by auto
      from Cons.IH [OF here_stay [OF Cons.prems(1) st] this, unfolded e] show ?thesis using stay_trans [OF st] by fastforce
    next
      case w: (Some blk)
      then have "ext4_write_block D ?p blk s2 = (Some x, s')" using run Some e q by simp
      then show ?thesis using Some w b st by auto
    qed
  qed
qed (simp add: fail_def)

text \<open>A stored block: what the directory is afterwards.\<close>

lemma store_here:
  assumes h: "here m pbs s" and lb: "lb < length pbs" and blk: "chain_to (unat (block_size (fs s))) (blk_bytes (fs s) (view s) (pbs ! lb)) 0 blk es"
    and st: "stay s s1" and wr: "ext4_write_block D (pbs ! lb) blk s1 = (Some x, s')"
  obtains xs ys where "dir_list (fs s) (view s) pbs = xs @ entries (unat (block_size (fs s))) (blk_bytes (fs s) (view s) (pbs ! lb)) 0 @ ys"
    "dir_list (fs s) (view s') pbs = xs @ es @ ys" "fs s' = fs s"
    "distinct (map fst (dir_list (fs s) (view s') pbs)) \<longrightarrow> here m pbs s'"
proof -
  let ?f = "fs s" and ?p = "pbs ! lb"
  have wf: "dir_wf usable ?f (view s) pbs" and mp: "maps_to D inv view m ?f (view s) pbs" and n: "length pbs = unat (dir_blocks m ?f)"
    using h by (auto simp: dir_of_def)
  have e: "fs s1 = fs s" "view s1 = view s" "inv s1" using st by (auto simp: stay_def)
  have len: "length blk = unat (block_size ?f)" using blk by (simp add: chain_to_def)
  have u: "usable (?p * ucast (block_size ?f)) (length blk)" using wf lb len by (auto simp: dir_wf_def block_ok_def)
  have "ext4_disk_write_bytes D (?p * ucast (block_size ?f)) blk s1 = (Some x, s')" using wr len e by (simp add: ext4_write_block_def)
  note w = write_done [OF e(3) u this, unfolded e]
  note d = dir_put [OF wf lb blk]
  have "maps_to D inv view m ?f (view s') pbs" using mp d(4) unfolding maps_to_def w(3) by (metis (no_types, lifting))
  then have "here m pbs s'" if "distinct (map fst (dir_list (fs s) (view s') pbs))"
    using that wf w n d(3) by (auto simp: dir_of_def dir_wf_def)
  then show thesis using that d(1,2) w by simp
qed

text \<open>Finding, adding, renumbering and removing.\<close>

lemma dir_found:
  assumes h: "here m pbs s" and run: "ext4_dir_find_entry D m name s = (r, s')"
  shows "stay s s'" "r = Some hit \<Longrightarrow> \<exists>lb < length pbs. hit_pblock hit = pbs ! lb \<and>
    find_in_block (unat (block_size (fs s))) (has_filetype (fs s)) (pbs ! lb) (blk_bytes (fs s) (view s) (pbs ! lb)) name 0 None = Some (Some hit)"
proof -
  have n: "length pbs = unat (dir_blocks m (fs s))" using h by (simp add: dir_of_def)
  have "(r, s') = (None, s) \<or> find_entry_blocks D m name [0..<length pbs] s = (r, s')"
    using run n by (auto simp: ext4_dir_find_entry_def op_simps split: if_splits)
  then show "stay s s'" "r = Some hit \<Longrightarrow> \<exists>lb < length pbs. hit_pblock hit = pbs ! lb \<and>
    find_in_block (unat (block_size (fs s))) (has_filetype (fs s)) (pbs ! lb) (blk_bytes (fs s) (view s) (pbs ! lb)) name 0 None = Some (Some hit)"
    using find_blocks [OF h, of "[0..<length pbs]" name r s'] stay_refl [OF here_inv [OF h]]
    by (auto simp: atLeast0LessThan)
qed

lemma dir_find:
  assumes h: "here m pbs s" and run: "ext4_dir_find_entry D m name s = (Some hit, s')"
  shows "\<exists>ft. dir_map (fs s) (view s) pbs name = Some (hit_ino hit, ft) \<and> hit_ftype hit = (if has_filetype (fs s) then ft else 0)"
proof -
  let ?bs = "unat (block_size (fs s))" and ?ft = "has_filetype (fs s)"
  obtain lb where lb: "lb < length pbs" and fi: "find_in_block ?bs ?ft (pbs ! lb) (blk_bytes (fs s) (view s) (pbs ! lb)) name 0 None = Some (Some hit)"
    using dir_found [OF h run] by auto
  let ?b = "blk_bytes (fs s) (view s) (pbs ! lb)"
  have c: "chain ?bs ?b 0" and d: "distinct (map fst (dir_list (fs s) (view s) pbs))"
    using h lb by (auto simp: dir_of_def dir_wf_def)
  have m: "map_of (entries ?bs ?b 0) name = Some (hit_ino hit, de_ftype ?b (hit_pos hit))"
      "hit_ftype hit = (if ?ft then de_ftype ?b (hit_pos hit) else 0)"
    using find_in_block_spec [OF c, of ?ft "pbs ! lb" name None] fi by auto
  have "set (entries ?bs ?b 0) \<subseteq> set (dir_list (fs s) (view s) pbs)" using lb by (force simp: dir_list_def)
  then have "dir_map (fs s) (view s) pbs name = Some (hit_ino hit, de_ftype ?b (hit_pos hit))"
    unfolding dir_map_def using map_of_SomeD [OF m(1)] d by (auto intro: map_of_is_SomeI)
  then show ?thesis using m(2) by auto
qed

lemma dir_add:
  assumes h: "here m pbs s" and run: "ext4_dir_add_entry D m name ino ft s = (Some x, s')" and i: "ino \<noteq> 0"
    and new: "dir_map (fs s) (view s) pbs name = None"
  shows "here m pbs s' \<and> fs s' = fs s
    \<and> dir_map (fs s) (view s') pbs = (dir_map (fs s) (view s) pbs)(name \<mapsto> (ino, if has_filetype (fs s) then ft else 0))"
proof -
  let ?bs = "unat (block_size (fs s))" and ?ft = "if has_filetype (fs s) then ft else 0"
  have n: "length pbs = unat (dir_blocks m (fs s))" "distinct (map fst (dir_list (fs s) (view s) pbs))" using h by (auto simp: dir_of_def dir_wf_def)
  have nm: "length name \<le> 255" and go: "add_entry_blocks D m name ino ft [0..<length pbs] s = (Some x, s')"
    using run n(1) by (auto simp: ext4_dir_add_entry_def op_simps split: if_splits)
  from add_blocks [OF h _ go] obtain lb blk s1 where lb: "lb < length pbs"
      and ad: "add_in_block ?bs name ino ?ft (blk_bytes (fs s) (view s) (pbs ! lb)) 0 = Some (Some blk)"
      and st: "stay s s1" and wr: "ext4_write_block D (pbs ! lb) blk s1 = (Some x, s')" by (auto simp: atLeast0LessThan)
  have c: "chain ?bs (blk_bytes (fs s) (view s) (pbs ! lb)) 0" using h lb by (auto intro: dir_block_chain)
  from add_in_block_spec [OF ad c _ nm i] obtain us vs where uv: "entries ?bs (blk_bytes (fs s) (view s) (pbs ! lb)) 0 = us @ vs"
      and ct: "chain_to ?bs (blk_bytes (fs s) (view s) (pbs ! lb)) 0 blk (us @ (name, ino, ?ft) # vs)" by auto
  obtain xs ys where st: "dir_list (fs s) (view s) pbs = xs @ entries ?bs (blk_bytes (fs s) (view s) (pbs ! lb)) 0 @ ys"
      "dir_list (fs s) (view s') pbs = xs @ (us @ (name, ino, ?ft) # vs) @ ys" "fs s' = fs s"
      "distinct (map fst (dir_list (fs s) (view s') pbs)) \<longrightarrow> here m pbs s'"
    by (rule store_here [OF h lb ct st wr])
  have xy: "dir_list (fs s) (view s) pbs = (xs @ us) @ (vs @ ys)" "dir_list (fs s) (view s') pbs = (xs @ us) @ (name, ino, ?ft) # (vs @ ys)"
    using st(1,2) uv by simp_all
  have "name \<notin> fst ` set (dir_list (fs s) (view s) pbs)" using new by (simp add: dir_map_def map_of_eq_None_iff)
  then have fresh: "name \<notin> fst ` set (xs @ us)" "name \<notin> fst ` set (vs @ ys)" unfolding xy by auto
  then have "here m pbs s'" using xy st(4) n(2) by auto
  then show ?thesis using st(3) unfolding dir_map_def xy map_of_insert [OF fresh(1)] by blast
qed

lemma dir_remove:
  assumes h: "here m pbs s" and run: "ext4_dir_remove_entry D m name s = (Some (ino, ft), s')"
  shows "here m pbs s' \<and> fs s' = fs s \<and> (\<exists>t. dir_map (fs s) (view s) pbs name = Some (ino, t) \<and> ft = (if has_filetype (fs s) then t else 0))
    \<and> dir_map (fs s) (view s') pbs = (dir_map (fs s) (view s) pbs)(name := None)"
proof -
  let ?bs = "unat (block_size (fs s))"
  obtain hit s1 b s2 where fi: "ext4_dir_find_entry D m name s = (Some hit, s1)" and rd: "ext4_read_block D (hit_pblock hit) s1 = (Some b, s2)"
      and wr: "ext4_write_block D (hit_pblock hit) (drop_entry hit b) s2 = (Some (), s')" and r: "ino = hit_ino hit" "ft = hit_ftype hit"
    using run by (auto simp: ext4_dir_remove_entry_def seq_Some op_simps)
  note st1 = dir_found(1) [OF h fi]
  from dir_found(2) [OF h fi refl] obtain lb where lb: "lb < length pbs" "hit_pblock hit = pbs ! lb"
      and fb: "find_in_block ?bs (has_filetype (fs s)) (pbs ! lb) (blk_bytes (fs s) (view s) (pbs ! lb)) name 0 None = Some (Some hit)" by auto
  have p: "hit_pblock hit \<in> set pbs" using lb by simp
  note st2 = dir_block_read [OF here_stay [OF h st1] p rd]
  have e: "fs s1 = fs s" "view s1 = view s" using st1 by (auto simp: stay_def)
  have b: "b = blk_bytes (fs s) (view s) (pbs ! lb)" using st2(2) e lb(2) by simp
  have c: "chain ?bs b 0" "?bs < 65536" "distinct (map fst (dir_list (fs s) (view s) pbs))"
    using h lb by (auto simp: b dir_of_def dir_wf_def)
  from drop_entry_spec [OF fb [folded b] _ c(2,1)] obtain us vs t where uv: "entries ?bs b 0 = us @ (name, hit_ino hit, t) # vs"
      and ct: "chain_to ?bs b 0 (drop_entry hit b) (us @ vs)" by (auto simp: b)
  obtain xs ys where st: "dir_list (fs s) (view s) pbs = xs @ entries ?bs (blk_bytes (fs s) (view s) (pbs ! lb)) 0 @ ys"
      "dir_list (fs s) (view s') pbs = xs @ (us @ vs) @ ys" "fs s' = fs s"
      "distinct (map fst (dir_list (fs s) (view s') pbs)) \<longrightarrow> here m pbs s'"
    by (rule store_here [OF h lb(1) ct [unfolded b] stay_trans [OF st1 st2(1)] wr [unfolded lb(2) b]])
  have xy: "dir_list (fs s) (view s) pbs = (xs @ us) @ (name, hit_ino hit, t) # (vs @ ys)" "dir_list (fs s) (view s') pbs = (xs @ us) @ (vs @ ys)"
    using st(1,2) uv unfolding b by simp_all
  have "here m pbs s'" using xy c(3) st(4) by auto
  moreover have "dir_map (fs s) (view s') pbs = (dir_map (fs s) (view s) pbs)(name := None)"
    unfolding dir_map_def xy by (rule map_of_delete) (use c(3) xy in auto)
  ultimately show ?thesis using dir_find [OF h fi] st(3) r by auto
qed

lemma dir_renumber:
  assumes h: "here m pbs s" and run: "ext4_dir_update_entry_ino D m name new s = (Some x, s')" and i: "new \<noteq> 0"
  shows "here m pbs s' \<and> fs s' = fs s \<and> (\<exists>ino t. dir_map (fs s) (view s) pbs name = Some (ino, t)
    \<and> dir_map (fs s) (view s') pbs = (dir_map (fs s) (view s) pbs)(name \<mapsto> (new, t)))"
proof -
  let ?bs = "unat (block_size (fs s))"
  obtain hit s1 b s2 where fi: "ext4_dir_find_entry D m name s = (Some hit, s1)" and rd: "ext4_read_block D (hit_pblock hit) s1 = (Some b, s2)"
      and wr: "ext4_write_block D (hit_pblock hit) (wr_le32 b (hit_pos hit) new) s2 = (Some x, s')"
    using run by (auto simp: ext4_dir_update_entry_ino_def seq_Some op_simps)
  note st1 = dir_found(1) [OF h fi]
  from dir_found(2) [OF h fi refl] obtain lb where lb: "lb < length pbs" "hit_pblock hit = pbs ! lb"
      and fb: "find_in_block ?bs (has_filetype (fs s)) (pbs ! lb) (blk_bytes (fs s) (view s) (pbs ! lb)) name 0 None = Some (Some hit)" by auto
  have p: "hit_pblock hit \<in> set pbs" using lb by simp
  note st2 = dir_block_read [OF here_stay [OF h st1] p rd]
  have e: "fs s1 = fs s" "view s1 = view s" using st1 by (auto simp: stay_def)
  have b: "b = blk_bytes (fs s) (view s) (pbs ! lb)" using st2(2) e lb(2) by simp
  have c: "chain ?bs b 0" "distinct (map fst (dir_list (fs s) (view s) pbs))" using h lb by (auto simp: b dir_of_def dir_wf_def)
  from renumber_spec [OF fb [folded b] _ c(1) i] obtain us vs t where uv: "entries ?bs b 0 = us @ (name, hit_ino hit, t) # vs"
      and ct: "chain_to ?bs b 0 (wr_le32 b (hit_pos hit) new) (us @ (name, new, t) # vs)" by (auto simp: b)
  obtain xs ys where st: "dir_list (fs s) (view s) pbs = xs @ entries ?bs (blk_bytes (fs s) (view s) (pbs ! lb)) 0 @ ys"
      "dir_list (fs s) (view s') pbs = xs @ (us @ (name, new, t) # vs) @ ys" "fs s' = fs s"
      "distinct (map fst (dir_list (fs s) (view s') pbs)) \<longrightarrow> here m pbs s'"
    by (rule store_here [OF h lb(1) ct [unfolded b] stay_trans [OF st1 st2(1)] wr [unfolded lb(2) b]])
  have xy: "dir_list (fs s) (view s) pbs = (xs @ us) @ (name, hit_ino hit, t) # (vs @ ys)" "dir_list (fs s) (view s') pbs = (xs @ us) @ (name, new, t) # (vs @ ys)"
    using st(1,2) uv unfolding b by simp_all
  have "here m pbs s'" using xy c(2) st(4) by auto
  moreover have "dir_map (fs s) (view s) pbs name = Some (hit_ino hit, t)
      \<and> dir_map (fs s) (view s') pbs = (dir_map (fs s) (view s) pbs)(name \<mapsto> (new, t))"
    unfolding dir_map_def xy by (rule map_of_renew) (use c(2) xy in auto)
  ultimately show ?thesis using st(3) by blast
qed

end

section \<open>A directory\<close>

text \<open>Block 20 holds one record: the name \<^verbatim>\<open>a\<close> for inode 12.\<close>

definition dir_disk :: "u64 \<Rightarrow> u8" where
  "dir_disk k = (if k = 20480 then 12 else if k = 20485 then 4 else if k = 20486 then 1 else if k = 20487 then 1
     else if k = 20488 then 97 else 0)"

abbreviation dir_example :: "(u64 \<Rightarrow> sector) ext4" where "dir_example \<equiv> example_ext4 1024 (disk_of dir_disk)"

definition dir_inode :: ext4_meta where
  "dir_inode = \<lparr>m_valid = True, m_ino = 2, m_mode = 0x41ED, m_links = 2, m_flags = 0, m_blocks_lo = 2, m_size = 1024,
     m_block = 20 # replicate 14 0\<rparr>"

lemma example_served: "served (mem_disk 1024) (\<lambda>d. d) (example_fs 1024) g (example_ext4 1024 (disk_of g))"
proof -
  let ?s = "example_ext4 1024 (disk_of g)"
  have g: "disk_good (mem_disk 1024) (\<lambda>d. d) ?s" by (rule example_good) simp_all
  have p: "plain (mem_disk 1024) (\<lambda>d. d) ?s"
    using g by (simp add: plain_def disk_good_def journal_zero_def jbd2_zero_def jl_ok_def jb_ok_def)
  show ?thesis using g p plain_view [OF p] by (simp add: served_def example_bytes)
qed

abbreviation dir_blk :: "u8 list" where "dir_blk \<equiv> blk_bytes (example_fs 1024) dir_disk 20"

lemma dir_blk_nth: "i < 1024 \<Longrightarrow> dir_blk ! i = (if i = 0 then 12 else if i = 5 then 4 else if i = 6 then 1 else if i = 7 then 1
    else if i = 8 then 97 else 0)"
proof -
  assume i: "i < 1024"
  have "unat (20480 + of_nat i :: u64) = 20480 + i" using i by (subst unat_add_small) simp_all
  moreover have "dir_blk ! i = dir_disk (20480 + of_nat i)" using i unfolding blk_bytes_def by (simp add: get_bytes_nth example_fs_def)
  ultimately show ?thesis by (auto simp: dir_disk_def word_unat_eq_iff)
qed

lemma example_blocks: "block_size (example_fs 1024) = 1024" "has_filetype (example_fs 1024)" "dir_blocks dir_inode (example_fs 1024) = 1"
  by (simp_all add: example_fs_def dir_blocks_def dir_inode_def)

lemma dir_blk_record:
  "de_ino dir_blk 0 = 12" "de_len dir_blk 0 = 1024" "de_nlen dir_blk 0 = 1" "de_ftype dir_blk 0 = 1" "de_name dir_blk 0 = [97]"
proof -
  show "de_ino dir_blk 0 = 12" "de_len dir_blk 0 = 1024" "de_nlen dir_blk 0 = 1" "de_ftype dir_blk 0 = 1"
    by (simp_all add: de_ino_def de_len_def de_nlen_def de_ftype_def rd_le32_def rd_le16_def dir_blk_nth)
  then show "de_name dir_blk 0 = [97]"
    unfolding de_name_def by (intro nth_equalityI) (auto simp: dir_blk_nth example_blocks)
qed

lemma dir_blk_chain: "chain 1024 dir_blk 0" "entries 1024 dir_blk 0 = [([97], 12, 1)]"
  by (subst chain.simps, simp add: dir_blk_record chain_end) (subst entries.simps, simp add: dir_blk_record entries_end)

lemma dir_example_list: "dir_list (example_fs 1024) dir_disk [20] = [([97], 12, 1)]"
  using dir_blk_chain(2) by (simp add: dir_list_def example_blocks)

lemma dir_example_of: "dir_of (mem_disk 1024) (mode_inv (mem_disk 1024) (\<lambda>d. d) Direct) (mode_view (\<lambda>d. d) Direct) (mode_usable Direct)
    dir_inode [20] dir_example"
proof -
  have v: "plain (mem_disk 1024) (\<lambda>d. d) dir_example" "fs_view (\<lambda>d. d) dir_example = dir_disk"
    using example_served [of dir_disk] by (auto simp: served_def)
  have "maps_to (mem_disk 1024) (plain (mem_disk 1024) (\<lambda>d. d)) (fs_view (\<lambda>d. d)) dir_inode (example_fs 1024) dir_disk [20]"
    by (rule maps_direct) (simp_all add: uses_extents_def dir_inode_def)
  then show ?thesis
    using v dir_blk_chain dir_example_list
    by (simp add: dir_of_def dir_wf_def example_blocks block_ok_def no_wrap_def)
qed

lemma dir_example_map:
  "ext4_map_file_block (mem_disk 1024) dir_inode 0 s = (Some 20, s)"
  by (simp add: ext4_map_file_block_def ext4_map_block_direct_def dir_inode_def uses_extents_def ret_def)

lemma dir_example_block:
  assumes "served (mem_disk 1024) (\<lambda>d. d) (example_fs 1024) dir_disk s"
  obtains s' where "ext4_read_block (mem_disk 1024) 20 s = (Some dir_blk, s')" "served (mem_disk 1024) (\<lambda>d. d) (example_fs 1024) dir_disk s'"
  using served_block [OF assms, of 20] by (auto simp: inside_def example_fs_def)

lemma dir_example_write:
  assumes "served (mem_disk 1024) (\<lambda>d. d) (example_fs 1024) dir_disk s" "length blk = 1024"
  shows "\<exists>s'. ext4_write_block (mem_disk 1024) 20 blk s = (Some (), s')"
proof -
  have "inside (example_fs 1024) (20 * ucast (block_size (example_fs 1024))) (unat (block_size (example_fs 1024)))"
    by (simp add: inside_def example_fs_def)
  from served_put [OF assms(1) this] show ?thesis using assms(2) by (auto simp: example_blocks)
qed

section \<open>Directories in the three modes\<close>

text \<open>
  C25. Adding an entry refines updating a map: in each of the three modes, when \<^verbatim>\<open>ext4_dir_add_entry\<close> succeeds for a
  name that the directory does not have, the directory afterwards is the same map from names to inode numbers
  and file types with the new entry added, and is well formed again. Whether the entry was put over a dead
  record or split off a live one does not show.
\<close>

theorem ext4_dir_add_refines:
  assumes "dir_of D (mode_inv D media md) (mode_view media md) (mode_usable md) m pbs s"
    "dir_map (fs s) (mode_view media md s) pbs name = None" "ino \<noteq> 0" "ext4_dir_add_entry D m name ino ft s = (Some (), s')"
  shows "dir_of D (mode_inv D media md) (mode_view media md) (mode_usable md) m pbs s'
    \<and> dir_map (fs s') (mode_view media md s') pbs
      = (dir_map (fs s) (mode_view media md s) pbs)(name \<mapsto> (ino, if has_filetype (fs s) then ft else 0))"
  using any.dir_add [OF assms(1,4,3,2)] by simp

theorem ext4_dir_add_refines_witness:
  "\<exists>s'. ext4_dir_add_entry (mem_disk 1024) dir_inode [98] 13 1 dir_example = (Some (), s')
    \<and> dir_map (fs s') (fs_view (\<lambda>d. d) s') [20] = [[97] \<mapsto> (12, 1), [98] \<mapsto> (13, 1)]"
proof -
  let ?D = "mem_disk 1024"
  obtain s1 where rd: "ext4_read_block ?D 20 dir_example = (Some dir_blk, s1)" "served ?D (\<lambda>d. d) (example_fs 1024) dir_disk s1"
    using dir_example_block [OF example_served] .
  let ?blk = "put_entry 12 13 1012 [98] 1 (wr_le16 dir_blk 4 12)"
  have add: "add_in_block 1024 [98] 13 1 dir_blk 0 = Some (Some ?blk)"
    by (subst add_in_block.simps) (simp add: dir_blk_record rec_need_eq Let_def)
  obtain s2 where wr: "ext4_write_block ?D 20 ?blk s1 = (Some (), s2)"
    using dir_example_write [OF rd(2), of ?blk] by (auto simp: example_blocks)
  have F: "fs s1 = example_fs 1024" using rd(2) by (simp add: served_def)
  have run: "ext4_dir_add_entry ?D dir_inode [98] 13 1 dir_example = (Some (), s2)"
    using rd(1) wr add F dir_example_map
    by (simp add: ext4_dir_add_entry_def op_simps example_blocks seq_def [of "ext4_map_file_block _ _ _"] seq_def [of "ext4_read_block _ _"])
      (simp add: dir_inode_def ext4_is_dir_mode_def)
  have v: "fs_view (\<lambda>d. d) dir_example = dir_disk" using example_served [of dir_disk] by (simp add: served_def)
  have "dir_map (example_fs 1024) dir_disk [20] = [[97] \<mapsto> (12, 1)]" by (simp add: dir_map_def dir_example_list)
  then show ?thesis using ext4_dir_add_refines [OF dir_example_of _ _ run] run v by (auto simp: example_blocks)
qed



end
