(* ===== verification/Ext4ExtentMap.thy ===== *)
theory Ext4ExtentMap
  imports Ext4Extents Ext4DirMap
begin

text \<open>
  What the functions on extent runs do to the map of a file: merging keeps it, inserting a block adds one pair,
  and a root node written from runs is read back as their map.
\<close>

section \<open>The map of a list of runs\<close>

definition covers :: "ext4_extent_run \<Rightarrow> u32 \<Rightarrow> bool" where
  "covers r lb \<longleftrightarrow> run_lblock r \<le> lb \<and> ucast lb < run_end r"

fun run_map :: "ext4_extent_run list \<Rightarrow> u32 \<Rightarrow> u64" where \<comment> \<open>0: a hole\<close>
  "run_map [] lb = 0"
| "run_map (r # rs) lb = (if covers r lb then run_pblock r + ucast (lb - run_lblock r) else run_map rs lb)"

definition run_ok :: "ext4_extent_run \<Rightarrow> bool" where
  "run_ok r \<longleftrightarrow> 0 < unat (run_len r) \<and> unat (run_len r) \<le> 0x7FFF \<and> unat (run_lblock r) + unat (run_len r) \<le> 0xFFFFFFFF"

definition run_before :: "ext4_extent_run \<Rightarrow> ext4_extent_run \<Rightarrow> bool" where
  "run_before a b \<longleftrightarrow> unat (run_lblock a) + unat (run_len a) \<le> unat (run_lblock b)"

lemma unat_run_end: "unat (run_end r) = unat (run_lblock r) + unat (run_len r)"
proof -
  have "unat (run_lblock r) + unat (run_len r) < 2 ^ 64" using unat_u32 [of "run_lblock r"] unat_u32 [of "run_len r"] by (simp del: unat_u32)
  then show ?thesis by (simp add: run_end_def unat_add_u64)
qed

lemma covers_nat: "covers r lb \<longleftrightarrow> unat (run_lblock r) \<le> unat lb \<and> unat lb < unat (run_lblock r) + unat (run_len r)"
  by (simp add: covers_def word_nat unat_run_end)

lemma run_ok_word: "(\<not> (run_len r = 0 \<or> run_len r > 0x7FFF \<or> run_end r > 0xFFFFFFFF)) = run_ok r"
proof -
  have "run_len r = 0 \<longleftrightarrow> unat (run_len r) = 0" by (simp add: unat_eq_0)
  then show ?thesis by (simp only: run_ok_def word_less_nat_alt unat_run_end) auto
qed

lemma run_before_word: "(\<not> ucast (run_lblock b) < run_end a) = run_before a b"
  by (auto simp: run_before_def word_nat unat_run_end)

lemma run_before_trans: "run_before a b \<Longrightarrow> run_before b c \<Longrightarrow> run_before a c"
  by (simp add: run_before_def)

lemma runs_sorted_iff: "runs_sorted rs \<longleftrightarrow> (\<forall>r \<in> set rs. run_ok r) \<and> sorted_wrt run_before rs"
proof (induction rs rule: runs_sorted.induct)
  case (3 r r' rs)
  then show ?case
    unfolding runs_sorted.simps run_ok_word run_before_word by (auto intro: run_before_trans)
qed (auto simp del: de_Morgan_disj simp add: run_ok_word)

lemma run_map_append: "run_map (a @ b) lb = (if \<exists>r \<in> set a. covers r lb then run_map a lb else run_map b lb)"
  by (induction a) auto

lemma run_map_none: "(\<And>r. r \<in> set rs \<Longrightarrow> \<not> covers r lb) \<Longrightarrow> run_map rs lb = 0"
  by (induction rs) auto

section \<open>Merging\<close>

lemma can_merge_nat:
  "can_merge a b \<longleftrightarrow> unat (run_lblock a) + unat (run_len a) = unat (run_lblock b)
     \<and> run_pblock a + ucast (run_len a) = run_pblock b \<and> unat (run_len a) + unat (run_len b) \<le> 0x7FFF"
proof -
  have "unat (ucast (run_len a) + ucast (run_len b) :: u64) = unat (run_len a) + unat (run_len b)"
    using unat_u32 [of "run_len a"] unat_u32 [of "run_len b"] by (subst unat_add_u64) (simp_all del: unat_u32)
  then show ?thesis by (simp add: can_merge_def word_unat_eq_iff [of "run_end a"] unat_run_end word_nat)
qed

lemma unat_sum_len: "unat a + unat b \<le> 0x7FFF \<Longrightarrow> unat (a + b :: u32) = unat a + unat b"
  by (simp add: unat_word_ariths)

lemma ucast_diff: "(x :: u32) \<le> y \<Longrightarrow> (ucast (y - x) :: u64) = ucast y - ucast x"
  by (simp add: word_unat_eq_iff word_nat unat_sub)

lemma merged_map:
  assumes c: "can_merge a b"
  shows "run_map (a\<lparr>run_len := run_len a + run_len b\<rparr> # rs) lb = run_map (a # b # rs) lb"
proof -
  have n: "unat (run_lblock b) = unat (run_lblock a) + unat (run_len a)" "run_pblock b = run_pblock a + ucast (run_len a)"
    "unat (run_len a) + unat (run_len b) \<le> 0x7FFF"
    using c by (simp_all add: can_merge_nat)
  have e: "run_pblock a + ucast (lb - run_lblock a) = run_pblock b + ucast (lb - run_lblock b)" if "run_lblock b \<le> lb"
  proof -
    have "(ucast (run_lblock b) :: u64) = ucast (run_lblock a) + ucast (run_len a)"
      using n(1) unat_u32 [of "run_lblock b"] by (simp add: word_unat_eq_iff unat_add_u64)
    moreover have "run_lblock a \<le> lb" using that n(1) by (simp add: word_nat)
    ultimately show ?thesis using that n(2) by (simp add: ucast_diff)
  qed
  show ?thesis
    using n(1) e unat_sum_len [OF n(3)] by (auto simp: covers_nat word_nat)
qed

lemma merge_from_hd: "run_lblock (hd (merge_from p rs)) = run_lblock p \<and> merge_from p rs \<noteq> []"
  by (induction p rs rule: merge_from.induct) auto

lemma merge_from_map: "run_map (merge_from p rs) lb = run_map (p # rs) lb"
proof (induction p rs rule: merge_from.induct)
  case (2 prev cur rs)
  then show ?case by (cases "can_merge prev cur") (simp_all add: merged_map [of prev cur rs, simplified])
qed simp

lemma merged_ok:
  assumes "can_merge a b" "run_ok a" "run_ok b"
  shows "run_ok (a\<lparr>run_len := run_len a + run_len b\<rparr>)"
    "run_before (a\<lparr>run_len := run_len a + run_len b\<rparr>) c = run_before b c"
  using assms unat_sum_len [of "run_len a" "run_len b"] by (auto simp: can_merge_nat run_ok_def run_before_def)

lemma merge_from_set: "r \<in> set (merge_from p rs) \<Longrightarrow> \<exists>x \<in> set (p # rs). run_lblock r = run_lblock x \<and> run_pblock r = run_pblock x"
  by (induction p rs rule: merge_from.induct) (auto split: if_splits)

lemma run_before_lblock: "run_lblock b = run_lblock c \<Longrightarrow> run_before a b = run_before a c"
  by (simp add: run_before_def)

lemma merge_from_sorted: "runs_sorted (p # rs) \<Longrightarrow> runs_sorted (merge_from p rs)"
proof (induction p rs rule: merge_from.induct)
  case (2 prev cur rs)
  show ?case
  proof (cases "can_merge prev cur")
    case True
    then have "runs_sorted (prev\<lparr>run_len := run_len prev + run_len cur\<rparr> # rs)"
      using 2(3) merged_ok [OF True] by (simp add: runs_sorted_iff)
    then show ?thesis using True 2(1) by simp
  next
    case False
    have "run_before prev r" if r: "r \<in> set (merge_from cur rs)" for r
    proof -
      obtain x where "x \<in> set (cur # rs)" "run_lblock r = run_lblock x" using merge_from_set [OF r] by blast
      then show ?thesis using 2(3) run_before_lblock [of r x prev] unfolding runs_sorted_iff by auto
    qed
    moreover have "runs_sorted (merge_from cur rs)" "run_ok prev" using False 2(2,3) unfolding runs_sorted_iff by auto
    ultimately show ?thesis using False by (simp add: runs_sorted_iff)
  qed
qed (simp add: runs_sorted_iff)

lemma merge_runs:
  "run_map (ext4_extent_merge_runs rs) = run_map rs" "runs_sorted rs \<Longrightarrow> runs_sorted (ext4_extent_merge_runs rs)"
  by (cases rs; simp add: fun_eq_iff merge_from_map merge_from_sorted del: runs_sorted.simps)+

lemma merge_from_length: "length (merge_from p rs) \<le> Suc (length rs)"
  by (induction p rs rule: merge_from.induct) auto

lemma merge_runs_length: "length (ext4_extent_merge_runs rs) \<le> length rs"
  by (cases rs) (simp_all add: merge_from_length)

section \<open>Inserting a block\<close>

lemma run_block_nat: "covers (run_block lb pb) x \<longleftrightarrow> x = lb" "run_ok (run_block lb pb) \<longleftrightarrow> lb \<noteq> 0xFFFFFFFF"
proof -
  show "covers (run_block lb pb) x \<longleftrightarrow> x = lb" by (auto simp: covers_nat run_block_def word_unat_eq_iff)
  have "lb \<noteq> 0xFFFFFFFF \<longleftrightarrow> unat lb \<noteq> 4294967295" by (simp add: word_unat_eq_iff)
  then show "run_ok (run_block lb pb) \<longleftrightarrow> lb \<noteq> 0xFFFFFFFF"
    using unat_u32 [of lb] by (auto simp: run_ok_def run_block_def simp del: unat_u32)
qed

lemma insert_run_map:
  assumes s: "runs_sorted runs" and i: "insert_run lb pb runs = Some runs'" and lb: "lb \<noteq> 0xFFFFFFFF"
  shows "runs_sorted runs'" "run_map runs' = (run_map runs)(lb := pb)" "run_map runs lb = 0" "length runs' = Suc (length runs)"
    "set runs' = insert (run_block lb pb) (set runs)"
proof -
  define a where "a = takeWhile (\<lambda>r. run_lblock r < lb) runs"
  define b where "b = dropWhile (\<lambda>r. run_lblock r < lb) runs"
  have ab: "runs = a @ b" by (simp add: a_def b_def)
  have r': "runs' = a @ run_block lb pb # b" using i by (simp add: insert_run_def a_def b_def Let_def split: if_splits)
  have w: "\<forall>r \<in> set runs. run_ok r" "sorted_wrt run_before a" "sorted_wrt run_before b" "\<forall>x \<in> set a. \<forall>y \<in> set b. run_before x y"
    using s unfolding runs_sorted_iff ab sorted_wrt_append by auto
  have lo: "unat (run_lblock x) + unat (run_len x) \<le> unat lb" if "x \<in> set a" for x
  proof -
    have n: "a \<noteq> []" using that by auto
    then have "\<not> ucast lb < run_end (last a)" using i by (auto simp: insert_run_def a_def [symmetric] Let_def split: if_splits)
    then have l: "unat (run_lblock (last a)) + unat (run_len (last a)) \<le> unat lb" by (simp add: word_nat unat_run_end)
    have "sorted_wrt run_before (butlast a @ [last a])" "x \<in> set (butlast a @ [last a])" using w(2) that n by simp_all
    then have "x = last a \<or> run_before x (last a)" unfolding sorted_wrt_append by auto
    then show ?thesis using l by (auto simp: run_before_def)
  qed
  have hi: "unat lb < unat (run_lblock y)" if "y \<in> set b" for y
  proof -
    obtain h t where b: "b = h # t" using \<open>y \<in> set b\<close> by (cases b) auto
    have "\<not> run_lblock h < lb" using b by (metis b_def dropWhile_eq_Cons_conv)
    moreover have "run_lblock h \<noteq> lb"
    proof
      assume "run_lblock h = lb"
      moreover have "run_len h \<noteq> 0" using w(1) b by (auto simp: ab run_ok_def)
      ultimately show False using i b by (simp add: insert_run_def a_def [symmetric] b_def [symmetric] Let_def split: if_splits)
    qed
    ultimately have "unat lb < unat (run_lblock h)" by (simp add: word_nat word_unat_eq_iff)
    then show ?thesis using w(3) b that by (auto simp: run_before_def)
  qed
  have no: "\<not> covers x lb" if "x \<in> set runs" for x using that lo hi by (force simp: ab covers_nat)
  show "run_map runs lb = 0" by (rule run_map_none) (rule no)
  show "run_map runs' = (run_map runs)(lb := pb)"
    using no by (auto simp: r' ab fun_eq_iff run_map_append run_block_nat) (simp add: run_block_def)
  show "length runs' = Suc (length runs)" "set runs' = insert (run_block lb pb) (set runs)" by (auto simp: r' ab)
  show "runs_sorted runs'"
    unfolding runs_sorted_iff r' sorted_wrt_append
    using w lo hi lb by (auto simp: run_block_nat ab) (auto simp: run_before_def run_block_def Suc_le_eq)
qed

section \<open>Reading runs out of a leaf\<close>

lemma collect_leaf_append:
  assumes "collect_leaf node is runs = Some out"
  shows "\<exists>rs. out = runs @ rs \<and> length rs \<le> length is
    \<and> ((\<forall>r \<in> set rs. run_ok r) \<longrightarrow> leaf_scan node lb is = run_map rs lb)"
  using assms
proof (induction node "is" runs rule: collect_leaf.induct)
  case (2 node i "is" runs)
  let ?len = "ucast (ee_len node i) AND 0x7FFF :: u32"
  let ?r = "\<lparr>run_lblock = ee_block node i, run_len = ?len, run_pblock = ee_start node i\<rparr>"
  show ?case
  proof (cases "?len = 0")
    case True
    then have c: "collect_leaf node is runs = Some out" and u: "(ucast (ee_len node i) AND 0x8000 :: u32) = 0"
      using 2(3) by (auto simp: Let_def split: if_splits)
    from 2(1) [OF refl refl _ True c] u obtain rs where "out = runs @ rs" "length rs \<le> length is"
      "(\<forall>r \<in> set rs. run_ok r) \<longrightarrow> leaf_scan node lb is = run_map rs lb" by blast
    then show ?thesis using True by (intro exI [of _ rs]) (simp add: Let_def)
  next
    case False
    then have c: "collect_leaf node is (runs @ [?r]) = Some out" and u: "(ucast (ee_len node i) AND 0x8000 :: u32) = 0"
      using 2(3) by (auto simp: Let_def split: if_splits)
    obtain rs where rs: "out = (runs @ [?r]) @ rs" "length rs \<le> length is"
      "(\<forall>r \<in> set rs. run_ok r) \<longrightarrow> leaf_scan node lb is = run_map rs lb"
      using 2(2) [OF refl refl _ False _ _ c] 2(3) False by (auto simp: Let_def split: if_splits)
    have "(lb < ee_block node i \<or> lb \<ge> ee_block node i + ?len) = (\<not> covers ?r lb)" if "run_ok ?r"
    proof -
      have "unat (ee_block node i + ?len) = unat (ee_block node i) + unat ?len"
        using that by (simp add: run_ok_def unat_word_ariths)
      then show ?thesis by (auto simp: covers_nat word_nat)
    qed
    then have "(\<forall>r \<in> set (?r # rs). run_ok r) \<longrightarrow> leaf_scan node lb (i # is) = run_map (?r # rs) lb"
      using rs(3) False u by (simp add: Let_def)
    then show ?thesis using rs by (intro exI [of _ "?r # rs"]) simp
  qed
qed simp

section \<open>Writing a leaf\<close>

lemma rd_append16:
  "off + 2 \<le> length a \<Longrightarrow> rd_le16 (a @ b) off = rd_le16 a off" "rd_le16 (a @ b) (length a + off) = rd_le16 b off"
  by (simp_all add: rd_le16_def nth_append)

lemma le32_rd: "le32 (rd_le32 b k) = [b ! k, b ! (k + 1), b ! (k + 2), b ! (k + 3)]"
  unfolding le32_def rd_le32_def by (simp, intro conjI bit_word_eqI) (auto simp: bit_simps dest: bit_imp_le_length)

lemma concat4: "concat (map (\<lambda>i. [f (i * 4), f (i * 4 + 1), f (i * 4 + 2), f (i * 4 + 3)]) [0..<n]) = map f [0..<n * 4]"
proof (induction n)
  case (Suc n)
  have "[0..<Suc n * 4] = [0..<n * 4] @ [n * 4, n * 4 + 1, n * 4 + 2, n * 4 + 3]" by (simp add: numeral_eq_Suc)
  then show ?case using Suc by simp
qed simp

lemma root_bytes_words: "length b = 60 \<Longrightarrow> root_bytes (m\<lparr>m_block := block_words b\<rparr>) = b"
proof -
  assume "length b = 60"
  then have "b = map ((!) b) [0..<60]" by (metis map_nth)
  then show ?thesis
    using concat4 [of "(!) b" 15] by (simp add: root_bytes_def block_words_def le32_rd o_def)
qed

lemma join48:
  assumes "p < 2 ^ 48"
  shows "push_bit 32 (ucast (ucast (drop_bit 32 p) :: u16)) OR ucast (ucast (p AND 0xFFFFFFFF) :: u32) = (p :: u64)"
proof -
  have "unat p < 2 ^ 48" using assms by (simp add: word_less_nat_alt)
  then have t: "take_bit 48 p = p" by (simp add: word_unat_eq_iff unsigned_take_bit_eq take_bit_nat_eq_self)
  have "p AND 0xFFFFFFFF = take_bit 32 p" by (simp add: take_bit_eq_mask mask_eq_exp_minus_1)
  moreover have b: "bit p n \<Longrightarrow> n < 48" for n using t by (metis bit_take_bit_iff)
  ultimately show ?thesis
  proof (intro bit_word_eqI)
    fix n
    assume "p AND 0xFFFFFFFF = take_bit 32 p" "n < LENGTH(64)"
    then show "bit (push_bit 32 (ucast (ucast (drop_bit 32 p) :: u16)) OR ucast (ucast (p AND 0xFFFFFFFF) :: u32) :: u64) n = bit p n"
      using b [of n] by (auto simp: bit_simps)
  qed
qed

lemma length_run_entry [simp]: "length (run_entry r) = 12" by (simp add: run_entry_def)

lemma entry_split:
  assumes "\<forall>e \<in> set es. length e = 12" "i < length es"
  shows "\<exists>pre post. concat es = pre @ es ! i @ post \<and> length pre = i * 12"
  using assms
proof (induction es arbitrary: i)
  case (Cons e es)
  show ?case
  proof (cases i)
    case 0
    then show ?thesis by (intro exI [of _ "[]"] exI [of _ "concat es"]) simp
  next
    case (Suc j)
    then have "\<exists>pre post. concat es = pre @ es ! j @ post \<and> length pre = j * 12" using Cons.IH [of j] Cons.prems by simp
    then obtain pre post where "concat es = pre @ es ! j @ post" "length pre = j * 12" by blast
    then show ?thesis using Suc Cons.prems by (intro exI [of _ "e @ pre"] exI [of _ post]) simp
  qed
qed simp

lemma leaf_entry:
  assumes "i < length rs" "ucast (ucast (run_len (rs ! i)) :: u16) = run_len (rs ! i)" "run_pblock (rs ! i) < 2 ^ 48"
    and node_def: "node = ext_node sz n cap d (map run_entry rs) @ pad"
  shows "ee_block node i = run_lblock (rs ! i)" "ucast (ee_len node i) = run_len (rs ! i)" "ee_start node i = run_pblock (rs ! i)"
proof -
  obtain pre0 post0 where s: "concat (map run_entry rs) = pre0 @ run_entry (rs ! i) @ post0" "length pre0 = i * 12"
    using entry_split [of "map run_entry rs" i] assms(1) by auto
  define pre where "pre = le16 EXT4_EXT_MAGIC @ le16 n @ le16 cap @ le16 d @ le32 0 @ pre0"
  obtain post where node: "node = pre @ run_entry (rs ! i) @ post"
    unfolding node_def ext_node_def Let_def s pre_def by simp
  have len: "length pre = 12 + i * 12" by (simp add: pre_def s(2))
  let ?r = "rs ! i"
  show "ee_block node i = run_lblock ?r"
    using rd_append(2) [of pre "run_entry ?r @ post" 0] rd_append(1) [of 0 "run_entry ?r" post]
    by (simp add: ee_block_def node len [symmetric]) (simp add: run_entry_def rd_append rd_le32_le32)
  show "ucast (ee_len node i) = run_len ?r"
    using rd_append16(2) [of pre "run_entry ?r @ post" 4] rd_append16(1) [of 4 "run_entry ?r" post]
      rd_append16(2) [of "le32 (run_lblock ?r)" _ 0] assms(2)
    by (simp add: ee_len_def node len [symmetric]) (simp add: run_entry_def rd_append16 rd_le16_le16)
  have hi: "rd_le16 node (12 + i * 12 + 6) = ucast (drop_bit 32 (run_pblock ?r))"
    using rd_append16(2) [of pre "run_entry ?r @ post" 6] rd_append16(1) [of 6 "run_entry ?r" post]
      rd_append16(2) [of "le32 (run_lblock ?r) @ le16 (ucast (run_len ?r))" "le16 (ucast (drop_bit 32 (run_pblock ?r))) @ x" 0 for x]
    by (simp add: node len [symmetric]) (simp add: run_entry_def rd_append16 rd_le16_le16)
  have lo: "rd_le32 node (12 + i * 12 + 8) = ucast (run_pblock ?r AND 0xFFFFFFFF)"
    using rd_append(2) [of pre "run_entry ?r @ post" 8] rd_append(1) [of 8 "run_entry ?r" post]
      rd_append(2) [of "le32 (run_lblock ?r) @ le16 (ucast (run_len ?r)) @ le16 (ucast (drop_bit 32 (run_pblock ?r)))"
        "le32 (ucast (run_pblock ?r AND 0xFFFFFFFF))" 0]
    by (simp add: node len [symmetric]) (simp add: run_entry_def rd_append rd_le32_le32)
  show "ee_start node i = run_pblock ?r" unfolding ee_start_def hi lo by (rule join48 [OF assms(3)])
qed

lemma short_len:
  assumes "run_ok r"
  shows "run_len r AND 0x7FFF = run_len r" "run_len r AND 0x8000 = 0" "ucast (ucast (run_len r) :: u16) = run_len r"
proof -
  have "unat (run_len r) < 2 ^ 15" using assms by (simp add: run_ok_def)
  then have t: "take_bit 15 (run_len r) = run_len r" by (simp add: word_unat_eq_iff unsigned_take_bit_eq take_bit_nat_eq_self)
  then have b: "bit (run_len r) n \<Longrightarrow> n < 15" for n by (metis bit_take_bit_iff)
  show "run_len r AND 0x7FFF = run_len r" using t by (simp add: take_bit_eq_mask mask_eq_exp_minus_1)
  have "(0x8000 :: u32) = push_bit 15 1" by simp
  then show "run_len r AND 0x8000 = 0" using b and_exp_eq_0_iff_not_bit [of "run_len r" 15] by auto
  show "ucast (ucast (run_len r) :: u16) = run_len r"
  proof (rule bit_word_eqI)
    fix n
    show "bit (ucast (ucast (run_len r) :: u16) :: u32) n = bit (run_len r) n" using b [of n] by (auto simp: bit_simps)
  qed
qed

lemma leaf_scan_runs:
  assumes "\<And>i. i \<in> set is \<Longrightarrow> ee_block node i = run_lblock (rs ! i) \<and> ucast (ee_len node i) = run_len (rs ! i)
    \<and> ee_start node i = run_pblock (rs ! i) \<and> run_ok (rs ! i)"
  shows "leaf_scan node lb is = run_map (map ((!) rs) is) lb"
  using assms
proof (induction "is")
  case (Cons i "is")
  let ?r = "rs ! i"
  have e: "ee_block node i = run_lblock ?r" "ucast (ee_len node i) = run_len ?r" "ee_start node i = run_pblock ?r" "run_ok ?r"
    using Cons.prems by auto
  have "unat (run_lblock ?r + run_len ?r) = unat (run_lblock ?r) + unat (run_len ?r)"
    using e(4) by (simp add: run_ok_def unat_word_ariths)
  then have c: "(lb < run_lblock ?r \<or> lb \<ge> run_lblock ?r + run_len ?r) = (\<not> covers ?r lb)"
    by (auto simp: covers_nat word_nat)
  have n: "run_len ?r \<noteq> 0" using e(4) by (auto simp: run_ok_def)
  have IH: "leaf_scan node lb is = run_map (map ((!) rs) is) lb" using Cons by auto
  show ?case
    unfolding leaf_scan.simps Let_def e(1-3) short_len [OF e(4)] c IH using n by simp
qed simp

lemma node_header:
  "eh_magic (ext_node sz n cap d es @ pad) = EXT4_EXT_MAGIC" "eh_entries (ext_node sz n cap d es @ pad) = n"
  "eh_max (ext_node sz n cap d es @ pad) = cap" "eh_depth (ext_node sz n cap d es @ pad) = d"
proof -
  obtain b where "ext_node sz n cap d es @ pad = le16 EXT4_EXT_MAGIC @ le16 n @ le16 cap @ le16 d @ b"
    by (simp add: ext_node_def Let_def)
  moreover have "rd_le16 (le16 v @ x) 0 = v" for v x by (simp add: rd_append16 rd_le16_le16)
  ultimately show "eh_magic (ext_node sz n cap d es @ pad) = EXT4_EXT_MAGIC" "eh_entries (ext_node sz n cap d es @ pad) = n"
    "eh_max (ext_node sz n cap d es @ pad) = cap" "eh_depth (ext_node sz n cap d es @ pad) = d"
    using rd_append16(2) [of "le16 EXT4_EXT_MAGIC" "le16 n @ x" 0 for x]
      rd_append16(2) [of "le16 EXT4_EXT_MAGIC @ le16 n" "le16 cap @ x" 0 for x]
      rd_append16(2) [of "le16 EXT4_EXT_MAGIC @ le16 n @ le16 cap" "le16 d @ x" 0 for x]
    by (simp_all add: eh_magic_def eh_entries_def eh_max_def eh_depth_def)
qed

lemma walk_leaf:
  assumes "eh_magic node = EXT4_EXT_MAGIC" "eh_entries node \<le> eh_max node" "eh_max node \<noteq> 0"
    "12 + ucast (eh_max node) * 12 \<le> block_size (fs s)" "eh_depth node = 0"
  shows "extent_walk D (Suc k) lb node s = (Some (leaf_scan node lb [0..<unat (eh_entries node)]), s)"
  using assms by (simp add: op_simps linorder_not_less)

lemma fuel_65536: "\<exists>k. (65536 :: nat) = Suc k" by presburger

lemma root_map:
  assumes rs: "length rs \<le> 4" "\<forall>r \<in> set rs. run_ok r \<and> run_pblock r < 2 ^ 48" and bs: "60 \<le> block_size (fs s)"
  shows "ext4_extent_map D (m\<lparr>m_block := block_words (ext_node 60 (of_nat (length rs)) 4 0 (map run_entry rs))\<rparr>) lb s
    = (Some (run_map rs lb), s)"
proof -
  let ?n = "ext_node 60 (of_nat (length rs)) 4 0 (map run_entry rs)"
  let ?node = "?n @ replicate 4036 0"
  obtain k where k: "(65536 :: nat) = Suc k" using fuel_65536 by blast
  have "length (concat (map run_entry rs)) = 12 * length rs" by (induction rs) simp_all
  then have len: "length ?n = 60" using rs(1) by (simp add: ext_node_def)
  have cnt: "unat (of_nat (length rs) :: u16) = length rs" using rs(1) by (simp add: unat_of_nat_small)
  have "leaf_scan ?node lb [0..<length rs] = run_map (map ((!) rs) [0..<length rs]) lb"
  proof (rule leaf_scan_runs)
    fix i assume "i \<in> set [0..<length rs]"
    then have i: "i < length rs" "run_ok (rs ! i)" "run_pblock (rs ! i) < 2 ^ 48" using rs(2) by auto
    then show "ee_block ?node i = run_lblock (rs ! i) \<and> ucast (ee_len ?node i) = run_len (rs ! i)
        \<and> ee_start ?node i = run_pblock (rs ! i) \<and> run_ok (rs ! i)"
      using leaf_entry [OF i(1) short_len(3) [OF i(2)] i(3) refl] by blast
  qed
  then have sc: "leaf_scan ?node lb [0..<length rs] = run_map rs lb" by (simp add: map_nth)
  have "(of_nat (length rs) :: u16) \<le> 4" using rs(1) cnt by (simp add: word_le_nat_alt)
  then have "extent_walk D (Suc k) lb ?node s = (Some (leaf_scan ?node lb [0..<unat (eh_entries ?node)]), s)"
    using bs by (intro walk_leaf) (simp_all add: node_header)
  then show ?thesis unfolding ext4_extent_map_def root_bytes_words [OF len] k by (simp add: node_header cnt sc)
qed

section \<open>Disk access leaves the superblock fields alone\<close>

abbreviation (input) keeps_fs :: "ext4_fs \<Rightarrow> ('d ext4, 'a) op \<Rightarrow> bool" where
  "keeps_fs F \<equiv> preserves (\<lambda>s. fs s = F)"

lemma raw_keeps_fs [pres]: "keeps_fs F (ext4_raw_read_bytes D off n)" "keeps_fs F (ext4_raw_write_bytes D off b)"
proof -
  have a: "keeps_fs F (ext4_attach_source_dev D)"
    by (auto simp: preserves_def ext4_attach_source_dev_def split: prod.splits)
  show "keeps_fs F (ext4_raw_read_bytes D off n)" "keeps_fs F (ext4_raw_write_bytes D off b)"
    unfolding ext4_raw_read_bytes_def ext4_raw_write_bytes_def
    by (intro preserves_seq a; auto simp: preserves_def split: prod.splits)+
qed

lemma read_keeps_fs [pres]: "keeps_fs F (ext4_disk_read_bytes D off n)"
  unfolding ext4_disk_read_bytes_def by (intro pres) (auto simp: preserves_def split: option.splits)

lemma keeps_fsD: "(\<And>F. keeps_fs F m) \<Longrightarrow> fs (snd (m s)) = fs s"
  by (simp add: preserves_def)

lemma alloc_dirty_keeps_fs: "fs (snd (ext4_jbd2_alloc_dirty D b s)) = fs s"
proof -
  have "fs (snd (seq (ext4_disk_read_bytes D x n)
      (\<lambda>data s2. (Some (k :: nat), upd_jb (\<lambda>b'. b'\<lparr>jb_tx_dirty := jb_tx_dirty b' @ [\<lparr>d_fs_block = b, d_data = data\<rparr>]\<rparr>) s2)) s)) = fs s" for x n k
    by (rule keeps_fsD, intro pres) (simp add: preserves_def)
  then show ?thesis by (simp add: ext4_jbd2_alloc_dirty_def Let_def)
qed

lemma tx_write_keeps_fs: "fs (snd (tx_write_loop D off src s)) = fs s"
proof (induction D off src s rule: tx_write_loop.induct)
  case (1 D off src s)
  then show ?case
    using alloc_dirty_keeps_fs [of D "off div ucast (jb_block_size (jb s))" s]
    by (subst tx_write_loop.simps) (auto simp: Let_def split: prod.splits option.splits)
qed

lemma write_keeps_fs [pres]: "keeps_fs F (ext4_disk_write_bytes D off buf)"
proof -
  have "fs (snd (seq (ext4_raw_write_bytes D a x) (\<lambda>_. seq (ext4_raw_write_bytes D b y) (\<lambda>_. modify (upd_jl g))) s)) = fs s"
    for a b x y g s by (rule keeps_fsD, intro pres) simp
  moreover have "fs (snd (ext4_raw_write_bytes D off buf s)) = fs s" for s by (rule keeps_fsD) (rule raw_keeps_fs)
  ultimately show ?thesis
    unfolding preserves_def ext4_disk_write_bytes_def ext4_jbd2_tx_write_bytes_def by (simp add: Let_def tx_write_keeps_fs)
qed

lemma desc_keeps_fs [pres]: "keeps_fs F (ext4_group_read_desc D g)"
  unfolding ext4_group_read_desc_def by (intro pres)

lemma inode_keeps_fs [pres]: "keeps_fs F (ext4_inode_offset D ino)" "keeps_fs F (ext4_inode_store D m)"
  unfolding ext4_inode_store_def ext4_inode_offset_def Let_def by (intro pres)+

section \<open>The blocks of a file after one is assigned\<close>

lemma ee_start_48: "ee_start node i < 2 ^ 48"
proof -
  have "take_bit 48 (ee_start node i) = ee_start node i"
    unfolding ee_start_def by (rule bit_word_eqI) (auto simp: bit_simps dest: bit_imp_le_length)
  then have "unat (ee_start node i) = take_bit 48 (unat (ee_start node i))" by (metis unsigned_take_bit_eq)
  also have "\<dots> < 2 ^ 48" by (rule take_bit_nat_less_exp)
  finally show ?thesis by (simp add: word_less_nat_alt)
qed

lemma collect_leaf_48:
  "collect_leaf node is runs = Some out \<Longrightarrow> \<forall>r \<in> set runs. run_pblock r < 2 ^ 48 \<Longrightarrow> \<forall>r \<in> set out. run_pblock r < 2 ^ 48"
proof (induction node "is" runs rule: collect_leaf.induct)
  case (2 node i "is" runs)
  then show ?case using ee_start_48 [of node i] by (auto simp: Let_def split: if_splits)
qed simp

lemma merge_runs_48: "\<forall>r \<in> set rs. run_pblock r < 2 ^ 48 \<Longrightarrow> \<forall>r \<in> set (ext4_extent_merge_runs rs). run_pblock r < 2 ^ 48"
proof (cases rs)
  case (Cons r rs')
  assume "\<forall>r \<in> set rs. run_pblock r < 2 ^ 48"
  then show ?thesis using merge_from_set [of _ r rs'] Cons by fastforce
qed simp

lemma leaf_scan_append:
  assumes "\<And>i. i \<in> set is \<Longrightarrow> 24 + i * 12 \<le> length a"
  shows "leaf_scan (a @ b) lb is = leaf_scan a lb is"
  using assms
proof (induction "is")
  case (Cons i "is")
  have i: "24 + i * 12 \<le> length a" using Cons.prems by simp
  have "ee_block (a @ b) i = ee_block a i" "ee_len (a @ b) i = ee_len a i" "ee_start (a @ b) i = ee_start a i"
    using i rd_append(1) [of "12 + i * 12" a b] rd_append16(1) [of "12 + i * 12 + 4" a b]
      rd_append16(1) [of "12 + i * 12 + 6" a b] rd_append(1) [of "12 + i * 12 + 8" a b]
    by (simp_all add: ee_block_def ee_len_def ee_start_def)
  then show ?case using Cons by (simp add: Let_def)
qed simp

lemma collect_root:
  assumes m: "length (m_block m) = 15" "eh_depth (root_bytes m) = 0" and c: "ext4_extent_collect_runs D m s = (r, s')"
  shows "s' = s" "r = Some runs \<Longrightarrow> runs_sorted runs \<and> (\<forall>r \<in> set runs. run_pblock r < 2 ^ 48)
    \<and> length runs \<le> unat (eh_entries (root_bytes m))
    \<and> (60 \<le> block_size (fs s) \<longrightarrow> ext4_extent_map D m lb s = (Some (run_map runs lb), s))"
proof -
  let ?n = "root_bytes m"
  obtain k where k: "(65536 :: nat) = Suc k" using fuel_65536 by blast
  have len: "length ?n = 60"
  proof -
    have "length (concat (map le32 xs)) = 4 * length xs" for xs by (induction xs) simp_all
    then show ?thesis using m(1) by (simp add: root_bytes_def)
  qed
  have ops: "ext4_extent_collect_runs D m s = (if uses_extents m \<and> eh_magic ?n = EXT4_EXT_MAGIC \<and> eh_entries ?n \<le> eh_max ?n
      \<and> eh_max ?n \<noteq> 0 \<and> unat (node_room ?n) \<le> 60 then
        (case collect_leaf ?n [0..<unat (eh_entries ?n)] [] of None \<Rightarrow> None | Some runs \<Rightarrow> if runs_sorted runs then Some runs else None, s)
      else (None, s))"
    unfolding ext4_extent_collect_runs_def k using m(2)
    by (auto simp: seq_def op_simps linorder_not_less split: option.splits)
  show "s' = s" using c unfolding ops by (simp split: if_splits)
  assume r: "r = Some runs"
  then have h: "eh_magic ?n = EXT4_EXT_MAGIC" "eh_entries ?n \<le> eh_max ?n" "eh_max ?n \<noteq> 0" "unat (node_room ?n) \<le> 60"
    and cl: "collect_leaf ?n [0..<unat (eh_entries ?n)] [] = Some runs" and so: "runs_sorted runs"
    using c unfolding ops by (auto split: if_splits option.splits)
  have f: "\<forall>r \<in> set runs. run_pblock r < 2 ^ 48" using collect_leaf_48 [OF cl] by simp
  have room: "unat (node_room ?n) = 12 + unat (eh_max ?n) * 12"
  proof -
    have u: "unat (eh_max ?n) < 65536" using unsigned_less [where ?'a = nat and ?'b = 16, of "eh_max ?n"] by simp
    then have "unat (ucast (eh_max ?n) :: u32) = unat (eh_max ?n)" by (simp add: unsigned_ucast_eq take_bit_nat_eq_self)
    with u show ?thesis unfolding node_room_def by (simp add: unat_word_ariths)
  qed
  have sc: "leaf_scan ?n lb [0..<unat (eh_entries ?n)] = run_map runs lb" "length runs \<le> unat (eh_entries ?n)"
    using collect_leaf_append [OF cl, of lb] so by (auto simp: runs_sorted_iff)
  have "ext4_extent_map D m lb s = (Some (run_map runs lb), s)" if bs: "60 \<le> block_size (fs s)"
  proof -
    let ?p = "?n @ replicate 4036 0"
    have e: "eh_magic ?p = eh_magic ?n" "eh_entries ?p = eh_entries ?n" "eh_max ?p = eh_max ?n" "eh_depth ?p = eh_depth ?n"
      by (simp_all add: eh_magic_def eh_entries_def eh_max_def eh_depth_def rd_append16 len)
    have "leaf_scan ?p lb [0..<unat (eh_entries ?n)] = leaf_scan ?n lb [0..<unat (eh_entries ?n)]"
      using room h(2,4) by (intro leaf_scan_append) (auto simp: len word_le_nat_alt)
    moreover have "12 + ucast (eh_max ?n) * 12 \<le> block_size (fs s)"
      using h(4) bs unfolding node_room_def by (simp add: word_le_nat_alt)
    then have "extent_walk D (Suc k) lb ?p s = (Some (leaf_scan ?p lb [0..<unat (eh_entries ?p)]), s)"
      using h m(2) by (intro walk_leaf) (simp_all add: e)
    ultimately show ?thesis unfolding ext4_extent_map_def k by (simp add: e sc)
  qed
  then show "runs_sorted runs \<and> (\<forall>r \<in> set runs. run_pblock r < 2 ^ 48) \<and> length runs \<le> unat (eh_entries ?n)
      \<and> (60 \<le> block_size (fs s) \<longrightarrow> ext4_extent_map D m lb s = (Some (run_map runs lb), s))"
    using so f sc by blast
qed

text \<open>The states of a file's blocks: the file system with the inode \<open>m\<close>, whose extents are in the inode itself.\<close>

definition extent_root :: "ext4_meta \<Rightarrow> bool" where
  "extent_root m \<longleftrightarrow> length (m_block m) = 15 \<and> eh_depth (root_bytes m) = 0"

lemma rebuild_root:
  assumes m: "extent_root m" and l: "length rs \<le> 4" and run: "ext4_extent_rebuild D rs (s, m) = (Some (), (s', m'))"
  shows "m' = m\<lparr>m_block := block_words (ext_node 60 (of_nat (length rs)) 4 0 (map run_entry rs))\<rparr> \<and> fs s' = fs s"
proof -
  let ?m' = "m\<lparr>m_block := block_words (ext_node 60 (of_nat (length rs)) 4 0 (map run_entry rs))\<rparr>"
  obtain k where k: "(65536 :: nat) = Suc k" using fuel_65536 by blast
  have ft: "ext4_extent_free_tree_node D 65536 False (root_bytes m) x = (q, y) \<Longrightarrow> y = x" for x y q
    using m unfolding k by (simp add: extent_root_def op_simps split: if_splits)
  have bt: "build_tree D rs s = (q, y) \<Longrightarrow> y = s \<and> (q \<noteq> None \<longrightarrow> q = Some (ext_node 60 (of_nat (length rs)) 4 0 (map run_entry rs), []))" for q y
    using l by (auto simp: build_tree_def op_simps split: if_splits)
  obtain q1 t1 where st: "ext4_inode_store D ?m' s = (q1, t1)" by fastforce
  have "m' = ?m'" and st': "ext4_inode_store D ?m' s = (Some (), s')"
    using run st bt by (auto simp: ext4_extent_rebuild_def core_def upd_m_def attempt_def op_simps seq_def give_up_def
      split: if_splits option.splits prod.splits dest: ft)
  then show ?thesis using preservesD [OF inode_keeps_fs(2) refl st'] by simp
qed

text \<open>
  C27. A successful \<^verbatim>\<open>ext4_extent_assign_block\<close> changes the map of the file at one place: for an inode with at most
  three extents, all in the inode, the block \<open>lb\<close> was a hole and is at \<open>pb\<close> afterwards, and every other block is where
  it was. The logical block must not be the last of the 32-bit range, whose end the code computes in 32 bits.
\<close>

theorem extent_assign_maps:
  assumes m: "extent_root m" "unat (eh_entries (root_bytes m)) \<le> 3" and bs: "60 \<le> block_size (fs s)"
    and lb: "lb \<noteq> 0xFFFFFFFF" and run: "ext4_extent_assign_block D lb pb (s, m) = (Some (), (s', m'))"
  shows "\<exists>x. ext4_extent_map D m b s = (Some x, s) \<and> (b = lb \<longrightarrow> x = 0)
    \<and> ext4_extent_map D m' b s' = (Some (if b = lb then pb else x), s')"
proof -
  obtain r t where c: "ext4_extent_collect_runs D m s = (r, t)" by fastforce
  note m' = m(1) [unfolded extent_root_def]
  have t: "t = s" using collect_root(1) [OF _ _ c] m' by simp
  have pb: "pb \<le> 0xFFFFFFFF" and "r \<noteq> None"
    using run c by (auto simp: ext4_extent_assign_block_def op_simps core_def seq_def split: if_splits option.splits)
  then obtain runs where r: "r = Some runs" by blast
  have R: "runs_sorted runs" "\<forall>r \<in> set runs. run_pblock r < 2 ^ 48" "length runs \<le> 3"
      "ext4_extent_map D m b s = (Some (run_map runs b), s)"
    using collect_root(2) [OF _ _ c r, of b] m' m(2) bs(1) by auto
  obtain runs' where i: "insert_run lb pb runs = Some runs'"
    and rb: "ext4_extent_rebuild D (ext4_extent_merge_runs runs') (s, m) = (Some (), (s', m'))"
    using run c r t by (auto simp: ext4_extent_assign_block_def op_simps core_def seq_def split: if_splits option.splits)
  note I = insert_run_map [OF R(1) i lb]
  let ?mr = "ext4_extent_merge_runs runs'"
  have "pb < 2 ^ 48" using pb by (simp add: word_nat)
  then have "\<forall>r \<in> set runs'. run_pblock r < 2 ^ 48"
    using R(2) I(5) by (simp add: run_block_def)
  then have "\<forall>r \<in> set ?mr. run_pblock r < 2 ^ 48" by (rule merge_runs_48)
  moreover have "\<forall>r \<in> set ?mr. run_ok r" using merge_runs(2) [OF I(1)] unfolding runs_sorted_iff by blast
  ultimately have M: "\<forall>r \<in> set ?mr. run_ok r \<and> run_pblock r < 2 ^ 48" "length ?mr \<le> 4" "run_map ?mr = (run_map runs)(lb := pb)"
    using I(2,4) merge_runs(1) [of runs'] merge_runs_length [of runs'] R(3) by (blast, simp_all)
  have "m' = m\<lparr>m_block := block_words (ext_node 60 (of_nat (length ?mr)) 4 0 (map run_entry ?mr))\<rparr>" "fs s' = fs s"
    using rebuild_root [OF m(1) M(2) rb] by simp_all
  then have "ext4_extent_map D m' b s' = (Some (run_map ?mr b), s')" using root_map [OF M(2,1), of s' D m b] bs by simp
  then show ?thesis using R(4) I(3) M(3) by auto
qed

text \<open>An example: the inode 12 of a file system whose inode table is block 5, with one extent of one block.\<close>

definition ext_disk :: "u64 \<Rightarrow> u8" where
  "ext_disk k = (if k = 2056 then 5 else 0)"

definition ext_inode :: "ext4_extent_run list \<Rightarrow> ext4_meta" where
  "ext_inode rs = \<lparr>m_valid = True, m_ino = 12, m_mode = 0x81A4, m_links = 1, m_flags = EXT4_EXTENTS_FL, m_blocks_lo = 2,
     m_size = 1024, m_block = block_words (ext_node 60 (of_nat (length rs)) 4 0 (map run_entry rs))\<rparr>"

lemma ext_inode_root: "length rs \<le> 4 \<Longrightarrow> root_bytes (ext_inode rs) = ext_node 60 (of_nat (length rs)) 4 0 (map run_entry rs)"
proof -
  assume l: "length rs \<le> 4"
  have "length (concat (map run_entry rs)) = 12 * length rs" by (induction rs) simp_all
  then have "length (ext_node 60 (of_nat (length rs)) 4 0 (map run_entry rs)) = 60" using l by (simp add: ext_node_def)
  from root_bytes_words [OF this, of "ext_inode rs"] show ?thesis by (simp add: ext_inode_def)
qed

lemma length_put_meta:
  assumes "length raw = 128"
  shows "length (put_meta m raw) = 128"
proof -
  have "length (fold (\<lambda>i raw. wr_le32 raw (EXT4_INODE_BLOCK + i * 4) (m_block m ! i)) is raw) = 128"
    if "length raw = 128" "\<forall>i \<in> set is. i < 15" for "is" raw
    using that by (induction "is" arbitrary: raw) auto
  then show ?thesis using assms unfolding put_meta_def Let_def by simp
qed

lemma ext_inode_store:
  assumes "served (mem_disk 1024) (\<lambda>d. d) (example_fs 1024) ext_disk s"
  shows "\<exists>s'. ext4_inode_store (mem_disk 1024) (ext_inode rs) s = (Some (), s')"
proof -
  let ?D = "mem_disk 1024" and ?F = "example_fs 1024" and ?S = "served (mem_disk 1024) (\<lambda>d. d) (example_fs 1024)"
  have F: "?S v t \<Longrightarrow> fs t = ?F" for v t by (simp add: served_def)
  obtain s1 where r1: "ext4_disk_read_bytes ?D 2048 32 s = (Some (get_bytes ext_disk 2048 32), s1)" "?S ext_disk s1"
    using served_read [OF assms, of 2048 32] by (auto simp: inside_def example_fs_def)
  have off: "ext4_inode_offset ?D 12 s = (Some 6528, s1)"
  proof -
    have "ext4_group_read_desc ?D 0 s = (Some (get_bytes ext_disk 2048 32), s1)"
      using r1(1) F [OF assms] by (simp add: ext4_group_read_desc_def ext4_group_desc_offset_def op_simps example_fs_def)
    moreover have "rd_le32 (get_bytes ext_disk 2048 32) 8 = 5"
      by (simp add: rd_le32_def get_bytes_nth ext_disk_def)
    ultimately show ?thesis
      using F [OF assms] by (simp add: ext4_inode_offset_def ext4_group_get_block_ref_def wide_desc_def op_simps seq_def example_fs_def)
  qed
  obtain s2 where r2: "ext4_disk_read_bytes ?D 6528 128 s1 = (Some (get_bytes ext_disk 6528 128), s2)" "?S ext_disk s2"
    using served_read [OF r1(2), of 6528 128] by (auto simp: inside_def example_fs_def)
  let ?raw = "put_meta (ext_inode rs) (get_bytes ext_disk 6528 128)"
  have "length ?raw = 128" by (rule length_put_meta) (simp add: get_bytes_def)
  then obtain s3 where "ext4_disk_write_bytes ?D 6528 ?raw s2 = (Some (), s3)"
    using served_write [OF r2(2), of 6528 ?raw] by (auto simp: inside_def example_fs_def)
  then show ?thesis
    using off r2 F [OF assms] by (auto simp: ext4_inode_store_def op_simps seq_def ext_inode_def inode_bytes_def example_fs_def)
qed

theorem extent_assign_maps_witness:
  "\<exists>s' m'. ext4_extent_assign_block (mem_disk 1024) 1 21 (example_ext4 1024 (disk_of ext_disk), ext_inode [run_block 0 20])
      = (Some (), (s', m')) \<and> ext4_extent_map (mem_disk 1024) m' 1 s' = (Some 21, s')
      \<and> ext4_extent_map (mem_disk 1024) m' 0 s' = (Some 20, s')"
proof -
  let ?D = "mem_disk 1024" and ?s = "example_ext4 1024 (disk_of ext_disk)"
  let ?m = "ext_inode [run_block 0 20]" and ?r = "\<lparr>run_lblock = 0, run_len = 2, run_pblock = 20\<rparr> :: ext4_extent_run"
  obtain k where k: "(65536 :: nat) = Suc k" using fuel_65536 by blast
  have rb: "root_bytes ?m = ext_node 60 1 4 0 [run_entry (run_block 0 20)]" using ext_inode_root [of "[run_block 0 20]"] by simp
  have h: "eh_magic (root_bytes ?m) = EXT4_EXT_MAGIC" "eh_entries (root_bytes ?m) = 1" "eh_max (root_bytes ?m) = 4" "eh_depth (root_bytes ?m) = 0"
    using node_header [of 60 1 4 0 "[run_entry (run_block 0 20)]" "[]"] by (simp_all add: rb)
  have e: "ee_block (root_bytes ?m) 0 = 0" "ucast (ee_len (root_bytes ?m) 0) = (1 :: u32)" "ee_start (root_bytes ?m) 0 = 20"
  proof -
    have "root_bytes ?m = ext_node 60 1 4 0 (map run_entry [run_block 0 20]) @ []" using rb by simp
    note l = leaf_entry [OF _ _ _ this, of 0]
    show "ee_block (root_bytes ?m) 0 = 0" using l(1) by (simp only: run_block_def) simp
    show "ucast (ee_len (root_bytes ?m) 0) = (1 :: u32)" using l(2) by (simp only: run_block_def) simp
    show "ee_start (root_bytes ?m) 0 = 20" using l(3) by (simp only: run_block_def) simp
  qed
  have u: "uses_extents ?m" by (simp add: uses_extents_def ext_inode_def)
  have c: "ext4_extent_collect_runs ?D ?m ?s = (Some [run_block 0 20], ?s)"
    unfolding ext4_extent_collect_runs_def k using u h e
    by (simp add: op_simps seq_def node_room_def run_block_def run_end_def)
  have i: "insert_run 1 21 [run_block 0 20] = Some [run_block 0 20, run_block 1 21]"
    by (simp add: insert_run_def run_block_def run_end_def Let_def)
  have mr: "ext4_extent_merge_runs [run_block 0 20, run_block 1 21] = [?r]"
    by (simp add: can_merge_def run_block_def run_end_def)
  have im: "?m\<lparr>m_block := block_words (ext_node 60 1 4 0 [run_entry ?r])\<rparr> = ext_inode [?r]" by (simp add: ext_inode_def)
  obtain s' where st: "ext4_inode_store ?D (ext_inode [?r]) ?s = (Some (), s')"
    using ext_inode_store [OF example_served] by blast
  have ft: "ext4_extent_free_tree_node ?D 65536 False (root_bytes ?m) x = (Some (), x)" for x
    unfolding k using h by (simp add: op_simps)
  have bt: "build_tree ?D [?r] ?s = (Some (ext_node 60 1 4 0 [run_entry ?r], []), ?s)"
    by (simp add: build_tree_def op_simps node_cap_def example_fs_def)
  have run: "ext4_extent_assign_block ?D 1 21 (?s, ?m) = (Some (), (s', ext_inode [?r]))"
    using c i mr st ft bt u im
    by (simp add: ext4_extent_assign_block_def ext4_extent_rebuild_def op_simps core_def seq_def attempt_def upd_m_def)
  have root: "extent_root ?m" "unat (eh_entries (root_bytes ?m)) \<le> 3"
    using h by (simp_all add: extent_root_def ext_inode_def block_words_def)
  have m0: "ext4_extent_map ?D ?m 0 ?s = (Some 20, ?s)"
    using root_map [of "[run_block 0 20]" ?s ?D ?m 0] by (simp add: run_ok_def run_block_def covers_def run_end_def ext_inode_def example_fs_def)
  show ?thesis
    using extent_assign_maps [OF root _ _ run, of 1] extent_assign_maps [OF root _ _ run, of 0] m0 run
    by (auto simp: example_fs_def)
qed

end
