(* ===== verification/Jbd2Ring.thy ===== *)
theory Jbd2Ring
  imports Ext4Replay
begin

text \<open>
  The ring of journal blocks of \<^verbatim>\<open>src/kernel/ext4.c\<close>: positions as indices modulo the length of the
  ring, the blocks a reservation hands out, and the room it leaves. The journal has fewer than
  2 to the 31 blocks, so that the sums of the code do not wrap around.
\<close>

section \<open>Positions as indices\<close>

definition ring_ok :: "ext4_jbd2 \<Rightarrow> bool" where
  "ring_ok b \<longleftrightarrow> jb_first b < jb_maxlen b \<and> jb_first b \<noteq> 0 \<and> unat (jb_maxlen b) < 2 ^ 31"

definition in_ring :: "ext4_jbd2 \<Rightarrow> u32 \<Rightarrow> bool" where
  "in_ring b p \<longleftrightarrow> jb_first b \<le> p \<and> p < jb_maxlen b"

definition ring_size :: "ext4_jbd2 \<Rightarrow> nat" where
  "ring_size b = unat (jb_maxlen b) - unat (jb_first b)"

definition ring_index :: "ext4_jbd2 \<Rightarrow> u32 \<Rightarrow> nat" where
  "ring_index b p = unat p - unat (jb_first b)"

definition ring_next :: "ext4_jbd2 \<Rightarrow> u32 \<Rightarrow> u32" where
  "ring_next b p = ext4_jbd2_next_block p (jb_first b) (jb_maxlen b)"

lemma ring_size_pos: "ring_ok b \<Longrightarrow> 0 < ring_size b"
  by (simp add: ring_ok_def ring_size_def word_less_nat_alt)

lemma unat_jb_ring: "ring_ok b \<Longrightarrow> unat (jb_ring b) = ring_size b"
  by (simp add: jb_ring_def ring_size_def ring_ok_def unat_sub [OF less_imp_le])

lemma ring_index_less: "in_ring b p \<Longrightarrow> ring_index b p < ring_size b"
  by (auto simp: in_ring_def ring_index_def ring_size_def word_less_nat_alt word_le_nat_alt)

lemma ring_index_inj: "in_ring b p \<Longrightarrow> in_ring b q \<Longrightarrow> ring_index b p = ring_index b q \<Longrightarrow> p = q"
  by (auto simp: in_ring_def ring_index_def word_le_nat_alt word_unat_eq_iff)

lemma unat_Suc_u32: "unat (p :: u32) + 1 < 2 ^ 32 \<Longrightarrow> unat (p + 1) = unat p + 1"
  by (subst unat_add_lem [THEN iffD1]) simp_all

lemma ring_next_index:
  assumes "ring_ok b" "in_ring b p"
  shows "in_ring b (ring_next b p)" "ring_index b (ring_next b p) = (ring_index b p + 1) mod ring_size b"
proof -
  have u: "unat (p + 1) = unat p + 1"
    using assms by (intro unat_Suc_u32) (simp add: ring_ok_def in_ring_def word_less_nat_alt)
  have n: "ring_next b p = (if p + 1 \<ge> jb_maxlen b then jb_first b else p + 1)"
    using assms by (auto simp: ring_next_def ext4_jbd2_next_block_def ring_ok_def in_ring_def Let_def)
  show "in_ring b (ring_next b p)"
    using assms u by (auto simp: n in_ring_def ring_ok_def word_le_nat_alt word_less_nat_alt)
  show "ring_index b (ring_next b p) = (ring_index b p + 1) mod ring_size b"
  proof (cases "p + 1 \<ge> jb_maxlen b")
    case True
    then have "ring_index b p + 1 = ring_size b"
      using assms u by (auto simp: ring_index_def ring_size_def in_ring_def word_le_nat_alt word_less_nat_alt)
    then show ?thesis using True by (simp add: n ring_index_def)
  next
    case False
    then have "ring_index b p + 1 < ring_size b" "ring_index b (p + 1) = ring_index b p + 1"
      using assms u by (auto simp: ring_index_def ring_size_def in_ring_def word_le_nat_alt word_less_nat_alt)
    then show ?thesis using False by (simp add: n)
  qed
qed

lemma ring_steps_index:
  assumes "ring_ok b" "in_ring b p"
  shows "in_ring b ((ring_next b ^^ k) p) \<and> ring_index b ((ring_next b ^^ k) p) = (ring_index b p + k) mod ring_size b"
proof (induction k)
  case 0
  then show ?case using assms ring_index_less by simp
next
  case (Suc k)
  then show ?case using ring_next_index [OF assms(1), of "(ring_next b ^^ k) p"] by (simp add: mod_Suc_eq)
qed

lemma ring_advance_index:
  assumes ok: "ring_ok b" and p: "in_ring b p"
  shows "in_ring b (ext4_jbd2_ring_advance b p n)"
    "ring_index b (ext4_jbd2_ring_advance b p n) = (ring_index b p + unat n) mod ring_size b"
proof -
  let ?R = "ring_size b" and ?r = "jb_ring b"
  have R: "0 < ?R" "unat ?r = ?R" "?r \<noteq> 0" "?R + unat (jb_first b) = unat (jb_maxlen b)" "unat (jb_maxlen b) < 2147483648"
    using ring_size_pos [OF ok] unat_jb_ring [OF ok] ok
    by (auto simp: ring_size_def ring_ok_def word_less_nat_alt)
  have i: "unat (p - jb_first b) = ring_index b p" "ring_index b p < ?R"
    using p ring_index_less by (auto simp: in_ring_def ring_index_def unat_sub)
  have m: "unat (n mod ?r) = unat n mod ?R" by (simp add: unat_mod R(2))
  have "unat n mod ?R < ?R" using R(1) by simp
  then have "ring_index b p + unat n mod ?R < 4294967296" using R i(2) by linarith
  then have "unat (p - jb_first b + n mod ?r) = ring_index b p + unat n mod ?R"
    using i m by (subst unat_add_lem [THEN iffD1]) simp_all
  then have s: "unat ((p - jb_first b + n mod ?r) mod ?r) = (ring_index b p + unat n) mod ?R"
    by (simp add: unat_mod R(2) mod_add_right_eq)
  have "(ring_index b p + unat n) mod ?R < ?R" using R(1) by simp
  then have "unat (jb_first b) + (ring_index b p + unat n) mod ?R < 4294967296" using R by linarith
  then have u: "unat (jb_first b + (p - jb_first b + n mod ?r) mod ?r) = unat (jb_first b) + (ring_index b p + unat n) mod ?R"
    using s by (subst unat_add_lem [THEN iffD1]) simp_all
  have a: "ext4_jbd2_ring_advance b p n = jb_first b + (p - jb_first b + n mod ?r) mod ?r"
    using p R(3) by (auto simp: ext4_jbd2_ring_advance_def Let_def in_ring_def)
  show "in_ring b (ext4_jbd2_ring_advance b p n)"
    unfolding a in_ring_def word_le_nat_alt word_less_nat_alt u
    using \<open>(ring_index b p + unat n) mod ?R < ?R\<close> R(4) by (intro conjI) linarith+
  show "ring_index b (ext4_jbd2_ring_advance b p n) = (ring_index b p + unat n) mod ?R"
    unfolding a ring_index_def [of b "_ + _"] u by simp
qed

lemma ring_distance_index:
  assumes "ring_ok b" "in_ring b p" "in_ring b q"
  shows "unat (ext4_jbd2_ring_distance b p q)
    = (if ring_index b p \<le> ring_index b q then ring_index b q - ring_index b p
       else ring_size b - (ring_index b p - ring_index b q))"
proof -
  have i: "unat (p - jb_first b) = ring_index b p" "unat (q - jb_first b) = ring_index b q"
    using assms by (auto simp: in_ring_def ring_index_def unat_sub)
  have r: "jb_ring b \<noteq> 0" using unat_jb_ring [OF assms(1)] ring_size_pos [OF assms(1)] by auto
  have "unat (p - jb_first b - (q - jb_first b)) = ring_index b p - ring_index b q"
    if "\<not> q - jb_first b \<ge> p - jb_first b" using that i by (subst unat_sub) (simp_all add: word_le_nat_alt)
  moreover have "unat (jb_ring b - (p - jb_first b - (q - jb_first b))) = ring_size b - (ring_index b p - ring_index b q)"
    if "\<not> q - jb_first b \<ge> p - jb_first b"
    using that calculation ring_index_less [OF assms(2)] unat_jb_ring [OF assms(1)]
    by (subst unat_sub) (simp_all add: word_le_nat_alt)
  moreover have "\<not> (p < jb_first b \<or> p \<ge> jb_maxlen b \<or> q < jb_first b \<or> q \<ge> jb_maxlen b)"
    using assms(2,3) by (auto simp: in_ring_def)
  then have "ext4_jbd2_ring_distance b p q = (if q - jb_first b \<ge> p - jb_first b
      then q - jb_first b - (p - jb_first b) else jb_ring b - (p - jb_first b - (q - jb_first b)))"
    using r by (simp add: ext4_jbd2_ring_distance_def Let_def)
  moreover have "q - jb_first b \<ge> p - jb_first b \<longleftrightarrow> ring_index b p \<le> ring_index b q" by (simp add: word_le_nat_alt i)
  ultimately show ?thesis using unat_sub [of "p - jb_first b" "q - jb_first b"] i by auto
qed

lemma ring_clamp_in: "ring_ok b \<Longrightarrow> in_ring b (ring_clamp b p)"
  by (auto simp: ring_clamp_def in_ring_def ring_ok_def)

lemma ring_clamp_id: "in_ring b p \<Longrightarrow> ring_clamp b p = p"
  by (auto simp: ring_clamp_def in_ring_def)

section \<open>Reservations\<close>

text \<open>The blocks of the log that hold committed transactions: from the tail up to the head.\<close>

definition in_use :: "ext4_jbd2 \<Rightarrow> u32 set" where
  "in_use b = (if jb_pending b = [] then {}
     else {(ring_next b ^^ m) (jb_tail b) | m. m < unat (ext4_jbd2_ring_distance b (jb_tail b) (jb_head b))})"

lemma free_blocks_pending:
  assumes "ring_ok b" "in_ring b (jb_head b)" "in_ring b (jb_tail b)" "jb_pending b \<noteq> []"
    "0 < n" "n \<le> unat (ext4_jbd2_ring_free_blocks b)"
  shows "jb_head b \<noteq> jb_tail b" "n < unat (ext4_jbd2_ring_distance b (jb_head b) (jb_tail b))"
proof -
  let ?d = "ext4_jbd2_ring_distance b (jb_head b) (jb_tail b)"
  have f: "ext4_jbd2_ring_free_blocks b = (if jb_ring b \<le> 1 \<or> jb_head b = jb_tail b \<or> ?d \<le> 1 then 0 else ?d - 1)"
    using assms by (auto simp: ext4_jbd2_ring_free_blocks_def Let_def ring_clamp_id)
  then have c: "jb_head b \<noteq> jb_tail b" "\<not> ?d \<le> 1" "ext4_jbd2_ring_free_blocks b = ?d - 1"
    using assms(5,6) by (auto split: if_splits)
  then have "unat (?d - 1) = unat ?d - 1" by (simp add: unat_sub)
  then show "jb_head b \<noteq> jb_tail b" "n < unat ?d" using c assms(5,6) by auto
qed

lemma reserve_blocks_disjoint:
  assumes ok: "ring_ok b" and h: "in_ring b (jb_head b)" and t: "in_ring b (jb_tail b)"
    and "jb_pending b \<noteq> []" and k: "k < unat n" "unat n \<le> unat (ext4_jbd2_ring_free_blocks b)"
    and m: "m < unat (ext4_jbd2_ring_distance b (jb_tail b) (jb_head b))"
  shows "(ring_next b ^^ k) (jb_head b) \<noteq> (ring_next b ^^ m) (jb_tail b)"
proof
  assume eq: "(ring_next b ^^ k) (jb_head b) = (ring_next b ^^ m) (jb_tail b)"
  let ?h = "ring_index b (jb_head b)" and ?t = "ring_index b (jb_tail b)" and ?R = "ring_size b"
  note l = ring_index_less [OF h] ring_index_less [OF t]
  have ne: "jb_head b \<noteq> jb_tail b" "unat n < unat (ext4_jbd2_ring_distance b (jb_head b) (jb_tail b))"
    using free_blocks_pending [OF ok h t assms(4), of "unat n"] k by auto
  then have "?h \<noteq> ?t" using ring_index_inj [OF h t] by blast
  moreover have "(?h + k) mod ?R = (?t + m) mod ?R"
    using eq ring_steps_index [OF ok h, of k] ring_steps_index [OF ok t, of m] by simp
  ultimately show False
    using k m ne(2) l unfolding ring_distance_index [OF ok h t] ring_distance_index [OF ok t h]
    by (cases "?h \<le> ?t") (auto simp: mod_if split: if_splits)
qed


definition ring_example :: ext4_jbd2 where \<comment> \<open>ring 1 .. 15, one transaction in blocks 14, 15, 1\<close>
  "ring_example = jbd2_zero\<lparr>jb_first := 1, jb_maxlen := 16, jb_head := 2, jb_tail := 14,
     jb_pending := [\<lparr>p_seq = 1, p_start = 14, p_end = 2, p_dirty = []\<rparr>]\<rparr>"


end
