(* ===== verification/Jbd2Codec.thy ===== *)
theory Jbd2Codec
  imports Ext4Replay
begin

text \<open>
  The formats of the JBD2 journal of \<^verbatim>\<open>src/kernel/ext4.c\<close>: what the commit writes, the recovery reads
  back. Checksums verify and detect damage; tags and revoke blocks are parsed to what they were
  built from; a data block that starts with the journal's magic number is the exception.
\<close>

section \<open>Bytes of a patched block\<close>

lemma rd_put_inside:
  "off + length bs \<le> length p \<Longrightarrow> k + 4 \<le> length bs \<Longrightarrow> rd_be32 (put_at off bs p) (off + k) = rd_be32 bs k"
  "off + length bs \<le> length p \<Longrightarrow> k + 2 \<le> length bs \<Longrightarrow> rd_be16 (put_at off bs p) (off + k) = rd_be16 bs k"
  by (simp_all add: rd_be32_def rd_be16_def put_at_nth)

lemma rd_put_outside:
  "off + length bs \<le> length p \<Longrightarrow> k + 4 \<le> off \<or> off + length bs \<le> k \<Longrightarrow> k + 4 \<le> length p \<Longrightarrow>
     rd_be32 (put_at off bs p) k = rd_be32 p k"
  by (auto simp: rd_be32_def put_at_nth)

lemma put_at_outside:
  "off + length bs \<le> length p \<Longrightarrow> take off (put_at off bs p) = take off p"
  "off + length bs \<le> length p \<Longrightarrow> drop (off + length bs) (put_at off bs p) = drop (off + length bs) p"
  by (simp_all add: put_at_def)

section \<open>Checksums\<close>

lemma hole_put:
  assumes "off + 4 \<le> length p"
  shows "ext4_jbd2_checksum_with_hole seed (wr_be32 p off v) n off = ext4_jbd2_checksum_with_hole seed p n off"
  using put_at_outside [of off "be32 v" p] assms
  by (simp add: ext4_jbd2_checksum_with_hole_def wr_be32_def Let_def)

lemma tail_verifies:
  assumes "length blk = unat (jb_block_size b)" "4 \<le> unat (jb_block_size b)"
  shows "ext4_jbd2_verify_tail_checksum b (ext4_jbd2_set_tail_checksum b blk)"
  using assms
  by (simp add: ext4_jbd2_verify_tail_checksum_def ext4_jbd2_set_tail_checksum_def Let_def hole_put rd_put_at)

lemma commit_verifies:
  assumes "length blk = unat (jb_block_size b)" "20 \<le> unat (jb_block_size b)"
  shows "ext4_jbd2_verify_commit_checksum b (ext4_jbd2_set_commit_checksum b blk)"
proof -
  have nth: "wr_be32 p 16 v ! i = p ! i" if "i < 16" "20 \<le> length p" for p v i
    using that by (simp add: wr_be32_def put_at_nth)
  show ?thesis
    using assms
    by (simp add: ext4_jbd2_verify_commit_checksum_def ext4_jbd2_set_commit_checksum_def Let_def hole_put rd_put_at nth)
qed

text \<open>The checksum of a block as that of its bytes with the field zeroed.\<close>

lemma hole_bytes:
  assumes "length blk = n" "off + 4 \<le> n"
  shows "ext4_jbd2_checksum_with_hole seed blk n off = crc32c_update seed (put_at off [0, 0, 0, 0] blk)"
proof -
  have "length (drop (off + 4) blk) = n - off - 4" using assms by simp
  then have "take (n - off - 4) (drop (off + 4) blk) = drop (off + 4) blk" by simp
  moreover have "put_at off [0, 0, 0, 0] blk = take off blk @ [0, 0, 0, 0] @ drop (off + 4) blk"
    by (simp add: put_at_def eval_nat_numeral)
  ultimately show ?thesis
    unfolding ext4_jbd2_checksum_with_hole_def Let_def by (simp only: crc32c_update_append)
qed

lemma tail_detects:
  assumes b: "jb_csum b" and len: "length (a @ u @ c @ t) = unat (jb_block_size b)" "length t = 4" "length u = 4" "length v = 4"
    and ne: "u \<noteq> v" and ok: "ext4_jbd2_verify_tail_checksum b (a @ u @ c @ t)"
  shows "\<not> ext4_jbd2_verify_tail_checksum b (a @ v @ c @ t)"
proof -
  let ?n = "unat (jb_block_size b)"
  have n: "?n - 4 = length (a @ u @ c)" "?n - 4 = length (a @ v @ c)" "4 \<le> ?n" using len by auto
  have h: "ext4_jbd2_checksum_with_hole seed (a @ w @ c @ t) ?n (?n - 4) = crc32c_update seed (a @ w @ (c @ [0, 0, 0, 0]))"
    if "length w = 4" for seed w
    using that len by (subst hole_bytes) (auto simp: put_at_def)
  have r: "rd_be32 (a @ w @ c @ t) (?n - 4) = rd_be32 t 0" if "length w = 4" for w
  proof -
    have "unat (jb_block_size b) - 4 = length (a @ w @ c) + 0" using that len by simp
    then show ?thesis using rd_append(4) [of "a @ w @ c" t 0] by simp
  qed
  show ?thesis
    using ok b len h r n crc32c_detects_word [OF len(3,4) ne, of _ a "c @ [0, 0, 0, 0]"]
    by (simp add: ext4_jbd2_verify_tail_checksum_def Let_def)
qed

section \<open>Tags\<close>

lemma rd_be_codes:
  "rd_be32 (be32 v @ r) 0 = v" "rd_be16 (be16 w @ r) 0 = w"
  "length a = 4 \<Longrightarrow> rd_be32 (a @ be32 v @ r) 4 = v" "length a = 8 \<Longrightarrow> rd_be32 (a @ be32 v @ r) 8 = v"
  "length a = 12 \<Longrightarrow> rd_be32 (a @ be32 v @ r) 12 = v"
  "length a = 4 \<Longrightarrow> rd_be16 (a @ be16 w @ r) 4 = w" "length a = 6 \<Longrightarrow> rd_be16 (a @ be16 w @ r) 6 = w"
proof -
  have e: "rd_be32 (a @ be32 v @ r) (length a) = v" for a
    using rd_append(4) [of a "be32 v @ r" 0] by (simp add: rd_append(3) rd_be32_be32)
  have "rd_be16 (be16 w @ r) 0 = rd_be16 (be16 w) 0" for r by (simp add: rd_be16_def nth_append)
  then have f: "rd_be16 (a @ be16 w @ r) (length a) = w" for a
    using rd_be16_be16 [of w] by (simp add: rd_be16_def nth_append)
  show "rd_be32 (be32 v @ r) 0 = v" using e [of "[]"] by simp
  show "rd_be16 (be16 w @ r) 0 = w" using f [of "[]"] by simp
  show "length a = 4 \<Longrightarrow> rd_be32 (a @ be32 v @ r) 4 = v" "length a = 8 \<Longrightarrow> rd_be32 (a @ be32 v @ r) 8 = v"
    "length a = 12 \<Longrightarrow> rd_be32 (a @ be32 v @ r) 12 = v" using e [of a] by simp_all
  show "length a = 4 \<Longrightarrow> rd_be16 (a @ be16 w @ r) 4 = w" "length a = 6 \<Longrightarrow> rd_be16 (a @ be16 w @ r) 6 = w"
    using f [of a] by simp_all
qed

lemma ucast_low_half: "(ucast (v AND 0xFFFFFFFF :: u64) :: u32) = ucast v"
proof -
  have "v AND 0xFFFFFFFF = take_bit 32 v" by (simp add: take_bit_eq_mask mask_eq_exp_minus_1)
  moreover have "(ucast (take_bit 32 v) :: u32) = ucast v" by (rule bit_word_eqI) (auto simp: bit_simps)
  ultimately show ?thesis by simp
qed

lemma ucast_flags:
  assumes "(flags :: u32) < 0x10000"
  shows "(ucast (ucast (flags AND 0xFFFF) :: u16) :: u32) = flags"
proof -
  have t: "take_bit 16 flags = flags"
    using assms by (simp add: word_unat_eq_iff unsigned_take_bit_eq word_less_nat_alt take_bit_nat_eq_self)
  then have "flags AND 0xFFFF = flags" by (simp add: take_bit_eq_mask mask_eq_exp_minus_1)
  moreover have "(ucast (ucast flags :: u16) :: u32) = take_bit 16 flags" by (rule bit_word_eqI) (auto simp: bit_simps)
  ultimately show ?thesis using t by simp
qed

lemma ucast_small64: "(v :: u64) < 0x100000000 \<Longrightarrow> (ucast (ucast v :: u32) :: u64) = v"
proof -
  assume "v < 0x100000000"
  then have "take_bit 32 v = v"
    by (simp add: word_unat_eq_iff unsigned_take_bit_eq word_less_nat_alt take_bit_nat_eq_self)
  moreover have "(ucast (ucast v :: u32) :: u64) = take_bit 32 v" by (rule bit_word_eqI) (auto simp: bit_simps)
  ultimately show ?thesis by simp
qed

text \<open>A block number fits the tag or entry that carries it.\<close>

definition blk_fits :: "ext4_jbd2 \<Rightarrow> u64 \<Rightarrow> bool" where
  "blk_fits b v \<longleftrightarrow> jb_feat_64bit b \<or> v < 0x100000000"

lemma length_tag_bytes: "length (tag_bytes b v fl cs) = unat (ext4_jbd2_tx_tag_bytes b)"
  by (simp add: tag_bytes_def ext4_jbd2_tx_tag_bytes_def)

lemma parse_tag_bytes:
  assumes "off + length (tag_bytes b v fl cs) \<le> length p" "fl AND 2 \<noteq> 0" "fl < 0x10000" "jb_csum_v3 b \<or> blk_fits b v"
  shows "parse_tag b (length p) (put_at off (tag_bytes b v fl cs) p) off =
    Some \<lparr>t_fs_block = v, t_flags = fl, t_sum32 = (if jb_csum_v3 b then cs else 0),
      t_sum16 = (if jb_csum_v3 b \<or> \<not> jb_csum_v2 b then 0 else ucast cs), t_next = off + length (tag_bytes b v fl cs)\<rparr>"
proof (cases "jb_csum_v3 b")
  case True
  then have t: "tag_bytes b v fl cs = be32 (ucast v) @ be32 fl @ be32 (ucast (drop_bit 32 v)) @ be32 cs"
    by (simp add: tag_bytes_def ucast_low_half)
  let ?t = "be32 (ucast v) @ be32 fl @ be32 (ucast (drop_bit 32 v)) @ be32 cs"
  have r: "rd_be32 ?t 0 = ucast v" "rd_be32 ?t 4 = fl" "rd_be32 ?t 8 = ucast (drop_bit 32 v)" "rd_be32 ?t 12 = cs"
    using rd_be_codes(4) [of "be32 (ucast v) @ be32 fl" "ucast (drop_bit 32 v)" "be32 cs"]
      rd_be_codes(5) [of "be32 (ucast v) @ be32 fl @ be32 (ucast (drop_bit 32 v))" cs "[]"]
    by (simp_all add: rd_be_codes)
  have q: "k + 4 \<le> 16 \<Longrightarrow> rd_be32 (put_at off ?t p) (off + k) = rd_be32 ?t k" for k
    using assms(1) by (intro rd_put_inside) (simp_all add: t)
  show ?thesis
    using True assms q [of 0] q [of 4] q [of 8] q [of 12] r
    by (simp add: parse_tag_def Let_def t ucast_halves)
next
  case False
  let ?c = "if jb_csum_v2 b then ucast cs else 0 :: u16" and ?h = "if jb_feat_64bit b then be32 (ucast (drop_bit 32 v)) else []"
  let ?t = "be32 (ucast v) @ be16 ?c @ be16 (ucast (fl AND 0xFFFF)) @ ?h"
  have t: "tag_bytes b v fl cs = ?t" using False by (simp add: tag_bytes_def ucast_low_half)
  have r: "rd_be32 ?t 0 = ucast v" "rd_be16 ?t 4 = ?c" "rd_be16 ?t 6 = ucast (fl AND 0xFFFF)"
    "jb_feat_64bit b \<Longrightarrow> rd_be32 ?t 8 = ucast (drop_bit 32 v)"
    using rd_be_codes(6) [of "be32 (ucast v)" ?c] rd_be_codes(7) [of "be32 (ucast v) @ be16 ?c" "ucast (fl AND 0xFFFF)" ?h]
      rd_be_codes(4) [of "be32 (ucast v) @ be16 ?c @ be16 (ucast (fl AND 0xFFFF))" "ucast (drop_bit 32 v)" "[]"]
    by (simp_all add: rd_be_codes)
  have q: "k + 4 \<le> length ?t \<Longrightarrow> rd_be32 (put_at off ?t p) (off + k) = rd_be32 ?t k"
    "k + 2 \<le> length ?t \<Longrightarrow> rd_be16 (put_at off ?t p) (off + k) = rd_be16 ?t k" for k
    using assms(1) by (intro rd_put_inside; simp add: t)+
  have v: "\<not> jb_feat_64bit b \<Longrightarrow> ucast (ucast v :: u32) = v" using assms(4) False by (simp add: blk_fits_def ucast_small64)
  show ?thesis
  proof (cases "jb_feat_64bit b")
    case True
    then show ?thesis
      using False assms(1,2) q(1) [of 0] q(2) [of 4] q(2) [of 6] q(1) [of 8] r ucast_flags [OF assms(3)]
      by (simp add: parse_tag_def Let_def t ucast_halves)
  next
    case no64: False
    then show ?thesis
      using False assms(1,2) q(1) [of 0] q(2) [of 4] q(2) [of 6] r ucast_flags [OF assms(3)] v
      by (simp add: parse_tag_def Let_def t)
  qed
qed

section \<open>Revoke blocks\<close>

lemma length_revoke_entry: "length (revoke_entry b v) = (if jb_feat_64bit b then 8 else 4)"
  by (simp add: revoke_entry_def)

lemma length_revoke_entries: "length (concat (map (revoke_entry b) rs)) = length rs * (if jb_feat_64bit b then 8 else 4)"
  by (induction rs) (simp_all add: length_revoke_entry)

lemma rd_be32_at:
  assumes "take 4 (drop off p) = be32 v" "off + 4 \<le> length p"
  shows "rd_be32 p off = v"
  using rd_shift(2) [of p off] assms by (simp add: rd_be32_be32)

lemma add_revoke_new:
  "r < blocks_count f \<Longrightarrow> r \<notin> r_fs_block ` set acc \<Longrightarrow> length acc < rmax \<Longrightarrow>
     ext4_jbd2_add_revoke f rmax r q False acc = Some (acc @ [\<lparr>r_fs_block = r, r_seq = q\<rparr>])"
  by (auto simp: ext4_jbd2_add_revoke_def list_ex_iff)

lemma revoke_entry_read:
  assumes "take (length (revoke_entry b v)) (drop off p) = revoke_entry b v" "off + length (revoke_entry b v) \<le> length p" "blk_fits b v"
  shows "(if jb_feat_64bit b then ucast (rd_be32 p off) OR push_bit 32 (ucast (rd_be32 p (off + 4))) else ucast (rd_be32 p off)) = v"
proof (cases "jb_feat_64bit b")
  case True
  then have t: "take 8 (drop off p) = be32 (ucast v) @ be32 (ucast (drop_bit 32 v))" "off + 8 \<le> length p"
    using assms by (simp_all add: revoke_entry_def ucast_low_half)
  have "take 4 (drop off p) = take 4 (take 8 (drop off p))" "take 4 (drop (off + 4) p) = drop 4 (take 8 (drop off p))"
    by (simp_all add: drop_take add.commute)
  then have "rd_be32 p off = ucast v" "rd_be32 p (off + 4) = ucast (drop_bit 32 v)"
    using t by (auto intro!: rd_be32_at)
  then show ?thesis using True by (simp add: ucast_halves)
next
  case False
  then have "rd_be32 p off = ucast v" using assms by (intro rd_be32_at) (simp_all add: revoke_entry_def ucast_low_half)
  then show ?thesis using False assms(3) by (simp add: blk_fits_def ucast_small64)
qed

lemma parse_revoke_entries:
  assumes "take (length (concat (map (revoke_entry b) rs))) (drop off p) = concat (map (revoke_entry b) rs)"
    "off + length (concat (map (revoke_entry b) rs)) = used" "used \<le> length p"
    "distinct rs" "set rs \<inter> r_fs_block ` set acc = {}" "length acc + length rs \<le> rmax"
    "\<forall>r \<in> set rs. r < blocks_count f \<and> blk_fits b r"
  shows "parse_revoke_loop f b p q rmax used off acc = Some (acc @ map (\<lambda>r. \<lparr>r_fs_block = r, r_seq = q\<rparr>) rs)"
  using assms
proof (induction rs arbitrary: off acc)
  case Nil
  then show ?case by (subst parse_revoke_loop.simps) simp
next
  case (Cons r rs)
  let ?e = "length (revoke_entry b r)" and ?t = "concat (map (revoke_entry b) rs)"
  have cat: "take (?e + length ?t) (drop off p) = revoke_entry b r @ ?t" using Cons.prems(1) by simp
  have here: "take ?e (drop off p) = revoke_entry b r" using arg_cong [OF cat, of "take ?e"] by (simp add: min_def)
  have rest: "take (length ?t) (drop (off + ?e) p) = ?t"
    using arg_cong [OF cat, of "drop ?e"] by (simp add: drop_take add.commute)
  have e: "?e = (if jb_feat_64bit b then 8 else 4)" by (simp add: length_revoke_entry)
  have "off + ?e \<le> length p" using Cons.prems(2,3) by simp
  then have v: "(if jb_feat_64bit b then ucast (rd_be32 p off) OR push_bit 32 (ucast (rd_be32 p (off + 4))) else ucast (rd_be32 p off)) = r"
    using here Cons.prems(7) by (intro revoke_entry_read) auto
  have add: "ext4_jbd2_add_revoke f rmax r q False acc = Some (acc @ [\<lparr>r_fs_block = r, r_seq = q\<rparr>])"
    using Cons.prems(4-7) by (intro add_revoke_new) auto
  have "parse_revoke_loop f b p q rmax used (off + ?e) (acc @ [\<lparr>r_fs_block = r, r_seq = q\<rparr>])
      = Some ((acc @ [\<lparr>r_fs_block = r, r_seq = q\<rparr>]) @ map (\<lambda>r. \<lparr>r_fs_block = r, r_seq = q\<rparr>) rs)"
    using Cons.prems rest by (intro Cons.IH) auto
  moreover have "off + ?e \<le> used" using Cons.prems(2) by simp
  ultimately show ?case using v add e by (subst parse_revoke_loop.simps) (auto simp: Let_def)
qed

lemma length_jblock_hdr [simp]: "12 \<le> n \<Longrightarrow> length (jblock_hdr n ty q) = n"
  by (simp add: jblock_hdr_def)

lemma set_tail_keeps:
  assumes "length p = unat (jb_block_size b)" "k + (if jb_csum b then 4 else 0) \<le> length p"
  shows "take k (ext4_jbd2_set_tail_checksum b p) = take k p" "length (ext4_jbd2_set_tail_checksum b p) = length p"
  using assms by (auto simp: ext4_jbd2_set_tail_checksum_def Let_def wr_be32_def put_at_def)

text \<open>
  C19. Revoke records survive the journal: the revoke block that the commit writes for block numbers
  \<open>rs\<close> of transaction \<open>q\<close> passes its checksum and is parsed by the recovery to exactly these revokes with
  sequence number \<open>q\<close>, in order, for both entry sizes and with or without checksums, whenever the entries
  fit the block and the table.
\<close>

theorem jbd2_revoke_roundtrip:
  assumes "unat (jb_block_size b) = n" "block_size f = jb_block_size b"
    "16 + length rs * (if jb_feat_64bit b then 8 else 4) + (if jb_csum b then 4 else 0) \<le> n"
    "distinct rs" "length rs \<le> rmax" "\<forall>r \<in> set rs. r < blocks_count f \<and> blk_fits b r"
  shows "ext4_jbd2_parse_revoke_block f b (revoke_block b q rs) q rmax []
    = Some (map (\<lambda>r. \<lparr>r_fs_block = r, r_seq = q\<rparr>) rs)"
proof -
  let ?es = "concat (map (revoke_entry b) rs)"
  let ?hd = "jblock_hdr n JBD2_REVOKE_BLOCK q"
  define p where "p = wr_be32 (put_at 16 ?es ?hd) 12 (of_nat (16 + length ?es))"
  have l: "length ?es = length rs * (if jb_feat_64bit b then 8 else 4)" by (rule length_revoke_entries)
  have n: "16 + length ?es + (if jb_csum b then 4 else 0) \<le> n" using assms(3) l by simp
  have lp: "length p = n" using n by (simp add: p_def)
  have blk: "revoke_block b q rs = ext4_jbd2_set_tail_checksum b p"
    by (simp add: revoke_block_def p_def assms(1) Let_def)
  let ?B = "revoke_block b q rs"
  have B: "length ?B = n" "take (16 + length ?es) ?B = take (16 + length ?es) p"
    using set_tail_keeps [of p b "16 + length ?es"] n lp assms(1) by (simp_all add: blk)
  have "take 4 (drop 12 ?B) = take 4 (drop 12 (take (16 + length ?es) ?B))" by (simp add: drop_take min_def)
  also have "\<dots> = take 4 (drop 12 p)" unfolding B(2) by (simp add: drop_take min_def)
  also have "\<dots> = be32 (of_nat (16 + length ?es))"
    using n put_at_take [of 12 "be32 (of_nat (16 + length ?es))"] by (simp add: p_def wr_be32_def)
  finally have "rd_be32 ?B 12 = of_nat (16 + length ?es)" using B(1) n by (intro rd_be32_at) auto
  moreover have "unat (of_nat (16 + length ?es) :: u32) = 16 + length ?es"
    using n assms(1) unat_u32 [of "jb_block_size b"] by (intro unat_of_nat_small) (auto simp del: unat_u32)
  ultimately have used: "unat (rd_be32 ?B 12) = 16 + length ?es" by simp
  have "take (length ?es) (drop 16 ?B) = drop 16 (take (16 + length ?es) ?B)" by (simp add: drop_take)
  also have "\<dots> = take (length ?es) (drop 16 p)" unfolding B(2) by (simp add: drop_take)
  also have "drop 16 p = drop 16 (put_at 16 ?es ?hd)"
    using n put_at_outside(2) [of 12 "be32 (of_nat (16 + length ?es))" "put_at 16 ?es ?hd"] by (simp add: p_def wr_be32_def)
  also have "take (length ?es) (drop 16 (put_at 16 ?es ?hd)) = ?es" using n by (intro put_at_take) simp
  finally have es: "take (length ?es) (drop 16 ?B) = ?es" .
  have "parse_revoke_loop f b ?B q rmax (16 + length ?es) 16 [] = Some ([] @ map (\<lambda>r. \<lparr>r_fs_block = r, r_seq = q\<rparr>) rs)"
    using es n B(1) assms(4-6) by (intro parse_revoke_entries) auto
  moreover have "ext4_jbd2_verify_tail_checksum b ?B"
    using n lp assms(1) unfolding blk by (intro tail_verifies) auto
  ultimately show ?thesis
    using used n assms(1,2) by (simp add: ext4_jbd2_parse_revoke_block_def Let_def word_less_nat_alt word_le_nat_alt)
qed

definition codec_example :: ext4_jbd2 where
  "codec_example = jbd2_zero\<lparr>jb_block_size := 1024, jb_csum_v3 := True, jb_feat_64bit := True, jb_csum_seed := 7\<rparr>"

definition codec_fs :: ext4_fs where
  "codec_fs = \<lparr>mounted = True, write_enabled = True, has_filetype = True, has_64bit = False,
     feature_compat = 4, feature_incompat = 0, feature_ro_compat = 0, block_size = 1024, sectors_per_block = 2,
     inodes_count = 32, first_ino = 11, inode_size = 128, inodes_per_group = 32, blocks_per_group = 8192,
     desc_size = 32, first_data_block = 1, blocks_count = 1000, free_blocks_count = 100, free_inodes_count = 20,
     groups_count = 1, source_dev_kind = DEV_VDA, source_lba_start = 0, source_lba_count = 2000\<rparr>"

lemma codec_example_fields [simp]:
  "jb_block_size codec_example = 1024" "jb_csum_v3 codec_example" "jb_csum codec_example" "jb_feat_64bit codec_example"
  "block_size codec_fs = 1024" "blocks_count codec_fs = 1000"
  by (simp_all add: codec_example_def codec_fs_def jb_csum_def)

theorem jbd2_revoke_roundtrip_witness:
  "ext4_jbd2_parse_revoke_block codec_fs codec_example (revoke_block codec_example 3 [17, 900]) 3 512 []
    = Some [\<lparr>r_fs_block = 17, r_seq = 3\<rparr>, \<lparr>r_fs_block = 900, r_seq = 3\<rparr>]"
  using jbd2_revoke_roundtrip [of codec_example 1024 codec_fs "[17, 900]" 512 3] by (simp add: blk_fits_def)

text \<open>
  C20. Tags survive the journal: the tag that the commit stores for block \<open>v\<close> at offset \<open>off\<close> of a
  descriptor block is parsed by the recovery to the same block number, flags and checksum and to the offset right
  after it, in all three layouts of the tag, provided the block number fits the layout.
\<close>

theorem jbd2_tag_roundtrip:
  assumes "off + unat (ext4_jbd2_tx_tag_bytes b) \<le> length p" "jb_csum_v3 b \<or> blk_fits b v"
  shows "\<exists>t. parse_tag b (length p) (put_at off (tag_bytes b v (tag_flags esc fin) (tag_sum b q data)) p) off = Some t
    \<and> t_fs_block t = v \<and> (t_flags t AND 1 \<noteq> 0) = esc \<and> (t_flags t AND 8 \<noteq> 0) = fin
    \<and> t_flags t AND 4 = 0 \<and> t_flags t AND NOT 15 = 0 \<and> t_next t = off + unat (ext4_jbd2_tx_tag_bytes b)
    \<and> (length data = unat (jb_block_size b) \<longrightarrow> tag_sum_ok b q data t)"
proof -
  have fl: "tag_flags esc fin AND 2 \<noteq> 0" "tag_flags esc fin < 0x10000" "(tag_flags esc fin AND 1 \<noteq> 0) = esc"
    "(tag_flags esc fin AND 8 \<noteq> 0) = fin" "tag_flags esc fin AND 4 = 0" "tag_flags esc fin AND NOT 15 = 0"
    by (cases esc; cases fin; simp add: tag_flags_def)+
  show ?thesis
    using parse_tag_bytes [of off b v "tag_flags esc fin" "tag_sum b q data" p] assms fl
    by (auto simp: length_tag_bytes tag_sum_ok_def tag_sum_def ext4_jbd2_data_checksum32_def jb_csum_def Let_def)
qed

theorem jbd2_tag_roundtrip_witness:
  "\<exists>t. parse_tag codec_example 1024 (put_at 12 (tag_bytes codec_example 77 (tag_flags True False)
       (tag_sum codec_example 5 (replicate 1024 1))) (replicate 1024 0)) 12 = Some t
    \<and> t_fs_block t = 77 \<and> t_flags t AND 1 \<noteq> 0 \<and> t_next t = 28"
  using jbd2_tag_roundtrip [of 12 codec_example "replicate 1024 0" 77 True False 5 "replicate 1024 1"]
  by (auto simp: ext4_jbd2_tx_tag_bytes_def)

text \<open>
  C21. The checksum at the end of a descriptor or revoke block does its work: a block as
  \<^verbatim>\<open>ext4_jbd2_set_tail_checksum\<close> leaves it is accepted, and if any four consecutive bytes before the
  checksum are changed to anything else, it is refused.
\<close>

theorem jbd2_tail_checksum_sound:
  assumes "jb_csum b" "length blk = unat (jb_block_size b)" "i + 8 \<le> length blk" "length v = 4"
  shows "ext4_jbd2_verify_tail_checksum b (ext4_jbd2_set_tail_checksum b blk)
    \<and> (take 4 (drop i blk) \<noteq> v \<longrightarrow>
        \<not> ext4_jbd2_verify_tail_checksum b (put_at i v (ext4_jbd2_set_tail_checksum b blk)))"
proof (intro conjI impI)
  let ?B = "ext4_jbd2_set_tail_checksum b blk" and ?n = "length blk"
  show ok: "ext4_jbd2_verify_tail_checksum b ?B" using assms by (intro tail_verifies) auto
  assume ne: "take 4 (drop i blk) \<noteq> v"
  have l: "length ?B = ?n" "take (i + 4) ?B = take (i + 4) blk"
    using set_tail_keeps [of blk b "i + 4"] assms by auto
  define a u c t where "a = take i ?B" "u = take 4 (drop i ?B)" "c = drop (i + 4) (take (?n - 4) ?B)" "t = drop (?n - 4) ?B"
  have u: "u = take 4 (drop i blk)" using arg_cong [OF l(2), of "drop i"] by (simp add: a_u_c_t_def drop_take)
  have "min 4 (?n - (i + 4)) = 4" using assms(3) by simp
  then have "u @ c = drop i (take (?n - 4) ?B)"
    using assms(3) append_take_drop_id [of 4 "drop i (take (?n - 4) ?B)"]
    by (simp add: a_u_c_t_def drop_take add.commute)
  moreover have "min i (?n - 4) = i" using assms(3) by simp
  ultimately have "a @ u @ c = take (?n - 4) ?B"
    using append_take_drop_id [of i "take (?n - 4) ?B"] by (simp add: a_u_c_t_def)
  then have "(a @ u @ c) @ t = ?B" by (simp add: a_u_c_t_def(4))
  then have B: "?B = a @ u @ c @ t" by simp
  have len: "length a = i" "length u = 4" "length t = 4" using assms(3) l(1) by (auto simp: a_u_c_t_def)
  then have "put_at i v ?B = a @ v @ c @ t" using assms(4) unfolding B by (simp add: put_at_def)
  then show "\<not> ext4_jbd2_verify_tail_checksum b (put_at i v ?B)"
    using tail_detects [of b a u c t v] ok ne assms l(1) u len unfolding B by auto
qed

theorem jbd2_tail_checksum_sound_witness:
  "\<not> ext4_jbd2_verify_tail_checksum codec_example
       (put_at 100 [1, 2, 3, 4] (ext4_jbd2_set_tail_checksum codec_example (replicate 1024 0)))"
proof -
  have "replicate 4 (0 :: u8) ! 0 \<noteq> [1, 2, 3, 4] ! 0" by simp
  then have "replicate 4 (0 :: u8) \<noteq> [1, 2, 3, 4]" by metis
  then show ?thesis using jbd2_tail_checksum_sound [of codec_example "replicate 1024 0" 100 "[1, 2, 3, 4]"] by simp
qed



end
