(* ===== verification/Inodes.thy ===== *)
theory Inodes
  imports Ext4Dir Ext4Extents Ext4Tx Pmm
begin

text \<open>
  The state of the file layer: the inodes of \<^verbatim>\<open>src/include/fs.h\<close> (the pool of \<^verbatim>\<open>src/kernel/fs.c\<close> and the inode cache of
  \<^verbatim>\<open>src/kernel/ext4.c\<close>), the mount table, the page cache of \<^verbatim>\<open>src/kernel/pagecache.c\<close>, the physical memory its pages are in,
  and the ext4 driver below; and those operations of the page cache that do no input or output. A pointer to
  an inode is a reference into one of the two arrays, a C string is the list of its bytes before the terminator.
\<close>

section \<open>Inodes\<close>

datatype inode_type = INODE_FREE \<comment> \<open>0, an unused entry\<close> | INODE_DIR | INODE_FILE | INODE_DEV

datatype fs_kind = FS_KIND_MEM | FS_KIND_EXT4

datatype iref = Pool nat \<comment> \<open>inode_pool[i]\<close> | Cached nat \<comment> \<open>g_ext4.cache_nodes[i]\<close>

record inode =
  i_name :: "u8 list"
  i_type :: inode_type
  i_fs_kind :: fs_kind
  i_fs_id :: u32
  i_fs_ino :: u32
  i_executable :: bool
  i_writable :: bool
  i_dev_kind :: dev_kind
  i_lba_start :: u64
  i_lba_count :: u64
  i_parent :: "iref option"
  i_children :: "iref list" \<comment> \<open>children[0 .. child_count)\<close>
  i_data :: u64 \<comment> \<open>an address; 0 is the null pointer\<close>
  i_size :: u64
  i_capacity :: u64

abbreviation (input) INODE_NAME_MAX :: nat where "INODE_NAME_MAX \<equiv> 31"
abbreviation (input) DIR_MAX_CHILDREN :: nat where "DIR_MAX_CHILDREN \<equiv> 32"
abbreviation (input) INODE_POOL_MAX :: nat where "INODE_POOL_MAX \<equiv> 512"
abbreviation (input) EXT4_CACHE_MAX :: nat where "EXT4_CACHE_MAX \<equiv> 96"
abbreviation (input) MAX_PATH :: nat where "MAX_PATH \<equiv> 128"

definition inode_zero :: inode where \<comment> \<open>memset(ino, 0, sizeof(*ino))\<close>
  "inode_zero = \<lparr>i_name = [], i_type = INODE_FREE, i_fs_kind = FS_KIND_MEM, i_fs_id = 0, i_fs_ino = 0, i_executable = False,
     i_writable = False, i_dev_kind = DEV_NONE, i_lba_start = 0, i_lba_count = 0, i_parent = None, i_children = [],
     i_data = 0, i_size = 0, i_capacity = 0\<rparr>"

definition meta_zero :: ext4_meta where
  "meta_zero = \<lparr>m_valid = False, m_ino = 0, m_mode = 0, m_links = 0, m_flags = 0, m_blocks_lo = 0, m_size = 0,
     m_block = replicate 15 0\<rparr>"

section \<open>The state\<close>

record pc_entry = \<comment> \<open>pagecache_entry_t; the inode is null in an unused entry\<close>
  pc_used :: bool
  pc_dirty :: bool
  pc_inode :: "iref option"
  pc_file_off :: u64
  pc_pa :: u64
  pc_touch :: u64

record mount_entry =
  mnt_used :: bool
  mnt_point :: "iref option"
  mnt_kind :: fs_kind
  mnt_source :: dev_kind

text \<open>\<open>x_\<close> fields are those of \<^verbatim>\<open>g_ext4\<close> that the driver below does not use; \<open>x_local\<close> is the stack copy \<^verbatim>\<open>local_meta\<close> of the
  function that runs. \<open>rest\<close> is the rest of the kernel: the tasks, the console and the network.\<close>

record ('d, 't) vfs =
  e4 :: "'d ext4"
  pm :: pmm
  ino_pool :: "inode list"
  root_inode :: "iref option"
  dev_root_inode :: "iref option"
  mount_table :: "mount_entry list"
  x_mountpoint :: "iref option"
  x_instance_id :: u32
  x_instance_seq :: u32
  x_root_meta :: ext4_meta
  x_nodes :: "inode list"
  x_metas :: "ext4_meta list"
  x_symlink_depth :: nat
  x_local :: ext4_meta
  pagecache :: "pc_entry list"
  pc_clock :: u64
  pc_last_tick :: u64
  pc_fail_streak :: u32
  pc_blocked_until :: u64
  pc_wb_tick :: u64 \<comment> \<open>the static variable of pagecache_tick\<close>
  rest :: 't

type_synonym ('d, 't, 'a) vop = "(('d, 't) vfs, 'a) op"

text \<open>What the file layer calls and this library models elsewhere, on another state, or not at all: device polling, the
  tasks' page tables and open files, the console, the network device.\<close>

record ('d, 't) env =
  drv :: "'d blkdrv"
  ahci_poll :: "'d \<Rightarrow> 'd"
  nvme_poll :: "'d \<Rightarrow> 'd"
  ahci_disk_count :: "'d \<Rightarrow> u32"
  nvme_controller_count :: "'d \<Rightarrow> u32"
  task_pagecache_writeprotect_shared :: "(iref \<Rightarrow> inode) \<Rightarrow> iref \<Rightarrow> u64 \<Rightarrow> 't \<Rightarrow> bool \<times> 't"
  task_mount_busy :: "(iref \<Rightarrow> inode) \<Rightarrow> iref \<Rightarrow> u8 list \<Rightarrow> 't \<Rightarrow> bool"
  uart_getc :: "'t \<Rightarrow> u8 \<times> 't"
  uart_putc :: "u8 \<Rightarrow> 't \<Rightarrow> 't"
  dev_net_ready :: "'t \<Rightarrow> bool"
  dev_net_read :: "nat \<Rightarrow> 't \<Rightarrow> int \<times> u8 list \<times> 't"
  dev_net_write :: "u8 list \<Rightarrow> 't \<Rightarrow> int \<times> 't"

section \<open>Following pointers\<close>

text \<open>A pointer that is not null points into its array; beyond the end, an unused inode is read.\<close>

primrec node :: "('d, 't) vfs \<Rightarrow> iref \<Rightarrow> inode" where
  "node s (Pool i) = (if i < length (ino_pool s) then ino_pool s ! i else inode_zero)"
| "node s (Cached i) = (if i < length (x_nodes s) then x_nodes s ! i else inode_zero)"

primrec upd_node :: "iref \<Rightarrow> (inode \<Rightarrow> inode) \<Rightarrow> ('d, 't) vfs \<Rightarrow> ('d, 't) vfs" where
  "upd_node (Pool i) f s = s\<lparr>ino_pool := (ino_pool s)[i := f (ino_pool s ! i)]\<rparr>"
| "upd_node (Cached i) f s = s\<lparr>x_nodes := (x_nodes s)[i := f (x_nodes s ! i)]\<rparr>"

datatype mref = RootMeta | CacheMeta nat | LocalMeta \<comment> \<open>an ext4_meta_t *\<close>

primrec meta :: "('d, 't) vfs \<Rightarrow> mref \<Rightarrow> ext4_meta" where
  "meta s RootMeta = x_root_meta s"
| "meta s (CacheMeta i) = x_metas s ! i"
| "meta s LocalMeta = x_local s"

primrec upd_meta :: "mref \<Rightarrow> (ext4_meta \<Rightarrow> ext4_meta) \<Rightarrow> ('d, 't) vfs \<Rightarrow> ('d, 't) vfs" where
  "upd_meta RootMeta f s = s\<lparr>x_root_meta := f (x_root_meta s)\<rparr>"
| "upd_meta (CacheMeta i) f s = s\<lparr>x_metas := (x_metas s)[i := f (x_metas s ! i)]\<rparr>"
| "upd_meta LocalMeta f s = s\<lparr>x_local := f (x_local s)\<rparr>"

text \<open>Operations of the ext4 driver, and those on an inode's metadata, inside the file layer; \<open>upd_e4\<close>, \<open>upd_pm\<close>: a change of the
  driver's state, of the memory manager's.\<close>

definition e4op :: "('d ext4, 'a) op \<Rightarrow> ('d, 't, 'a) vop" where
  "e4op f s = (case f (e4 s) of (r, x) \<Rightarrow> (r, s\<lparr>e4 := x\<rparr>))"

definition metaop :: "mref \<Rightarrow> ('d mst, 'a) op \<Rightarrow> ('d, 't, 'a) vop" where
  "metaop mr f s = (case f (e4 s, meta s mr) of (r, (x, m)) \<Rightarrow> (r, upd_meta mr (\<lambda>_. m) (s\<lparr>e4 := x\<rparr>)))"

definition e4test :: "('d ext4 \<Rightarrow> bool \<times> 'd ext4) \<Rightarrow> ('d, 't, bool) vop" where
  "e4test f s = (case f (e4 s) of (b, x) \<Rightarrow> (Some b, s\<lparr>e4 := x\<rparr>))"

definition upd_e4 :: "('d ext4 \<Rightarrow> 'd ext4) \<Rightarrow> ('d, 't) vfs \<Rightarrow> ('d, 't) vfs" where "upd_e4 f s = s\<lparr>e4 := f (e4 s)\<rparr>"
definition upd_pm :: "(pmm \<Rightarrow> pmm) \<Rightarrow> ('d, 't) vfs \<Rightarrow> ('d, 't) vfs" where "upd_pm f s = s\<lparr>pm := f (pm s)\<rparr>"

text \<open>\<^verbatim>\<open>if (...) return false;\<close> on the state.\<close>

definition require :: "('s \<Rightarrow> bool) \<Rightarrow> ('s, unit) op" where
  "require b s = (if b s then Some () else None, s)"

text \<open>Copies from and to physical memory.\<close>

definition mem_get :: "u64 \<Rightarrow> nat \<Rightarrow> ('d, 't) vfs \<Rightarrow> u8 list" where
  "mem_get a n s = map (\<lambda>i. ram (pm s) (a + of_nat i)) [0..<n]"

definition mem_put :: "u64 \<Rightarrow> u8 list \<Rightarrow> ('d, 't) vfs \<Rightarrow> ('d, 't) vfs" where
  "mem_put a bs = upd_pm (\<lambda>p. p\<lparr>ram := (\<lambda>x. if unat (x - a) < length bs then bs ! unat (x - a) else ram p x)\<rparr>)"

text \<open>\<^verbatim>\<open>strncpy(name, s, INODE_NAME_MAX); name[INODE_NAME_MAX] = 0\<close>.\<close>

definition name_of :: "u8 list \<Rightarrow> u8 list" where "name_of s = take INODE_NAME_MAX s"

section \<open>The page cache table\<close>

abbreviation (input) PAGE_BYTES :: nat where "PAGE_BYTES \<equiv> 4096"

definition pc_zero :: pc_entry where
  "pc_zero = \<lparr>pc_used = False, pc_dirty = False, pc_inode = None, pc_file_off = 0, pc_pa = 0, pc_touch = 0\<rparr>"

definition upd_pc :: "nat \<Rightarrow> (pc_entry \<Rightarrow> pc_entry) \<Rightarrow> ('d, 't) vfs \<Rightarrow> ('d, 't) vfs" where
  "upd_pc i f s = s\<lparr>pagecache := (pagecache s)[i := f (pagecache s ! i)]\<rparr>"

definition pagecache_init :: "('d, 't) vfs \<Rightarrow> ('d, 't) vfs" where
  "pagecache_init s = s\<lparr>pagecache := replicate 256 pc_zero, pc_clock := 0, pc_last_tick := 0, pc_fail_streak := 0,
     pc_blocked_until := 0\<rparr>"

text \<open>Take a new tick of the clock and stamp entry \<open>i\<close> with it.\<close>

definition pagecache_touch_tick :: "nat \<Rightarrow> ('d, 't) vfs \<Rightarrow> ('d, 't) vfs" where
  "pagecache_touch_tick i s =
     (let c = pc_clock s + 1; c = (if c = 0 then 1 else c) in upd_pc i (\<lambda>e. e\<lparr>pc_touch := c\<rparr>) (s\<lparr>pc_clock := c\<rparr>))"

definition pagecache_inode_same :: "('d, 't) vfs \<Rightarrow> iref option \<Rightarrow> iref option \<Rightarrow> bool" where
  "pagecache_inode_same s a b =
     (if a = b then True
      else case (a, b) of
        (Some x, Some y) \<Rightarrow>
          let p = node s x; q = node s y in
          if i_type p \<noteq> i_type q \<or> i_fs_kind p \<noteq> i_fs_kind q then False
          else if i_type p = INODE_DEV then
            i_dev_kind p = i_dev_kind q \<and> i_lba_start p = i_lba_start q \<and> i_lba_count p = i_lba_count q
          else if i_fs_kind p = FS_KIND_EXT4 \<and> i_fs_id p \<noteq> 0 \<and> i_fs_id q \<noteq> 0 \<and> i_fs_ino p \<noteq> 0 \<and> i_fs_ino q \<noteq> 0 then
            i_fs_id p = i_fs_id q \<and> i_fs_ino p = i_fs_ino q
          else False
      | _ \<Rightarrow> False)"

definition fs_is_block_dev :: "inode \<Rightarrow> bool" where
  "fs_is_block_dev n \<longleftrightarrow> i_type n = INODE_DEV \<and> dev_kind_is_block (i_dev_kind n)"

definition pagecache_inode_supported :: "inode \<Rightarrow> bool" where
  "pagecache_inode_supported n =
     (if i_type n = INODE_DEV then fs_is_block_dev n else i_type n = INODE_FILE)"

fun pagecache_find_in :: "('d, 't) vfs \<Rightarrow> iref \<Rightarrow> u64 \<Rightarrow> nat list \<Rightarrow> nat option" where
  "pagecache_find_in s r off [] = None"
| "pagecache_find_in s r off (i # is) =
     (let e = pagecache s ! i in
      if pc_used e \<and> pagecache_inode_same s (pc_inode e) (Some r) \<and> pc_file_off e = off then Some i
      else pagecache_find_in s r off is)"

definition pagecache_find :: "('d, 't) vfs \<Rightarrow> iref \<Rightarrow> u64 \<Rightarrow> nat option" where
  "pagecache_find s r off = pagecache_find_in s r off [0..<length (pagecache s)]"

definition pagecache_entry_max_bytes :: "('d, 't) vfs \<Rightarrow> pc_entry \<Rightarrow> nat" where
  "pagecache_entry_max_bytes s e =
     (case pc_inode e of
        None \<Rightarrow> 0
      | Some r \<Rightarrow>
          if \<not> pc_used e \<or> i_size (node s r) \<le> pc_file_off e then 0
          else min (unat (i_size (node s r) - pc_file_off e)) PAGE_BYTES)"

definition pagecache_has_free_slot :: "('d, 't) vfs \<Rightarrow> bool" where
  "pagecache_has_free_slot s \<longleftrightarrow> (\<exists>e \<in> set (pagecache s). \<not> pc_used e)"

definition pagecache_dirty_count :: "('d, 't) vfs \<Rightarrow> nat" where
  "pagecache_dirty_count s = length (filter (\<lambda>e. pc_used e \<and> pc_dirty e) (pagecache s))"

text \<open>An end that wraps around is taken as the largest offset; a length of 0 stands for everything from \<open>start\<close> on.\<close>

definition sat_add :: "u64 \<Rightarrow> u64 \<Rightarrow> u64" where "sat_add a b = (if a + b < a then - 1 else a + b)"

definition pagecache_range_overlaps :: "pc_entry \<Rightarrow> u64 \<Rightarrow> u64 \<Rightarrow> bool" where
  "pagecache_range_overlaps e start len =
     (if \<not> pc_used e then False
      else if len = 0 then pc_file_off e \<ge> start
      else \<not> (sat_add (pc_file_off e) PAGE_SIZE \<le> start \<or> pc_file_off e \<ge> sat_add start len))"

definition pagecache_writeback_blocked :: "('d, 't) vfs \<Rightarrow> bool" where
  "pagecache_writeback_blocked s \<longleftrightarrow> pc_fail_streak s \<noteq> 0 \<and> pc_last_tick s < pc_blocked_until s"

definition pagecache_note_writeback_result :: "bool \<Rightarrow> ('d, 't) vfs \<Rightarrow> ('d, 't) vfs" where
  "pagecache_note_writeback_result success s =
     (if success then s\<lparr>pc_fail_streak := 0, pc_blocked_until := 0\<rparr>
      else
        let streak = (if pc_fail_streak s < 255 then pc_fail_streak s + 1 else pc_fail_streak s);
            backoff = 8 * ucast streak; backoff = (if backoff < 8 then - 1 else backoff)
        in s\<lparr>pc_fail_streak := streak, pc_blocked_until := sat_add (pc_last_tick s) backoff\<rparr>)"

section \<open>Dropping pages\<close>

definition pc_drop :: "nat \<Rightarrow> ('d, 't) vfs \<Rightarrow> ('d, 't) vfs" where \<comment> \<open>pmm_free_page(e->pa); memset(e, 0, sizeof(*e))\<close>
  "pc_drop i s = upd_pc i (\<lambda>_. pc_zero) (upd_pm (pmm_free_page (pc_pa (pagecache s ! i))) s)"

definition pc_pinned :: "('d, 't) vfs \<Rightarrow> pc_entry \<Rightarrow> bool" where
  "pc_pinned s e \<longleftrightarrow> pmm_page_refcount (pc_pa e) (pm s) > 1"

text \<open>The loops over the table, one entry at a time, in the order of the code.\<close>

definition inval_entry :: "iref \<Rightarrow> nat \<Rightarrow> ('d, 't) vfs \<Rightarrow> ('d, 't) vfs" where
  "inval_entry r i s =
     (let e = pagecache s ! i in
      if \<not> pc_used e \<or> \<not> pagecache_inode_same s (pc_inode e) (Some r) then s
      else if pc_pinned s e then
        (if i_size (node s r) \<le> pc_file_off e then upd_pc i (\<lambda>e. e\<lparr>pc_dirty := False\<rparr>) s else s)
      else pc_drop i s)"

definition pagecache_invalidate_inode :: "iref \<Rightarrow> ('d, 't) vfs \<Rightarrow> ('d, 't) vfs" where
  "pagecache_invalidate_inode r s = fold (inval_entry r) [0..<length (pagecache s)] s"

definition inval_range_entry :: "iref \<Rightarrow> u64 \<Rightarrow> u64 \<Rightarrow> nat \<Rightarrow> bool \<times> ('d, 't) vfs \<Rightarrow> bool \<times> ('d, 't) vfs" where
  "inval_range_entry r start len i bs =
     (case bs of (busy, s) \<Rightarrow>
      let e = pagecache s ! i in
      if \<not> pc_used e \<or> \<not> pagecache_inode_same s (pc_inode e) (Some r) then (busy, s)
      else if \<not> pagecache_range_overlaps e start len then (busy, s)
      else if pc_pinned s e then (True, s)
      else (busy, pc_drop i s))"

definition pagecache_invalidate_inode_range :: "iref \<Rightarrow> u64 \<Rightarrow> u64 \<Rightarrow> ('d, 't, unit) vop" where
  "pagecache_invalidate_inode_range r start len s =
     (case fold (inval_range_entry r start len) [0..<length (pagecache s)] (False, s) of
        (busy, s') \<Rightarrow> (if busy then None else Some (), s'))"

definition inval_ext4_entry :: "nat \<Rightarrow> ('d, 't) vfs \<Rightarrow> ('d, 't) vfs" where
  "inval_ext4_entry i s =
     (let e = pagecache s ! i in
      case pc_inode e of
        None \<Rightarrow> s
      | Some r \<Rightarrow> if \<not> pc_used e \<or> i_fs_kind (node s r) \<noteq> FS_KIND_EXT4 then s else pc_drop i s)"

definition pagecache_invalidate_ext4_all :: "('d, 't) vfs \<Rightarrow> ('d, 't) vfs" where
  "pagecache_invalidate_ext4_all s = fold inval_ext4_entry [0..<length (pagecache s)] s"

definition pagecache_zero_tail :: "nat \<Rightarrow> nat \<Rightarrow> ('d, 't) vfs \<Rightarrow> ('d, 't) vfs" where
  "pagecache_zero_tail i keep s =
     (let e = pagecache s ! i in
      if \<not> pc_used e \<or> keep \<ge> PAGE_BYTES then s
      else pagecache_touch_tick i (upd_pc i (\<lambda>e. e\<lparr>pc_dirty := False\<rparr>)
             (mem_put (pc_pa e + of_nat keep) (replicate (PAGE_BYTES - keep) 0) s)))"

definition truncate_entry :: "iref \<Rightarrow> u64 \<Rightarrow> nat \<Rightarrow> ('d, 't) vfs \<Rightarrow> ('d, 't) vfs" where
  "truncate_entry r eof i s =
     (let e = pagecache s ! i; eof_page = eof AND NOT (PAGE_SIZE - 1) in
      if \<not> pc_used e \<or> \<not> pagecache_inode_same s (pc_inode e) (Some r) then s
      else if pc_file_off e \<ge> eof then
        (if pc_pinned s e then
           pagecache_touch_tick i (upd_pc i (\<lambda>e. e\<lparr>pc_dirty := False\<rparr>) (mem_put (pc_pa e) (replicate PAGE_BYTES 0) s))
         else pc_drop i s)
      else if pc_file_off e = eof_page \<and> eof AND (PAGE_SIZE - 1) \<noteq> 0 then pagecache_zero_tail i (unat (eof - eof_page)) s
      else s)"

definition pagecache_truncate_inode :: "iref \<Rightarrow> u64 \<Rightarrow> ('d, 't) vfs \<Rightarrow> ('d, 't) vfs" where
  "pagecache_truncate_inode r new_size s =
     (if \<not> pagecache_inode_supported (node s r) then s
      else fold (truncate_entry r new_size) [0..<length (pagecache s)] s)"

end
