(* ===== verification/Ext4Node.thy ===== *)
theory Ext4Node
  imports Inodes
begin

text \<open>
  Inodes of the ext4 driver in the file layer, \<^verbatim>\<open>src/kernel/ext4.c\<close>: the inode cache, path names, looking up a name in a
  directory with and without following symbolic links, and reading. A function that returns an inode or null is an
  operation that fails for null; \<^verbatim>\<open>-1\<close> is failure as well. \<open>lk\<close> is \<^verbatim>\<open>fs_lookup\<close> of \<^verbatim>\<open>src/kernel/fs.c\<close>, which calls back into this file.
\<close>

section \<open>The inode cache\<close>

definition is_ext4 :: "inode \<Rightarrow> bool" where "is_ext4 n \<longleftrightarrow> i_fs_kind n = FS_KIND_EXT4"

definition e4_mounted :: "('d, 't) vfs \<Rightarrow> bool" where "e4_mounted s \<longleftrightarrow> mounted (fs (e4 s))"
definition e4_writable :: "('d, 't) vfs \<Rightarrow> bool" where "e4_writable s \<longleftrightarrow> e4_mounted s \<and> write_enabled (fs (e4 s))"

definition ext4_meta_for_inode :: "('d, 't) vfs \<Rightarrow> iref \<Rightarrow> mref option" where
  "ext4_meta_for_inode s r =
     (if \<not> e4_mounted s \<or> \<not> is_ext4 (node s r) then None
      else if Some r = x_mountpoint s then Some RootMeta
      else case r of
        Cached i \<Rightarrow> if i < length (x_metas s) \<and> m_valid (x_metas s ! i) then Some (CacheMeta i) else None
      | Pool i \<Rightarrow> None)"

definition ext4_mode_to_inode_type :: "u16 \<Rightarrow> inode_type" where
  "ext4_mode_to_inode_type mode =
     (if ext4_is_dir_mode mode then INODE_DIR
      else if ext4_is_reg_mode mode \<or> ext4_is_lnk_mode mode then INODE_FILE
      else INODE_DEV)"

definition cache_index :: "(ext4_meta \<Rightarrow> bool) \<Rightarrow> ('d, 't) vfs \<Rightarrow> nat option" where \<comment> \<open>the first entry with a property\<close>
  "cache_index P s = find (\<lambda>i. P (x_metas s ! i)) [0..<length (x_metas s)]"

definition cache_inode :: "('d, 't) vfs \<Rightarrow> u32 \<Rightarrow> ext4_meta \<Rightarrow> iref \<Rightarrow> u8 list \<Rightarrow> inode" where
  "cache_inode s ino m parent name = inode_zero\<lparr>i_name := name_of name, i_type := ext4_mode_to_inode_type (m_mode m),
     i_fs_kind := FS_KIND_EXT4, i_fs_id := x_instance_id s, i_fs_ino := ino, i_parent := Some parent,
     i_writable := write_enabled (fs (e4 s)) \<and> ext4_is_reg_mode (m_mode m) \<and> m_mode m AND 0x92 \<noteq> 0,
     i_executable := ext4_is_reg_mode (m_mode m) \<and> m_mode m AND 0x49 \<noteq> 0, i_size := m_size m\<rparr>"

definition ext4_cache_get :: "('d, 't) env \<Rightarrow> u32 \<Rightarrow> iref \<Rightarrow> u8 list \<Rightarrow> ('d, 't, iref) vop" where
  "ext4_cache_get E ino parent name =
     seq (gets (cache_index (\<lambda>m. m_valid m \<and> m_ino m = ino))) (\<lambda>hit.
       case hit of
         Some i \<Rightarrow>
           seq (modify (\<lambda>s. upd_node (Cached i) (\<lambda>n. n\<lparr>i_parent := Some parent, i_name := name_of name, i_fs_id := x_instance_id s\<rparr>) s)) (\<lambda>_.
           ret (Cached i))
       | None \<Rightarrow>
           seq (gets (cache_index (\<lambda>m. \<not> m_valid m))) (\<lambda>slot.
             case slot of
               None \<Rightarrow> fail
             | Some i \<Rightarrow>
                 seq (e4op (ext4_load_meta (drv E) ino)) (\<lambda>m.
                 seq (modify (\<lambda>s. upd_meta (CacheMeta i) (\<lambda>_. m) (upd_node (Cached i) (\<lambda>_. cache_inode s ino m parent name) s))) (\<lambda>_.
                 ret (Cached i)))))"

definition inval_ino_entry :: "u32 \<Rightarrow> nat \<Rightarrow> ('d, 't) vfs \<Rightarrow> ('d, 't) vfs" where
  "inval_ino_entry ino i s =
     (if \<not> m_valid (x_metas s ! i) \<or> m_ino (x_metas s ! i) \<noteq> ino then s
      else upd_node (Cached i) (\<lambda>_. inode_zero) (upd_meta (CacheMeta i) (\<lambda>_. meta_zero) (pagecache_invalidate_inode (Cached i) s)))"

definition ext4_cache_invalidate_ino :: "u32 \<Rightarrow> ('d, 't) vfs \<Rightarrow> ('d, 't) vfs" where
  "ext4_cache_invalidate_ino ino s = fold (inval_ino_entry ino) [0..<length (x_metas s)] s"

text \<open>\<open>ext4_meta_for_inode\<close>, with failure for null; and with the inode loaded into the local copy for null.\<close>

definition meta_for :: "iref \<Rightarrow> ('d, 't, mref) vop" where
  "meta_for r s = (ext4_meta_for_inode s r, s)"

definition meta_or_load :: "('d, 't) env \<Rightarrow> iref \<Rightarrow> ('d, 't, mref) vop" where
  "meta_or_load E r =
     seq (attempt (meta_for r)) (\<lambda>mr.
       case mr of
         Some m \<Rightarrow> ret m
       | None \<Rightarrow>
           seq (gets (\<lambda>s. i_fs_ino (node s r))) (\<lambda>ino.
           seq (e4op (ext4_load_meta (drv E) ino)) (\<lambda>m.
           seq (modify (upd_meta LocalMeta (\<lambda>_. m))) (\<lambda>_. ret LocalMeta))))"

section \<open>Path names\<close>

abbreviation (input) SLASH :: u8 where "SLASH \<equiv> 47"

text \<open>The components of a path: each is cut to 31 bytes, slashes between them are skipped.\<close>

function path_comps :: "u8 list \<Rightarrow> u8 list list" where
  "path_comps p =
     (if p = [] then []
      else name_of (takeWhile (\<lambda>c. c \<noteq> SLASH) p)
             # path_comps (dropWhile (\<lambda>c. c = SLASH) (dropWhile (\<lambda>c. c \<noteq> SLASH) p)))"
  by pat_completeness auto
termination
proof (relation "measure length")
  fix p :: "u8 list"
  assume "p \<noteq> []"
  then obtain c cs where p: "p = c # cs" by (cases p) auto
  have "length (dropWhile P xs) \<le> length xs" for P and xs :: "u8 list" by (rule length_dropWhile_le)
  then have "length (dropWhile (\<lambda>c. c = SLASH) (dropWhile (\<lambda>c. c \<noteq> SLASH) cs)) \<le> length cs"
    "length (dropWhile (\<lambda>c. c = SLASH) cs) \<le> length cs" by (meson le_trans)+
  then show "(dropWhile (\<lambda>c. c = SLASH) (dropWhile (\<lambda>c. c \<noteq> SLASH) p), p) \<in> measure length" by (simp add: p)
qed simp

declare path_comps.simps [simp del]

fun norm_comps :: "u8 list list \<Rightarrow> u8 list list \<Rightarrow> u8 list list option" where \<comment> \<open>the stack \<open>comps\<close>, at most 16 of them\<close>
  "norm_comps [] st = Some st"
| "norm_comps (c # cs) st =
     (if c = [] \<or> c = [46] then norm_comps cs st
      else if c = [46, 46] then norm_comps cs (butlast st)
      else if length st \<ge> 16 then None
      else norm_comps cs (st @ [c]))"

fun join_path :: "nat \<Rightarrow> u8 list \<Rightarrow> u8 list list \<Rightarrow> u8 list option" where
  "join_path outsz out [] = Some out"
| "join_path outsz out (c # cs) =
     (if length out + length c + 1 \<ge> outsz then None
      else join_path outsz (out @ (if length out > 1 then [SLASH] else []) @ c) cs)"

definition ext4_normalize_abs_path :: "u8 list \<Rightarrow> nat \<Rightarrow> u8 list option" where
  "ext4_normalize_abs_path p outsz =
     (if p = [] \<or> hd p \<noteq> SLASH \<or> outsz < 2 then None
      else case norm_comps (path_comps (dropWhile (\<lambda>c. c = SLASH) p)) [] of
        None \<Rightarrow> None
      | Some comps \<Rightarrow> join_path outsz [SLASH] comps)"

primrec path_stack :: "('d, 't) vfs \<Rightarrow> nat \<Rightarrow> iref \<Rightarrow> iref list" where \<comment> \<open>\<open>stack\<close>, at most 16 inodes below the root\<close>
  "path_stack s 0 r = []"
| "path_stack s (Suc n) r = (case i_parent (node s r) of None \<Rightarrow> [] | Some p \<Rightarrow> r # path_stack s n p)"

fun join_names :: "nat \<Rightarrow> u8 list \<Rightarrow> u8 list list \<Rightarrow> u8 list option" where
  "join_names outsz out [] = Some out"
| "join_names outsz out (c # cs) =
     (if c = [] then join_names outsz out cs
      else if length out > 1 \<and> length out + 1 \<ge> outsz then None
      else
        let out = out @ (if length out > 1 then [SLASH] else []) in
        if length out + length c \<ge> outsz then None else join_names outsz (out @ c) cs)"

definition ext4_inode_abs_path :: "('d, 't) vfs \<Rightarrow> iref \<Rightarrow> nat \<Rightarrow> u8 list option" where
  "ext4_inode_abs_path s r outsz =
     (if outsz < 2 then None
      else join_names outsz [SLASH] (map (\<lambda>r. i_name (node s r)) (rev (path_stack s 16 r))))"

definition of_opt :: "'a option \<Rightarrow> ('s, 'a) op" where
  "of_opt x s = (x, s)"

text \<open>The path a symbolic link in the directory \<open>dir\<close> stands for.\<close>

definition link_path :: "('d, 't) vfs \<Rightarrow> iref \<Rightarrow> u8 list \<Rightarrow> u8 list option" where
  "link_path s dir target =
     (if target \<noteq> [] \<and> hd target = SLASH then ext4_normalize_abs_path target MAX_PATH
      else case ext4_inode_abs_path s dir MAX_PATH of
        None \<Rightarrow> None
      | Some base \<Rightarrow>
          if length base + 1 \<ge> MAX_PATH then None
          else
            let joined = (if last base \<noteq> SLASH then base @ [SLASH] else base) in
            if length joined + length target \<ge> MAX_PATH then None
            else ext4_normalize_abs_path (joined @ target) MAX_PATH)"

definition ext4_resolve_symlink :: "('d, 't) env \<Rightarrow> (u8 list \<Rightarrow> ('d, 't, iref) vop) \<Rightarrow> iref \<Rightarrow> ext4_meta \<Rightarrow> ('d, 't, iref) vop" where
  "ext4_resolve_symlink E lk dir m =
     seq (e4op (ext4_read_symlink_target (drv E) m MAX_PATH)) (\<lambda>target.
     seq (gets (\<lambda>s. link_path s dir (cstr target))) (\<lambda>p.
     seq (of_opt p) (\<lambda>path. lk path)))"

section \<open>Looking up a name\<close>

text \<open>The inode number of the first entry with a name. A record has at least 8 bytes, so the size of the directory
  bounds the number of rounds.\<close>

fun find_child :: "'d blkdrv \<Rightarrow> ext4_meta \<Rightarrow> u8 list \<Rightarrow> nat \<Rightarrow> u64 \<Rightarrow> ('d ext4, u32) op" where
  "find_child D m name 0 off s = (None, s)"
| "find_child D m name (Suc fuel) off s =
     (case ext4_dir_iter D m off s of
        ((Entry ino nm ftype, off'), s1) \<Rightarrow> if nm = name then (Some ino, s1) else find_child D m name fuel off' s1
      | ((IterEnd, off'), s1) \<Rightarrow> (None, s1)
      | ((IterErr, off'), s1) \<Rightarrow> (None, s1))"

definition ext4_lookup_child_internal ::
    "('d, 't) env \<Rightarrow> (u8 list \<Rightarrow> ('d, 't, iref) vop) \<Rightarrow> iref \<Rightarrow> u8 list \<Rightarrow> bool \<Rightarrow> ('d, 't, iref) vop" where
  "ext4_lookup_child_internal E lk dir name follow =
     seq (require (\<lambda>s. \<not> (\<not> e4_mounted s \<or> \<not> is_ext4 (node s dir) \<or> i_type (node s dir) \<noteq> INODE_DIR))) (\<lambda>_.
     seq (meta_for dir) (\<lambda>mr.
     seq (gets (\<lambda>s. meta s mr)) (\<lambda>dm.
     seq (e4op (find_child (drv E) dm name (unat (m_size dm) div 8 + 1) 0)) (\<lambda>child_ino.
     seq (ext4_cache_get E child_ino dir name) (\<lambda>child.
       if \<not> follow then ret child
       else
         seq (attempt (meta_for child)) (\<lambda>cr.
           case cr of
             None \<Rightarrow> ret child
           | Some cr \<Rightarrow>
               seq (gets (\<lambda>s. meta s cr)) (\<lambda>cm.
                 if \<not> ext4_is_lnk_mode (m_mode cm) then ret child
                 else
                   seq (require (\<lambda>s. \<not> x_symlink_depth s \<ge> 8)) (\<lambda>_. \<comment> \<open>EXT4_SYMLINK_MAX_DEPTH\<close>
                   seq (modify (\<lambda>s. s\<lparr>x_symlink_depth := x_symlink_depth s + 1\<rparr>)) (\<lambda>_.
                   seq (attempt (ext4_resolve_symlink E lk dir cm)) (\<lambda>resolved.
                   seq (modify (\<lambda>s. s\<lparr>x_symlink_depth := x_symlink_depth s - 1\<rparr>)) (\<lambda>_.
                   of_opt resolved)))))))))))"

definition ext4_lookup_child :: "('d, 't) env \<Rightarrow> (u8 list \<Rightarrow> ('d, 't, iref) vop) \<Rightarrow> iref \<Rightarrow> u8 list \<Rightarrow> ('d, 't, iref) vop" where
  "ext4_lookup_child E lk dir name = ext4_lookup_child_internal E lk dir name True"

definition ext4_lookup_child_nofollow :: "('d, 't) env \<Rightarrow> iref \<Rightarrow> u8 list \<Rightarrow> ('d, 't, iref) vop" where
  "ext4_lookup_child_nofollow E dir name = ext4_lookup_child_internal E (\<lambda>_. fail) dir name False"

section \<open>Reading\<close>

definition type_code :: "inode_type \<Rightarrow> u32" where
  "type_code t = (case t of INODE_FREE \<Rightarrow> 0 | INODE_DIR \<Rightarrow> 1 | INODE_FILE \<Rightarrow> 2 | INODE_DEV \<Rightarrow> 3)"

definition dirent_bytes :: "u8 list \<Rightarrow> u32 \<Rightarrow> u8 list" where \<comment> \<open>dirent_t: 32 bytes of name, the type\<close>
  "dirent_bytes name t = name_of name @ replicate (32 - length (name_of name)) 0 @ le32 t"

text \<open>The bytes copied to \<open>buf\<close> and the new offset; the count is the number of bytes.\<close>

definition ext4_read :: "('d, 't) env \<Rightarrow> iref \<Rightarrow> u64 \<Rightarrow> nat \<Rightarrow> ('d, 't, u8 list \<times> u64) vop" where
  "ext4_read E r offset len =
     seq (require (\<lambda>s. \<not> (\<not> is_ext4 (node s r) \<or> \<not> e4_mounted s))) (\<lambda>_.
     seq (meta_for r) (\<lambda>mr.
     seq (gets (\<lambda>s. (meta s mr, i_type (node s r)))) (\<lambda>(m, t).
       if t = INODE_DIR then
         seq (check (\<not> len < 36)) (\<lambda>_ s.
           case ext4_dir_iter (drv E) m offset (e4 s) of
             ((IterEnd, _), x) \<Rightarrow> (Some ([], offset), s\<lparr>e4 := x\<rparr>)
           | ((IterErr, _), x) \<Rightarrow> (None, s\<lparr>e4 := x\<rparr>)
           | ((Entry ino name ftype, off), x) \<Rightarrow>
               if ftype = 2 then (Some (dirent_bytes name 1, off), s\<lparr>e4 := x\<rparr>)
               else if ftype = 1 \<or> ftype = 7 then (Some (dirent_bytes name 2, off), s\<lparr>e4 := x\<rparr>)
               else
                 seq (attempt (ext4_cache_get E ino r name)) (\<lambda>child.
                 seq (gets (\<lambda>s. case child of None \<Rightarrow> 2 | Some c \<Rightarrow> type_code (i_type (node s c)))) (\<lambda>t.
                 ret (dirent_bytes name t, off))) (s\<lparr>e4 := x\<rparr>))
       else if t \<noteq> INODE_FILE then ret ([], offset)
       else
         seq (e4op (ext4_read_file_at (drv E) m offset len)) (\<lambda>b. ret (b, offset + of_nat (length b))))))"

definition ext4_readlink :: "('d, 't) env \<Rightarrow> iref \<Rightarrow> nat \<Rightarrow> ('d, 't, u8 list) vop" where
  "ext4_readlink E r buflen =
     seq (require (\<lambda>s. \<not> (\<not> is_ext4 (node s r) \<or> \<not> e4_mounted s \<or> i_type (node s r) \<noteq> INODE_FILE))) (\<lambda>_.
     seq (meta_or_load E r) (\<lambda>mr.
     seq (gets (\<lambda>s. meta s mr)) (\<lambda>m.
     seq (check (ext4_is_lnk_mode (m_mode m))) (\<lambda>_.
       let copy_len = min (unat (m_size m)) buflen in
       if copy_len = 0 then ret []
       else if ext4_is_inline_symlink m then ret (take copy_len (root_bytes m))
       else
         seq (e4op (ext4_read_file_at (drv E) m 0 copy_len)) (\<lambda>b.
         seq (check (length b = copy_len)) (\<lambda>_. ret b))))))"

record fu_stat =
  st_type :: u32
  st_mode :: u32
  st_size :: u64
  st_nlink :: u32
  st_fs_kind :: u32

definition ext4_lstat :: "('d, 't) env \<Rightarrow> iref \<Rightarrow> ('d, 't, fu_stat) vop" where
  "ext4_lstat E r =
     seq (require (\<lambda>s. \<not> (\<not> is_ext4 (node s r) \<or> \<not> e4_mounted s))) (\<lambda>_.
     seq (meta_or_load E r) (\<lambda>mr.
     seq (gets (\<lambda>s. meta s mr)) (\<lambda>m.
     ret \<lparr>st_type = type_code (ext4_mode_to_inode_type (m_mode m)), st_mode = ucast (m_mode m), st_size = m_size m,
       st_nlink = ucast (m_links m), st_fs_kind = 1\<rparr>)))"

end
