(* ===== verification/Ext4Ops.thy ===== *)
theory Ext4Ops
  imports Ext4Node
begin

text \<open>
  The operations of the ext4 driver that change a file system, \<^verbatim>\<open>src/kernel/ext4.c\<close>: writing and truncating files,
  creating, linking, renaming and removing entries, changing modes, mounting and unmounting. Each is the whole
  function; a cleanup call whose result the code drops is \<open>undo\<close>.
\<close>

section \<open>Cleaning up\<close>

definition undo :: "('s, unit) op list \<Rightarrow> ('s, 'a) op \<Rightarrow> ('s, 'a) op" where
  "undo us m = on_fail (\<lambda>s. fold (\<lambda>u s. snd (u s)) us s) m"

definition free_blk :: "('d, 't) env \<Rightarrow> u64 \<Rightarrow> ('d, 't, unit) vop" where "free_blk E b = e4op (ext4_free_block (drv E) b)"
definition free_ino :: "('d, 't) env \<Rightarrow> u32 \<Rightarrow> ('d, 't, unit) vop" where "free_ino E i = e4op (ext4_free_inode_bit (drv E) i)"

definition store_meta :: "('d, 't) env \<Rightarrow> mref \<Rightarrow> ('d, 't, unit) vop" where \<comment> \<open>ext4_inode_store(m)\<close>
  "store_meta E mr s = e4op (ext4_inode_store (drv E) (meta s mr)) s"

definition meta_pre :: "mref \<Rightarrow> (ext4_meta \<Rightarrow> bool) \<Rightarrow> ('d, 't, unit) vop" where
  "meta_pre mr P = require (\<lambda>s. P (meta s mr))"

definition node_pre :: "iref \<Rightarrow> (inode \<Rightarrow> bool) \<Rightarrow> ('d, 't, unit) vop" where
  "node_pre r P = require (\<lambda>s. P (node s r))"

section \<open>Writing\<close>

text \<open>One round of the loop of \<^verbatim>\<open>ext4_write\<close>: the bytes of one block at the offset \<open>cur\<close>; the result is how many.\<close>

definition write_chunk :: "('d, 't) env \<Rightarrow> mref \<Rightarrow> bool \<Rightarrow> u64 \<Rightarrow> u8 list \<Rightarrow> ('d, 't, nat) vop" where
  "write_chunk E mr use_extents cur src =
     seq (gets (\<lambda>s. block_size (fs (e4 s)))) (\<lambda>bs.
     seq (check (bs \<noteq> 0)) (\<lambda>_. \<comment> \<open>a mounted file system has a block size\<close>
     let lblock = ucast (cur div ucast bs) :: u32; in_block = unat (cur mod ucast bs);
         chunk = min (unat bs - in_block) (length src); b = take chunk src in
     seq (gets (\<lambda>s. meta s mr)) (\<lambda>m.
     seq (e4op (if use_extents then ext4_map_file_block (drv E) m lblock else ext4_map_block_direct (drv E) m lblock)) (\<lambda>mapped.
     seq (if mapped = 0 then e4op (ext4_alloc_block (drv E)) else ret mapped) (\<lambda>pblock.
     let fresh = (mapped = 0); giving_back = (\<lambda>f. if fresh then undo [free_blk E pblock] f else f) in
     seq (if chunk = unat bs \<and> in_block = 0 then giving_back (e4op (ext4_write_block (drv E) pblock b))
          else
            seq (if fresh then ret (replicate (unat bs) 0) else e4op (ext4_read_block (drv E) pblock)) (\<lambda>blk.
            giving_back (e4op (ext4_write_block (drv E) pblock (put_at in_block b blk))))) (\<lambda>_.
     seq (if fresh then
            undo [free_blk E pblock] (
              seq (e4op (ext4_ordered_checkpoint (drv E))) (\<lambda>_.
              metaop mr (if use_extents then ext4_extent_assign_block (drv E) lblock pblock
                         else ext4_set_block_direct (drv E) lblock pblock)))
          else ret ()) (\<lambda>_.
     ret chunk)))))))"

text \<open>A round that fails ends the loop. Each round writes at least one byte, so \<open>length src\<close> rounds are enough.\<close>

primrec write_loop :: "('d, 't) env \<Rightarrow> mref \<Rightarrow> bool \<Rightarrow> nat \<Rightarrow> u64 \<Rightarrow> u8 list \<Rightarrow> nat \<Rightarrow> ('d, 't, nat) vop" where
  "write_loop E mr ext 0 cur src done = ret done"
| "write_loop E mr ext (Suc fuel) cur src done =
     (if src = [] then ret done
      else
        seq (attempt (write_chunk E mr ext cur src)) (\<lambda>r.
          case r of
            None \<Rightarrow> ret done
          | Some n \<Rightarrow> write_loop E mr ext fuel (cur + of_nat n) (drop n src) (done + n)))"

definition sectors_of :: "u64 \<Rightarrow> u32" where "sectors_of sz = ucast ((sz + 511) div 512 AND 0xFFFFFFFF)"

text \<open>The result is the number of bytes written; \<^verbatim>\<open>*offset\<close> advances by it.\<close>

definition ext4_write :: "('d, 't) env \<Rightarrow> iref \<Rightarrow> u64 \<Rightarrow> u8 list \<Rightarrow> ('d, 't, nat) vop" where
  "ext4_write E r offset buf =
     seq (require (\<lambda>s. \<not> (buf = [] \<or> \<not> e4_writable s \<or> \<not> is_ext4 (node s r) \<or> i_type (node s r) \<noteq> INODE_FILE
            \<or> \<not> i_writable (node s r)))) (\<lambda>_.
     seq (meta_for r) (\<lambda>mr.
     seq (meta_pre mr (\<lambda>m. ext4_is_reg_mode (m_mode m))) (\<lambda>_.
     seq (modify (\<lambda>s. upd_meta mr (\<lambda>m. m\<lparr>m_size := max (i_size (node s r)) (m_size m)\<rparr>) s)) (\<lambda>_.
     seq (gets (\<lambda>s. uses_extents (meta s mr))) (\<lambda>ext.
     seq (if ext then ret () else metaop mr (ext4_prepare_writable_nonextent (drv E))) (\<lambda>_.
     seq (write_loop E mr ext (length buf) offset buf 0) (\<lambda>done.
     seq (check (done \<noteq> 0)) (\<lambda>_.
     seq (modify (upd_meta mr (\<lambda>m. let sz = max (offset + of_nat done) (m_size m) in m\<lparr>m_size := sz, m_blocks_lo := sectors_of sz\<rparr>))) (\<lambda>_.
     seq (e4op (ext4_ordered_checkpoint (drv E))) (\<lambda>_.
     seq (store_meta E mr) (\<lambda>_.
     seq (modify (\<lambda>s. upd_node r (\<lambda>n. n\<lparr>i_size := m_size (meta s mr)\<rparr>) s)) (\<lambda>_.
     seq (e4op (ext4_ordered_checkpoint (drv E))) (\<lambda>_.
     ret done)))))))))))))"

section \<open>Creating\<close>

definition new_meta :: "u32 \<Rightarrow> u16 \<Rightarrow> u16 \<Rightarrow> ext4_meta" where
  "new_meta ino mode links = meta_zero\<lparr>m_valid := True, m_ino := ino, m_mode := mode, m_links := links\<rparr>"

definition dir_pre :: "iref \<Rightarrow> u8 list \<Rightarrow> ('d, 't, unit) vop" where \<comment> \<open>the checks on a directory and a new name in it\<close>
  "dir_pre parent name = require (\<lambda>s. \<not> (\<not> e4_writable s \<or> \<not> is_ext4 (node s parent) \<or> i_type (node s parent) \<noteq> INODE_DIR)
     \<and> \<not> (name = [] \<or> SLASH \<in> set name))"

definition drop_name :: "('d, 't) env \<Rightarrow> mref \<Rightarrow> u8 list \<Rightarrow> ('d, 't, u32 \<times> u8) vop" where
  "drop_name E pr name = seq (gets (\<lambda>s. meta s pr)) (\<lambda>pm. e4op (ext4_dir_remove_entry (drv E) pm name))"

definition add_name :: "('d, 't) env \<Rightarrow> mref \<Rightarrow> u8 list \<Rightarrow> u32 \<Rightarrow> u8 \<Rightarrow> ('d, 't, unit) vop" where
  "add_name E pr name ino ft = seq (gets (\<lambda>s. meta s pr)) (\<lambda>pm. e4op (ext4_dir_add_entry (drv E) pm name ino ft))"

definition unit_op :: "('s, 'a) op \<Rightarrow> ('s, unit) op" where "unit_op m = seq m (\<lambda>_. ret ())"

definition not_there :: "('d, 't, 'a) vop \<Rightarrow> ('d, 't, unit) vop" where \<comment> \<open>\<^verbatim>\<open>if (lookup) return 0;\<close>\<close>
  "not_there m = seq (attempt m) (\<lambda>r. check (r = None))"

definition ext4_create_file :: "('d, 't) env \<Rightarrow> iref \<Rightarrow> u8 list \<Rightarrow> ('d, 't, iref) vop" where
  "ext4_create_file E parent name =
     seq (dir_pre parent name) (\<lambda>_.
     seq (not_there (ext4_lookup_child_nofollow E parent name)) (\<lambda>_.
     seq (meta_for parent) (\<lambda>pr.
     seq (meta_pre pr (\<lambda>m. ext4_is_dir_mode (m_mode m))) (\<lambda>_.
     seq (e4op (ext4_alloc_inode (drv E))) (\<lambda>ino.
     seq (e4op (ext4_inode_store (drv E) (new_meta ino 0x81A4 1))) (\<lambda>_.
     seq (gets (\<lambda>s. meta s pr)) (\<lambda>pm.
     seq (e4op (ext4_dir_add_entry (drv E) pm name ino 1)) (\<lambda>_.
     seq (e4op (e4_flush (drv E))) (\<lambda>_.
     seq (ext4_cache_get E ino parent name) (\<lambda>n.
     seq (modify (upd_node n (\<lambda>x. x\<lparr>i_writable := True, i_size := 0\<rparr>))) (\<lambda>_.
     ret n)))))))))))"

text \<open>The first block of a new directory: the entries \<^verbatim>\<open>.\<close> and \<^verbatim>\<open>..\<close>.\<close>

definition dir_block :: "ext4_fs \<Rightarrow> u32 \<Rightarrow> u32 \<Rightarrow> u8 list" where
  "dir_block f ino parent_ino =
     (let bs = unat (block_size f); dot = rec_need 1; ft = (if has_filetype f then 2 else 0)
      in put_entry dot parent_ino (unat (block_size f - of_nat dot)) [46, 46] ft (put_entry 0 ino dot [46] ft (replicate bs 0)))"

definition ext4_create_dir :: "('d, 't) env \<Rightarrow> iref \<Rightarrow> u8 list \<Rightarrow> ('d, 't, iref) vop" where
  "ext4_create_dir E parent name =
     seq (dir_pre parent name) (\<lambda>_.
     seq (not_there (ext4_lookup_child_nofollow E parent name)) (\<lambda>_.
     seq (meta_for parent) (\<lambda>pr.
     seq (meta_pre pr (\<lambda>m. ext4_is_dir_mode (m_mode m))) (\<lambda>_.
     seq (e4op (ext4_alloc_inode (drv E))) (\<lambda>ino.
     seq (undo [free_ino E ino] (seq (e4op (ext4_alloc_block (drv E))) (\<lambda>b. seq (check (\<not> b > 0xFFFFFFFF)) (\<lambda>_. ret b)))) (\<lambda>dblk.
     seq (gets (\<lambda>s. fs (e4 s))) (\<lambda>f.
     seq (gets (\<lambda>s. meta s pr)) (\<lambda>pm.
     let giving_back = undo [free_blk E dblk, free_ino E ino];
         nm = (new_meta ino 0x41ED 2)\<lparr>m_size := ucast (block_size f), m_blocks_lo := ucast ((ucast (block_size f) + 511 :: u64) div 512),
                m_block := (replicate 15 0)[0 := ucast dblk]\<rparr> in
     seq (giving_back (e4op (ext4_write_block (drv E) dblk (dir_block f ino (m_ino pm))))) (\<lambda>_.
     seq (giving_back (e4op (ext4_ordered_checkpoint (drv E)))) (\<lambda>_.
     seq (giving_back (e4op (ext4_inode_store (drv E) nm))) (\<lambda>_.
     seq (giving_back (e4op (ext4_dir_add_entry (drv E) pm name ino 2))) (\<lambda>_.
     seq (modify (upd_meta pr (\<lambda>m. m\<lparr>m_links := m_links m + 1\<rparr>))) (\<lambda>_.
     seq (undo [unit_op (drop_name E pr name), free_blk E dblk, free_ino E ino] (store_meta E pr)) (\<lambda>_.
     seq (e4op (e4_flush (drv E))) (\<lambda>_.
     seq (ext4_cache_get E ino parent name) (\<lambda>n.
     seq (modify (upd_node n (\<lambda>x. x\<lparr>i_size := ucast (block_size f)\<rparr>))) (\<lambda>_.
     ret n)))))))))))))))))"

definition ext4_link :: "('d, 't) env \<Rightarrow> iref \<Rightarrow> iref \<Rightarrow> u8 list \<Rightarrow> ('d, 't, unit) vop" where
  "ext4_link E r new_parent new_name =
     seq (require (\<lambda>s. \<not> (\<not> e4_writable s \<or> \<not> is_ext4 (node s r) \<or> \<not> is_ext4 (node s new_parent)
            \<or> i_type (node s r) \<noteq> INODE_FILE \<or> i_type (node s new_parent) \<noteq> INODE_DIR))) (\<lambda>_.
     seq (node_pre r (\<lambda>n. \<not> (i_fs_ino n = 2 \<or> new_name = [] \<or> SLASH \<in> set new_name))) (\<lambda>_.
     seq (check (\<not> length new_name > INODE_NAME_MAX)) (\<lambda>_.
     seq (not_there (ext4_lookup_child_nofollow E new_parent new_name)) (\<lambda>_.
     seq (meta_or_load E r) (\<lambda>ir.
     seq (meta_for new_parent) (\<lambda>pr.
     seq (require (\<lambda>s. ext4_is_dir_mode (m_mode (meta s pr)) \<and> \<not> ext4_is_dir_mode (m_mode (meta s ir)))) (\<lambda>_.
     seq (meta_pre ir (\<lambda>m. m_links m \<noteq> 0xFFFF)) (\<lambda>_.
     seq (gets (\<lambda>s. meta s ir)) (\<lambda>im.
     seq (add_name E pr new_name (m_ino im) (ext4_inode_filetype im)) (\<lambda>_.
     seq (modify (upd_meta ir (\<lambda>m. m\<lparr>m_links := m_links m + 1\<rparr>))) (\<lambda>_.
     seq (undo [unit_op (drop_name E pr new_name)] (store_meta E ir)) (\<lambda>_.
     e4op (e4_flush (drv E))))))))))))))"

text \<open>A target of up to 60 bytes is kept in the inode.\<close>

definition ext4_symlink :: "('d, 't) env \<Rightarrow> iref \<Rightarrow> u8 list \<Rightarrow> u8 list \<Rightarrow> ('d, 't, iref) vop" where
  "ext4_symlink E parent name target =
     seq (dir_pre parent name) (\<lambda>_.
     seq (check (\<not> length name > INODE_NAME_MAX)) (\<lambda>_.
     seq (gets (\<lambda>s. unat (block_size (fs (e4 s))))) (\<lambda>bs.
     seq (check (\<not> (target = [] \<or> length target > bs))) (\<lambda>_.
     seq (not_there (ext4_lookup_child_nofollow E parent name)) (\<lambda>_.
     seq (meta_for parent) (\<lambda>pr.
     seq (meta_pre pr (\<lambda>m. ext4_is_dir_mode (m_mode m))) (\<lambda>_.
     seq (e4op (ext4_alloc_inode (drv E))) (\<lambda>ino.
     let nm0 = (new_meta ino 0xA1FF 1)\<lparr>m_size := of_nat (length target)\<rparr> in
     seq (if length target \<le> 60 then ret (0, nm0\<lparr>m_block := block_words (target @ replicate (60 - length target) 0)\<rparr>)
          else
            seq (undo [free_ino E ino] (seq (e4op (ext4_alloc_block (drv E))) (\<lambda>b. seq (check (\<not> b > 0xFFFFFFFF)) (\<lambda>_. ret b)))) (\<lambda>dblk.
            seq (undo [free_blk E dblk, free_ino E ino] (
              seq (e4op (ext4_write_block (drv E) dblk (target @ replicate (bs - length target) 0))) (\<lambda>_.
              e4op (ext4_ordered_checkpoint (drv E))))) (\<lambda>_.
            ret (dblk, nm0\<lparr>m_block := (replicate 15 0)[0 := ucast dblk], m_blocks_lo := ucast ((of_nat bs + 511 :: u64) div 512)\<rparr>)))) (\<lambda>(dblk, nm).
     let giving_back = (if dblk \<noteq> 0 then [free_blk E dblk, free_ino E ino] else [free_ino E ino]) in
     seq (undo giving_back (e4op (ext4_inode_store (drv E) nm))) (\<lambda>_.
     seq (undo giving_back (add_name E pr name ino 7)) (\<lambda>_.
     seq (undo (unit_op (drop_name E pr name) # giving_back) (e4op (e4_flush (drv E)))) (\<lambda>_.
     seq (ext4_cache_get E ino parent name) (\<lambda>n.
     seq (modify (upd_node n (\<lambda>x. x\<lparr>i_writable := False, i_executable := False, i_size := of_nat (length target)\<rparr>))) (\<lambda>_.
     ret n))))))))))))))"

section \<open>Removing and renaming\<close>

text \<open>An inode without names: its blocks and its number are given back and it leaves the inode cache.\<close>

definition release_inode :: "('d, 't) env \<Rightarrow> iref \<Rightarrow> mref \<Rightarrow> ('d, 't, unit) vop" where
  "release_inode E r mr =
     seq (modify (upd_meta mr (\<lambda>m. m\<lparr>m_mode := 0, m_flags := 0\<rparr>))) (\<lambda>_.
     seq (store_meta E mr) (\<lambda>_.
     seq (gets (\<lambda>s. m_ino (meta s mr))) (\<lambda>ino.
     seq (free_ino E ino) (\<lambda>_.
     modify (\<lambda>s. upd_node r (\<lambda>n. n\<lparr>i_parent := None, i_name := []\<rparr>) (ext4_cache_invalidate_ino ino s))))))"

definition parent_pre :: "iref \<Rightarrow> inode_type \<Rightarrow> ('d, 't, iref) vop" where \<comment> \<open>the checks of unlink and rmdir; the parent\<close>
  "parent_pre r t =
     seq (require (\<lambda>s. \<not> (\<not> e4_writable s \<or> \<not> is_ext4 (node s r) \<or> i_type (node s r) \<noteq> t \<or> i_fs_ino (node s r) = 2))) (\<lambda>_.
     seq (gets (\<lambda>s. i_parent (node s r))) (\<lambda>p.
     seq (of_opt p) (\<lambda>parent.
     seq (node_pre r (\<lambda>n. i_name n \<noteq> [])) (\<lambda>_.
     seq (node_pre parent (\<lambda>p. \<not> (\<not> is_ext4 p \<or> i_type p \<noteq> INODE_DIR))) (\<lambda>_.
     ret parent)))))"

definition ext4_unlink :: "('d, 't) env \<Rightarrow> iref \<Rightarrow> ('d, 't, unit) vop" where
  "ext4_unlink E r =
     seq (parent_pre r INODE_FILE) (\<lambda>parent.
     seq (meta_for parent) (\<lambda>pr.
     seq (meta_pre pr (\<lambda>m. ext4_is_dir_mode (m_mode m))) (\<lambda>_.
     seq (meta_or_load E r) (\<lambda>mr.
     seq (meta_pre mr (\<lambda>m. \<not> ext4_is_dir_mode (m_mode m))) (\<lambda>_.
     seq (gets (\<lambda>s. i_name (node s r))) (\<lambda>name.
     seq (drop_name E pr name) (\<lambda>(removed_ino, _).
     seq (meta_pre mr (\<lambda>m. removed_ino = m_ino m)) (\<lambda>_.
     seq (modify (upd_meta mr (\<lambda>m. if m_links m > 0 then m\<lparr>m_links := m_links m - 1\<rparr> else m))) (\<lambda>_.
     seq (gets (\<lambda>s. meta s mr)) (\<lambda>m.
     seq (if m_links m = 0 then
            seq (modify (pagecache_invalidate_inode r)) (\<lambda>_.
            seq (if ext4_is_inline_symlink m then
                   modify (upd_meta mr (\<lambda>m. m\<lparr>m_block := replicate 15 0, m_size := 0, m_blocks_lo := 0\<rparr>))
                 else metaop mr (ext4_free_file_blocks (drv E) True)) (\<lambda>_.
            release_inode E r mr))
          else
            seq (store_meta E mr) (\<lambda>_. modify (\<lambda>s. upd_node r (\<lambda>n. n\<lparr>i_size := m_size (meta s mr)\<rparr>) s))) (\<lambda>_.
     e4op (e4_flush (drv E)))))))))))))"

definition ext4_rmdir :: "('d, 't) env \<Rightarrow> iref \<Rightarrow> ('d, 't, unit) vop" where
  "ext4_rmdir E r =
     seq (parent_pre r INODE_DIR) (\<lambda>parent.
     seq (meta_for parent) (\<lambda>pr.
     seq (meta_for r) (\<lambda>dr.
     seq (require (\<lambda>s. ext4_is_dir_mode (m_mode (meta s pr)) \<and> ext4_is_dir_mode (m_mode (meta s dr)))) (\<lambda>_.
     seq (gets (\<lambda>s. meta s dr)) (\<lambda>dm.
     seq (e4test (ext4_dir_is_empty (drv E) dm)) (\<lambda>empty.
     seq (check empty) (\<lambda>_.
     seq (gets (\<lambda>s. i_name (node s r))) (\<lambda>name.
     seq (drop_name E pr name) (\<lambda>(removed_ino, _).
     seq (meta_pre dr (\<lambda>m. removed_ino = m_ino m)) (\<lambda>_.
     seq (modify (upd_meta pr (\<lambda>m. if m_links m > 0 then m\<lparr>m_links := m_links m - 1\<rparr> else m))) (\<lambda>_.
     seq (store_meta E pr) (\<lambda>_.
     seq (modify (\<lambda>s. pagecache_invalidate_inode r (upd_meta dr (\<lambda>m. m\<lparr>m_links := 0\<rparr>) s))) (\<lambda>_.
     seq (metaop dr (ext4_free_file_blocks (drv E) True)) (\<lambda>_.
     seq (release_inode E r dr) (\<lambda>_.
     e4op (e4_flush (drv E)))))))))))))))))"

text \<open>\<^verbatim>\<open>while (p) { if (p == inode) return -1; p = p->parent; }\<close>: is \<open>r\<close> the inode \<open>p\<close> or above it? A chain of parents
  passes through each inode once, so as many steps as there are inodes are enough; a cycle of parents, on which the
  code would not end, is refused.\<close>

primrec up_hits :: "('d, 't) vfs \<Rightarrow> iref \<Rightarrow> nat \<Rightarrow> iref option \<Rightarrow> bool" where
  "up_hits s r 0 p = True"
| "up_hits s r (Suc fuel) p = (case p of None \<Rightarrow> False | Some q \<Rightarrow> q = r \<or> up_hits s r fuel (i_parent (node s q)))"

definition is_above :: "('d, 't) vfs \<Rightarrow> iref \<Rightarrow> iref \<Rightarrow> bool" where
  "is_above s r p = up_hits s r (Suc (length (ino_pool s) + length (x_nodes s))) (Some p)"

definition ext4_rename :: "('d, 't) env \<Rightarrow> iref \<Rightarrow> iref \<Rightarrow> u8 list \<Rightarrow> ('d, 't, unit) vop" where
  "ext4_rename E r new_parent new_name =
     seq (require (\<lambda>s. \<not> (\<not> e4_writable s \<or> \<not> is_ext4 (node s r) \<or> \<not> is_ext4 (node s new_parent) \<or> i_fs_ino (node s r) = 2))) (\<lambda>_.
     seq (gets (\<lambda>s. i_parent (node s r))) (\<lambda>p.
     seq (of_opt p) (\<lambda>old_parent.
     seq (check (\<not> (new_name = [] \<or> SLASH \<in> set new_name \<or> length new_name > INODE_NAME_MAX))) (\<lambda>_.
     seq (require (\<lambda>s. \<not> (\<not> is_ext4 (node s old_parent) \<or> i_type (node s old_parent) \<noteq> INODE_DIR
            \<or> i_type (node s new_parent) \<noteq> INODE_DIR))) (\<lambda>_.
     seq (gets (\<lambda>s. i_name (node s r))) (\<lambda>old_name.
       if old_parent = new_parent \<and> old_name = new_name then ret ()
       else
         seq (not_there (ext4_lookup_child_nofollow E new_parent new_name)) (\<lambda>_.
         seq (meta_for r) (\<lambda>ir.
         seq (meta_for old_parent) (\<lambda>opr.
         seq (meta_for new_parent) (\<lambda>npr.
         seq (require (\<lambda>s. ext4_is_dir_mode (m_mode (meta s opr)) \<and> ext4_is_dir_mode (m_mode (meta s npr)))) (\<lambda>_.
         seq (gets (\<lambda>s. meta s ir)) (\<lambda>im.
         let is_dir = ext4_is_dir_mode (m_mode im) in
         seq (require (\<lambda>s. \<not> (is_dir \<and> is_above s r new_parent))) (\<lambda>_.
         seq (gets (\<lambda>s. name_of (i_name (node s r)))) (\<lambda>old_name.
         seq (drop_name E opr old_name) (\<lambda>(removed_ino, ft).
         seq (check (removed_ino = m_ino im)) (\<lambda>_.
         let ftype = (if ft = 0 then ext4_inode_filetype im else ft) in
         seq (undo [add_name E opr old_name (m_ino im) ftype] (add_name E npr new_name (m_ino im) ftype)) (\<lambda>_.
         seq (if is_dir \<and> old_parent \<noteq> new_parent then
                seq (gets (\<lambda>s. (meta s ir, m_ino (meta s npr)))) (\<lambda>(im, np_ino).
                seq (undo [unit_op (drop_name E npr new_name), add_name E opr old_name (m_ino im) ftype]
                       (e4op (ext4_dir_update_entry_ino (drv E) im [46, 46] np_ino))) (\<lambda>_.
                seq (modify (upd_meta opr (\<lambda>m. if m_links m > 0 then m\<lparr>m_links := m_links m - 1\<rparr> else m))) (\<lambda>_.
                seq (modify (upd_meta npr (\<lambda>m. m\<lparr>m_links := m_links m + 1\<rparr>))) (\<lambda>_.
                seq (store_meta E opr) (\<lambda>_. store_meta E npr)))))
              else ret ()) (\<lambda>_.
         seq (modify (upd_node r (\<lambda>n. n\<lparr>i_parent := Some new_parent, i_name := name_of new_name\<rparr>))) (\<lambda>_.
         e4op (e4_flush (drv E)))))))))))))))))))))"

section \<open>Truncating, changing the mode\<close>

text \<open>The logical blocks from \<open>lb\<close> on are cleared one by one; each pointer is cleared on disk before its block is freed.\<close>

definition clear_one :: "('d, 't) env \<Rightarrow> mref \<Rightarrow> nat \<Rightarrow> ('d, 't, unit) vop" where
  "clear_one E mr lb =
     seq (metaop mr (ext4_clear_block_direct (drv E) (of_nat lb))) (\<lambda>old_block.
       if old_block = 0 then ret ()
       else
         seq (store_meta E mr) (\<lambda>_.
         seq (e4op (ext4_ordered_checkpoint (drv E))) (\<lambda>_.
         free_blk E old_block)))"

definition ceil_blocks :: "u64 \<Rightarrow> u32 \<Rightarrow> u32" where
  "ceil_blocks sz bs = ucast ((sz + ucast bs - 1) div ucast bs)"

text \<open>The bytes of the last block past the new end become zeros.\<close>

definition zero_tail :: "('d, 't) env \<Rightarrow> mref \<Rightarrow> u64 \<Rightarrow> u32 \<Rightarrow> ('d, 't, unit) vop" where
  "zero_tail E mr new_size keep_block =
     seq (gets (\<lambda>s. (meta s mr, block_size (fs (e4 s))))) (\<lambda>(m, bs).
     seq (e4op (if uses_extents m then ext4_map_file_block (drv E) m keep_block else ext4_map_block_direct (drv E) m keep_block)) (\<lambda>pblock.
       if pblock = 0 then ret ()
       else
         let cut = unat (new_size mod ucast bs) in
         seq (e4op (ext4_read_block (drv E) pblock)) (\<lambda>blk.
         e4op (ext4_write_block (drv E) pblock (take cut blk @ replicate (unat bs - cut) 0)))))"

definition ext4_truncate :: "('d, 't) env \<Rightarrow> iref \<Rightarrow> u64 \<Rightarrow> ('d, 't, unit) vop" where
  "ext4_truncate E r new_size =
     seq (require (\<lambda>s. \<not> (\<not> e4_writable s \<or> \<not> is_ext4 (node s r) \<or> i_type (node s r) \<noteq> INODE_FILE \<or> \<not> i_writable (node s r)))) (\<lambda>_.
     seq (meta_for r) (\<lambda>mr.
     seq (meta_pre mr (\<lambda>m. ext4_is_reg_mode (m_mode m))) (\<lambda>_.
     seq (gets (\<lambda>s. (meta s mr, block_size (fs (e4 s))))) (\<lambda>(m, bs).
       if new_size = m_size m then ret ()
       else
         let new_blocks = ceil_blocks new_size bs in
         seq (if new_size < m_size m then
                (if new_size = 0 then metaop mr (ext4_free_file_blocks (drv E) True)
                 else
                   seq (if uses_extents m then metaop mr (ext4_extent_truncate_data (drv E) new_size)
                        else for_each (clear_one E mr) [unat new_blocks..<unat (ceil_blocks (m_size m) bs)]) (\<lambda>_.
                   if new_size mod ucast bs \<noteq> 0 \<and> new_blocks > 0 then zero_tail E mr new_size (new_blocks - 1) else ret ()))
              else ret ()) (\<lambda>_.
         seq (modify (upd_meta mr (\<lambda>m. m\<lparr>m_size := new_size, m_blocks_lo := sectors_of new_size\<rparr>))) (\<lambda>_.
         seq (store_meta E mr) (\<lambda>_.
         seq (modify (upd_node r (\<lambda>n. n\<lparr>i_size := new_size\<rparr>))) (\<lambda>_.
         e4op (e4_flush (drv E))))))))))"

definition ext4_chmod :: "('d, 't) env \<Rightarrow> iref \<Rightarrow> u32 \<Rightarrow> ('d, 't, unit) vop" where
  "ext4_chmod E r mode =
     seq (require (\<lambda>s. \<not> (\<not> is_ext4 (node s r) \<or> \<not> e4_writable s))) (\<lambda>_.
     seq (meta_or_load E r) (\<lambda>mr.
     seq (gets (\<lambda>s. m_mode (meta s mr))) (\<lambda>old_mode.
     seq (check (\<not> (\<not> ext4_is_reg_mode old_mode \<and> \<not> ext4_is_dir_mode old_mode \<and> \<not> ext4_is_lnk_mode old_mode))) (\<lambda>_.
       let new_mode = (old_mode AND EXT4_S_IFMT) OR ucast (mode AND 0x1FF) in
       if old_mode = new_mode then ret ()
       else
         seq (modify (upd_meta mr (\<lambda>m. m\<lparr>m_mode := new_mode\<rparr>))) (\<lambda>_.
         seq (on_fail (upd_meta mr (\<lambda>m. m\<lparr>m_mode := old_mode\<rparr>)) (store_meta E mr)) (\<lambda>_.
         seq (e4op (e4_flush (drv E))) (\<lambda>_.
         modify (\<lambda>s. upd_node r (\<lambda>n. n\<lparr>
           i_writable := write_enabled (fs (e4 s)) \<and> ext4_is_reg_mode new_mode \<and> new_mode AND 0x92 \<noteq> 0,
           i_executable := ext4_is_reg_mode new_mode \<and> new_mode AND 0x49 \<noteq> 0\<rparr>) s))))))))"

section \<open>Mounting\<close>

definition fs_zero :: ext4_fs where \<comment> \<open>memset(&g_ext4, 0, sizeof(g_ext4)), the part of the driver\<close>
  "fs_zero = \<lparr>mounted = False, write_enabled = False, has_filetype = False, has_64bit = False, feature_compat = 0,
     feature_incompat = 0, feature_ro_compat = 0, block_size = 0, sectors_per_block = 0, inodes_count = 0, first_ino = 0,
     inode_size = 0, inodes_per_group = 0, blocks_per_group = 0, desc_size = 0, first_data_block = 0, blocks_count = 0,
     free_blocks_count = 0, free_inodes_count = 0, groups_count = 0, source_dev_kind = DEV_NONE, source_lba_start = 0,
     source_lba_count = 0\<rparr>"

definition clear_ext4 :: "('d, 't) vfs \<Rightarrow> ('d, 't) vfs" where \<comment> \<open>the same memset, in the file layer\<close>
  "clear_ext4 s = s\<lparr>e4 := upd_fs (\<lambda>_. fs_zero) (e4 s), x_mountpoint := None, x_instance_id := 0, x_root_meta := meta_zero,
     x_nodes := replicate EXT4_CACHE_MAX inode_zero, x_metas := replicate EXT4_CACHE_MAX meta_zero\<rparr>"

abbreviation (input) SUPPORTED_INCOMPAT :: u32 where "SUPPORTED_INCOMPAT \<equiv> 0x0002 OR 0x0004 OR 0x0040 OR 0x0080 OR 0x0200"
abbreviation (input) SUPPORTED_RO_COMPAT :: u32 where
  "SUPPORTED_RO_COMPAT \<equiv> 0x0001 OR 0x0002 OR 0x0004 OR 0x0008 OR 0x0010 OR 0x0020 OR 0x0040 OR 0x0400"

text \<open>The checks of the superblock, one after the other as in \<^verbatim>\<open>ext4_mount\<close>, and the fields they fill in. A field
  that is set before a check fails stays set; \<open>mounted\<close> is false then, and the next mount clears everything.\<close>

definition read_super :: "u8 list \<Rightarrow> ('d ext4, unit) op" where
  "read_super sb =
     (let compat = rd_le32 sb 0x5C; incompat = rd_le32 sb 0x60; ro_compat = rd_le32 sb 0x64;
          unsupported_ro = ro_compat AND NOT SUPPORTED_RO_COMPAT; wide = (incompat AND 0x0080 \<noteq> 0) in
      seq (check (\<not> rd_le16 sb 0x38 \<noteq> 0xEF53)) (\<lambda>_.
      seq (check (\<not> incompat AND NOT SUPPORTED_INCOMPAT \<noteq> 0)) (\<lambda>_.
      seq (check (\<not> incompat AND 0x0010 \<noteq> 0)) (\<lambda>_.
      seq (check (\<not> ro_compat AND 0x0200 \<noteq> 0)) (\<lambda>_.
      seq (modify (upd_fs (\<lambda>f. f\<lparr>feature_compat := compat, feature_incompat := incompat, feature_ro_compat := ro_compat,
             write_enabled := ro_compat AND (0x0010 OR 0x0400) = 0 \<and> unsupported_ro = 0\<rparr>))) (\<lambda>_.
      seq (check (\<not> rd_le32 sb 0x18 > 2)) (\<lambda>_.
      let bs = push_bit (unat (rd_le32 sb 0x18)) 1024 in
      seq (modify (upd_fs (\<lambda>f. f\<lparr>block_size := bs\<rparr>))) (\<lambda>_.
      seq (check (\<not> (bs < 1024 \<or> bs > 4096))) (\<lambda>_.
      seq (check (\<not> bs mod 512 \<noteq> 0)) (\<lambda>_.
      seq (modify (upd_fs (\<lambda>f. f\<lparr>sectors_per_block := bs div 512, first_data_block := rd_le32 sb 0x14, inodes_count := rd_le32 sb 0x00\<rparr>))) (\<lambda>_.
      seq (check (\<not> rd_le32 sb 0x00 = 0)) (\<lambda>_.
      let isz = ucast (rd_le16 sb 0x58) :: u32; fino = rd_le32 sb 0x54 in
      seq (modify (upd_fs (\<lambda>f. f\<lparr>inode_size := isz, first_ino := (if fino < 11 then 11 else fino)\<rparr>))) (\<lambda>_.
      seq (check (\<not> (isz < 128 \<or> isz > bs \<or> isz > 4096))) (\<lambda>_.
      seq (modify (upd_fs (\<lambda>f. f\<lparr>blocks_per_group := rd_le32 sb 0x20, inodes_per_group := rd_le32 sb 0x28\<rparr>))) (\<lambda>_.
      seq (check (\<not> (rd_le32 sb 0x20 = 0 \<or> rd_le32 sb 0x28 = 0))) (\<lambda>_.
      let hi = (\<lambda>off. if wide then push_bit 32 (ucast (rd_le32 sb off)) else 0 :: u64);
          blocks = ucast (rd_le32 sb 0x04) OR hi 0x150; free = ucast (rd_le32 sb 0x0C) OR hi 0x158 in
      seq (modify (upd_fs (\<lambda>f. f\<lparr>blocks_count := blocks, free_blocks_count := free, free_inodes_count := rd_le32 sb 0x10\<rparr>))) (\<lambda>_.
      seq (check (\<not> blocks \<le> ucast (rd_le32 sb 0x14))) (\<lambda>_.
      let data_blocks = blocks - ucast (rd_le32 sb 0x14); bpg = ucast (rd_le32 sb 0x20) :: u64; dsz = ucast (rd_le16 sb 0xFE) :: u32 in
      modify (upd_fs (\<lambda>f. f\<lparr>groups_count := ucast ((data_blocks + bpg - 1) div bpg), desc_size := (if dsz = 0 then 32 else dsz),
        has_filetype := incompat AND 0x0002 \<noteq> 0, has_64bit := wide\<rparr>))))))))))))))))))))"

definition e4_cache_ready :: "'d blkdrv \<Rightarrow> ('d ext4, unit) op" where
  "e4_cache_ready D s = (case block_cache_ready D (cache s) (dev s) of (b, d) \<Rightarrow> (if b then Some () else None, s\<lparr>dev := d\<rparr>))"

definition ext4_mount :: "('d, 't) env \<Rightarrow> iref \<Rightarrow> iref \<Rightarrow> ('d, 't, unit) vop" where
  "ext4_mount E mountpoint source =
     seq (require (\<lambda>s. \<not> (i_type (node s mountpoint) \<noteq> INODE_DIR \<or> i_type (node s source) \<noteq> INODE_DEV
            \<or> i_dev_kind (node s source) = DEV_NONE))) (\<lambda>_.
     seq (require (\<lambda>s. \<not> e4_mounted s)) (\<lambda>_.
     seq (e4op (e4_cache_ready (drv E))) (\<lambda>_.
     seq (gets (\<lambda>s. node s source)) (\<lambda>src.
     seq (modify (\<lambda>s. upd_e4 (upd_fs (\<lambda>f. f\<lparr>source_dev_kind := i_dev_kind src, source_lba_start := i_lba_start src,
            source_lba_count := i_lba_count src\<rparr>)) (clear_ext4 s))) (\<lambda>_.
     seq (check (\<not> i_lba_count src = 0)) (\<lambda>_.
     seq (e4op (ext4_disk_read_bytes (drv E) EXT4_SUPER_OFFSET EXT4_SUPER_SIZE)) (\<lambda>sb.
     seq (e4op (read_super sb)) (\<lambda>_.
     seq (modify (upd_e4 (\<lambda>x. x\<lparr>jl := journal_zero, jb := jbd2_zero\<rparr>))) (\<lambda>_.
     seq (if rd_le32 sb 0x5C AND 4 \<noteq> 0 then
            seq (e4op (ext4_jbd2_replay_if_needed (drv E) sb)) (\<lambda>_.
            modify (upd_e4 (\<lambda>x. upd_fs (\<lambda>f. f\<lparr>write_enabled := write_enabled f \<and> jb_write_ready (jb x)\<rparr>) x)))
          else
            seq (e4op (ext4_journal_setup (drv E))) (\<lambda>_. e4op (ext4_journal_replay_if_needed (drv E)))) (\<lambda>_.
     seq (e4op (ext4_load_meta (drv E) 2)) (\<lambda>m.
     seq (modify (upd_meta RootMeta (\<lambda>_. m))) (\<lambda>_.
     seq (check (ext4_is_dir_mode (m_mode m))) (\<lambda>_.
     modify (\<lambda>s.
       let seqno = x_instance_seq s + 1; seqno = (if seqno = 0 then 1 else seqno);
           s1 = upd_e4 (upd_fs (\<lambda>f. f\<lparr>mounted := True\<rparr>)) (s\<lparr>x_instance_seq := seqno, x_instance_id := seqno, x_mountpoint := Some mountpoint\<rparr>)
       in upd_node mountpoint (\<lambda>n. n\<lparr>i_fs_kind := FS_KIND_EXT4, i_fs_id := seqno, i_fs_ino := 2,
            i_writable := write_enabled (fs (e4 s1)), i_executable := False, i_size := m_size m, i_capacity := m_size m, i_data := 0\<rparr>) s1))))))))))))))"

definition ext4_unmount :: "('d, 't) env \<Rightarrow> iref \<Rightarrow> ('d, 't, unit) vop" where
  "ext4_unmount E mountpoint =
     seq (require (\<lambda>s. \<not> (\<not> e4_mounted s \<or> Some mountpoint \<noteq> x_mountpoint s))) (\<lambda>_.
     seq (modify (upd_e4 (\<lambda>x. if jl_tx_active (jl x) then ext4_tx_abort (drv E) x else x))) (\<lambda>_.
     seq (e4op (ext4_sync_filesystem (drv E))) (\<lambda>_.
     modify (\<lambda>s. upd_e4 (\<lambda>x. x\<lparr>jl := journal_zero, jb := jbd2_zero\<rparr>) (clear_ext4 (
       upd_node mountpoint (\<lambda>n. n\<lparr>i_fs_kind := FS_KIND_MEM, i_fs_id := 0, i_fs_ino := 0, i_writable := False, i_executable := False,
         i_size := 0, i_capacity := 0, i_data := 0\<rparr>) (pagecache_invalidate_ext4_all s)))))))"

end
