(* ===== verification/PageCache.thy ===== *)
theory PageCache
  imports Ext4Ops
begin

text \<open>
  The page cache, \<^verbatim>\<open>src/kernel/pagecache.c\<close>: 256 pages of files and block devices in physical memory, filled on demand,
  written back when they are evicted, flushed or under pressure. A pointer to an entry is its index. The table
  itself and the operations that only drop pages are in \<open>Inodes\<close>.
\<close>

section \<open>Filling a page and storing it\<close>

definition dev_of :: "inode \<Rightarrow> (dev_kind \<times> u64 \<times> u64) option" where
  "dev_of n = (if i_type n = INODE_DEV then Some (i_dev_kind n, i_lba_start n, i_lba_count n) else None)"

definition dev_attach :: "'d blkdrv \<Rightarrow> inode \<Rightarrow> ('d ext4, unit) op" where \<comment> \<open>block_cache_attach_inode(inode) == 0\<close>
  "dev_attach D n s =
     (case block_cache_attach_inode D (dev_of n) (cache s) (dev s) of (r, c, d) \<Rightarrow>
        (if r = 0 then Some () else None, set_disk (c, d) s))"

definition dev_sectors :: "'d blkdrv \<Rightarrow> inode \<Rightarrow> ('d ext4, u64) op" where
  "dev_sectors D n s =
     (if i_lba_count n \<noteq> 0 then (Some (i_lba_count n), s)
      else case block_cache_capacity_sectors D (cache s) (dev s) of (k, d) \<Rightarrow> (Some k, s\<lparr>dev := d\<rparr>))"

definition dev_read :: "'d blkdrv \<Rightarrow> u64 \<Rightarrow> u64 \<Rightarrow> ('d ext4, u8 list) op" where \<comment> \<open>block_cache_read(lba, buf, count) == 0\<close>
  "dev_read D lba count s =
     (case block_cache_read D lba True count (cache s) (dev s) of (r, b, c, d) \<Rightarrow>
        (if r = 0 then Some b else None, set_disk (c, d) s))"

definition dev_write :: "'d blkdrv \<Rightarrow> u64 \<Rightarrow> u8 list \<Rightarrow> u64 \<Rightarrow> ('d ext4, unit) op" where
  "dev_write D lba b count s =
     (case block_cache_write D lba (Some b) count (cache s) (dev s) of (r, c, d) \<Rightarrow>
        (if r = 0 then Some () else None, set_disk (c, d) s))"

definition page_aligned :: "u64 \<Rightarrow> bool" where "page_aligned off \<longleftrightarrow> off AND (PAGE_SIZE - 1) = 0"

text \<open>A page of a block device: up to eight sectors from the one at the offset on. The sector number is relative to the
  partition in the block cache, and the code adds the start of the partition here once more.\<close>

definition load_dev_page :: "'d blkdrv \<Rightarrow> inode \<Rightarrow> u64 \<Rightarrow> ('d ext4, u8 list) op" where
  "load_dev_page D n file_off =
     seq (check (fs_is_block_dev n)) (\<lambda>_.
     seq (dev_attach D n) (\<lambda>_.
     seq (dev_sectors D n) (\<lambda>sectors.
     seq (check (\<not> sectors = 0)) (\<lambda>_.
       let sector_off = file_off div 512 in
       if sector_off \<ge> sectors then ret []
       else dev_read D (i_lba_start n + sector_off) (min (sectors - sector_off) 8)))))"

text \<open>The page is cleared first; when the load fails its bytes do not matter, the caller frees it.\<close>

definition pagecache_load_page :: "('d, 't) env \<Rightarrow> iref \<Rightarrow> u64 \<Rightarrow> u64 \<Rightarrow> ('d, 't, unit) vop" where
  "pagecache_load_page E r file_off dst =
     seq (node_pre r (\<lambda>n. \<not> (\<not> pagecache_inode_supported n \<or> \<not> page_aligned file_off))) (\<lambda>_.
     seq (modify (mem_put dst (replicate PAGE_BYTES 0))) (\<lambda>_.
     seq (gets (\<lambda>s. node s r)) (\<lambda>n.
       if i_type n = INODE_DEV then seq (e4op (load_dev_page (drv E) n file_off)) (\<lambda>b. modify (mem_put dst b))
       else if i_fs_kind n = FS_KIND_MEM then
         seq (check (i_data n \<noteq> 0)) (\<lambda>_.
           if file_off < i_size n then
             modify (\<lambda>s. mem_put dst (mem_get (i_data n + file_off) (min (unat (i_size n - file_off)) PAGE_BYTES) s) s)
           else ret ())
       else seq (ext4_read E r file_off PAGE_BYTES) (\<lambda>(b, _). modify (mem_put dst b)))))"

definition store_dev_page :: "'d blkdrv \<Rightarrow> inode \<Rightarrow> u64 \<Rightarrow> u8 list \<Rightarrow> ('d ext4, u64) op" where \<comment> \<open>the capacity in bytes\<close>
  "store_dev_page D n file_off src =
     seq (check (fs_is_block_dev n \<and> i_writable n)) (\<lambda>_.
     seq (dev_attach D n) (\<lambda>_.
     seq (dev_sectors D n) (\<lambda>sectors.
       let cap = sectors * 512 in
       seq (check (\<not> file_off \<ge> cap)) (\<lambda>_.
         let len = (if of_nat (length src) > cap - file_off then unat (cap - file_off) else length src);
             lba = i_lba_start n + file_off div 512; whole = min (len div 512) 8; tail = len - whole * 512 in
         seq (if whole > 0 then dev_write D lba (take (whole * 512) src) (of_nat whole) else ret ()) (\<lambda>_.
         seq (if tail > 0 then
                seq (dev_read D (lba + of_nat whole) 1) (\<lambda>sec.
                dev_write D (lba + of_nat whole) (put_at 0 (take tail (drop (whole * 512) src)) sec) 1)
              else ret ()) (\<lambda>_.
         ret cap))))))"

text \<open>The first \<open>max_bytes\<close> bytes of the page at \<open>pa\<close> go to the file.\<close>

definition pagecache_store_page_internal :: "('d, 't) env \<Rightarrow> iref \<Rightarrow> u64 \<Rightarrow> u64 \<Rightarrow> nat \<Rightarrow> bool \<Rightarrow> ('d, 't, unit) vop" where
  "pagecache_store_page_internal E r file_off pa max_bytes manage_tx =
     seq (node_pre r (\<lambda>n. \<not> (\<not> pagecache_inode_supported n \<or> \<not> page_aligned file_off \<or> max_bytes = 0))) (\<lambda>_.
     seq (gets (\<lambda>s. (node s r, mem_get pa (min max_bytes PAGE_BYTES) s))) (\<lambda>(n, src).
       if i_type n = INODE_DEV then
         seq (e4op (store_dev_page (drv E) n file_off src)) (\<lambda>cap. modify (upd_node r (\<lambda>n. n\<lparr>i_size := cap\<rparr>)))
       else if i_fs_kind n = FS_KIND_MEM then
         (if i_data n = 0 \<or> file_off \<ge> i_capacity n then ret ()
          else
            let b = take (unat (i_capacity n - file_off)) src; fin = file_off + of_nat (length b) in
            modify (\<lambda>s. upd_node r (\<lambda>n. n\<lparr>i_size := max fin (i_size n)\<rparr>) (mem_put (i_data n + file_off) b s)))
       else
         let written = seq (ext4_write E r file_off src) (\<lambda>k. check (k = length src)) in
         if manage_tx then
           seq (e4op (ext4_tx_begin (drv E))) (\<lambda>_.
           on_fail (upd_e4 (ext4_tx_abort (drv E))) (
             seq written (\<lambda>_. e4op (ext4_tx_commit (drv E)))))
         else written))"

definition pagecache_store_page :: "('d, 't) env \<Rightarrow> iref \<Rightarrow> u64 \<Rightarrow> u64 \<Rightarrow> nat \<Rightarrow> ('d, 't, unit) vop" where
  "pagecache_store_page E r file_off pa max_bytes = pagecache_store_page_internal E r file_off pa max_bytes True"

section \<open>Finding room\<close>

text \<open>The entry with the smallest stamp among those with a property, the first of them.\<close>

fun oldest_in :: "(pc_entry \<Rightarrow> bool) \<Rightarrow> pc_entry list \<Rightarrow> nat list \<Rightarrow> nat option \<Rightarrow> nat option" where
  "oldest_in P es [] v = v"
| "oldest_in P es (i # is) v =
     (if P (es ! i) \<and> (case v of None \<Rightarrow> True | Some j \<Rightarrow> pc_touch (es ! i) < pc_touch (es ! j))
      then oldest_in P es is (Some i) else oldest_in P es is v)"

definition oldest :: "(pc_entry \<Rightarrow> bool) \<Rightarrow> ('d, 't) vfs \<Rightarrow> nat option" where
  "oldest P s = oldest_in P (pagecache s) [0..<length (pagecache s)] None"

definition note_result :: "('d, 't, 'a) vop \<Rightarrow> ('d, 't, unit) vop" where \<comment> \<open>pagecache_note_writeback_result of a call\<close>
  "note_result m = seq (on_fail (pagecache_note_writeback_result False) m) (\<lambda>_. modify (pagecache_note_writeback_result True))"

definition pagecache_slot :: "('d, 't) env \<Rightarrow> ('d, 't, nat) vop" where
  "pagecache_slot E =
     seq (gets (\<lambda>s. find (\<lambda>i. \<not> pc_used (pagecache s ! i)) [0..<length (pagecache s)])) (\<lambda>free.
       case free of
         Some i \<Rightarrow> ret i
       | None \<Rightarrow>
           seq (gets (\<lambda>s. oldest (\<lambda>e. \<not> pc_pinned s e) s)) (\<lambda>v.
           seq (of_opt v) (\<lambda>i.
           seq (gets (\<lambda>s. (pagecache s ! i, pagecache_entry_max_bytes s (pagecache s ! i)))) (\<lambda>(e, max_bytes).
           seq (if pc_dirty e then
                  (case pc_inode e of
                     Some r \<Rightarrow>
                       if max_bytes = 0 then ret ()
                       else note_result (pagecache_store_page E r (pc_file_off e) (pc_pa e) max_bytes)
                   | None \<Rightarrow> ret ())
                else ret ()) (\<lambda>_.
           seq (modify (pc_drop i)) (\<lambda>_.
           ret i))))))"

section \<open>Writing back\<close>

definition writeprotect :: "('d, 't) env \<Rightarrow> iref \<Rightarrow> u64 \<Rightarrow> ('d, 't, unit) vop" where
  "writeprotect E r off s = (case task_pagecache_writeprotect_shared E (node s) r off (rest s) of
     (ok, x) \<Rightarrow> (if ok then Some () else None, s\<lparr>rest := x\<rparr>))"

definition mark_clean :: "nat \<Rightarrow> ('d, 't) vfs \<Rightarrow> ('d, 't) vfs" where
  "mark_clean i s = pagecache_touch_tick i (upd_pc i (\<lambda>e. e\<lparr>pc_dirty := False\<rparr>) s)"

text \<open>An entry in use has an inode.\<close>

definition pagecache_entry_writeback :: "('d, 't) env \<Rightarrow> nat \<Rightarrow> ('d, 't, unit) vop" where
  "pagecache_entry_writeback E i =
     seq (gets (\<lambda>s. (pagecache s ! i, pagecache_entry_max_bytes s (pagecache s ! i)))) (\<lambda>(e, max_bytes).
       if \<not> pc_used e \<or> \<not> pc_dirty e then ret ()
       else case pc_inode e of
         None \<Rightarrow> ret ()
       | Some r \<Rightarrow>
           seq (gets (\<lambda>s. i_type (node s r) = INODE_FILE)) (\<lambda>is_file.
             if max_bytes = 0 then
               seq (if is_file then
                      seq (modify (mem_put (pc_pa e) (replicate PAGE_BYTES 0))) (\<lambda>_. writeprotect E r (pc_file_off e))
                    else ret ()) (\<lambda>_.
               modify (mark_clean i))
             else
               seq (pagecache_store_page E r (pc_file_off e) (pc_pa e) max_bytes) (\<lambda>_.
               seq (if is_file \<and> max_bytes < PAGE_BYTES
                    then modify (mem_put (pc_pa e + of_nat max_bytes) (replicate (PAGE_BYTES - max_bytes) 0)) else ret ()) (\<lambda>_.
               seq (writeprotect E r (pc_file_off e)) (\<lambda>_.
               modify (mark_clean i))))))"

definition flush_wanted :: "('d, 't) vfs \<Rightarrow> iref option \<Rightarrow> (u64 \<times> u64) option \<Rightarrow> pc_entry \<Rightarrow> bool" where
  "flush_wanted s who rng e \<longleftrightarrow> pc_used e \<and> pc_dirty e \<and> (who \<noteq> None \<longrightarrow> pagecache_inode_same s (pc_inode e) who)
     \<and> (case rng of None \<Rightarrow> True | Some (start, len) \<Rightarrow> pagecache_range_overlaps e start len)"

primrec pagecache_flush_match :: "('d, 't) env \<Rightarrow> iref option \<Rightarrow> (u64 \<times> u64) option \<Rightarrow> nat \<Rightarrow> ('d, 't, unit) vop" where
  "pagecache_flush_match E who rng 0 = ret ()"
| "pagecache_flush_match E who rng (Suc budget) =
     seq (gets (\<lambda>s. oldest (flush_wanted s who rng) s)) (\<lambda>v.
       case v of
         None \<Rightarrow> ret ()
       | Some i \<Rightarrow>
           seq (note_result (pagecache_entry_writeback E i)) (\<lambda>_.
           pagecache_flush_match E who rng budget))"

definition pagecache_flush_inode :: "('d, 't) env \<Rightarrow> iref \<Rightarrow> ('d, 't, unit) vop" where
  "pagecache_flush_inode E r = pagecache_flush_match E (Some r) None 256"

definition pagecache_flush_inode_range :: "('d, 't) env \<Rightarrow> iref \<Rightarrow> u64 \<Rightarrow> u64 \<Rightarrow> ('d, 't, unit) vop" where
  "pagecache_flush_inode_range E r start len = pagecache_flush_match E (Some r) (Some (start, len)) 256"

definition pagecache_flush_all :: "('d, 't) env \<Rightarrow> ('d, 't, unit) vop" where
  "pagecache_flush_all E = pagecache_flush_match E None None 256"

text \<open>High water mark 192 pages, critical mark 248 pages.\<close>

definition pagecache_maybe_writeback_pressure :: "('d, 't) env \<Rightarrow> ('d, 't) vfs \<Rightarrow> ('d, 't) vfs" where
  "pagecache_maybe_writeback_pressure E s =
     (if pagecache_writeback_blocked s then s
      else
        let d = pagecache_dirty_count s in
        if d < 192 then s
        else
          let budget = (if d \<ge> 248 then 256 else min (16 + (d - 192)) 256)
          in snd (pagecache_flush_match E None None budget s))"

definition pagecache_tick :: "('d, 't) env \<Rightarrow> u64 \<Rightarrow> ('d, 't) vfs \<Rightarrow> ('d, 't) vfs" where
  "pagecache_tick E now s0 =
     (let s = s0\<lparr>pc_last_tick := now\<rparr> in
      if now - pc_wb_tick s < 8 then s
      else
        let s1 = s\<lparr>pc_wb_tick := now\<rparr>; d = pagecache_dirty_count s1 in
        if pagecache_writeback_blocked s1 \<or> d = 0 then s1
        else snd (pagecache_flush_match E None None (min (2 + d div 8) 16) s1))"

section \<open>Pages on demand\<close>

definition page_alloc :: "('d, 't, u64) vop" where \<comment> \<open>pmm_alloc_page; null is failure\<close>
  "page_alloc s = (case pmm_alloc_page (pm s) of (p, x) \<Rightarrow> (if p = 0 then None else Some p, s\<lparr>pm := x\<rparr>))"

definition page_free :: "u64 \<Rightarrow> ('d, 't) vfs \<Rightarrow> ('d, 't) vfs" where "page_free p = upd_pm (pmm_free_page p)"
definition page_ref :: "u64 \<Rightarrow> ('d, 't) vfs \<Rightarrow> ('d, 't) vfs" where "page_ref p = upd_pm (pmm_ref_page p)"

definition pc_enter :: "nat \<Rightarrow> iref \<Rightarrow> u64 \<Rightarrow> u64 \<Rightarrow> ('d, 't) vfs \<Rightarrow> ('d, 't) vfs" where
  "pc_enter i r off pa s = pagecache_touch_tick i (upd_pc i (\<lambda>e. e\<lparr>pc_used := True, pc_inode := Some r, pc_file_off := off,
     pc_pa := pa, pc_dirty := False\<rparr>) s)"

definition pagecache_get_or_create :: "('d, 't) env \<Rightarrow> iref \<Rightarrow> u64 \<Rightarrow> ('d, 't, u64) vop" where
  "pagecache_get_or_create E r file_off =
     seq (node_pre r pagecache_inode_supported) (\<lambda>_.
     seq (check (page_aligned file_off)) (\<lambda>_.
     seq (gets (\<lambda>s. pagecache_find s r file_off)) (\<lambda>hit.
       case hit of
         Some i \<Rightarrow>
           seq (gets (\<lambda>s. pc_pa (pagecache s ! i))) (\<lambda>pa.
           seq (modify (\<lambda>s. page_ref pa (pagecache_touch_tick i s))) (\<lambda>_. ret pa))
       | None \<Rightarrow>
           seq (attempt page_alloc) (\<lambda>p.
           seq (case p of
                  Some page \<Rightarrow> ret page
                | None \<Rightarrow>
                    seq (require (\<lambda>s. \<not> pagecache_has_free_slot s)) (\<lambda>_.
                    seq (pagecache_slot E) (\<lambda>_. page_alloc))) (\<lambda>page.
           seq (on_fail (page_free page) (
                  seq (pagecache_load_page E r file_off page) (\<lambda>_. pagecache_slot E))) (\<lambda>slot.
           seq (modify (\<lambda>s. page_ref page (pc_enter slot r file_off page s))) (\<lambda>_.
           ret page)))))))"

definition pagecache_writeback :: "('d, 't) env \<Rightarrow> iref \<Rightarrow> u64 \<Rightarrow> u64 \<Rightarrow> nat \<Rightarrow> ('d, 't, unit) vop" where
  "pagecache_writeback E r file_off pa max_bytes =
     seq (node_pre r pagecache_inode_supported) (\<lambda>_.
     seq (check (page_aligned file_off)) (\<lambda>_.
     seq (gets (\<lambda>s. node s r)) (\<lambda>n.
       let is_file = (i_type n = INODE_FILE);
           room = (if is_file then unat (i_size n) - unat file_off else PAGE_BYTES);
           valid_bytes = min (min max_bytes PAGE_BYTES) room in
       if valid_bytes = 0 then ret ()
       else
         seq (gets (\<lambda>s. pagecache_find s r file_off)) (\<lambda>hit.
         seq (case hit of
                None \<Rightarrow> seq (pagecache_slot E) (\<lambda>i. seq (modify (\<lambda>s. page_ref pa (pc_enter i r file_off pa s))) (\<lambda>_. ret i))
              | Some i \<Rightarrow>
                  seq (modify (\<lambda>s. let q = pc_pa (pagecache s ! i) in
                         if q \<noteq> pa then mem_put q (mem_get pa valid_bytes s) s else s)) (\<lambda>_. ret i)) (\<lambda>i.
         modify (\<lambda>s.
           let s1 = (if is_file \<and> valid_bytes < PAGE_BYTES
                     then mem_put (pc_pa (pagecache s ! i) + of_nat valid_bytes) (replicate (PAGE_BYTES - valid_bytes) 0) s else s)
           in pagecache_touch_tick i (upd_pc i (\<lambda>e. e\<lparr>pc_dirty := True\<rparr>) s1)))))))"

section \<open>Reading and writing files\<close>

text \<open>The pieces of a range that lie in one page each: the page's offset, the position in the page, how many bytes
  come before the piece, its length.\<close>

lemma in_page_less: "unat (x AND 4095 :: u64) < 4096"
proof -
  have "x AND 4095 = take_bit 12 x" by (simp add: take_bit_eq_mask mask_eq_exp_minus_1)
  then show ?thesis by (simp add: unsigned_take_bit_eq take_bit_nat_def)
qed

function pieces :: "u64 \<Rightarrow> nat \<Rightarrow> nat \<Rightarrow> (u64 \<times> nat \<times> nat \<times> nat) list" where
  "pieces off k len =
     (if k < len then
        let cur = off + of_nat k; in_page = unat (cur AND 4095); chunk = min (PAGE_BYTES - in_page) (len - k)
        in (cur AND NOT 4095, in_page, k, chunk) # pieces off (k + chunk) len
      else [])"
  by pat_completeness auto
termination
proof (relation "measure (\<lambda>(_, k, len). len - k)")
  fix off cur :: u64 and k len in_page chunk :: nat
  assume "k < len" "cur = off + of_nat k" "in_page = unat (cur AND 4095)" "chunk = min (PAGE_BYTES - in_page) (len - k)"
  then show "((off, k + chunk, len), off, k, len) \<in> measure (\<lambda>(_, k, len). len - k)"
    using in_page_less [of cur] by simp
qed simp

declare pieces.simps [simp del]

fun read_pieces :: "('d, 't) env \<Rightarrow> iref \<Rightarrow> (u64 \<times> nat \<times> nat \<times> nat) list \<Rightarrow> u8 list \<Rightarrow> ('d, 't, u8 list) vop" where
  "read_pieces E r [] acc = ret acc"
| "read_pieces E r ((page_off, in_page, _, chunk) # ps) acc =
     seq (attempt (pagecache_get_or_create E r page_off)) (\<lambda>p.
       case p of
         None \<Rightarrow> ret acc
       | Some pa \<Rightarrow>
           seq (gets (mem_get (pa + of_nat in_page) chunk)) (\<lambda>b.
           seq (modify (page_free pa)) (\<lambda>_.
           read_pieces E r ps (acc @ b))))"

definition pagecache_read :: "('d, 't) env \<Rightarrow> iref \<Rightarrow> u64 \<Rightarrow> nat \<Rightarrow> ('d, 't, u8 list) vop" where
  "pagecache_read E r offset len =
     seq (node_pre r pagecache_inode_supported) (\<lambda>_.
     seq (gets (\<lambda>s. i_size (node s r))) (\<lambda>sz.
       if len = 0 \<or> offset \<ge> sz then ret []
       else
         let n = (if offset + of_nat len > sz then unat (sz - offset) else len) in
         seq (read_pieces E r (pieces offset 0 n) []) (\<lambda>b.
         seq (check (b \<noteq> [])) (\<lambda>_. ret b))))"

fun write_pieces :: "('d, 't) env \<Rightarrow> iref \<Rightarrow> u8 list \<Rightarrow> (u64 \<times> nat \<times> nat \<times> nat) list \<Rightarrow> nat \<Rightarrow> ('d, 't, nat) vop" where
  "write_pieces E r src [] n = ret n"
| "write_pieces E r src ((page_off, in_page, done, chunk) # ps) n =
     seq (attempt (pagecache_get_or_create E r page_off)) (\<lambda>p.
       case p of
         None \<Rightarrow> ret n
       | Some pa \<Rightarrow>
           seq (modify (\<lambda>s.
             let s1 = mem_put (pa + of_nat in_page) (take chunk (drop done src)) s
             in page_free pa (case pagecache_find s1 r page_off of
                  None \<Rightarrow> s1
                | Some i \<Rightarrow> pagecache_touch_tick i (upd_pc i (\<lambda>e. e\<lparr>pc_dirty := True\<rparr>) s1)))) (\<lambda>_.
           write_pieces E r src ps (n + chunk)))"

definition grow :: "iref \<Rightarrow> u64 \<Rightarrow> ('d, 't) vfs \<Rightarrow> ('d, 't) vfs" where \<comment> \<open>\<^verbatim>\<open>if (end > inode->size) inode->size = end\<close>\<close>
  "grow r fin = upd_node r (\<lambda>n. n\<lparr>i_size := max fin (i_size n)\<rparr>)"

definition pagecache_write :: "('d, 't) env \<Rightarrow> iref \<Rightarrow> u64 \<Rightarrow> u8 list \<Rightarrow> ('d, 't, nat) vop" where
  "pagecache_write E r offset src =
     seq (node_pre r (\<lambda>n. pagecache_inode_supported n \<and> i_writable n)) (\<lambda>_.
     seq (gets (\<lambda>s. node s r)) (\<lambda>nd.
       if src = [] then ret 0
       else
         seq (check (\<not> (i_type nd = INODE_DEV \<and> offset \<ge> i_size nd))) (\<lambda>_.
         seq (check (\<not> (i_fs_kind nd = FS_KIND_MEM \<and> (i_data nd = 0 \<or> offset \<ge> i_capacity nd)))) (\<lambda>_.
           let n = length src;
               n = (if i_type nd = INODE_DEV \<and> offset + of_nat n > i_size nd then unat (i_size nd - offset) else n);
               n = (if i_fs_kind nd = FS_KIND_MEM then min n (unat (i_capacity nd - offset)) else n) in
           seq (write_pieces E r src (pieces offset 0 n) 0) (\<lambda>done.
           seq (check (done \<noteq> 0)) (\<lambda>_.
           seq (modify (\<lambda>s. pagecache_maybe_writeback_pressure E (grow r (offset + of_nat done) s))) (\<lambda>_.
           ret done)))))))"

text \<open>The hits among the pages of a range, one after the other.\<close>

definition on_hit :: "iref \<Rightarrow> (nat \<Rightarrow> nat \<Rightarrow> nat \<Rightarrow> nat \<Rightarrow> ('d, 't) vfs \<Rightarrow> ('d, 't) vfs) \<Rightarrow> (u64 \<times> nat \<times> nat \<times> nat)
    \<Rightarrow> ('d, 't) vfs \<Rightarrow> ('d, 't) vfs" where
  "on_hit r f p s = (case p of (page_off, in_page, done, chunk) \<Rightarrow>
     (case pagecache_find s r page_off of None \<Rightarrow> s | Some i \<Rightarrow> pagecache_touch_tick i (f i in_page done chunk s)))"

definition pagecache_overlay_read :: "iref \<Rightarrow> u64 \<Rightarrow> u8 list \<Rightarrow> ('d, 't) vfs \<Rightarrow> u8 list \<times> ('d, 't) vfs" where
  "pagecache_overlay_read r off buf s =
     (if buf = [] \<or> \<not> pagecache_inode_supported (node s r) then (buf, s)
      else fold (\<lambda>(page_off, in_page, done, chunk) (buf, s).
             case pagecache_find s r page_off of
               None \<Rightarrow> (buf, s)
             | Some i \<Rightarrow> (put_at done (mem_get (pc_pa (pagecache s ! i) + of_nat in_page) chunk s) buf, pagecache_touch_tick i s))
             (pieces off 0 (length buf)) (buf, s))"

definition pagecache_notify_write :: "('d, 't) env \<Rightarrow> iref \<Rightarrow> u64 \<Rightarrow> u8 list \<Rightarrow> ('d, 't) vfs \<Rightarrow> ('d, 't) vfs" where
  "pagecache_notify_write E r off src s =
     (if src = [] \<or> \<not> pagecache_inode_supported (node s r) then s
      else
        let s1 = fold (on_hit r (\<lambda>i in_page done chunk s.
                   upd_pc i (\<lambda>e. e\<lparr>pc_dirty := True\<rparr>)
                     (mem_put (pc_pa (pagecache s ! i) + of_nat in_page) (take chunk (drop done src)) s)))
                   (pieces off 0 (length src)) s
        in pagecache_maybe_writeback_pressure E (grow r (off + of_nat (length src)) s1))"

definition pagecache_mark_dirty :: "('d, 't) env \<Rightarrow> iref \<Rightarrow> u64 \<Rightarrow> nat \<Rightarrow> ('d, 't) vfs \<Rightarrow> ('d, 't) vfs" where
  "pagecache_mark_dirty E r off len s =
     (if len = 0 \<or> \<not> pagecache_inode_supported (node s r) then s
      else pagecache_maybe_writeback_pressure E
             (fold (on_hit r (\<lambda>i _ _ _ s. upd_pc i (\<lambda>e. e\<lparr>pc_dirty := True\<rparr>) s)) (pieces off 0 len) s))"

end
