(* ===== verification/Memfs.thy ===== *)
theory Memfs
  imports PageCache
begin

text \<open>
  The file system in memory, \<^verbatim>\<open>src/kernel/fs.c\<close>: the pool of inodes, directories as lists of children, files and devices,
  the partitions of a disk, and the devices that come and go at run time. A function that returns an inode or null,
  or true or false, is an operation that fails for null or false.
\<close>

section \<open>The pool and the mount table\<close>

definition inode_alloc :: "u8 list \<Rightarrow> inode_type \<Rightarrow> ('d, 't, iref) vop" where
  "inode_alloc name t s =
     (case find (\<lambda>i. i_type (ino_pool s ! i) = INODE_FREE) [0..<length (ino_pool s)] of
        None \<Rightarrow> (None, s)
      | Some i \<Rightarrow> (Some (Pool i), upd_node (Pool i) (\<lambda>_. inode_zero\<lparr>i_name := name_of name, i_type := t\<rparr>) s))"

definition inode_free :: "iref \<Rightarrow> ('d, 't) vfs \<Rightarrow> ('d, 't) vfs" where
  "inode_free r s =
     upd_node r (\<lambda>_. inode_zero) (if i_type (node s r) = INODE_FILE then pagecache_invalidate_inode r s else s)"

definition mount_find_by_point :: "('d, 't) vfs \<Rightarrow> iref \<Rightarrow> nat option" where \<comment> \<open>an index into the table\<close>
  "mount_find_by_point s r =
     find (\<lambda>i. mnt_used (mount_table s ! i) \<and> mnt_point (mount_table s ! i) = Some r) [0..<length (mount_table s)]"

definition mount_is_active :: "('d, 't) vfs \<Rightarrow> iref \<Rightarrow> bool" where
  "mount_is_active s r \<longleftrightarrow> mount_find_by_point s r \<noteq> None"

definition mount_alloc_entry :: "('d, 't) vfs \<Rightarrow> nat option" where
  "mount_alloc_entry s = find (\<lambda>i. \<not> mnt_used (mount_table s ! i)) [0..<length (mount_table s)]"

definition mount_uses_source_dev :: "('d, 't) vfs \<Rightarrow> dev_kind \<Rightarrow> bool" where
  "mount_uses_source_dev s k \<longleftrightarrow> (\<exists>e \<in> set (mount_table s). mnt_used e \<and> mnt_source e = k)"

section \<open>Directories\<close>

definition dir_add_child :: "iref \<Rightarrow> iref \<Rightarrow> ('d, 't, unit) vop" where
  "dir_add_child dir child =
     seq (node_pre dir (\<lambda>n. \<not> (i_type n \<noteq> INODE_DIR \<or> length (i_children n) \<ge> DIR_MAX_CHILDREN))) (\<lambda>_.
     seq (modify (upd_node dir (\<lambda>n. n\<lparr>i_children := i_children n @ [child]\<rparr>))) (\<lambda>_.
     modify (upd_node child (\<lambda>n. n\<lparr>i_parent := Some dir\<rparr>))))"

definition dir_remove_child :: "iref \<Rightarrow> iref \<Rightarrow> ('d, 't, unit) vop" where
  "dir_remove_child dir child =
     seq (node_pre dir (\<lambda>n. i_type n = INODE_DIR)) (\<lambda>_.
     seq (node_pre dir (\<lambda>n. child \<in> set (i_children n))) (\<lambda>_.
     seq (modify (upd_node dir (\<lambda>n. n\<lparr>i_children := remove1 child (i_children n)\<rparr>))) (\<lambda>_.
     modify (upd_node child (\<lambda>n. n\<lparr>i_parent := None\<rparr>)))))"

definition dir_find_child :: "('d, 't) vfs \<Rightarrow> iref \<Rightarrow> u8 list \<Rightarrow> iref option" where
  "dir_find_child s dir name =
     (if i_type (node s dir) \<noteq> INODE_DIR then None
      else find (\<lambda>c. i_name (node s c) = name) (i_children (node s dir)))"

text \<open>\<^verbatim>\<open>if (parent) { if (!dir_add_child(parent, d)) { inode_free(d); return 0; } } return d;\<close>\<close>

definition enter_dir :: "iref option \<Rightarrow> iref \<Rightarrow> ('d, 't, iref) vop" where
  "enter_dir parent d =
     (case parent of None \<Rightarrow> ret d | Some p \<Rightarrow> seq (on_fail (inode_free d) (dir_add_child p d)) (\<lambda>_. ret d))"

definition mk_dir :: "iref option \<Rightarrow> u8 list \<Rightarrow> ('d, 't, iref) vop" where
  "mk_dir parent name = seq (inode_alloc name INODE_DIR) (enter_dir parent)"

section \<open>Files\<close>

abbreviation (input) FILE_CAPACITY :: u64 where "FILE_CAPACITY \<equiv> 4096"

definition pm_alloc :: "u64 \<Rightarrow> ('d, 't, u64) vop" where \<comment> \<open>pmm_alloc(bytes, 16), fails for null\<close>
  "pm_alloc bytes s = (case pmm_alloc bytes 16 (pm s) of (p, x) \<Rightarrow> (if p = 0 then None else Some p, s\<lparr>pm := x\<rparr>))"

definition mk_file :: "iref option \<Rightarrow> u8 list \<Rightarrow> u64 \<Rightarrow> u64 \<Rightarrow> bool \<Rightarrow> bool \<Rightarrow> ('d, 't, iref) vop" where
  "mk_file parent name data sz executable writable =
     seq (inode_alloc name INODE_FILE) (\<lambda>f.
     seq (if data \<noteq> 0 \<and> sz \<noteq> 0 then modify (upd_node f (\<lambda>n. n\<lparr>i_data := data, i_size := sz, i_capacity := sz\<rparr>))
          else
            seq (modify (upd_node f (\<lambda>n. n\<lparr>i_capacity := FILE_CAPACITY\<rparr>))) (\<lambda>_.
            seq (on_fail (inode_free f) (pm_alloc FILE_CAPACITY)) (\<lambda>p.
            modify (upd_node f (\<lambda>n. n\<lparr>i_data := p, i_size := 0\<rparr>))))) (\<lambda>_.
     seq (modify (upd_node f (\<lambda>n. n\<lparr>i_executable := executable, i_writable := writable\<rparr>))) (\<lambda>_.
     enter_dir parent f)))"

text \<open>The text is at an address like any other data; \<open>len\<close> is its \<^verbatim>\<open>strlen\<close>.\<close>

definition mk_text_file :: "iref option \<Rightarrow> u8 list \<Rightarrow> u64 \<Rightarrow> u64 \<Rightarrow> bool \<Rightarrow> ('d, 't, iref) vop" where
  "mk_text_file parent name addr len writable =
     seq (check (addr \<noteq> 0)) (\<lambda>_. mk_file parent name addr len False writable)"

text \<open>The loop that doubles the capacity; it starts at 1 or more, so 24 rounds reach the maximum.\<close>

abbreviation (input) MEMFS_MAX :: u64 where "MEMFS_MAX \<equiv> 16 * 1024 * 1024"

primrec grow_cap :: "nat \<Rightarrow> u64 \<Rightarrow> u64 \<Rightarrow> u64" where
  "grow_cap 0 need cap = cap"
| "grow_cap (Suc fuel) need cap =
     (if \<not> cap < need then cap else if cap \<ge> MEMFS_MAX div 2 then MEMFS_MAX else grow_cap fuel need (cap * 2))"

definition memfs_ensure_capacity :: "iref \<Rightarrow> u64 \<Rightarrow> ('d, 't, unit) vop" where
  "memfs_ensure_capacity r need =
     seq (gets (\<lambda>s. node s r)) (\<lambda>n.
     seq (check (\<not> (i_fs_kind n \<noteq> FS_KIND_MEM \<or> i_type n \<noteq> INODE_FILE \<or> \<not> i_writable n \<or> i_data n = 0))) (\<lambda>_.
       if need \<le> i_capacity n then ret ()
       else
         seq (check (\<not> need > MEMFS_MAX)) (\<lambda>_.
         let cap = grow_cap 25 need (if i_capacity n \<noteq> 0 then i_capacity n else FILE_CAPACITY) in
         seq (check (\<not> (cap < need \<or> cap > MEMFS_MAX))) (\<lambda>_.
         seq (pm_alloc cap) (\<lambda>p.
         seq (modify (mem_put p (replicate (unat cap) 0))) (\<lambda>_.
         seq (if i_size n \<noteq> 0 then modify (\<lambda>s. mem_put p (mem_get (i_data n) (unat (i_size n)) s) s) else ret ()) (\<lambda>_.
         modify (upd_node r (\<lambda>n. n\<lparr>i_data := p, i_capacity := cap\<rparr>))))))))) "

section \<open>Devices\<close>

definition on_dev :: "('d \<Rightarrow> 'a \<times> 'd) \<Rightarrow> ('d, 't, 'a) vop" where \<comment> \<open>a call of a disk driver\<close>
  "on_dev f s = (case f (dev (e4 s)) of (r, d) \<Rightarrow> (Some r, upd_e4 (\<lambda>x. x\<lparr>dev := d\<rparr>) s))"

text \<open>The three functions that pick a driver are copies of those of the block cache.\<close>

definition dev_block_ready_kind :: "('d, 't) env \<Rightarrow> dev_kind \<Rightarrow> ('d, 't, bool) vop" where
  "dev_block_ready_kind E kind = on_dev (backend_ready (drv E) kind)"

definition dev_block_capacity_sectors :: "('d, 't) env \<Rightarrow> dev_kind \<Rightarrow> ('d, 't) vfs \<Rightarrow> u64" where
  "dev_block_capacity_sectors E kind s =
     (let D = drv E; sidx = sata_index_for_kind kind; d = dev (e4 s) in
      if kind = DEV_VDA then virtio_blk_capacity_sectors D d
      else if sidx \<ge> 0 then ahci_disk_capacity_sectors D (nat sidx) d
      else case nvme_kind_decode kind of
        Some (nctrl, nsid) \<Rightarrow> nvme_ns_capacity_sectors512 D nctrl nsid d
      | None \<Rightarrow> 0)"

text \<open>A read of a sector into the buffer \<open>buf\<close>; the writing uses are in the formatter.\<close>

definition dev_block_rw_sector :: "('d, 't) env \<Rightarrow> dev_kind \<Rightarrow> u64 \<Rightarrow> u8 list \<Rightarrow> bool \<Rightarrow> ('d, 't, u8 list) vop" where
  "dev_block_rw_sector E kind lba buf wr =
     seq (on_dev (\<lambda>d. case backend_rw (drv E) kind lba buf wr d of (r, buf', d') \<Rightarrow> ((r, buf'), d'))) (\<lambda>(r, buf'). seq (check (r = 0)) (\<lambda>_. ret buf'))"

definition mk_dev :: "('d, 't) env \<Rightarrow> iref option \<Rightarrow> u8 list \<Rightarrow> dev_kind \<Rightarrow> bool \<Rightarrow> ('d, 't, iref) vop" where
  "mk_dev E parent name kind writable =
     seq (inode_alloc name INODE_DEV) (\<lambda>d.
     seq (modify (upd_node d (\<lambda>n. n\<lparr>i_dev_kind := kind, i_lba_start := 0, i_lba_count := 0, i_writable := writable,
            i_executable := False, i_data := 0, i_size := 0, i_capacity := 0\<rparr>))) (\<lambda>_.
     seq (if dev_kind_is_block kind then dev_block_ready_kind E kind else ret False) (\<lambda>ready.
     seq (if ready then
            modify (\<lambda>s. let sectors = dev_block_capacity_sectors E kind s; cap = sectors * 512 in
              upd_node d (\<lambda>n. n\<lparr>i_lba_count := sectors, i_size := cap, i_capacity := cap\<rparr>) s)
          else ret ()) (\<lambda>_.
     enter_dir parent d))))"

definition mk_dev_part :: "('d, 't) env \<Rightarrow> iref \<Rightarrow> dev_kind \<Rightarrow> u8 list \<Rightarrow> u64 \<Rightarrow> u64 \<Rightarrow> ('d, 't, iref) vop" where
  "mk_dev_part E parent base_kind name lba_start lba_count =
     seq (check (\<not> lba_count = 0)) (\<lambda>_.
     seq (dev_block_ready_kind E base_kind) (\<lambda>ready.
     seq (check ready) (\<lambda>_.
     seq (gets (dev_block_capacity_sectors E base_kind)) (\<lambda>disk_cap.
     seq (check (\<not> (lba_start \<ge> disk_cap \<or> lba_count > disk_cap - lba_start))) (\<lambda>_.
     seq (mk_dev E (Some parent) name base_kind True) (\<lambda>d.
     seq (modify (upd_node d (\<lambda>n. n\<lparr>i_lba_start := lba_start, i_lba_count := lba_count, i_size := lba_count * 512,
            i_capacity := lba_count * 512\<rparr>))) (\<lambda>_.
     ret d)))))))"

section \<open>Names of devices\<close>

function dec_rev :: "u32 \<Rightarrow> u8 list" where \<comment> \<open>\<^verbatim>\<open>tmp\<close>, which has room for every value\<close>
  "dec_rev v = (if v > 0 then (48 + ucast (v mod 10)) # dec_rev (v div 10) else [])"
  by pat_completeness auto
termination
  by (relation "measure unat") (auto simp: unat_div unat_gt_0 word_gt_0)

declare dec_rev.simps [simp del]

definition u32_to_dec :: "u32 \<Rightarrow> nat \<Rightarrow> u8 list option" where
  "u32_to_dec v outsz =
     (if outsz = 0 then None
      else if v = 0 then (if outsz < 2 then None else Some [48])
      else if length (dec_rev v) + 1 > outsz then None
      else Some (rev (dec_rev v)))"

definition make_part_name :: "u8 list \<Rightarrow> u32 \<Rightarrow> nat \<Rightarrow> u8 list option" where
  "make_part_name base pnum outsz =
     (let needs_p = (base \<noteq> [] \<and> 48 \<le> last base \<and> last base \<le> 57) in
      case u32_to_dec pnum 12 of
        None \<Rightarrow> None
      | Some num \<Rightarrow>
          if length base + (if needs_p then 1 else 0) + length num + 1 > outsz then None
          else Some (base @ (if needs_p then [112] else []) @ num))"

definition make_nvme_name :: "u32 \<Rightarrow> u32 \<Rightarrow> nat \<Rightarrow> u8 list option" where
  "make_nvme_name ctrl nsid outsz =
     (if outsz = 0 \<or> nsid = 0 then None
      else case (u32_to_dec ctrl 12, u32_to_dec nsid 12) of
        (Some c, Some n) \<Rightarrow>
          if 4 + length c + 1 + length n + 1 > outsz then None
          else Some ([110, 118, 109, 101] @ c @ [110] @ n)
      | _ \<Rightarrow> None)"

section \<open>Partitions\<close>

abbreviation (input) DEV_PARTS_PER_DISK_MAX :: nat where "DEV_PARTS_PER_DISK_MAX \<equiv> 16"

text \<open>A device for a partition; the result is whether there is one.\<close>

definition part_dev :: "('d, 't) env \<Rightarrow> iref \<Rightarrow> dev_kind \<Rightarrow> u8 list \<Rightarrow> nat \<Rightarrow> u64 \<Rightarrow> u64 \<Rightarrow> ('d, 't, bool) vop" where
  "part_dev E dir kind base i first count =
     (case make_part_name base (of_nat i + 1) (INODE_NAME_MAX + 1) of
        None \<Rightarrow> ret False
      | Some pname \<Rightarrow> seq (attempt (mk_dev_part E dir kind pname first count)) (\<lambda>d. ret (d \<noteq> None)))"

definition gpt_entry :: "('d, 't) env \<Rightarrow> iref \<Rightarrow> dev_kind \<Rightarrow> u8 list \<Rightarrow> nat \<Rightarrow> u8 list \<Rightarrow> ('d, 't, bool) vop" where
  "gpt_entry E dir kind base i e =
     (let first_lba = rd_le64 e 32; last_lba = rd_le64 e 40 in
      if \<forall>b \<in> set (take 16 e). b = 0 then ret False
      else if first_lba = 0 \<or> last_lba < first_lba then ret False
      else part_dev E dir kind base i first_lba (last_lba - first_lba + 1))"

text \<open>The loop over the entries of a GPT. \<open>mbr\<close> and \<open>sec0\<close> are the buffers of the function; an entry that crosses a
  sector is put together in \<open>mbr\<close>. The result is \<open>mbr\<close> and the number of devices made.\<close>

fun gpt_entries :: "('d, 't) env \<Rightarrow> iref \<Rightarrow> dev_kind \<Rightarrow> u8 list \<Rightarrow> u64 \<Rightarrow> nat \<Rightarrow> nat list \<Rightarrow> u8 list \<Rightarrow> u8 list \<Rightarrow> nat
    \<Rightarrow> ('d, 't, u8 list \<times> nat) vop" where
  "gpt_entries E dir kind base ent_lba ent_sz [] mbr sec0 created = ret (mbr, created)"
| "gpt_entries E dir kind base ent_lba ent_sz (i # is) mbr sec0 created =
     (if \<not> created < DEV_PARTS_PER_DISK_MAX then ret (mbr, created)
      else
        let off = i * ent_sz; lba = ent_lba + of_nat (off div 512); inn = off mod 512;
            go = (\<lambda>e mbr sec0.
              seq (gpt_entry E dir kind base i e) (\<lambda>made.
              gpt_entries E dir kind base ent_lba ent_sz is mbr sec0 (if made then created + 1 else created))) in
        seq (attempt (dev_block_rw_sector E kind lba sec0 False)) (\<lambda>x.
          case x of
            None \<Rightarrow> ret (mbr, created)
          | Some sec0 \<Rightarrow>
              if inn + ent_sz \<le> 512 then go (drop inn sec0) mbr sec0
              else
                seq (attempt (dev_block_rw_sector E kind (lba + 1) (replicate 512 0) False)) (\<lambda>y.
                  case y of
                    None \<Rightarrow> ret (mbr, created)
                  | Some sec1 \<Rightarrow>
                      let mbr = put_at 0 (drop inn sec0 @ take (ent_sz - (512 - inn)) sec1) mbr in go mbr mbr sec0)))"

fun mbr_entries :: "('d, 't) env \<Rightarrow> iref \<Rightarrow> dev_kind \<Rightarrow> u8 list \<Rightarrow> u8 list \<Rightarrow> nat list \<Rightarrow> nat \<Rightarrow> ('d, 't, unit) vop" where
  "mbr_entries E dir kind base mbr [] created = ret ()"
| "mbr_entries E dir kind base mbr (i # is) created =
     (if \<not> created < DEV_PARTS_PER_DISK_MAX then ret ()
      else
        let e = drop (446 + i * 16) mbr; t = e ! 4; first = rd_le32 e 8; count = rd_le32 e 12 in
        if t = 0 \<or> t = 0xEE \<or> first = 0 \<or> count = 0 then mbr_entries E dir kind base mbr is created
        else
          seq (part_dev E dir kind base i (ucast first) (ucast count)) (\<lambda>made.
          mbr_entries E dir kind base mbr is (if made then created + 1 else created)))"

text \<open>The header of a GPT, if the disk has one: where its entries are, how many are read, the size of each.\<close>

definition gpt_header :: "('d, 't) env \<Rightarrow> dev_kind \<Rightarrow> u8 list \<Rightarrow> ('d, 't, u8 list option) vop" where
  "gpt_header E kind mbr =
     (if \<exists>i \<in> set [0..<4]. mbr ! (446 + i * 16 + 4) = 0xEE then
        seq (attempt (dev_block_rw_sector E kind 1 (replicate 512 0) False)) (\<lambda>x.
          ret (case x of
             Some sec0 \<Rightarrow> if take 8 sec0 = [69, 70, 73, 32, 80, 65, 82, 84] then Some sec0 else None \<comment> \<open>EFI PART\<close>
           | None \<Rightarrow> None))
      else ret None)"

definition probe_partitions :: "('d, 't) env \<Rightarrow> iref \<Rightarrow> dev_kind \<Rightarrow> u8 list \<Rightarrow> ('d, 't, unit) vop" where
  "probe_partitions E dir kind base =
     seq (check (dev_kind_is_block kind)) (\<lambda>_.
     seq (dev_block_ready_kind E kind) (\<lambda>ready.
     seq (check ready) (\<lambda>_.
     seq (dev_block_rw_sector E kind 0 (replicate 512 0) False) (\<lambda>mbr.
     seq (check (\<not> (mbr ! 510 \<noteq> 0x55 \<or> mbr ! 511 \<noteq> 0xAA))) (\<lambda>_.
     seq (gpt_header E kind mbr) (\<lambda>h.
     seq (case h of
            None \<Rightarrow> ret (mbr, 0)
          | Some sec0 \<Rightarrow>
              let ent_lba = rd_le64 sec0 72; ent_cnt = min (unat (rd_le32 sec0 80)) 128; ent_sz = unat (rd_le32 sec0 84) in
              if 128 \<le> ent_sz \<and> ent_sz \<le> 512 then gpt_entries E dir kind base ent_lba ent_sz [0..<ent_cnt] mbr sec0 0
              else ret (mbr, 0)) (\<lambda>(mbr, created).
       if created > 0 then ret () else mbr_entries E dir kind base mbr [0..<4] 0)))))))"

section \<open>Devices that come and go\<close>

text \<open>A byte of a name, with the zeros behind its end.\<close>

definition name_at :: "u8 list \<Rightarrow> nat \<Rightarrow> u8" where "name_at nm i = (if i < length nm then nm ! i else 0)"

text \<open>The loop that removes and frees the children whose name has a property. A round goes on to the next index or
  shortens the list, so there are as many rounds as children.\<close>

primrec drop_from :: "iref \<Rightarrow> (u8 list \<Rightarrow> bool) \<Rightarrow> nat \<Rightarrow> nat \<Rightarrow> ('d, 't) vfs \<Rightarrow> ('d, 't) vfs" where
  "drop_from dir P 0 j s = s"
| "drop_from dir P (Suc fuel) j s =
     (let cs = i_children (node s dir) in
      if \<not> j < length cs then s
      else if P (i_name (node s (cs ! j))) then
        (case dir_remove_child dir (cs ! j) s of
           (Some _, s1) \<Rightarrow> drop_from dir P fuel j (inode_free (cs ! j) s1)
         | (None, s1) \<Rightarrow> drop_from dir P fuel (Suc j) s1)
      else drop_from dir P fuel (Suc j) s)"

definition drop_children :: "iref \<Rightarrow> (u8 list \<Rightarrow> bool) \<Rightarrow> ('d, 't) vfs \<Rightarrow> ('d, 't) vfs" where
  "drop_children dir P s = drop_from dir P (length (i_children (node s dir))) 0 s"

definition is_digit19 :: "u8 \<Rightarrow> bool" where "is_digit19 c \<longleftrightarrow> 49 \<le> c \<and> c \<le> 57"

definition sata_part :: "u8 \<Rightarrow> u8 list \<Rightarrow> bool" where \<comment> \<open>the test on the name of a child, for the disk \<^verbatim>\<open>sd<c>\<close>\<close>
  "sata_part c nm \<longleftrightarrow> name_at nm 0 = 115 \<and> name_at nm 1 = 100 \<and> name_at nm 2 = c \<and> is_digit19 (name_at nm 3)"

definition nvme_node :: "u8 list \<Rightarrow> u8 list \<Rightarrow> bool" where
  "nvme_node name nm \<longleftrightarrow> take (length name) nm = name \<and>
     (name_at nm (length name) = 0 \<or> name_at nm (length name) = 112 \<and> is_digit19 (name_at nm (length name + 1)))"

text \<open>A disk that has appeared: its device, and its partitions when the device could be made.\<close>

definition new_disk :: "('d, 't) env \<Rightarrow> iref \<Rightarrow> u8 list \<Rightarrow> dev_kind \<Rightarrow> ('d, 't, unit) vop" where
  "new_disk E dir name kind =
     seq (attempt (mk_dev E (Some dir) name kind True)) (\<lambda>n.
       case n of None \<Rightarrow> ret () | Some _ \<Rightarrow> seq (attempt (probe_partitions E dir kind name)) (\<lambda>_. ret ()))"

definition sync_sata :: "('d, 't) env \<Rightarrow> iref \<Rightarrow> nat \<Rightarrow> ('d, 't, unit) vop" where
  "sync_sata E dir i =
     (let c = 97 + of_nat i; name = [115, 100, c]; k = DEV_SDA + i in
      seq (on_dev (ahci_disk_present (drv E) i)) (\<lambda>present.
        if \<not> present then
          seq (gets (\<lambda>s. mount_uses_source_dev s k)) (\<lambda>used.
            if used then ret ()
            else
              seq (modify (drop_children dir (sata_part c))) (\<lambda>_.
              seq (gets (\<lambda>s. dir_find_child s dir name)) (\<lambda>n.
                case n of
                  None \<Rightarrow> ret ()
                | Some n \<Rightarrow>
                    seq (attempt (dir_remove_child dir n)) (\<lambda>ok.
                      if ok \<noteq> None then modify (inode_free n) else ret ()))))
        else
          seq (gets (\<lambda>s. dir_find_child s dir name)) (\<lambda>n.
            if n \<noteq> None then ret () else new_disk E dir name k)))"

definition sync_nvme :: "('d, 't) env \<Rightarrow> iref \<Rightarrow> nat \<times> nat \<Rightarrow> ('d, 't, unit) vop" where
  "sync_nvme E dir cn =
     (let k = nvme_kind_encode (fst cn) (snd cn) in
      case make_nvme_name (of_nat (fst cn)) (of_nat (snd cn)) (INODE_NAME_MAX + 1) of
        None \<Rightarrow> ret ()
      | Some name \<Rightarrow>
          if k = DEV_NONE then ret ()
          else
            seq (gets (\<lambda>s. nvme_ns_present (drv E) (fst cn) (snd cn) (dev (e4 s)))) (\<lambda>present.
              if \<not> present then
                seq (gets (\<lambda>s. mount_uses_source_dev s k)) (\<lambda>used.
                  if used then ret () else modify (drop_children dir (nvme_node name)))
              else
                seq (gets (\<lambda>s. dir_find_child s dir name)) (\<lambda>n.
                  if n \<noteq> None then ret () else new_disk E dir name k)))"

definition nvme_ids :: "u32 \<Rightarrow> (nat \<times> nat) list" where \<comment> \<open>the two nested loops\<close>
  "nvme_ids nctrls = List.product [0..<min (unat nctrls) NVME_MAX_CONTROLLERS] [1..<NVME_MAX_NAMESPACES + 1]"

definition fs_sync_hotplug_block_devs :: "('d, 't) env \<Rightarrow> ('d, 't, unit) vop" where
  "fs_sync_hotplug_block_devs E =
     seq (gets dev_root_inode) (\<lambda>dr.
       case dr of
         None \<Rightarrow> ret ()
       | Some dir \<Rightarrow>
           seq (gets (\<lambda>s. i_type (node s dir))) (\<lambda>t.
             if t \<noteq> INODE_DIR then ret ()
             else
               seq (modify (upd_e4 (\<lambda>x. x\<lparr>dev := nvme_poll E (ahci_poll E (dev x))\<rparr>))) (\<lambda>_.
               seq (gets (\<lambda>s. min (unat (ahci_disk_count E (dev (e4 s)))) 8)) (\<lambda>sata.
               seq (for_each (sync_sata E dir) [0..<sata]) (\<lambda>_.
               seq (gets (\<lambda>s. nvme_controller_count E (dev (e4 s)))) (\<lambda>nctrls.
               for_each (sync_nvme E dir) (nvme_ids nctrls)))))))"

end
