(* ===== verification/Vfs.thy ===== *)
theory Vfs
  imports Memfs
begin

text \<open>
  The file layer, \<^verbatim>\<open>src/kernel/fs.c\<close>: looking up paths through the file system in memory and the mounted ext4, the calls
  on paths and open files, mounting, and the file system at boot. A call that returns an \<^verbatim>\<open>int\<close> is an
  operation that fails for \<^verbatim>\<open>-1\<close>; those that can return an error of a transaction have the code as their result.
\<close>

section \<open>Looking up a path\<close>

text \<open>One component: at most 31 bytes up to a slash, then all the slashes behind it. A longer name is looked up in
  pieces, as the code does. The flag tells the last component.\<close>

definition next_part :: "u8 list \<Rightarrow> u8 list \<times> u8 list" where
  "next_part p =
     (let part = take INODE_NAME_MAX (takeWhile (\<lambda>c. c \<noteq> SLASH) p)
      in (part, dropWhile (\<lambda>c. c = SLASH) (drop (length part) p)))"

lemma next_part_shorter:
  assumes "(part, q) = next_part p" "p \<noteq> []"
  shows "length q < length p"
proof (cases "hd p = SLASH")
  case True
  then have "q = dropWhile (\<lambda>c. c = SLASH) (tl p)" using assms by (cases p) (simp_all add: next_part_def Let_def)
  then have "length q \<le> length (tl p)" by (simp only: length_dropWhile_le)
  then show ?thesis using assms(2) by (cases p) simp_all
next
  case False
  then have part: "0 < length part" and q: "q = dropWhile (\<lambda>c. c = SLASH) (drop (length part) p)"
    using assms by (cases p, simp_all add: next_part_def Let_def)+
  have "length q \<le> length (drop (length part) p)" unfolding q by (rule length_dropWhile_le)
  then show ?thesis using part assms(2) by (cases p; cases part) auto
qed

function path_parts :: "u8 list \<Rightarrow> (u8 list \<times> bool) list" where
  "path_parts p =
     (if p = [] then []
      else case next_part p of (part, q) \<Rightarrow> if part = [] then path_parts q else (part, q = []) # path_parts q)"
  by pat_completeness auto
termination
  by (relation "measure length") (simp_all add: next_part_shorter)

declare path_parts.simps [simp del]

definition fs_lookup_child_mode ::
    "('d, 't) env \<Rightarrow> (u8 list \<Rightarrow> ('d, 't, iref) vop) \<Rightarrow> iref \<Rightarrow> u8 list \<Rightarrow> bool \<Rightarrow> ('d, 't, iref) vop" where
  "fs_lookup_child_mode E lk dir name follow =
     seq (gets (\<lambda>s. node s dir)) (\<lambda>n.
     seq (check (i_type n = INODE_DIR)) (\<lambda>_.
       if is_ext4 n then (if follow then ext4_lookup_child E lk dir name else ext4_lookup_child_nofollow E dir name)
       else seq (gets (\<lambda>s. dir_find_child s dir name)) of_opt))"

primrec walk :: "('d, 't) env \<Rightarrow> (u8 list \<Rightarrow> ('d, 't, iref) vop) \<Rightarrow> bool \<Rightarrow> (u8 list \<times> bool) list \<Rightarrow> iref \<Rightarrow> ('d, 't, iref) vop" where
  "walk E lk follow [] cur = ret cur"
| "walk E lk follow (c # cs) cur =
     seq (fs_lookup_child_mode E lk cur (fst c) (\<not> snd c \<or> follow)) (walk E lk follow cs)"

definition is_dev_path :: "u8 list \<Rightarrow> bool" where \<comment> \<open>/dev, or a path below it\<close>
  "is_dev_path p \<longleftrightarrow> take 4 p = [SLASH, 100, 101, 118] \<and> (length p = 4 \<or> p ! 4 = SLASH)"

definition fs_lookup_internal :: "('d, 't) env \<Rightarrow> (u8 list \<Rightarrow> ('d, 't, iref) vop) \<Rightarrow> u8 list \<Rightarrow> bool \<Rightarrow> ('d, 't, iref) vop" where
  "fs_lookup_internal E lk path follow =
     seq (gets root_inode) (\<lambda>r.
     seq (of_opt r) (\<lambda>root.
     seq (if is_dev_path path then fs_sync_hotplug_block_devs E else ret ()) (\<lambda>_.
       if path = [SLASH] then ret root
       else walk E lk follow (path_parts (if path \<noteq> [] \<and> hd path = SLASH then tl path else path)) root)))"

text \<open>Following a link looks up a path again. The driver allows eight nested links, so nine nested calls are enough;
  \<open>lookup_fuel_enough\<close> in \<open>FsTree\<close> shows it.\<close>

primrec fs_lookup_fuel :: "('d, 't) env \<Rightarrow> nat \<Rightarrow> bool \<Rightarrow> u8 list \<Rightarrow> ('d, 't, iref) vop" where
  "fs_lookup_fuel E 0 follow path = fail"
| "fs_lookup_fuel E (Suc k) follow path = fs_lookup_internal E (fs_lookup_fuel E k True) path follow"

definition fs_lookup :: "('d, 't) env \<Rightarrow> u8 list \<Rightarrow> ('d, 't, iref) vop" where
  "fs_lookup E = fs_lookup_fuel E 9 True"

definition fs_lookup_nofollow :: "('d, 't) env \<Rightarrow> u8 list \<Rightarrow> ('d, 't, iref) vop" where
  "fs_lookup_nofollow E = fs_lookup_fuel E 9 False"

text \<open>The name behind the last slash and the directory before it. The code copies the name into a buffer of 32 bytes;
  the system calls cut every component of a path to 31 bytes before (\<^verbatim>\<open>normalize_abs_path\<close> of \<^verbatim>\<open>src/kernel/syscall.c\<close>), and a longer
  name, which the buffer could not hold, fails here.\<close>

definition lookup_parent :: "('d, 't) env \<Rightarrow> u8 list \<Rightarrow> ('d, 't, u8 list \<times> iref) vop" where
  "lookup_parent E path =
     seq (check (\<not> (path = [] \<or> hd path \<noteq> SLASH))) (\<lambda>_.
     let leaf = rev (takeWhile (\<lambda>c. c \<noteq> SLASH) (rev path)); parent_len = length path - length leaf - 1 in
     if parent_len = 0 then
       seq (check (length leaf \<le> INODE_NAME_MAX)) (\<lambda>_.
       seq (gets root_inode) (\<lambda>r.
       seq (of_opt r) (\<lambda>root. ret (leaf, root))))
     else
       seq (check (\<not> parent_len \<ge> MAX_PATH)) (\<lambda>_.
       seq (check (length leaf \<le> INODE_NAME_MAX)) (\<lambda>_.
       seq (fs_lookup E (take parent_len path)) (\<lambda>parent. ret (leaf, parent)))))"

text \<open>The directory a new entry goes to: \<^verbatim>\<open>if (!parent || parent->type != INODE_DIR || name[0] == 0) return ...\<close>.\<close>

definition target_dir :: "('d, 't) env \<Rightarrow> u8 list \<Rightarrow> ('d, 't, u8 list \<times> iref) vop" where
  "target_dir E path =
     seq (lookup_parent E path) (\<lambda>(name, parent).
     seq (node_pre parent (\<lambda>n. \<not> (i_type n \<noteq> INODE_DIR \<or> name = []))) (\<lambda>_. ret (name, parent)))"

section \<open>Status\<close>

definition fs_is_tty :: "inode \<Rightarrow> bool" where
  "fs_is_tty n \<longleftrightarrow> i_type n = INODE_DEV \<and> i_dev_kind n = DEV_TTY"

definition fs_mode_from_inode :: "inode \<Rightarrow> u32" where
  "fs_mode_from_inode n =
     (case i_type n of
        INODE_DIR \<Rightarrow> 0x4000 OR (if i_writable n then 0x1ED else 0x16D)
      | INODE_FILE \<Rightarrow> 0x8000 OR (if i_writable n then 0x1A4 else 0x124) OR (if i_executable n then 0x49 else 0)
      | _ \<Rightarrow> 0x2000 OR (if i_writable n then 0x1B6 else 0x124))"

definition fs_fill_stat :: "('d, 't) env \<Rightarrow> iref \<Rightarrow> ('d, 't, fu_stat) vop" where
  "fs_fill_stat E r =
     seq (gets (\<lambda>s. node s r)) (\<lambda>n.
       if is_ext4 n then ext4_lstat E r
       else ret \<lparr>st_type = type_code (i_type n), st_mode = fs_mode_from_inode n, st_size = i_size n, st_nlink = 1,
         st_fs_kind = 0\<rparr>)"

definition fs_lstat :: "('d, 't) env \<Rightarrow> u8 list \<Rightarrow> ('d, 't, fu_stat) vop" where
  "fs_lstat E path = seq (fs_lookup_nofollow E path) (fs_fill_stat E)"

definition fs_stat :: "('d, 't) env \<Rightarrow> u8 list \<Rightarrow> ('d, 't, fu_stat) vop" where
  "fs_stat E path = seq (fs_lookup E path) (fs_fill_stat E)"

section \<open>Mounting\<close>

definition mount_zero :: mount_entry where
  "mount_zero = \<lparr>mnt_used = False, mnt_point = None, mnt_kind = FS_KIND_MEM, mnt_source = DEV_NONE\<rparr>"

definition fs_mount :: "('d, 't) env \<Rightarrow> u8 list \<Rightarrow> u8 list \<Rightarrow> u8 list \<Rightarrow> u64 \<Rightarrow> ('d, 't, unit) vop" where
  "fs_mount E source target fstype flags =
     seq (check (\<not> flags \<noteq> 0)) (\<lambda>_.
     seq (check (fstype = [101, 120, 116, 52])) (\<lambda>_. \<comment> \<open>ext4\<close>
     seq (attempt (fs_lookup E source)) (\<lambda>src.
     seq (attempt (fs_lookup E target)) (\<lambda>mnt.
     seq (of_opt src) (\<lambda>src.
     seq (gets (\<lambda>s. node s src)) (\<lambda>sn.
     seq (check (\<not> (i_type sn \<noteq> INODE_DEV \<or> \<not> dev_kind_is_block (i_dev_kind sn)))) (\<lambda>_.
     seq (dev_block_ready_kind E (i_dev_kind sn)) (\<lambda>ready.
     seq (check ready) (\<lambda>_.
     seq (of_opt mnt) (\<lambda>mnt.
     seq (require (\<lambda>s. \<not> (i_type (node s mnt) \<noteq> INODE_DIR \<or> Some mnt = root_inode s))) (\<lambda>_.
     seq (node_pre mnt (\<lambda>n. \<not> (i_fs_kind n \<noteq> FS_KIND_MEM \<or> i_children n \<noteq> []))) (\<lambda>_.
     seq (require (\<lambda>s. \<not> mount_is_active s mnt)) (\<lambda>_.
     seq (gets mount_alloc_entry) (\<lambda>e.
     seq (of_opt e) (\<lambda>e.
     seq (e4op (dev_attach (drv E) sn)) (\<lambda>_.
     seq (ext4_mount E mnt src) (\<lambda>_.
     modify (\<lambda>s. s\<lparr>mount_table := (mount_table s)[e := \<lparr>mnt_used = True, mnt_point = Some mnt, mnt_kind = FS_KIND_EXT4,
       mnt_source = i_dev_kind sn\<rparr>]\<rparr>))))))))))))))))))"

definition fs_umount :: "('d, 't) env \<Rightarrow> u8 list \<Rightarrow> u64 \<Rightarrow> ('d, 't, unit) vop" where
  "fs_umount E target flags =
     seq (check (\<not> flags \<noteq> 0)) (\<lambda>_.
     seq (fs_lookup E target) (\<lambda>mnt.
     seq (node_pre mnt (\<lambda>n. i_type n = INODE_DIR)) (\<lambda>_.
     seq (gets (\<lambda>s. mount_find_by_point s mnt)) (\<lambda>e.
     seq (of_opt e) (\<lambda>e.
     seq (require (\<lambda>s. \<not> task_mount_busy E (node s) mnt target (rest s))) (\<lambda>_.
     seq (pagecache_flush_all E) (\<lambda>_.
     seq (require (\<lambda>s. mnt_kind (mount_table s ! e) = FS_KIND_EXT4)) (\<lambda>_.
     seq (ext4_unmount E mnt) (\<lambda>_.
     modify (\<lambda>s. s\<lparr>mount_table := (mount_table s)[e := mount_zero]\<rparr>))))))))))"

section \<open>Transactions\<close>

definition fs_ext4_tx_error :: "('d, 't) vfs \<Rightarrow> int" where
  "fs_ext4_tx_error s = (let err = ext4_last_error (e4 s) in if err > 0 then - err else -1)"

text \<open>\<open>tx_run\<close>: begin, the call, commit; abort unless all went well. \<open>in_tx\<close> is the pattern of the calls that return an
  \<^verbatim>\<open>int\<close>: \<^verbatim>\<open>-1\<close> when the call fails, the error of the transaction when beginning or committing does.\<close>

definition tx_run :: "('d, 't) env \<Rightarrow> ('d, 't, 'a) vop \<Rightarrow> ('d, 't, 'a) vop" where
  "tx_run E m =
     seq (e4op (ext4_tx_begin (drv E))) (\<lambda>_.
     on_fail (upd_e4 (ext4_tx_abort (drv E))) (seq m (\<lambda>x. seq (e4op (ext4_tx_commit (drv E))) (\<lambda>_. ret x))))"

definition in_tx :: "('d, 't) env \<Rightarrow> ('d, 't, unit) vop \<Rightarrow> ('d, 't, int) vop" where
  "in_tx E m =
     seq (attempt (e4op (ext4_tx_begin (drv E)))) (\<lambda>b.
       case b of
         None \<Rightarrow> gets fs_ext4_tx_error
       | Some _ \<Rightarrow>
           seq (attempt m) (\<lambda>rc.
             case rc of
               None \<Rightarrow> seq (modify (upd_e4 (ext4_tx_abort (drv E)))) (\<lambda>_. ret (-1))
             | Some _ \<Rightarrow>
                 seq (attempt (e4op (ext4_tx_commit (drv E)))) (\<lambda>c.
                   case c of
                     None \<Rightarrow> seq (modify (upd_e4 (ext4_tx_abort (drv E)))) (\<lambda>_. gets fs_ext4_tx_error)
                   | Some _ \<Rightarrow> ret 0)))"

section \<open>Creating and linking\<close>

text \<open>\<^verbatim>\<open>fs_lookup_child_mode(parent, name, false)\<close> must return null; no link is followed.\<close>

definition no_entry :: "('d, 't) env \<Rightarrow> iref \<Rightarrow> u8 list \<Rightarrow> ('d, 't, unit) vop" where
  "no_entry E parent name = not_there (fs_lookup_child_mode E (\<lambda>_. fail) parent name False)"

definition fs_create_file :: "('d, 't) env \<Rightarrow> u8 list \<Rightarrow> ('d, 't, iref) vop" where
  "fs_create_file E path =
     seq (target_dir E path) (\<lambda>(name, parent).
     seq (no_entry E parent name) (\<lambda>_.
     seq (gets (\<lambda>s. node s parent)) (\<lambda>p.
       if is_ext4 p then tx_run E (ext4_create_file E parent name)
       else mk_file (Some parent) name 0 0 False True)))"

definition fs_create_dir :: "('d, 't) env \<Rightarrow> u8 list \<Rightarrow> ('d, 't, iref) vop" where
  "fs_create_dir E path =
     seq (target_dir E path) (\<lambda>(name, parent).
     seq (no_entry E parent name) (\<lambda>_.
     seq (gets (\<lambda>s. node s parent)) (\<lambda>p.
       if is_ext4 p then tx_run E (ext4_create_dir E parent name)
       else mk_dir (Some parent) name)))"

definition fs_link :: "('d, 't) env \<Rightarrow> u8 list \<Rightarrow> u8 list \<Rightarrow> ('d, 't, int) vop" where
  "fs_link E old_path new_path =
     seq (fs_lookup_nofollow E old_path) (\<lambda>src.
     seq (node_pre src (\<lambda>n. i_type n = INODE_FILE)) (\<lambda>_.
     seq (node_pre src (\<lambda>n. \<not> i_fs_kind n = FS_KIND_MEM)) (\<lambda>_.
     seq (target_dir E new_path) (\<lambda>(name, parent).
     seq (not_there (fs_lookup_nofollow E new_path)) (\<lambda>_.
     seq (require (\<lambda>s. i_fs_kind (node s src) = i_fs_kind (node s parent))) (\<lambda>_.
     seq (node_pre src is_ext4) (\<lambda>_.
     in_tx E (ext4_link E src parent name))))))))"

definition fs_symlink :: "('d, 't) env \<Rightarrow> u8 list \<Rightarrow> u8 list \<Rightarrow> ('d, 't, int) vop" where
  "fs_symlink E target path =
     seq (check (\<not> target = [])) (\<lambda>_.
     seq (check (\<not> length target \<ge> MAX_PATH)) (\<lambda>_.
     seq (target_dir E path) (\<lambda>(name, parent).
     seq (not_there (fs_lookup_nofollow E path)) (\<lambda>_.
     seq (node_pre parent is_ext4) (\<lambda>_.
     seq (attempt (tx_run E (ext4_symlink E parent name target))) (\<lambda>n.
       case n of None \<Rightarrow> gets fs_ext4_tx_error | Some _ \<Rightarrow> ret 0))))))"

definition fs_readlink :: "('d, 't) env \<Rightarrow> u8 list \<Rightarrow> nat \<Rightarrow> ('d, 't, u8 list) vop" where
  "fs_readlink E path buflen =
     seq (fs_lookup_nofollow E path) (\<lambda>r.
     seq (node_pre r (\<lambda>n. i_type n = INODE_FILE)) (\<lambda>_.
     seq (node_pre r is_ext4) (\<lambda>_.
     ext4_readlink E r buflen)))"

section \<open>Changing, removing and renaming\<close>

definition mem_chmod :: "u32 \<Rightarrow> inode \<Rightarrow> inode" where
  "mem_chmod mode n =
     (if i_type n = INODE_FILE then
        let immutable_blob = (i_data n \<noteq> 0 \<and> i_capacity n = i_size n \<and> \<not> i_writable n)
        in n\<lparr>i_writable := (if immutable_blob then i_writable n else mode AND 0x92 \<noteq> 0), i_executable := mode AND 0x49 \<noteq> 0\<rparr>
      else n\<lparr>i_writable := mode AND 0x92 \<noteq> 0\<rparr>)"

definition fs_chmod :: "('d, 't) env \<Rightarrow> u8 list \<Rightarrow> u32 \<Rightarrow> ('d, 't, int) vop" where
  "fs_chmod E path mode =
     seq (fs_lookup_nofollow E path) (\<lambda>r.
     seq (require (\<lambda>s. \<not> Some r = root_inode s)) (\<lambda>_.
     seq (gets (\<lambda>s. node s r)) (\<lambda>n.
       if is_ext4 n then in_tx E (ext4_chmod E r (mode AND 0x1FF))
       else
         seq (check (i_type n \<noteq> INODE_FREE)) (\<lambda>_.
         seq (modify (upd_node r (mem_chmod mode))) (\<lambda>_. ret 0)))))"

text \<open>\<^verbatim>\<open>dir_remove_child(ino->parent, ino)\<close>, then \<^verbatim>\<open>inode_free\<close>.\<close>

definition mem_remove :: "iref \<Rightarrow> iref \<Rightarrow> ('d, 't, unit) vop" where
  "mem_remove parent r = seq (dir_remove_child parent r) (\<lambda>_. modify (inode_free r))"

definition fs_unlink :: "('d, 't) env \<Rightarrow> u8 list \<Rightarrow> ('d, 't, int) vop" where
  "fs_unlink E path =
     seq (fs_lookup_nofollow E path) (\<lambda>r.
     seq (gets (\<lambda>s. node s r)) (\<lambda>n.
     seq (check (i_type n = INODE_FILE)) (\<lambda>_.
     seq (of_opt (i_parent n)) (\<lambda>parent.
       if is_ext4 n then
         seq (in_tx E (ext4_unlink E r)) (\<lambda>rc.
         seq (if rc = 0 then modify (pagecache_invalidate_inode r) else ret ()) (\<lambda>_. ret rc))
       else seq (mem_remove parent r) (\<lambda>_. ret 0)))))"

definition fs_rmdir :: "('d, 't) env \<Rightarrow> u8 list \<Rightarrow> ('d, 't, int) vop" where
  "fs_rmdir E path =
     seq (fs_lookup_nofollow E path) (\<lambda>r.
     seq (gets (\<lambda>s. node s r)) (\<lambda>n.
     seq (require (\<lambda>s. \<not> (Some r = root_inode s \<or> i_type n \<noteq> INODE_DIR))) (\<lambda>_.
     seq (of_opt (i_parent n)) (\<lambda>parent.
     seq (require (\<lambda>s. \<not> mount_is_active s r)) (\<lambda>_.
       if is_ext4 n then in_tx E (ext4_rmdir E r)
       else
         seq (check (\<not> i_children n \<noteq> [])) (\<lambda>_.
         seq (mem_remove parent r) (\<lambda>_. ret 0)))))))"

text \<open>The move inside the file system in memory; when the new directory refuses the inode it goes back.\<close>

definition mem_rename :: "iref \<Rightarrow> iref \<Rightarrow> u8 list \<Rightarrow> ('d, 't, unit) vop" where
  "mem_rename r new_parent new_name =
     seq (require (\<lambda>s. \<not> (i_fs_kind (node s r) \<noteq> FS_KIND_MEM \<or> i_fs_kind (node s new_parent) \<noteq> FS_KIND_MEM))) (\<lambda>_.
     seq (node_pre new_parent (\<lambda>n. \<not> length (i_children n) \<ge> DIR_MAX_CHILDREN)) (\<lambda>_.
     seq (require (\<lambda>s. \<not> (i_type (node s r) = INODE_DIR \<and> is_above s r new_parent))) (\<lambda>_.
     seq (gets (\<lambda>s. (i_parent (node s r), i_name (node s r)))) (\<lambda>(p, old_name).
     seq (of_opt p) (\<lambda>old_parent.
     seq (dir_remove_child old_parent r) (\<lambda>_.
     seq (modify (upd_node r (\<lambda>n. n\<lparr>i_name := name_of new_name\<rparr>))) (\<lambda>_.
     on_fail (\<lambda>s. snd (dir_add_child old_parent r (upd_node r (\<lambda>n. n\<lparr>i_name := name_of old_name\<rparr>) s)))
       (dir_add_child new_parent r))))))))"

definition fs_rename :: "('d, 't) env \<Rightarrow> u8 list \<Rightarrow> u8 list \<Rightarrow> ('d, 't, int) vop" where
  "fs_rename E old_path new_path =
     seq (fs_lookup_nofollow E old_path) (\<lambda>r.
     seq (require (\<lambda>s. \<not> (Some r = root_inode s \<or> i_parent (node s r) = None))) (\<lambda>_.
     seq (require (\<lambda>s. \<not> mount_is_active s r)) (\<lambda>_.
       if old_path = new_path then ret 0
       else
         seq (not_there (fs_lookup_nofollow E new_path)) (\<lambda>_.
         seq (target_dir E new_path) (\<lambda>(name, new_parent).
         seq (gets (\<lambda>s. (node s r, node s new_parent))) (\<lambda>(n, np).
           if is_ext4 n then seq (check (is_ext4 np)) (\<lambda>_. in_tx E (ext4_rename E r new_parent name))
           else seq (mem_rename r new_parent name) (\<lambda>_. ret 0)))))))"

section \<open>Open files\<close>

definition on_rest :: "('t \<Rightarrow> 'a \<times> 't) \<Rightarrow> ('d, 't, 'a) vop" where
  "on_rest f s = (case f (rest s) of (x, t) \<Rightarrow> (Some x, s\<lparr>rest := t\<rparr>))"

primrec tty_read :: "('d, 't) env \<Rightarrow> nat \<Rightarrow> 't \<Rightarrow> u8 list \<times> 't" where
  "tty_read E 0 t = ([], t)"
| "tty_read E (Suc n) t =
     (case uart_getc E t of (c, t1) \<Rightarrow>
        if c = 10 \<or> c = 13 then ([c], t1) else case tty_read E n t1 of (cs, t2) \<Rightarrow> (c # cs, t2))"

text \<open>The bytes read and the new offset. A negative count of the network device is a failure.\<close>

definition fs_read :: "('d, 't) env \<Rightarrow> iref \<Rightarrow> u64 \<Rightarrow> nat \<Rightarrow> ('d, 't, u8 list \<times> u64) vop" where
  "fs_read E r offset len =
     seq (gets (\<lambda>s. node s r)) (\<lambda>n.
     let moved = (\<lambda>b. ret (b, offset + of_nat (length b)));
         cached = seq (pagecache_read E r offset len) moved in
     if is_ext4 n then (if i_type n = INODE_FILE then cached else ext4_read E r offset len)
     else case i_type n of
       INODE_DEV \<Rightarrow>
         if len = 0 then ret ([], offset)
         else if i_dev_kind n = DEV_NULL then ret ([], offset)
         else if i_dev_kind n = DEV_ZERO then moved (replicate len 0)
         else if i_dev_kind n = DEV_TTY then seq (on_rest (tty_read E len)) moved
         else if i_dev_kind n = DEV_NET0 then
           seq (on_rest (\<lambda>t. case dev_net_read E len t of (k, b, t') \<Rightarrow> ((k, b), t'))) (\<lambda>(k, b).
           seq (check (k \<ge> 0)) (\<lambda>_. moved (take (nat k) b)))
         else if fs_is_block_dev n then cached
         else fail
     | INODE_DIR \<Rightarrow>
         let idx = unat offset div 36 in
         if idx \<ge> length (i_children n) then ret ([], offset)
         else
           seq (check (\<not> len < 36)) (\<lambda>_.
           seq (gets (\<lambda>s. node s (i_children n ! idx))) (\<lambda>c. moved (dirent_bytes (i_name c) (type_code (i_type c)))))
     | INODE_FILE \<Rightarrow> cached
     | INODE_FREE \<Rightarrow> ret ([], offset))"

text \<open>The number of bytes written and the new offset.\<close>

definition fs_write :: "('d, 't) env \<Rightarrow> iref \<Rightarrow> u64 \<Rightarrow> u8 list \<Rightarrow> ('d, 't, nat \<times> u64) vop" where
  "fs_write E r offset b =
     seq (gets (\<lambda>s. node s r)) (\<lambda>n.
     let len = length b;
         moved = (\<lambda>k. ret (k, offset + of_nat k));
         cached = seq (pagecache_write E r offset b) moved in
     if is_ext4 n then (if i_type n = INODE_FILE then cached else fail)
     else if i_type n = INODE_DEV then
       (if i_dev_kind n = DEV_NULL \<or> i_dev_kind n = DEV_ZERO then moved len
        else if i_dev_kind n = DEV_TTY then seq (on_rest (\<lambda>t. ((), fold (uart_putc E) b t))) (\<lambda>_. moved len)
        else if i_dev_kind n = DEV_NET0 then
          seq (on_rest (dev_net_write E b)) (\<lambda>k. seq (check (k \<ge> 0)) (\<lambda>_. moved (nat k)))
        else if fs_is_block_dev n then cached
        else fail)
     else
       seq (check (\<not> (i_type n \<noteq> INODE_FILE \<or> \<not> i_writable n))) (\<lambda>_.
       seq (if len > 0 then
              seq (check (\<not> offset > - 1 - of_nat len)) (\<lambda>_. memfs_ensure_capacity r (offset + of_nat len))
            else ret ()) (\<lambda>_.
       cached)))"

definition fs_truncate :: "('d, 't) env \<Rightarrow> iref \<Rightarrow> u64 \<Rightarrow> ('d, 't, int) vop" where
  "fs_truncate E r sz =
     seq (gets (\<lambda>s. node s r)) (\<lambda>n.
       if is_ext4 n then
         seq (pagecache_flush_inode E r) (\<lambda>_.
         seq (in_tx E (ext4_truncate E r sz)) (\<lambda>rc.
         seq (if rc = 0 then modify (pagecache_truncate_inode r sz) else ret ()) (\<lambda>_. ret rc)))
       else
         seq (check (\<not> (i_type n \<noteq> INODE_FILE \<or> \<not> i_writable n))) (\<lambda>_.
         seq (pagecache_flush_inode E r) (\<lambda>_.
         seq (gets (\<lambda>s. node s r)) (\<lambda>n.
         seq (if sz > i_capacity n then memfs_ensure_capacity r sz else ret ()) (\<lambda>_.
         seq (gets (\<lambda>s. node s r)) (\<lambda>n.
         seq (if sz > i_size n then modify (mem_put (i_data n + i_size n) (replicate (unat (sz - i_size n)) 0)) else ret ()) (\<lambda>_.
         seq (modify (upd_node r (\<lambda>n. n\<lparr>i_size := sz\<rparr>))) (\<lambda>_.
         seq (modify (pagecache_truncate_inode r sz)) (\<lambda>_. ret 0)))))))))"

definition fs_sync_inode :: "('d, 't) env \<Rightarrow> iref \<Rightarrow> ('d, 't, unit) vop" where
  "fs_sync_inode E r =
     seq (gets (\<lambda>s. node s r)) (\<lambda>n.
     seq (if i_type n = INODE_FILE \<or> fs_is_block_dev n then pagecache_flush_inode E r else ret ()) (\<lambda>_.
     seq (if is_ext4 n then e4op (ext4_sync_filesystem (drv E)) else ret ()) (\<lambda>_.
     if i_type n = INODE_DEV \<and> dev_kind_is_block (i_dev_kind n) then e4op (e4_flush (drv E)) else ret ())))"

definition fs_sync_all :: "('d, 't) env \<Rightarrow> ('d, 't, unit) vop" where
  "fs_sync_all E =
     seq (pagecache_flush_all E) (\<lambda>_.
     seq (e4op (ext4_sync_filesystem (drv E))) (\<lambda>_.
     e4op (e4_flush (drv E))))"

end
