(* ===== verification/FsInit.thy ===== *)
theory FsInit
  imports Vfs
begin

text \<open>
  The file system at boot, \<^verbatim>\<open>fs_init\<close> of \<^verbatim>\<open>src/kernel/fs.c\<close>: the directories and the files linked into the kernel, the devices
  found, and the first disk with an ext4 file system mounted on \<^verbatim>\<open>/mnt\<close>. \<open>blob\<close> gives the address and the length of
  the data linked in under a name: the programs, the C run time and the texts of the headers.
\<close>

type_synonym blobs = "string \<Rightarrow> u64 \<times> u64"

definition chars :: "string \<Rightarrow> u8 list" where "chars = map of_char"

text \<open>\<^verbatim>\<open>mk_file\<close> and \<^verbatim>\<open>mk_text_file\<close> for one entry of a table (the name of the file, the data); a failure is ignored.\<close>

definition put_blob :: "blobs \<Rightarrow> bool \<Rightarrow> iref option \<Rightarrow> string \<times> string \<Rightarrow> ('d, 't, unit) vop" where
  "put_blob blob executable dir e =
     seq (attempt (mk_file dir (chars (fst e)) (fst (blob (snd e))) (snd (blob (snd e))) executable False)) (\<lambda>_. ret ())"

definition put_text :: "blobs \<Rightarrow> bool \<Rightarrow> iref option \<Rightarrow> string \<times> string \<Rightarrow> ('d, 't, unit) vop" where
  "put_text blob writable dir e =
     seq (attempt (mk_text_file dir (chars (fst e)) (fst (blob (snd e))) (snd (blob (snd e))) writable)) (\<lambda>_. ret ())"

text \<open>\<^verbatim>\<open>dir ? mk_dir(dir, name) : 0\<close>, and \<^verbatim>\<open>if (dir) { ... }\<close>.\<close>

definition sub_dir :: "iref option \<Rightarrow> string \<Rightarrow> ('d, 't, iref option) vop" where
  "sub_dir dir name = (case dir of None \<Rightarrow> ret None | Some _ \<Rightarrow> attempt (mk_dir dir (chars name)))"

definition if_dir :: "iref option \<Rightarrow> ('d, 't, unit) vop \<Rightarrow> ('d, 't, unit) vop" where
  "if_dir dir m = (case dir of None \<Rightarrow> ret () | Some _ \<Rightarrow> m)"

definition bin_files :: "string list" where
  "bin_files = [''init'', ''sh'', ''ls'', ''cat'', ''echo'', ''clear'', ''nano'', ''elfinfo'', ''mkdir'', ''rmdir'', ''rm'', ''pwd'',
     ''touch'', ''cp'', ''mv'', ''sleep'', ''kill'', ''ping'', ''ifconfig'', ''route'', ''arp'', ''nc'', ''nslookup'', ''dhcp'', ''mount'',
     ''umount'', ''ln'', ''chmod'', ''tcc'', ''ar'', ''ranlib'', ''as'']"

definition sbin_files :: "string list" where "sbin_files = [''mkfs.ext4'', ''fsck.ext4'']"

definition rt_files :: "string list" where \<comment> \<open>the C run time, in \<^verbatim>\<open>/lib\<close> and \<^verbatim>\<open>/usr/lib\<close>\<close>
  "rt_files = [''crt1.o'', ''crti.o'', ''crtn.o'', ''crtbegin.o'', ''crtend.o'', ''libc.a'', ''libtcc1.a'']"

definition same :: "string list \<Rightarrow> (string \<times> string) list" where "same = map (\<lambda>x. (x, x))"

text \<open>The headers of \<^verbatim>\<open>/usr/include\<close> and \<^verbatim>\<open>/include\<close>: the first three, \<^verbatim>\<open>tccdefs.h\<close> from the compiler, the others.\<close>

definition headers1 :: "string list" where "headers1 = [''stddef.h'', ''stdint.h'', ''stdbool.h'']"

definition headers2 :: "string list" where
  "headers2 = [''stdarg.h'', ''errno.h'', ''poll.h'', ''signal.h'', ''limits.h'', ''assert.h'', ''inttypes.h'', ''time.h'', ''furios.h'',
     ''unistd.h'', ''fcntl.h'', ''string.h'', ''stdio.h'', ''stdlib.h'', ''netdb.h'']"

definition sys_headers :: "(string \<times> string) list" where
  "sys_headers = map (\<lambda>x. (x, ''sys/'' @ x)) [''stat.h'', ''types.h'', ''wait.h'', ''mman.h'', ''socket.h'']"

definition put_headers :: "blobs \<Rightarrow> iref option \<Rightarrow> ('d, 't, unit) vop" where
  "put_headers blob dir =
     seq (for_each (put_text blob False dir) (same headers1)) (\<lambda>_.
     seq (put_blob blob False dir (''tccdefs.h'', ''tccdefs.h'')) (\<lambda>_.
     for_each (put_text blob False dir) (same headers2)))"

definition put_in_h :: "blobs \<Rightarrow> iref option \<Rightarrow> ('d, 't, unit) vop" where
  "put_in_h blob dir = if_dir dir (put_text blob False dir (''in.h'', ''netinet/in.h''))"

definition put_inet_h :: "blobs \<Rightarrow> iref option \<Rightarrow> ('d, 't, unit) vop" where
  "put_inet_h blob dir = if_dir dir (put_text blob False dir (''inet.h'', ''arpa/inet.h''))"

definition init_compat :: "blobs \<Rightarrow> iref option \<Rightarrow> ('d, 't, unit) vop" where \<comment> \<open>\<^verbatim>\<open>/include\<close>\<close>
  "init_compat blob inc =
     if_dir inc (
       seq (put_headers blob inc) (\<lambda>_.
       seq (sub_dir inc ''sys'') (\<lambda>sys.
       seq (if_dir sys (for_each (put_text blob False sys) sys_headers)) (\<lambda>_.
       seq (sub_dir inc ''netinet'') (\<lambda>netinet.
       seq (put_in_h blob netinet) (\<lambda>_.
       seq (sub_dir inc ''arpa'') (\<lambda>arpa.
       put_inet_h blob arpa)))))))"

definition init_etc :: "blobs \<Rightarrow> iref option \<Rightarrow> ('d, 't, unit) vop" where
  "init_etc blob etc =
     (let msg = chars ''FuriOS EL0 userspace online'' @ [10] in
      seq (attempt (mk_file etc (chars ''motd'') 0 0 False True)) (\<lambda>motd.
      seq (case motd of
             None \<Rightarrow> ret ()
           | Some r \<Rightarrow>
               seq (gets (\<lambda>s. i_data (node s r))) (\<lambda>a.
                 if a = 0 then ret ()
                 else modify (\<lambda>s. upd_node r (\<lambda>n. n\<lparr>i_size := of_nat (length msg)\<rparr>) (mem_put a msg s)))) (\<lambda>_.
      for_each (put_text blob True etc) (same [''resolv.conf'', ''hosts'']))))"

definition plain_dev :: "('d, 't) env \<Rightarrow> iref \<Rightarrow> string \<times> dev_kind \<Rightarrow> ('d, 't, unit) vop" where
  "plain_dev E dir nk = seq (attempt (mk_dev E (Some dir) (chars (fst nk)) (snd nk) True)) (\<lambda>_. ret ())"

definition init_sata :: "('d, 't) env \<Rightarrow> iref \<Rightarrow> nat \<Rightarrow> ('d, 't, unit) vop" where
  "init_sata E dir i =
     seq (on_dev (ahci_disk_present (drv E) i)) (\<lambda>present.
       if \<not> present then ret () else new_disk E dir [115, 100, 97 + of_nat i] (DEV_SDA + i))"

definition init_nvme :: "('d, 't) env \<Rightarrow> iref \<Rightarrow> nat \<times> nat \<Rightarrow> ('d, 't, unit) vop" where
  "init_nvme E dir cn =
     (let kind = nvme_kind_encode (fst cn) (snd cn) in
      seq (gets (\<lambda>s. nvme_ns_present (drv E) (fst cn) (snd cn) (dev (e4 s)))) (\<lambda>present.
        case make_nvme_name (of_nat (fst cn)) (of_nat (snd cn)) (INODE_NAME_MAX + 1) of
          None \<Rightarrow> ret ()
        | Some name \<Rightarrow> if kind = DEV_NONE \<or> \<not> present then ret () else new_disk E dir name kind))"

definition init_dev :: "('d, 't) env \<Rightarrow> iref option \<Rightarrow> ('d, 't, unit) vop" where
  "init_dev E dev_dir =
     (case dev_dir of
        None \<Rightarrow> ret ()
      | Some dir \<Rightarrow>
          seq (modify (\<lambda>s. s\<lparr>dev_root_inode := Some dir\<rparr>)) (\<lambda>_.
          seq (for_each (plain_dev E dir) [(''null'', DEV_NULL), (''zero'', DEV_ZERO), (''tty'', DEV_TTY)]) (\<lambda>_.
          seq (gets (\<lambda>s. dev_net_ready E (rest s))) (\<lambda>up.
          seq (if up then plain_dev E dir (''net0'', DEV_NET0) else ret ()) (\<lambda>_.
          seq (dev_block_ready_kind E DEV_VDA) (\<lambda>vda.
          seq (if vda then new_disk E dir (chars ''vda'') DEV_VDA else ret ()) (\<lambda>_.
          seq (gets (\<lambda>s. min (unat (ahci_disk_count E (dev (e4 s)))) 8)) (\<lambda>sata.
          seq (for_each (init_sata E dir) [0..<sata]) (\<lambda>_.
          seq (gets (\<lambda>s. nvme_controller_count E (dev (e4 s)))) (\<lambda>nctrls.
          for_each (init_nvme E dir) (nvme_ids nctrls)))))))))))"

text \<open>The chain of \<^verbatim>\<open>else if\<close>: the first of these devices that there is is mounted.\<close>

definition boot_disks :: "string list" where
  "boot_disks = [''/dev/vda1'', ''/dev/vda'', ''/dev/sda1'', ''/dev/sda'', ''/dev/nvme0n1p1'', ''/dev/nvme0n1'']"

primrec mount_first :: "('d, 't) env \<Rightarrow> string list \<Rightarrow> ('d, 't, unit) vop" where
  "mount_first E [] = ret ()"
| "mount_first E (d # ds) =
     seq (attempt (fs_lookup E (chars d))) (\<lambda>r.
       if r \<noteq> None then seq (attempt (fs_mount E (chars d) (chars ''/mnt'') (chars ''ext4'') 0)) (\<lambda>_. ret ())
       else mount_first E ds)"

definition fs_init :: "('d, 't) env \<Rightarrow> blobs \<Rightarrow> ('d, 't, unit) vop" where
  "fs_init E blob =
     seq (modify (\<lambda>s. s\<lparr>ino_pool := replicate INODE_POOL_MAX inode_zero, mount_table := replicate 4 mount_zero\<rparr>)) (\<lambda>_.
     seq (attempt (mk_dir None [])) (\<lambda>root.
     seq (modify (\<lambda>s. s\<lparr>root_inode := root, dev_root_inode := None\<rparr>)) (\<lambda>_.
     seq (attempt (mk_dir root (chars ''bin''))) (\<lambda>bin.
     seq (attempt (mk_dir root (chars ''sbin''))) (\<lambda>sbin.
     seq (attempt (mk_dir root (chars ''lib''))) (\<lambda>lib.
     seq (attempt (mk_dir root (chars ''usr''))) (\<lambda>usr.
     seq (attempt (mk_dir root (chars ''etc''))) (\<lambda>etc.
     seq (attempt (mk_dir root (chars ''dev''))) (\<lambda>dev_dir.
     seq (attempt (mk_dir root (chars ''include''))) (\<lambda>compat.
     seq (attempt (mk_dir root (chars ''mnt''))) (\<lambda>_.
     seq (sub_dir usr ''include'') (\<lambda>inc.
     seq (sub_dir inc ''sys'') (\<lambda>sys.
     seq (sub_dir inc ''arpa'') (\<lambda>arpa.
     seq (sub_dir usr ''lib'') (\<lambda>usr_lib.
     seq (for_each (put_blob blob True bin) (same bin_files)) (\<lambda>_.
     seq (if_dir sbin (for_each (put_blob blob True sbin) (same sbin_files))) (\<lambda>_.
     seq (if_dir lib (
            seq (put_blob blob True lib (''ld-furios.so'', ''ld-furios.so'')) (\<lambda>_.
            for_each (put_blob blob False lib) (same rt_files)))) (\<lambda>_.
     seq (if_dir usr_lib (for_each (put_blob blob False usr_lib) (same rt_files))) (\<lambda>_.
     seq (if_dir inc (put_headers blob inc)) (\<lambda>_.
     seq (if_dir sys (for_each (put_text blob False sys) sys_headers)) (\<lambda>_.
     seq (sub_dir inc ''netinet'') (\<lambda>netinet.
     seq (put_in_h blob netinet) (\<lambda>_.
     seq (put_inet_h blob arpa) (\<lambda>_.
     seq (init_compat blob compat) (\<lambda>_.
     seq (init_etc blob etc) (\<lambda>_.
     seq (init_dev E dev_dir) (\<lambda>_.
     mount_first E boot_disks)))))))))))))))))))))))))))"

end
