(* ===== verification/NetText.thy ===== *)
theory NetText
  imports Bytes
begin

text \<open>
  The codecs of \<^verbatim>\<open>src/kernel/net.c\<close>: IPv4 addresses in dotted form, byte order, TCP sequence numbers and the
  Internet checksum. A C string is the list of its bytes without the final 0; an output buffer of
  \<open>cap\<close> bytes is the string it holds.
\<close>

section \<open>Byte order and sequence numbers\<close>

definition net_be16 :: "u16 \<Rightarrow> u16" where "net_be16 v = push_bit 8 v OR drop_bit 8 v"

definition net_be32 :: "u32 \<Rightarrow> u32" where
  "net_be32 v = push_bit 24 (v AND 0x000000FF) OR push_bit 8 (v AND 0x0000FF00)
     OR drop_bit 8 (v AND 0x00FF0000) OR drop_bit 24 (v AND 0xFF000000)"

text \<open>The headers are packed structs: a field set to \<^verbatim>\<open>be16(v)\<close> holds the bytes \<open>be16 v\<close> in memory.\<close>

lemma net_be_bytes: "le16 (net_be16 v) = Bytes.be16 v" "le32 (net_be32 w) = Bytes.be32 w"
proof -
  show "le16 (net_be16 v) = Bytes.be16 v"
    by (auto simp: le16_def be16_def net_be16_def intro!: bit_word_eqI) (auto simp: bit_simps dest: bit_imp_le_length)
  have m: "(0x000000FF :: u32) = mask 8" "(0x0000FF00 :: u32) = push_bit 8 (mask 8)" "(0x00FF0000 :: u32) = push_bit 16 (mask 8)"
    "(0xFF000000 :: u32) = push_bit 24 (mask 8)" by (simp_all add: mask_eq_exp_minus_1)
  show "le32 (net_be32 w) = Bytes.be32 w"
    unfolding net_be32_def m le32_def be32_def
    by (simp only: byte_cast list.inject, intro conjI bit_word_eqI) (auto simp: bit_simps dest: bit_imp_le_length)
qed

definition tcp_seq_lt :: "u32 \<Rightarrow> u32 \<Rightarrow> bool" where "tcp_seq_lt a b \<longleftrightarrow> sint (a - b) < 0"
definition tcp_seq_gt :: "u32 \<Rightarrow> u32 \<Rightarrow> bool" where "tcp_seq_gt a b \<longleftrightarrow> sint (a - b) > 0"

lemma top_bit: "(m :: u32) AND 0x80000000 \<noteq> 0 \<longleftrightarrow> 2 ^ 31 \<le> unat m"
proof -
  have "m AND 0x80000000 \<noteq> 0 \<longleftrightarrow> bit m 31" using and_exp_eq_0_iff_not_bit [of m 31] by simp
  also have "\<dots> \<longleftrightarrow> odd (unat m div 2 ^ 31)"
  proof -
    have "bit m 31 = bit (unat m) 31" by (simp add: bit_unsigned_iff)
    then show ?thesis by (simp only: bit_iff_odd)
  qed
  also have "\<dots> \<longleftrightarrow> 2 ^ 31 \<le> unat m"
  proof -
    have "unat m div 2 ^ 31 < 2" using unat_u32 [of m] by (simp add: div_less_iff_less_mult del: unat_u32)
    moreover have "q < 2 \<Longrightarrow> odd q \<longleftrightarrow> q = 1" for q :: nat by presburger
    ultimately have "odd (unat m div 2 ^ 31) \<longleftrightarrow> unat m div 2 ^ 31 = 1" by blast
    also have "\<dots> \<longleftrightarrow> 2 ^ 31 \<le> unat m" using \<open>unat m div 2 ^ 31 < 2\<close> div_greater_zero_iff [of "unat m" "2 ^ 31"] by (auto simp: less_2_cases_iff)
    finally show ?thesis .
  qed
  finally show ?thesis .
qed

lemma unat_shl1: "2 ^ 31 \<le> unat (m :: u32) \<Longrightarrow> unat (push_bit 1 m) = 2 * unat m - 2 ^ 32"
  using unat_u32 [of m] by (simp add: push_bit_eq_mult unat_word_ariths mod_if del: unat_u32) presburger

function mask_prefix_len :: "u32 \<Rightarrow> u32" where
  "mask_prefix_len mask_be =
     (if mask_be AND 0x80000000 \<noteq> 0 then 1 + mask_prefix_len (push_bit 1 mask_be) else 0)"
  by pat_completeness auto
termination
proof (relation "measure unat")
  fix m :: u32 assume "m AND 0x80000000 \<noteq> 0"
  then have "2 ^ 31 \<le> unat m" by (simp only: top_bit)
  then show "(push_bit 1 m, m) \<in> measure unat" using unat_shl1 [of m] unat_u32 [of m] by (simp del: unat_u32)
qed simp

definition ip_in_subnet :: "u32 \<Rightarrow> u32 \<Rightarrow> u32 \<Rightarrow> bool" where
  "ip_in_subnet ip_be prefix_be mask_be \<longleftrightarrow> ip_be AND mask_be = prefix_be AND mask_be"

section \<open>Dotted addresses\<close>

abbreviation (input) is_digit :: "u8 \<Rightarrow> bool" where "is_digit c \<equiv> 48 \<le> c \<and> c \<le> 57"

text \<open>The loop of \<^verbatim>\<open>parse_ipv4_be\<close>: the parts so far, the current number, whether it has a digit.\<close>

fun parse_ipv4_loop :: "u8 list \<Rightarrow> u32 list \<Rightarrow> u32 \<Rightarrow> bool \<Rightarrow> u32 option" where
  "parse_ipv4_loop [] parts cur have_digit =
     (if \<not> have_digit \<or> length parts \<noteq> 3 then None
      else Some (push_bit 24 (parts ! 0) OR push_bit 16 (parts ! 1) OR push_bit 8 (parts ! 2) OR cur))"
| "parse_ipv4_loop (c # s) parts cur have_digit =
     (if is_digit c then
        let cur' = cur * 10 + ucast (c - 48) in
        if cur' > 255 then None else parse_ipv4_loop s parts cur' True
      else if c = 46 then
        (if \<not> have_digit \<or> length parts \<ge> 3 then None else parse_ipv4_loop s (parts @ [cur]) 0 False)
      else None)"

definition parse_ipv4_be :: "u8 list \<Rightarrow> u32 option" where
  "parse_ipv4_be s = parse_ipv4_loop s [] 0 False"

definition append_text :: "nat \<Rightarrow> u8 list \<Rightarrow> u8 list \<Rightarrow> u8 list" where
  "append_text cap src dst =
     (if length dst \<ge> cap then dst else dst @ take (min (length src) (cap - length dst - 1)) src)"

text \<open>The digits of a number, last one first (\<^verbatim>\<open>rev\<close>); ten are enough for 32 bits, so that the bound of 16 is never met.\<close>

function u32_rev :: "u32 \<Rightarrow> u8 list" where
  "u32_rev v = (if v > 0 then (48 + ucast (v mod 10)) # u32_rev (v div 10) else [])"
  by pat_completeness auto
termination
  by (relation "measure unat") (auto simp: unat_div unat_gt_0 word_gt_0)

definition append_u32 :: "nat \<Rightarrow> u32 \<Rightarrow> u8 list \<Rightarrow> u8 list" where
  "append_u32 cap v dst = append_text cap (if v = 0 then [48] else rev (u32_rev v)) dst"

definition ip_be_to_text :: "u32 \<Rightarrow> nat \<Rightarrow> u8 list option" where \<comment> \<open>\<open>None\<close>: the buffer is left alone\<close>
  "ip_be_to_text ip_be outsz =
     (if outsz < 16 then None
      else
        let b0 = drop_bit 24 ip_be AND 0xFF; b1 = drop_bit 16 ip_be AND 0xFF;
            b2 = drop_bit 8 ip_be AND 0xFF; b3 = ip_be AND 0xFF;
            dot = append_text outsz [46]
        in Some (append_u32 outsz b3 (dot (append_u32 outsz b2 (dot (append_u32 outsz b1 (dot (append_u32 outsz b0 []))))))))"

section \<open>The Internet checksum\<close>

fun sum16 :: "u32 \<Rightarrow> u8 list \<Rightarrow> u32" where
  "sum16 acc (a # b # p) = sum16 (acc + (push_bit 8 (ucast a) OR ucast b)) p"
| "sum16 acc [a] = acc + push_bit 8 (ucast a)"
| "sum16 acc [] = acc"

lemma unat_halves:
  fixes acc :: u32
  shows "unat (drop_bit 16 acc) = unat acc div 65536" "unat (acc AND 0xFFFF) = unat acc mod 65536"
    "drop_bit 16 acc \<noteq> 0 \<Longrightarrow> unat ((acc AND 0xFFFF) + drop_bit 16 acc) < unat acc"
    "unat ((acc AND 0xFFFF) + drop_bit 16 acc) = unat acc mod 65536 + unat acc div 65536"
proof -
  show d: "unat (drop_bit 16 acc) = unat acc div 65536" by (simp add: unat_drop_bit_eq drop_bit_nat_def)
  have "acc AND 0xFFFF = take_bit 16 acc" by (simp add: take_bit_eq_mask mask_eq_exp_minus_1)
  then show m: "unat (acc AND 0xFFFF) = unat acc mod 65536" by (simp add: unsigned_take_bit_eq take_bit_nat_def)
  have "unat acc div 65536 < 65536" using unat_u32 [of acc] by (simp add: div_less_iff_less_mult del: unat_u32)
  then show s: "unat ((acc AND 0xFFFF) + drop_bit 16 acc) = unat acc mod 65536 + unat acc div 65536"
    by (subst unat_add_lem [THEN iffD1]) (simp_all add: d m add_less_mono)
  assume "drop_bit 16 acc \<noteq> 0"
  then have "0 < unat acc div 65536" using d by (metis gr0I unat_eq_0)
  then show "unat ((acc AND 0xFFFF) + drop_bit 16 acc) < unat acc"
    unfolding s using mod_mult_div_eq [of "unat acc" 65536] by linarith
qed

function fold_sum :: "u32 \<Rightarrow> u32" where
  "fold_sum acc = (if drop_bit 16 acc \<noteq> 0 then fold_sum ((acc AND 0xFFFF) + drop_bit 16 acc) else acc)"
  by pat_completeness auto
termination
proof (relation "measure unat")
  fix acc :: u32 assume "drop_bit 16 acc \<noteq> 0"
  then show "((acc AND 0xFFFF) + drop_bit 16 acc, acc) \<in> measure unat" using unat_halves(3) [of acc] by simp
qed simp

definition checksum16 :: "u8 list \<Rightarrow> u16" where
  "checksum16 data = ucast (NOT (fold_sum (sum16 0 data)))"

definition pseudo_header :: "u32 \<Rightarrow> u32 \<Rightarrow> u8 \<Rightarrow> nat \<Rightarrow> u8 list" where
  "pseudo_header src_ip_be dst_ip_be proto len =
     map (\<lambda>n. ucast (drop_bit n src_ip_be AND 0xFF)) [24, 16, 8, 0]
     @ map (\<lambda>n. ucast (drop_bit n dst_ip_be AND 0xFF)) [24, 16, 8, 0]
     @ [0, proto, of_nat (len div 256), of_nat len]"

definition ipv4_l4_checksum :: "u32 \<Rightarrow> u32 \<Rightarrow> u8 \<Rightarrow> u8 list \<Rightarrow> u16" where
  "ipv4_l4_checksum src_ip_be dst_ip_be proto payload =
     (let pseudo = pseudo_header src_ip_be dst_ip_be proto (length payload);
          acc = fold (\<lambda>i acc. acc + (push_bit 8 (ucast (pseudo ! i)) OR ucast (pseudo ! (i + 1)))) [0, 2, 4, 6, 8, 10] 0
      in ucast (NOT (fold_sum (sum16 acc payload))))"

declare mask_prefix_len.simps [simp del] u32_rev.simps [simp del] fold_sum.simps [simp del]

section \<open>Checksums verify\<close>

text \<open>The sum as a number, and its residue modulo 65535, which folding the carries keeps.\<close>

fun nsum :: "u8 list \<Rightarrow> nat" where
  "nsum (a # b # p) = 256 * unat a + unat b + nsum p"
| "nsum [a] = 256 * unat a"
| "nsum [] = 0"

lemma unat_u8: "unat (x :: u8) < 256" "unat (ucast x :: u32) = unat x"
proof -
  show "unat x < 256" using unsigned_less [where ?'a = nat and ?'b = 8, of x] by simp
  then show "unat (ucast x :: u32) = unat x" by (simp add: unsigned_ucast_eq take_bit_nat_eq_self)
qed

lemma pair_sum: "unat (push_bit 8 (ucast (a :: u8)) OR ucast (b :: u8) :: u32) = 256 * unat a + unat b"
proof -
  have "(push_bit 8 (ucast a) OR ucast b :: u32) = push_bit 8 (ucast a) + ucast b"
    by (rule disjunctive_add [symmetric]) (auto simp: bit_simps dest: bit_imp_le_length)
  then show ?thesis using unat_u8 [of a] unat_u8 [of b] by (simp add: push_bit_eq_mult unat_word_ariths)
qed

lemma single_sum: "unat (push_bit 8 (ucast (a :: u8)) :: u32) = 256 * unat a"
  using pair_sum [of a 0] by simp

lemma nsum_bound: "nsum p \<le> 65535 * ((length p + 1) div 2)"
proof (induction p rule: nsum.induct)
  case (1 a b p)
  then show ?case using unat_u8(1) [of a] unat_u8(1) [of b] by simp
next
  case (2 a)
  then show ?case using unat_u8(1) [of a] by simp
qed simp

lemma sum16_nat: "unat acc + nsum p < 2 ^ 32 \<Longrightarrow> unat (sum16 acc p) = unat acc + nsum p"
proof (induction acc p rule: sum16.induct)
  case (1 acc a b p)
  have "unat (acc + (push_bit 8 (ucast a) OR ucast b)) = unat acc + (256 * unat a + unat b)"
    using 1(2) by (subst unat_add_lem [THEN iffD1]) (simp_all add: pair_sum)
  then show ?case using 1 by (simp add: add.assoc)
next
  case (2 acc a)
  then show ?case using unat_add_lem [of acc "push_bit 8 (ucast a)"] by (simp add: single_sum)
qed simp

lemma fold_sum_spec:
  "unat (fold_sum acc) < 65536 \<and> unat (fold_sum acc) mod 65535 = unat acc mod 65535 \<and> (fold_sum acc = 0 \<longleftrightarrow> acc = 0)"
proof (induction acc rule: fold_sum.induct)
  case (1 acc)
  show ?case
  proof (cases "drop_bit 16 acc = 0")
    case True
    then have "unat acc < 65536" using unat_halves(1) [of acc] by (simp add: div_eq_0_iff)
    then show ?thesis using True by (subst (1 2 3) fold_sum.simps) simp
  next
    case False
    let ?n = "(acc AND 0xFFFF) + drop_bit 16 acc"
    have "(unat acc mod 65536 + unat acc div 65536) mod 65535 = unat acc mod 65535"
    proof -
      have "unat acc = unat acc mod 65536 + unat acc div 65536 + 65535 * (unat acc div 65536)" by simp
      then show ?thesis by (metis mod_mult_self2)
    qed
    moreover have "?n \<noteq> 0" using False unat_halves(1,4) [of acc] by (metis add_is_0 unat_eq_0)
    moreover have "acc \<noteq> 0" using False by auto
    ultimately show ?thesis using 1 False unat_halves(4) [of acc] by (subst (1 2 3) fold_sum.simps) simp
  qed
qed

lemma nsum_append: "even (length a) \<Longrightarrow> nsum (a @ b) = nsum a + nsum b"
  by (induction a rule: nsum.induct) simp_all

lemma nsum_be16: "nsum (Bytes.be16 v) = unat v"
proof -
  have "v = push_bit 8 (drop_bit 8 v) + take_bit 8 v" by (metis add.commute bits_ident)
  moreover have "unat (ucast (drop_bit 8 v) :: u8) = unat (drop_bit 8 v)"
  proof -
    have "unat (drop_bit 8 v) < 256"
      using unsigned_less [where ?'a = nat and ?'b = 16, of v] by (simp add: unat_drop_bit_eq drop_bit_nat_def div_less_iff_less_mult)
    then show ?thesis by (simp add: unsigned_ucast_eq take_bit_nat_eq_self)
  qed
  moreover have "unat (ucast v :: u8) = unat v mod 256" by (simp add: unsigned_ucast_eq take_bit_nat_def)
  ultimately show ?thesis
    using unat_drop_bit_eq [of 8 v] by (simp add: be16_def drop_bit_nat_def)
qed

lemma nsum_put:
  assumes "even off" "off + 2 \<le> length p" "p ! off = 0" "p ! (off + 1) = 0"
  shows "nsum (wr_be16 p off v) = nsum p + unat v"
proof -
  have p: "p = take off p @ [0, 0] @ drop (off + 2) p"
  proof (rule nth_equalityI)
    fix i assume "i < length p"
    then show "p ! i = (take off p @ [0, 0] @ drop (off + 2) p) ! i"
      using assms(2-4) by (cases "i < off"; cases "i = off"; cases "i = off + 1") (auto simp: nth_append intro!: arg_cong [of _ _ "(!) p"])
  qed (use assms(2) in simp)
  have e: "even (length (take off p))" using assms(1,2) by simp
  have "nsum p = nsum (take off p) + nsum ([0, 0] @ drop (off + 2) p)" by (subst p) (simp only: nsum_append [OF e])
  then have "nsum p = nsum (take off p) + nsum (drop (off + 2) p)" by simp
  moreover have "nsum (Bytes.be16 v @ drop (off + 2) p) = unat v + nsum (drop (off + 2) p)"
    using nsum_append [of "Bytes.be16 v"] nsum_be16 by simp
  ultimately show ?thesis by (simp add: wr_be16_def put_at_def nsum_append [OF e])
qed

lemma not_ucast: "unat acc < 65536 \<Longrightarrow> unat (ucast (NOT acc) :: u16) = 65535 - unat (acc :: u32)"
proof -
  assume a: "unat acc < 65536"
  then have "unat (ucast acc :: u16) = unat acc" by (simp add: unsigned_ucast_eq take_bit_nat_eq_self)
  moreover have "(ucast (NOT acc) :: u16) = NOT (ucast acc)" by (rule bit_word_eqI) (simp add: bit_simps)
  moreover have "unat (NOT x) = 65535 - unat x" for x :: u16
  proof -
    have "NOT x = - 1 - x" by (simp add: not_eq_complement)
    moreover have "unat (- 1 :: u16) = 65535" by (simp add: unsigned_minus_1_eq_mask mask_eq_exp_minus_1)
    ultimately show ?thesis by (simp add: unat_sub)
  qed
  ultimately show ?thesis by simp
qed

text \<open>The checksum of a whole, once the field that was 0 holds the checksum.\<close>

lemma sum_complement:
  fixes acc new :: u32
  assumes "unat new = unat acc + (65535 - unat (fold_sum acc))"
  shows "ucast (NOT (fold_sum new)) = (0 :: u16)"
proof -
  note f = fold_sum_spec [of acc] and g = fold_sum_spec [of new]
  have "unat acc mod 65535 = unat (fold_sum acc) mod 65535" "unat (fold_sum acc) \<le> 65535" using f by auto
  then have "unat new mod 65535 = 0"
    unfolding assms by (metis le_add_diff_inverse mod_add_left_eq mod_self)
  moreover have "new \<noteq> 0"
  proof
    assume "new = 0"
    then have "unat acc = 0" "unat (fold_sum acc) = 65535" using assms \<open>unat (fold_sum acc) \<le> 65535\<close> by auto
    then show False using f by (simp add: unat_eq_0)
  qed
  ultimately have "unat (fold_sum new) mod 65535 = 0" "0 < unat (fold_sum new)" "unat (fold_sum new) < 65536"
    using g by (auto simp: unat_gt_0)
  then obtain q where "unat (fold_sum new) = 65535 * q" by (meson mod_eq_0_iff_dvd dvdE)
  then have "unat (fold_sum new) = 65535" using \<open>0 < unat (fold_sum new)\<close> \<open>unat (fold_sum new) < 65536\<close> by auto
  then show ?thesis using not_ucast [of "fold_sum new"] by (simp add: unat_eq_0)
qed

lemma checksum_inserted:
  assumes "even off" "off + 2 \<le> length p" "p ! off = 0" "p ! (off + 1) = 0" "length p \<le> 100000"
  shows "checksum16 (wr_be16 p off (checksum16 p)) = 0"
proof -
  let ?c = "checksum16 p" and ?q = "wr_be16 p off (checksum16 p)"
  have n: "nsum p \<le> 65535 * 50000" 
  proof -
    have "(length p + 1) div 2 \<le> 50000" using assms(5) by linarith
    then show ?thesis using nsum_bound [of p] by linarith
  qed
  have s: "unat (sum16 0 p) = nsum p" using sum16_nat [of 0 p] n by simp
  have c: "unat ?c = 65535 - unat (fold_sum (sum16 0 p))"
    unfolding checksum16_def using fold_sum_spec by (intro not_ucast) blast
  have "nsum ?q = nsum p + unat ?c" using assms(1-4) by (rule nsum_put)
  moreover have "unat (sum16 0 ?q) = nsum ?q" using sum16_nat [of 0 ?q] n c calculation by simp
  ultimately show ?thesis unfolding checksum16_def [of ?q] using s c by (intro sum_complement [of _ "sum16 0 p"]) simp
qed

lemma sum16_append: "even (length a) \<Longrightarrow> sum16 acc (a @ b) = sum16 (sum16 acc a) b"
  by (induction acc a rule: sum16.induct) simp_all

lemma l4_checksum_eq: "ipv4_l4_checksum src dst proto payload = checksum16 (pseudo_header src dst proto (length payload) @ payload)"
proof -
  have "sum16 0 (p0 # p1 # p2 # p3 # p4 # p5 # p6 # p7 # p8 # p9 # pa # pb # payload)
    = sum16 (fold (\<lambda>i acc. acc + (push_bit 8 (ucast ([p0, p1, p2, p3, p4, p5, p6, p7, p8, p9, pa, pb] ! i))
        OR ucast ([p0, p1, p2, p3, p4, p5, p6, p7, p8, p9, pa, pb] ! (i + 1)))) [0, 2, 4, 6, 8, 10] 0) payload"
    for p0 p1 p2 p3 p4 p5 p6 p7 p8 p9 pa pb by simp
  then show ?thesis by (simp add: ipv4_l4_checksum_def checksum16_def pseudo_header_def Let_def)
qed

section \<open>Printed addresses parse\<close>

definition decimal :: "u32 \<Rightarrow> u8 list" where "decimal v = (if v = 0 then [48] else rev (u32_rev v))"

lemma digit_word:
  assumes "(x :: u32) < 10"
  shows "is_digit (48 + ucast x)" "ucast (48 + ucast x - 48 :: u8) = x"
proof -
  have "unat x < 10" using assms by (simp add: word_less_nat_alt)
  then have "unat x \<in> set [0..<10]" by simp
  then have "x \<in> of_nat ` set [0..<10]" by (rule image_eqI [rotated]) simp
  then have "x \<in> {0, 1, 2, 3, 4, 5, 6, 7, 8, 9}" by (simp add: upt_rec insert_commute)
  then show "is_digit (48 + ucast x)" "ucast (48 + ucast x - 48 :: u8) = x"
    by (auto simp: word_le_nat_alt)
qed

lemma parse_digits:
  "v \<noteq> 0 \<Longrightarrow> v \<le> 255 \<Longrightarrow> parse_ipv4_loop (rev (u32_rev v) @ rest) parts 0 h = parse_ipv4_loop rest parts v True"
proof (induction v arbitrary: rest rule: u32_rev.induct)
  case (1 v)
  let ?c = "48 + ucast (v mod 10) :: u8"
  have m: "v mod 10 < 10" by (simp add: word_mod_less_divisor)
  have step: "parse_ipv4_loop (?c # rest) parts (v div 10) g = parse_ipv4_loop rest parts v True" for g
    using digit_word [OF m] 1(3) word_mod_div_equality [of v 10] by (simp add: Let_def leD)
  have e: "rev (u32_rev v) @ rest = rev (u32_rev (v div 10)) @ ?c # rest"
    using 1(2) by (subst u32_rev.simps) (simp add: word_gt_0)
  show ?case
  proof (cases "v div 10 = 0")
    case True
    then show ?thesis unfolding e using step [of h] by (simp add: u32_rev.simps [of 0])
  next
    case False
    have "v div 10 \<le> 255" using 1(3) div_le_dividend [of "unat v" 10] by (simp add: word_le_nat_alt unat_div)
    then show ?thesis unfolding e using 1(1) [of "?c # rest"] 1(2) False step by (simp add: word_gt_0)
  qed
qed

lemma parse_decimal: "v \<le> 255 \<Longrightarrow> parse_ipv4_loop (decimal v @ rest) parts 0 h = parse_ipv4_loop rest parts v True"
  using parse_digits [of v rest parts h] by (auto simp: decimal_def Let_def word_le_nat_alt)

lemma u32_rev_length: "v \<le> 255 \<Longrightarrow> length (decimal v) \<le> 3"
proof -
  assume v: "v \<le> 255"
  have z: "w \<noteq> 0 \<Longrightarrow> length (u32_rev w) = Suc (length (u32_rev (w div 10)))" "length (u32_rev 0) = 0" for w
    by (subst u32_rev.simps, simp add: word_gt_0)+
  have "v div 10 div 10 div 10 = 0" using v by (simp add: unat_eq_0 [symmetric] unat_div word_le_nat_alt del: unat_eq_0)
  then have "length (u32_rev v) \<le> 3" using z by (metis (no_types, lifting) Suc_le_mono le0 numeral_3_eq_3)
  then show ?thesis by (simp add: decimal_def)
qed

lemma octets: "(ip :: u32) AND 0xFF \<le> 255" "push_bit 24 (drop_bit 24 ip AND 0xFF) OR push_bit 16 (drop_bit 16 ip AND 0xFF)
    OR push_bit 8 (drop_bit 8 ip AND 0xFF) OR (ip AND 0xFF) = ip"
proof -
  show "ip AND 0xFF \<le> 255" by (simp add: word_and_le1)
  have m: "(0xFF :: u32) = mask 8" by (simp add: mask_eq_exp_minus_1)
  show "push_bit 24 (drop_bit 24 ip AND 0xFF) OR push_bit 16 (drop_bit 16 ip AND 0xFF)
    OR push_bit 8 (drop_bit 8 ip AND 0xFF) OR (ip AND 0xFF) = ip"
    unfolding m
  proof (rule bit_word_eqI)
    fix n assume "n < LENGTH(32)"
    then show "bit (push_bit 24 (drop_bit 24 ip AND mask 8) OR push_bit 16 (drop_bit 16 ip AND mask 8)
        OR push_bit 8 (drop_bit 8 ip AND mask 8) OR (ip AND mask 8)) n = bit ip n"
      by (cases n rule: byte_cases) (auto simp: bit_simps)
  qed
qed

lemma text_roundtrip: "n \<ge> 16 \<Longrightarrow> \<exists>t. ip_be_to_text ip n = Some t \<and> length t \<le> 15 \<and> parse_ipv4_be t = Some ip"
proof -
  assume n: "n \<ge> 16"
  let ?b0 = "drop_bit 24 ip AND 0xFF" and ?b1 = "drop_bit 16 ip AND 0xFF" and ?b2 = "drop_bit 8 ip AND 0xFF" and ?b3 = "ip AND 0xFF"
  let ?t = "decimal ?b0 @ 46 # decimal ?b1 @ 46 # decimal ?b2 @ 46 # decimal ?b3"
  have l: "length (decimal ?b0) \<le> 3" "length (decimal ?b1) \<le> 3" "length (decimal ?b2) \<le> 3" "length (decimal ?b3) \<le> 3"
    using u32_rev_length octets(1) by blast+
  have "ip_be_to_text ip n = Some ?t"
    using n l by (simp add: ip_be_to_text_def append_u32_def append_text_def Let_def decimal_def [symmetric])
  moreover have "parse_ipv4_be ?t = Some ip"
    using parse_decimal [OF octets(1)] octets(2) [of ip] by (simp add: parse_ipv4_be_def parse_decimal [OF octets(1), where rest = "[]", simplified] or.assoc)
  moreover have "length ?t \<le> 15" using l by simp
  ultimately show ?thesis by blast
qed

end
