(* ===== verification/NetState.thy ===== *)
theory NetState
  imports NetText StateOps
begin

text \<open>
  The state of the network stack, \<^verbatim>\<open>src/kernel/net.c\<close> and \<^verbatim>\<open>src/kernel/netdev.c\<close>. A \<^verbatim>\<open>struct net_socket *\<close> is
  the index of the socket in \<^verbatim>\<open>g_socks\<close>, an array is the function from its indices. The union in the struct is kept as two
  groups of fields: a socket is cleared before its protocol is set, and every access to a group
  follows a test of the protocol (or goes through a pointer that only ever names TCP sockets).
\<close>

section \<open>Network devices\<close>

text \<open>The function pointers of a driver are parameters; \<open>'d\<close> is the state of the hardware.\<close>

record 'd netdev_ops =
  op_poll :: "('d \<Rightarrow> 'd) option"
  op_recv :: "nat \<Rightarrow> 'd \<Rightarrow> (int \<times> u8 list) \<times> 'd" \<comment> \<open>return value and the bytes stored\<close>
  op_send :: "u8 list \<Rightarrow> 'd \<Rightarrow> bool \<times> 'd"
  op_mac :: "'d \<Rightarrow> u8 list option"

record netdev_stats =
  rx_packets :: u64
  rx_bytes :: u64
  rx_drops :: u64
  tx_packets :: u64
  tx_bytes :: u64
  tx_drops :: u64

record 'd netdev_slot =
  nd_used :: bool
  nd_name :: "u8 list"
  nd_ops :: "'d netdev_ops"
  nd_stats :: netdev_stats

section \<open>Interfaces, routes, address resolution\<close>

record net_if =
  if_up :: bool
  if_loopback :: bool
  if_dev_index :: int
  if_name :: "u8 list"
  if_addr :: u32
  if_mask :: u32
  if_gw :: u32
  if_mac :: "u8 list"

record net_route =
  rt_used :: bool
  rt_prefix :: u32
  rt_mask :: u32
  rt_gw :: u32
  rt_if_index :: int

record arp_entry =
  ae_valid :: bool
  ae_ip :: u32
  ae_if_index :: int
  ae_mac :: "u8 list"
  ae_tick :: u64

record ping_wait =
  pw_active :: bool
  pw_id :: u16
  pw_seq :: u16
  pw_tx_tick :: u64
  pw_rx_tick :: u64
  pw_replied :: bool

record net_rx_item =
  ri_used :: bool
  ri_dev :: int
  ri_frame :: "u8 list"

definition if_zero :: net_if where
  "if_zero = \<lparr>if_up = False, if_loopback = False, if_dev_index = 0, if_name = [], if_addr = 0, if_mask = 0, if_gw = 0,
     if_mac = replicate 6 0\<rparr>"

definition rt_zero :: net_route where "rt_zero = \<lparr>rt_used = False, rt_prefix = 0, rt_mask = 0, rt_gw = 0, rt_if_index = 0\<rparr>"
definition ae_zero :: arp_entry where "ae_zero = \<lparr>ae_valid = False, ae_ip = 0, ae_if_index = 0, ae_mac = replicate 6 0, ae_tick = 0\<rparr>"
definition pw_zero :: ping_wait where "pw_zero = \<lparr>pw_active = False, pw_id = 0, pw_seq = 0, pw_tx_tick = 0, pw_rx_tick = 0, pw_replied = False\<rparr>"
definition ri_zero :: net_rx_item where "ri_zero = \<lparr>ri_used = False, ri_dev = 0, ri_frame = []\<rparr>"

section \<open>Sockets\<close>

datatype net_sock_proto = PROTO_NONE | PROTO_UDP | PROTO_TCP

datatype tcp_state = TCP_CLOSED | TCP_LISTEN | TCP_SYN_SENT | TCP_SYN_RECV | TCP_ESTABLISHED | TCP_FIN_WAIT1 | TCP_FIN_WAIT2
  | TCP_CLOSE_WAIT | TCP_LAST_ACK | TCP_CLOSING | TCP_TIME_WAIT

record tcp_tx_seg =
  tx_valid :: bool
  tx_flags :: u16
  tx_seq :: u32
  tx_data :: "u8 list"
  tx_sent_tick :: u64
  tx_retries :: nat

record udp_item =
  ui_src_ip :: u32
  ui_src_port :: u16
  ui_data :: "u8 list"

record net_socket =
  sk_used :: bool
  sk_refs :: u16
  sk_proto :: net_sock_proto
  sk_reuseaddr :: bool
  sk_broadcast :: bool
  sk_bound :: bool
  sk_last_error :: int
  sk_bind_ip :: u32
  sk_bind_port :: u16
  sk_peer_ip :: u32
  sk_peer_port :: u16
  q_head :: nat
  q_tail :: nat
  q_count :: nat
  rxq :: "nat \<Rightarrow> udp_item"
  t_state :: tcp_state
  t_backlog :: nat
  t_pending :: "nat list" \<comment> \<open>pending_count entries\<close>
  t_listener :: "nat option"
  t_iss :: u32
  snd_una :: u32
  snd_nxt :: u32
  t_irs :: u32
  rcv_nxt :: u32
  peer_wnd :: u16
  rx_buf :: "nat \<Rightarrow> u8"
  rx_head :: nat
  rx_tail :: nat
  rx_len :: nat
  rx_closed :: bool
  app_shut_rd :: bool
  app_shut_wr :: bool
  fin_pending :: bool
  t_detached :: bool
  t_error :: bool
  tx_seg :: tcp_tx_seg
  timewait_deadline :: u64

definition tx_zero :: tcp_tx_seg where
  "tx_zero = \<lparr>tx_valid = False, tx_flags = 0, tx_seq = 0, tx_data = [], tx_sent_tick = 0, tx_retries = 0\<rparr>"

definition ui_zero :: udp_item where "ui_zero = \<lparr>ui_src_ip = 0, ui_src_port = 0, ui_data = []\<rparr>"

definition sock_zero :: net_socket where \<comment> \<open>memset(s, 0, sizeof(*s))\<close>
  "sock_zero = \<lparr>sk_used = False, sk_refs = 0, sk_proto = PROTO_NONE, sk_reuseaddr = False, sk_broadcast = False, sk_bound = False,
     sk_last_error = 0, sk_bind_ip = 0, sk_bind_port = 0, sk_peer_ip = 0, sk_peer_port = 0,
     q_head = 0, q_tail = 0, q_count = 0, rxq = (\<lambda>_. ui_zero),
     t_state = TCP_CLOSED, t_backlog = 0, t_pending = [], t_listener = None, t_iss = 0, snd_una = 0, snd_nxt = 0, t_irs = 0,
     rcv_nxt = 0, peer_wnd = 0, rx_buf = (\<lambda>_. 0), rx_head = 0, rx_tail = 0, rx_len = 0, rx_closed = False,
     app_shut_rd = False, app_shut_wr = False, fin_pending = False, t_detached = False, t_error = False, tx_seg = tx_zero,
     timewait_deadline = 0\<rparr>"

section \<open>The stack\<close>

text \<open>\<open>ifaces\<close> holds the first \<^verbatim>\<open>g_if_count\<close> entries of \<^verbatim>\<open>g_ifaces\<close>. The clock is a parameter: \<open>clock n\<close> is what the \<open>n\<close>th
  call of \<^verbatim>\<open>timer_ticks\<close> returns. \<open>hw\<close> is the state of the hardware.\<close>

record 'd net =
  net_ready_flag :: bool
  ifaces :: "net_if list"
  routes :: "nat \<Rightarrow> net_route"
  arp_tab :: "nat \<Rightarrow> arp_entry"
  ping :: ping_wait
  ping_seq :: u16
  next_ephemeral :: u16
  resp :: "u8 list"
  resp_off :: nat
  rxq_items :: "nat \<Rightarrow> net_rx_item"
  rxq_head :: nat
  rxq_tail :: nat
  rxq_count :: nat
  socks :: "nat \<Rightarrow> net_socket"
  rand_seed :: u64
  netdevs :: "nat \<Rightarrow> 'd netdev_slot"
  hw :: 'd
  clock :: "nat \<Rightarrow> u64"
  clock_reads :: nat

abbreviation (input) NET_IF_MAX :: nat where "NET_IF_MAX \<equiv> 4"
abbreviation (input) NET_ROUTE_MAX :: nat where "NET_ROUTE_MAX \<equiv> 8"
abbreviation (input) NET_ARP_MAX :: nat where "NET_ARP_MAX \<equiv> 8"
abbreviation (input) NET_MTU :: nat where "NET_MTU \<equiv> 1500"
abbreviation (input) NET_FRAME_MAX :: nat where "NET_FRAME_MAX \<equiv> 1518"
abbreviation (input) NET_RESP_MAX :: nat where "NET_RESP_MAX \<equiv> 512"
abbreviation (input) NET_RXQ_MAX :: nat where "NET_RXQ_MAX \<equiv> 64"
abbreviation (input) NET_UDP_PAYLOAD_MAX :: nat where "NET_UDP_PAYLOAD_MAX \<equiv> 1472"
abbreviation (input) NET_SOCK_MAX :: nat where "NET_SOCK_MAX \<equiv> 32"
abbreviation (input) NET_SOCK_RXQ :: nat where "NET_SOCK_RXQ \<equiv> 8"
abbreviation (input) NET_TCP_BUF_MAX :: nat where "NET_TCP_BUF_MAX \<equiv> 2048"
abbreviation (input) NET_TCP_ACCEPTQ :: nat where "NET_TCP_ACCEPTQ \<equiv> 4"
abbreviation (input) NETDEV_MAX :: nat where "NETDEV_MAX \<equiv> 4"
abbreviation (input) NET_EPHEMERAL_BASE :: u16 where "NET_EPHEMERAL_BASE \<equiv> 49152"
abbreviation (input) NET_EPHEMERAL_LAST :: u16 where "NET_EPHEMERAL_LAST \<equiv> 65535"
abbreviation (input) NET_LOOPBACK_IP :: u32 where "NET_LOOPBACK_IP \<equiv> 0x7F000001"
abbreviation (input) NET_LOOPBACK_MASK :: u32 where "NET_LOOPBACK_MASK \<equiv> 0xFF000000"
abbreviation (input) IP_BROADCAST :: u32 where "IP_BROADCAST \<equiv> 0xFFFFFFFF"
abbreviation (input) TIMER_HZ :: u64 where "TIMER_HZ \<equiv> 100"
abbreviation (input) NET_ARP_TTL_TICKS :: u64 where "NET_ARP_TTL_TICKS \<equiv> 6000"
abbreviation (input) NET_TCP_RTO_TICKS :: u64 where "NET_TCP_RTO_TICKS \<equiv> 51"
abbreviation (input) NET_TCP_TIMEWAIT_TICKS :: u64 where "NET_TCP_TIMEWAIT_TICKS \<equiv> 200"
abbreviation (input) TCP_FIN :: u16 where "TCP_FIN \<equiv> 0x01"
abbreviation (input) TCP_SYN :: u16 where "TCP_SYN \<equiv> 0x02"
abbreviation (input) TCP_RST :: u16 where "TCP_RST \<equiv> 0x04"
abbreviation (input) TCP_PSH :: u16 where "TCP_PSH \<equiv> 0x08"
abbreviation (input) TCP_ACK :: u16 where "TCP_ACK \<equiv> 0x10"
abbreviation (input) IP_PROTO_ICMP :: u8 where "IP_PROTO_ICMP \<equiv> 1"
abbreviation (input) IP_PROTO_TCP :: u8 where "IP_PROTO_TCP \<equiv> 6"
abbreviation (input) IP_PROTO_UDP :: u8 where "IP_PROTO_UDP \<equiv> 17"

definition timer_ticks :: "('d net, u64) op" where
  "timer_ticks s = (Some (clock s (clock_reads s)), s\<lparr>clock_reads := clock_reads s + 1\<rparr>)"

definition net_rand32 :: "('d net, u32) op" where
  "net_rand32 = seq timer_ticks (\<lambda>t s.
     let seed = rand_seed s XOR (t + 0x9E3779B97F4A7C15);
         seed = seed * 6364136223846793005 + 1
     in (Some (ucast (drop_bit 16 seed)), s\<lparr>rand_seed := seed\<rparr>))"

definition upd_sock :: "nat \<Rightarrow> (net_socket \<Rightarrow> net_socket) \<Rightarrow> 'd net \<Rightarrow> 'd net" where
  "upd_sock i f s = s\<lparr>socks := (socks s)(i := f (socks s i))\<rparr>"

end
