(* ===== verification/NetTables.thy ===== *)
theory NetTables
  imports NetState
begin

text \<open>
  The tables of the network stack: devices (\<^verbatim>\<open>src/kernel/netdev.c\<close>), interfaces, routes and the address resolution
  cache (\<^verbatim>\<open>src/kernel/net.c\<close>).
\<close>

section \<open>Network devices\<close>

definition stats_zero :: netdev_stats where
  "stats_zero = \<lparr>rx_packets = 0, rx_bytes = 0, rx_drops = 0, tx_packets = 0, tx_bytes = 0, tx_drops = 0\<rparr>"

text \<open>A descriptor: its name and the operations, which the caller has filled in.\<close>

definition netdev_register :: "u8 list \<Rightarrow> 'd netdev_ops \<Rightarrow> 'd net \<Rightarrow> bool \<times> 'd net" where
  "netdev_register name ops s =
     (case find (\<lambda>i. \<not> nd_used (netdevs s i)) [0..<NETDEV_MAX] of
        None \<Rightarrow> (False, s)
      | Some i \<Rightarrow> (True, s\<lparr>netdevs := (netdevs s)(i := \<lparr>nd_used = True, nd_name = take 7 name, nd_ops = ops, nd_stats = stats_zero\<rparr>)\<rparr>))"

definition netdev_count :: "'d net \<Rightarrow> nat" where
  "netdev_count s = length (filter (\<lambda>i. nd_used (netdevs s i)) [0..<NETDEV_MAX])"

definition dev_slot :: "int \<Rightarrow> 'd net \<Rightarrow> nat option" where \<comment> \<open>the index test of every function\<close>
  "dev_slot index s = (if index < 0 \<or> index \<ge> int NETDEV_MAX \<or> \<not> nd_used (netdevs s (nat index)) then None else Some (nat index))"

definition netdev_get_mac :: "int \<Rightarrow> 'd net \<Rightarrow> u8 list option" where
  "netdev_get_mac index s = Option.bind (dev_slot index s) (\<lambda>i. op_mac (nd_ops (netdevs s i)) (hw s))"

definition netdev_poll_all :: "'d net \<Rightarrow> 'd net" where
  "netdev_poll_all s =
     fold (\<lambda>i s. if \<not> nd_used (netdevs s i) then s
                 else case op_poll (nd_ops (netdevs s i)) of None \<Rightarrow> s | Some p \<Rightarrow> s\<lparr>hw := p (hw s)\<rparr>) [0..<NETDEV_MAX] s"

definition upd_stats :: "nat \<Rightarrow> (netdev_stats \<Rightarrow> netdev_stats) \<Rightarrow> 'd net \<Rightarrow> 'd net" where
  "upd_stats i f s = s\<lparr>netdevs := (netdevs s)(i := (netdevs s i)\<lparr>nd_stats := f (nd_stats (netdevs s i))\<rparr>)\<rparr>"

definition netdev_recv :: "int \<Rightarrow> nat \<Rightarrow> 'd net \<Rightarrow> (int \<times> u8 list) \<times> 'd net" where
  "netdev_recv index maxlen s =
     (case dev_slot index s of
        None \<Rightarrow> ((-1, []), s)
      | Some i \<Rightarrow>
          if maxlen = 0 then ((-1, []), s)
          else case op_recv (nd_ops (netdevs s i)) maxlen (hw s) of ((n, b), d) \<Rightarrow>
            let s1 = s\<lparr>hw := d\<rparr> in
            ((n, b), if n > 0 then upd_stats i (\<lambda>st. st\<lparr>rx_packets := rx_packets st + 1, rx_bytes := rx_bytes st + of_int n\<rparr>) s1 else s1))"

definition netdev_send :: "int \<Rightarrow> u8 list \<Rightarrow> 'd net \<Rightarrow> bool \<times> 'd net" where
  "netdev_send index buf s =
     (case dev_slot index s of
        None \<Rightarrow> (False, s)
      | Some i \<Rightarrow>
          if length buf = 0 then (False, s)
          else case op_send (nd_ops (netdevs s i)) buf (hw s) of (ok, d) \<Rightarrow>
            let s1 = s\<lparr>hw := d\<rparr> in
            (ok, if ok then upd_stats i (\<lambda>st. st\<lparr>tx_packets := tx_packets st + 1, tx_bytes := tx_bytes st + of_nat (length buf)\<rparr>) s1
                 else upd_stats i (\<lambda>st. st\<lparr>tx_drops := tx_drops st + 1\<rparr>) s1))"

definition netdev_note_rx_drop :: "int \<Rightarrow> 'd net \<Rightarrow> 'd net" where
  "netdev_note_rx_drop index s =
     (case dev_slot index s of None \<Rightarrow> s | Some i \<Rightarrow> upd_stats i (\<lambda>st. st\<lparr>rx_drops := rx_drops st + 1\<rparr>) s)"

definition netdev_note_tx_drop :: "int \<Rightarrow> 'd net \<Rightarrow> 'd net" where
  "netdev_note_tx_drop index s =
     (case dev_slot index s of None \<Rightarrow> s | Some i \<Rightarrow> upd_stats i (\<lambda>st. st\<lparr>tx_drops := tx_drops st + 1\<rparr>) s)"

definition netdev_get_name :: "int \<Rightarrow> 'd net \<Rightarrow> u8 list option" where
  "netdev_get_name index s = map_option (\<lambda>i. nd_name (netdevs s i)) (dev_slot index s)"

definition netdev_stats_snapshot :: "int \<Rightarrow> 'd net \<Rightarrow> netdev_stats option" where
  "netdev_stats_snapshot index s = map_option (\<lambda>i. nd_stats (netdevs s i)) (dev_slot index s)"

section \<open>Interfaces\<close>

definition iface_lookup :: "u8 list \<Rightarrow> 'd net \<Rightarrow> nat option" where
  "iface_lookup name s = find (\<lambda>i. if_name (ifaces s ! i) = name) [0..<length (ifaces s)]"

definition is_loopback_ip :: "u32 \<Rightarrow> bool" where
  "is_loopback_ip ip_be \<longleftrightarrow> ip_be AND NET_LOOPBACK_MASK = NET_LOOPBACK_IP AND NET_LOOPBACK_MASK"

definition ip_is_any_local :: "u32 \<Rightarrow> 'd net \<Rightarrow> bool" where
  "ip_is_any_local ip_be s \<longleftrightarrow>
     is_loopback_ip ip_be \<or> (\<exists>i \<in> set (ifaces s). if_up i \<and> if_addr i \<noteq> 0 \<and> if_addr i = ip_be)"

definition iface_src_ip_for_dst :: "net_if \<Rightarrow> u32 \<Rightarrow> u32" where
  "iface_src_ip_for_dst iface dst_ip_be = (if if_loopback iface \<or> is_loopback_ip dst_ip_be then NET_LOOPBACK_IP else if_addr iface)"

section \<open>Routes\<close>

definition routes_clear_for_iface :: "int \<Rightarrow> 'd net \<Rightarrow> 'd net" where
  "routes_clear_for_iface if_index s =
     s\<lparr>routes := (\<lambda>i. if i < NET_ROUTE_MAX \<and> rt_used (routes s i) \<and> rt_if_index (routes s i) = if_index then rt_zero else routes s i)\<rparr>"

definition route_add :: "u32 \<Rightarrow> u32 \<Rightarrow> u32 \<Rightarrow> int \<Rightarrow> 'd net \<Rightarrow> bool \<times> 'd net" where
  "route_add prefix_be mask_be gw_be if_index s =
     (case find (\<lambda>i. rt_used (routes s i) \<and> rt_prefix (routes s i) = prefix_be \<and> rt_mask (routes s i) = mask_be) [0..<NET_ROUTE_MAX] of
        Some i \<Rightarrow> (True, s\<lparr>routes := (routes s)(i := (routes s i)\<lparr>rt_gw := gw_be, rt_if_index := if_index\<rparr>)\<rparr>)
      | None \<Rightarrow>
          (case find (\<lambda>i. \<not> rt_used (routes s i)) [0..<NET_ROUTE_MAX] of
             Some i \<Rightarrow> (True, s\<lparr>routes := (routes s)(i := \<lparr>rt_used = True, rt_prefix = prefix_be, rt_mask = mask_be, rt_gw = gw_be,
                                  rt_if_index = if_index\<rparr>)\<rparr>)
           | None \<Rightarrow> (False, s)))"

definition route_del :: "u32 \<Rightarrow> u32 \<Rightarrow> 'd net \<Rightarrow> bool \<times> 'd net" where
  "route_del prefix_be mask_be s =
     (case find (\<lambda>i. rt_used (routes s i) \<and> rt_prefix (routes s i) = prefix_be \<and> rt_mask (routes s i) = mask_be) [0..<NET_ROUTE_MAX] of
        Some i \<Rightarrow> (True, s\<lparr>routes := (routes s)(i := rt_zero)\<rparr>)
      | None \<Rightarrow> (False, s))"

definition default_route :: "int \<Rightarrow> net_route \<Rightarrow> bool" where
  "default_route if_index r \<longleftrightarrow> rt_used r \<and> \<not> (rt_prefix r \<noteq> 0 \<or> rt_mask r \<noteq> 0) \<and> \<not> (if_index \<ge> 0 \<and> rt_if_index r \<noteq> if_index)"

definition route_del_default :: "int \<Rightarrow> 'd net \<Rightarrow> bool \<times> 'd net" where
  "route_del_default if_index s =
     (list_ex (\<lambda>i. default_route if_index (routes s i)) [0..<NET_ROUTE_MAX],
      s\<lparr>routes := (\<lambda>i. if i < NET_ROUTE_MAX \<and> default_route if_index (routes s i) then rt_zero else routes s i)\<rparr>)"

definition iface_refresh_routes :: "int \<Rightarrow> 'd net \<Rightarrow> 'd net" where
  "iface_refresh_routes if_index s =
     (if if_index < 0 \<or> nat if_index \<ge> length (ifaces s) then s
      else
        let iface = ifaces s ! nat if_index; s1 = routes_clear_for_iface if_index s in
        if \<not> if_up iface then s1
        else if if_loopback iface then snd (route_add (NET_LOOPBACK_IP AND NET_LOOPBACK_MASK) NET_LOOPBACK_MASK 0 if_index s1)
        else
          let s2 = (if if_mask iface \<noteq> 0 then snd (route_add (if_addr iface AND if_mask iface) (if_mask iface) 0 if_index s1) else s1)
          in if if_gw iface \<noteq> 0 then snd (route_add 0 0 (if_gw iface) if_index s2) else s2)"

record route_result =
  rr_ok :: bool
  rr_local :: bool
  rr_if_index :: int
  rr_dev_index :: int
  rr_src_ip :: u32
  rr_next_hop :: u32

definition rr_zero :: route_result where
  "rr_zero = \<lparr>rr_ok = False, rr_local = False, rr_if_index = 0, rr_dev_index = 0, rr_src_ip = 0, rr_next_hop = 0\<rparr>"

definition route_usable :: "'d net \<Rightarrow> net_route \<Rightarrow> bool" where
  "route_usable s r \<longleftrightarrow> \<not> (\<not> rt_used r \<or> rt_if_index r < 0 \<or> nat (rt_if_index r) \<ge> length (ifaces s)) \<and> if_up (ifaces s ! nat (rt_if_index r))"

text \<open>The loop over the table: the best entry so far and its prefix length.\<close>

fun best_route :: "'d net \<Rightarrow> u32 \<Rightarrow> nat list \<Rightarrow> nat option \<Rightarrow> u32 \<Rightarrow> nat option" where
  "best_route s dst [] best best_prefix = best"
| "best_route s dst (i # is) best best_prefix =
     (let r = routes s i in
      if \<not> route_usable s r \<or> \<not> ip_in_subnet dst (rt_prefix r) (rt_mask r) then best_route s dst is best best_prefix
      else
        let prefix = mask_prefix_len (rt_mask r) in
        if best = None \<or> prefix > best_prefix then best_route s dst is (Some i) prefix
        else best_route s dst is best best_prefix)"

definition route_lookup :: "u32 \<Rightarrow> 'd net \<Rightarrow> route_result" where
  "route_lookup dst s =
     (case (if ip_is_any_local dst s \<or> is_loopback_ip dst then find (\<lambda>i. if_loopback (ifaces s ! i)) [0..<length (ifaces s)] else None) of
        Some i \<Rightarrow> \<lparr>rr_ok = True, rr_local = True, rr_if_index = int i, rr_dev_index = -1,
                   rr_src_ip = iface_src_ip_for_dst (ifaces s ! i) dst, rr_next_hop = dst\<rparr>
      | None \<Rightarrow>
          (case best_route s dst [0..<NET_ROUTE_MAX] None 0 of
             None \<Rightarrow> rr_zero
           | Some b \<Rightarrow>
               let r = routes s b; iface = ifaces s ! nat (rt_if_index r) in
               \<lparr>rr_ok = True, rr_local = if_loopback iface, rr_if_index = rt_if_index r, rr_dev_index = if_dev_index iface,
                rr_src_ip = iface_src_ip_for_dst iface dst, rr_next_hop = (if rt_gw r \<noteq> 0 then rt_gw r else dst)\<rparr>))"

definition pick_broadcast_iface :: "u32 \<Rightarrow> 'd net \<Rightarrow> route_result option" where
  "pick_broadcast_iface bind_ip_be s =
     (case find (\<lambda>i. let iface = ifaces s ! i in
              \<not> (\<not> if_up iface \<or> if_loopback iface \<or> if_dev_index iface < 0) \<and> \<not> (bind_ip_be \<noteq> 0 \<and> if_addr iface \<noteq> bind_ip_be))
            [0..<length (ifaces s)] of
        None \<Rightarrow> None
      | Some i \<Rightarrow> Some \<lparr>rr_ok = True, rr_local = False, rr_if_index = int i, rr_dev_index = if_dev_index (ifaces s ! i),
                     rr_src_ip = if_addr (ifaces s ! i), rr_next_hop = IP_BROADCAST\<rparr>)"

section \<open>Address resolution\<close>

definition arp_age :: "u64 \<Rightarrow> 'd net \<Rightarrow> 'd net" where
  "arp_age now s =
     s\<lparr>arp_tab := (\<lambda>i. if i < NET_ARP_MAX \<and> ae_valid (arp_tab s i) \<and> now - ae_tick (arp_tab s i) \<ge> NET_ARP_TTL_TICKS then ae_zero else arp_tab s i)\<rparr>"

definition arp_flush :: "'d net \<Rightarrow> 'd net" where "arp_flush s = s\<lparr>arp_tab := (\<lambda>_. ae_zero)\<rparr>"

definition arp_lookup :: "u32 \<Rightarrow> int \<Rightarrow> 'd net \<Rightarrow> nat option" where
  "arp_lookup ip_be if_index s =
     find (\<lambda>i. ae_valid (arp_tab s i) \<and> ae_ip (arp_tab s i) = ip_be \<and> ae_if_index (arp_tab s i) = if_index) [0..<NET_ARP_MAX]"

definition arp_mac :: "u32 \<Rightarrow> int \<Rightarrow> 'd net \<Rightarrow> u8 list option" where \<comment> \<open>what \<^verbatim>\<open>arp_lookup\<close> stores in mac_out\<close>
  "arp_mac ip_be if_index s = map_option (\<lambda>i. ae_mac (arp_tab s i)) (arp_lookup ip_be if_index s)"

fun arp_victim :: "(nat \<Rightarrow> arp_entry) \<Rightarrow> nat list \<Rightarrow> nat \<Rightarrow> u64 \<Rightarrow> nat" where
  "arp_victim a [] victim oldest = victim"
| "arp_victim a (i # is) victim oldest =
     (if \<not> ae_valid (a i) then i
      else if ae_tick (a i) < oldest then arp_victim a is i (ae_tick (a i))
      else arp_victim a is victim oldest)"

definition arp_update :: "u32 \<Rightarrow> int \<Rightarrow> u8 list \<Rightarrow> ('d net, unit) op" where
  "arp_update ip_be if_index mac =
     seq (gets (\<lambda>s. case arp_lookup ip_be if_index s of Some i \<Rightarrow> i | None \<Rightarrow> arp_victim (arp_tab s) [0..<NET_ARP_MAX] 0 (NOT 0))) (\<lambda>slot.
     seq timer_ticks (\<lambda>t.
     modify (\<lambda>s. s\<lparr>arp_tab := (arp_tab s)(slot := \<lparr>ae_valid = True, ae_ip = ip_be, ae_if_index = if_index, ae_mac = mac, ae_tick = t\<rparr>)\<rparr>)))"

section \<open>The longest prefix\<close>

definition candidate :: "'d net \<Rightarrow> u32 \<Rightarrow> nat \<Rightarrow> bool" where
  "candidate s dst i \<longleftrightarrow> route_usable s (routes s i) \<and> ip_in_subnet dst (rt_prefix (routes s i)) (rt_mask (routes s i))"

abbreviation plen :: "'d net \<Rightarrow> nat \<Rightarrow> u32" where "plen s i \<equiv> mask_prefix_len (rt_mask (routes s i))"

lemma best_route_spec:
  assumes "best_route s dst is b p = r" "\<forall>j. b = Some j \<longrightarrow> candidate s dst j \<and> plen s j = p"
  shows "(r = None \<longleftrightarrow> b = None \<and> (\<forall>i \<in> set is. \<not> candidate s dst i))
    \<and> (\<forall>j. r = Some j \<longrightarrow> candidate s dst j \<and> (b = Some j \<or> j \<in> set is) \<and> (b \<noteq> None \<longrightarrow> p \<le> plen s j)
         \<and> (\<forall>i \<in> set is. candidate s dst i \<longrightarrow> plen s i \<le> plen s j))"
  using assms
proof (induction "is" arbitrary: b p)
  case (Cons i js)
  show ?case
  proof (cases "candidate s dst i \<and> (b = None \<or> plen s i > p)")
    case True
    then have "best_route s dst js (Some i) (plen s i) = r" using Cons.prems(1) by (auto simp: candidate_def Let_def)
    from Cons.IH [OF this] True show ?thesis by (cases b) (auto simp: not_le intro: less_imp_le)
  next
    case False
    then have "best_route s dst js b p = r" using Cons.prems(1) by (auto simp: candidate_def Let_def)
    from Cons.IH [OF this] Cons.prems(2) False show ?thesis by (cases b) (auto simp: not_less intro: order_trans)
  qed
qed simp

end
