(* ===== verification/NetSock.thy ===== *)
theory NetSock
  imports NetTables Channel
begin

text \<open>
  The sockets of \<^verbatim>\<open>src/kernel/net.c\<close>: receive queues, accept queues, ports, allocation, and the queue of received
  frames.
\<close>

section \<open>Errors\<close>

definition socket_set_error :: "int \<Rightarrow> net_socket \<Rightarrow> net_socket" where
  "socket_set_error err k = (if err \<le> 0 \<or> sk_last_error k \<noteq> 0 then k else k\<lparr>sk_last_error := err\<rparr>)"

definition socket_take_error :: "nat \<Rightarrow> 'd net \<Rightarrow> int \<times> 'd net" where
  "socket_take_error i s = (sk_last_error (socks s i), upd_sock i (\<lambda>k. k\<lparr>sk_last_error := 0\<rparr>) s)"

definition socket_error_or :: "net_socket \<Rightarrow> int \<Rightarrow> int" where
  "socket_error_or k fallback = (if sk_last_error k \<noteq> 0 then sk_last_error k else fallback)"

section \<open>Datagram queues\<close>

definition socket_udp_queue_push :: "u8 list \<Rightarrow> u32 \<Rightarrow> u16 \<Rightarrow> net_socket \<Rightarrow> bool \<times> net_socket" where
  "socket_udp_queue_push data src_ip_be src_port k =
     (if length data > NET_UDP_PAYLOAD_MAX \<or> q_count k \<ge> NET_SOCK_RXQ then (False, k)
      else (True, k\<lparr>rxq := (rxq k)(q_tail k := \<lparr>ui_src_ip = src_ip_be, ui_src_port = src_port, ui_data = data\<rparr>),
                     q_tail := (q_tail k + 1) mod NET_SOCK_RXQ, q_count := q_count k + 1\<rparr>))"

text \<open>What was stored through the pointers: the bytes, the source address and port.\<close>

definition socket_udp_queue_pop :: "nat \<Rightarrow> net_socket \<Rightarrow> (u8 list \<times> u32 \<times> u16) option \<times> net_socket" where
  "socket_udp_queue_pop len k =
     (if q_count k = 0 then (None, k)
      else
        let it = rxq k (q_head k) in
        (Some (take len (ui_data it), ui_src_ip it, ui_src_port it),
         k\<lparr>q_head := (q_head k + 1) mod NET_SOCK_RXQ, q_count := q_count k - 1\<rparr>))"

section \<open>Receive buffers\<close>

fun rx_write_loop :: "u8 list \<Rightarrow> net_socket \<Rightarrow> net_socket" where
  "rx_write_loop [] k = k"
| "rx_write_loop (b # bs) k = rx_write_loop bs (k\<lparr>rx_buf := (rx_buf k)(rx_tail k := b), rx_tail := (rx_tail k + 1) mod NET_TCP_BUF_MAX\<rparr>)"

definition tcp_rx_write :: "u8 list \<Rightarrow> net_socket \<Rightarrow> nat \<times> net_socket" where
  "tcp_rx_write data k =
     (if data = [] then (0, k)
      else
        let space = NET_TCP_BUF_MAX - rx_len k; len = (if length data > space then space else length data);
            k1 = rx_write_loop (take len data) k
        in (len, k1\<lparr>rx_len := rx_len k1 + len\<rparr>))"

fun rx_read_loop :: "nat \<Rightarrow> net_socket \<Rightarrow> u8 list \<times> net_socket" where
  "rx_read_loop 0 k = ([], k)"
| "rx_read_loop (Suc n) k =
     (case rx_read_loop n (k\<lparr>rx_head := (rx_head k + 1) mod NET_TCP_BUF_MAX\<rparr>) of (bs, k1) \<Rightarrow> (rx_buf k (rx_head k) # bs, k1))"

definition tcp_rx_read :: "nat \<Rightarrow> net_socket \<Rightarrow> u8 list \<times> net_socket" where
  "tcp_rx_read len0 k =
     (if len0 = 0 then ([], k)
      else
        let len = (if len0 > rx_len k then rx_len k else len0) in
        case rx_read_loop len k of (bs, k1) \<Rightarrow> (bs, k1\<lparr>rx_len := rx_len k1 - len\<rparr>))"

section \<open>Accept queues\<close>

definition drop_nth :: "nat \<Rightarrow> 'a list \<Rightarrow> 'a list" where "drop_nth i xs = take i xs @ drop (Suc i) xs"

function prune_loop :: "nat \<Rightarrow> nat \<Rightarrow> 'd net \<Rightarrow> 'd net" where
  "prune_loop l i s =
     (if i < length (t_pending (socks s l)) then
        let child = t_pending (socks s l) ! i; c = socks s child;
            drop = (if \<not> sk_used c then True
                    else if t_listener c \<noteq> Some l then True
                    else t_state c = TCP_CLOSED \<or> t_error c)
        in if \<not> drop then prune_loop l (i + 1) s
           else
             let s1 = (if sk_used c then upd_sock child (\<lambda>_. sock_zero) s else s)
             in prune_loop l i (upd_sock l (\<lambda>k. k\<lparr>t_pending := drop_nth i (t_pending k)\<rparr>) s1)
      else s)"
  by pat_completeness auto
termination
  by (relation "measure (\<lambda>(l, i, s). length (t_pending (socks s l)) - i)") (auto simp: upd_sock_def drop_nth_def sock_zero_def)

declare prune_loop.simps [simp del]

definition listener_queue_prune :: "nat \<Rightarrow> 'd net \<Rightarrow> 'd net" where "listener_queue_prune l s = prune_loop l 0 s"

definition listener_queue_add :: "nat \<Rightarrow> nat \<Rightarrow> 'd net \<Rightarrow> bool \<times> 'd net" where
  "listener_queue_add l child s0 =
     (let s = listener_queue_prune l s0 in
      if length (t_pending (socks s l)) \<ge> NET_TCP_ACCEPTQ then (False, s)
      else (True, upd_sock child (\<lambda>k. k\<lparr>t_listener := Some l\<rparr>) (upd_sock l (\<lambda>k. k\<lparr>t_pending := t_pending k @ [child]\<rparr>) s)))"

definition index_of :: "'a \<Rightarrow> 'a list \<Rightarrow> nat option" where "index_of x xs = find (\<lambda>i. xs ! i = x) [0..<length xs]"

definition listener_queue_remove :: "nat \<Rightarrow> nat \<Rightarrow> 'd net \<Rightarrow> 'd net" where
  "listener_queue_remove l child s =
     (case index_of child (t_pending (socks s l)) of
        None \<Rightarrow> s
      | Some i \<Rightarrow> upd_sock child (\<lambda>k. k\<lparr>t_listener := None\<rparr>) (upd_sock l (\<lambda>k. k\<lparr>t_pending := drop_nth i (t_pending k)\<rparr>) s))"

definition accept_ready :: "net_socket \<Rightarrow> bool" where
  "accept_ready c \<longleftrightarrow> sk_used c \<and> (t_state c = TCP_ESTABLISHED \<or> t_state c = TCP_CLOSE_WAIT)"

definition listener_queue_take_established :: "nat \<Rightarrow> 'd net \<Rightarrow> nat option \<times> 'd net" where
  "listener_queue_take_established l s0 =
     (let s = listener_queue_prune l s0 in
      case find (\<lambda>c. accept_ready (socks s c)) (t_pending (socks s l)) of
        None \<Rightarrow> (None, s)
      | Some child \<Rightarrow> (Some child, listener_queue_remove l child s))"

definition listener_queue_has_established :: "nat \<Rightarrow> 'd net \<Rightarrow> bool \<times> 'd net" where
  "listener_queue_has_established l s0 =
     (let s = listener_queue_prune l s0 in (list_ex (\<lambda>c. accept_ready (socks s c)) (t_pending (socks s l)), s))"

section \<open>Ports\<close>

definition port_clash :: "u16 \<Rightarrow> u32 \<Rightarrow> net_sock_proto \<Rightarrow> nat option \<Rightarrow> 'd net \<Rightarrow> nat \<Rightarrow> bool" where \<comment> \<open>socket \<open>i\<close> conflicts\<close>
  "port_clash port bind_ip proto skip s i \<longleftrightarrow>
     (let k = socks s i in
      \<not> (\<not> sk_used k \<or> \<not> sk_bound k \<or> Some i = skip \<or> sk_proto k \<noteq> proto) \<and> sk_bind_port k = port
      \<and> (sk_bind_ip k = 0 \<or> bind_ip = 0 \<or> sk_bind_ip k = bind_ip)
      \<and> \<not> (sk_reuseaddr k \<and> (case skip of None \<Rightarrow> False | Some j \<Rightarrow> sk_reuseaddr (socks s j))))"

definition socket_port_conflict :: "u16 \<Rightarrow> u32 \<Rightarrow> net_sock_proto \<Rightarrow> nat option \<Rightarrow> 'd net \<Rightarrow> bool" where
  "socket_port_conflict port bind_ip proto skip s \<longleftrightarrow> list_ex (port_clash port bind_ip proto skip s) [0..<NET_SOCK_MAX]"

definition eph_next :: "u16 \<Rightarrow> u16" where
  "eph_next p = (if p = NET_EPHEMERAL_LAST then NET_EPHEMERAL_BASE else p + 1)"

text \<open>The \<^verbatim>\<open>do ... while (p != start)\<close> loop; \<open>Some 0\<close>: no port is free, \<open>None\<close>: the loop does not end.\<close>

partial_function (option) eph_search :: "(u16 \<Rightarrow> bool) \<Rightarrow> u16 \<Rightarrow> u16 \<Rightarrow> u16 option" where
  "eph_search conflict start p =
     (if \<not> conflict p then Some p
      else let p' = eph_next p in if p' \<noteq> start then eph_search conflict start p' else Some 0)"

declare eph_search.simps [code]

definition socket_alloc_ephemeral :: "nat option \<Rightarrow> u32 \<Rightarrow> net_sock_proto \<Rightarrow> ('d net, u16) op" where
  "socket_alloc_ephemeral skip bind_ip proto s =
     (let start = (if next_ephemeral s < NET_EPHEMERAL_BASE \<or> next_ephemeral s > NET_EPHEMERAL_LAST then NET_EPHEMERAL_BASE
                   else next_ephemeral s)
      in case eph_search (\<lambda>p. socket_port_conflict p bind_ip proto skip s) start start of
           None \<Rightarrow> (None, s)
         | Some p \<Rightarrow> (Some p, if p = 0 then s else s\<lparr>next_ephemeral := eph_next p\<rparr>))"

section \<open>Allocation\<close>

definition socket_alloc_internal :: "net_sock_proto \<Rightarrow> 'd net \<Rightarrow> nat option \<times> 'd net" where
  "socket_alloc_internal proto s =
     (case find (\<lambda>i. \<not> sk_used (socks s i)) [0..<NET_SOCK_MAX] of
        None \<Rightarrow> (None, s)
      | Some i \<Rightarrow> (Some i, s\<lparr>socks := (socks s)(i := sock_zero\<lparr>sk_used := True, sk_refs := 1, sk_proto := proto,
                     peer_wnd := (if proto = PROTO_TCP then of_nat NET_TCP_BUF_MAX else 0)\<rparr>)\<rparr>))"

text \<open>The children of a listener are cleared from the end of the queue.\<close>

definition clear_children :: "nat list \<Rightarrow> 'd net \<Rightarrow> 'd net" where
  "clear_children cs s = fold (\<lambda>c. upd_sock c (\<lambda>_. sock_zero)) (rev cs) s"

definition socket_reset :: "nat \<Rightarrow> 'd net \<Rightarrow> 'd net" where
  "socket_reset i s =
     (let k = socks s i;
          s1 = (if sk_proto k = PROTO_TCP then (case t_listener k of Some l \<Rightarrow> listener_queue_remove l i s | None \<Rightarrow> s) else s);
          k1 = socks s1 i;
          s2 = (if sk_proto k1 = PROTO_TCP \<and> t_state k1 = TCP_LISTEN then clear_children (t_pending k1) s1 else s1)
      in upd_sock i (\<lambda>_. sock_zero) s2)"

section \<open>Received frames\<close>

definition rxq_push :: "int \<Rightarrow> u8 list \<Rightarrow> 'd net \<Rightarrow> bool \<times> 'd net" where
  "rxq_push dev_index frame s =
     (if length frame > NET_FRAME_MAX \<or> rxq_count s \<ge> NET_RXQ_MAX then (False, s)
      else (True, s\<lparr>rxq_items := (rxq_items s)(rxq_tail s := \<lparr>ri_used = True, ri_dev = dev_index, ri_frame = frame\<rparr>),
                     rxq_tail := (rxq_tail s + 1) mod NET_RXQ_MAX, rxq_count := rxq_count s + 1\<rparr>))"

definition rxq_pop :: "'d net \<Rightarrow> net_rx_item option \<times> 'd net" where
  "rxq_pop s =
     (if rxq_count s = 0 then (None, s)
      else (Some (rxq_items s (rxq_head s)),
            s\<lparr>rxq_items := (rxq_items s)(rxq_head s := ri_zero), rxq_head := (rxq_head s + 1) mod NET_RXQ_MAX,
              rxq_count := rxq_count s - 1\<rparr>))"

section \<open>Finding the socket of a segment\<close>

definition tcp_tx_seg_end_seq :: "net_socket \<Rightarrow> u32" where
  "tcp_tx_seg_end_seq k =
     (if \<not> tx_valid (tx_seg k) then 0
      else tx_seq (tx_seg k) + of_nat (length (tx_data (tx_seg k)))
           + (if tx_flags (tx_seg k) AND TCP_SYN \<noteq> 0 then 1 else 0) + (if tx_flags (tx_seg k) AND TCP_FIN \<noteq> 0 then 1 else 0))"

definition tcp_peer_match :: "net_socket \<Rightarrow> u32 \<Rightarrow> u16 \<Rightarrow> u32 \<Rightarrow> u16 \<Rightarrow> bool" where
  "tcp_peer_match k dst_ip dst_port src_ip src_port \<longleftrightarrow>
     \<not> (\<not> sk_used k \<or> sk_proto k \<noteq> PROTO_TCP \<or> \<not> sk_bound k) \<and> sk_bind_port k = dst_port
     \<and> \<not> (sk_bind_ip k \<noteq> 0 \<and> sk_bind_ip k \<noteq> dst_ip) \<and> \<not> (sk_peer_ip k \<noteq> src_ip \<or> sk_peer_port k \<noteq> src_port)
     \<and> t_state k \<noteq> TCP_LISTEN"

definition tcp_find_listener :: "u32 \<Rightarrow> u16 \<Rightarrow> 'd net \<Rightarrow> nat option" where
  "tcp_find_listener dst_ip dst_port s =
     find (\<lambda>i. let k = socks s i in
        \<not> (\<not> sk_used k \<or> sk_proto k \<noteq> PROTO_TCP \<or> t_state k \<noteq> TCP_LISTEN \<or> \<not> sk_bound k) \<and> sk_bind_port k = dst_port
        \<and> \<not> (sk_bind_ip k \<noteq> 0 \<and> sk_bind_ip k \<noteq> dst_ip)) [0..<NET_SOCK_MAX]"

definition tcp_find_socket :: "u32 \<Rightarrow> u16 \<Rightarrow> u32 \<Rightarrow> u16 \<Rightarrow> 'd net \<Rightarrow> nat option" where
  "tcp_find_socket dst_ip dst_port src_ip src_port s =
     (case find (\<lambda>i. tcp_peer_match (socks s i) dst_ip dst_port src_ip src_port) [0..<NET_SOCK_MAX] of
        Some i \<Rightarrow> Some i
      | None \<Rightarrow> tcp_find_listener dst_ip dst_port s)"

end
