(* ===== verification/NetStack.thy ===== *)
theory NetStack
  imports NetSock
begin

text \<open>
  Sending and receiving, \<^verbatim>\<open>src/kernel/net.c\<close>. A packet to a local address is processed inside the call that sends it,
  and waiting for an address resolution processes whatever arrives, so sending and
  receiving call each other. The handlers take the sending function as an argument \<open>tx\<close>, and \<open>send_ipv4_l4_ex\<close> closes the
  knot with the depth of nesting as fuel. An operation that returns \<open>None\<close> has run
  out of it; in the code there is no bound but the kernel stack. A \<^verbatim>\<open>bool\<close> result of the code is a \<open>Some\<close> of it.
\<close>

type_synonym 'd sender = "u8 \<Rightarrow> u32 \<Rightarrow> u32 \<Rightarrow> u8 list \<Rightarrow> ('d net, bool) op" \<comment> \<open>protocol, source, destination, payload\<close>

definition lift :: "('s \<Rightarrow> 'a \<times> 's) \<Rightarrow> ('s, 'a) op" where "lift f s = (case f s of (x, s1) \<Rightarrow> (Some x, s1))"

lemma lift_apply [op_simps]: "lift f s = (Some (fst (f s)), snd (f s))" by (simp add: lift_def split: prod.splits)

section \<open>Frames\<close>

definition send_ethernet :: "int \<Rightarrow> u8 list \<Rightarrow> u8 list \<Rightarrow> u16 \<Rightarrow> u8 list \<Rightarrow> 'd net \<Rightarrow> bool \<times> 'd net" where
  "send_ethernet dev_index src_mac dst_mac ethertype payload s =
     (if dev_index < 0 \<or> length payload > NET_MTU then (False, s)
      else netdev_send dev_index (dst_mac @ src_mac @ Bytes.be16 ethertype @ payload) s)"

definition arp_packet :: "u16 \<Rightarrow> u8 list \<Rightarrow> u32 \<Rightarrow> u8 list \<Rightarrow> u32 \<Rightarrow> u8 list" where
  "arp_packet oper sha spa tha tpa =
     Bytes.be16 1 @ Bytes.be16 0x0800 @ [6, 4] @ Bytes.be16 oper @ sha @ Bytes.be32 spa @ tha @ Bytes.be32 tpa"

definition send_arp_request :: "int \<Rightarrow> u32 \<Rightarrow> 'd net \<Rightarrow> bool \<times> 'd net" where
  "send_arp_request if_index target_ip_be s =
     (if if_index < 0 \<or> nat if_index \<ge> length (ifaces s) then (False, s)
      else
        let iface = ifaces s ! nat if_index in
        send_ethernet (if_dev_index iface) (if_mac iface) (replicate 6 0xFF) 0x0806
          (arp_packet 1 (if_mac iface) (if_addr iface) (replicate 6 0) target_ip_be) s)"

definition send_arp_reply :: "int \<Rightarrow> u8 list \<Rightarrow> u32 \<Rightarrow> 'd net \<Rightarrow> bool \<times> 'd net" where
  "send_arp_reply if_index dst_mac dst_ip_be s =
     (if if_index < 0 \<or> nat if_index \<ge> length (ifaces s) then (False, s)
      else
        let iface = ifaces s ! nat if_index in
        send_ethernet (if_dev_index iface) (if_mac iface) dst_mac 0x0806
          (arp_packet 2 (if_mac iface) (if_addr iface) dst_mac dst_ip_be) s)"

definition process_arp :: "int \<Rightarrow> u8 list \<Rightarrow> u8 list \<Rightarrow> ('d net, unit) op" where
  "process_arp if_index src_mac p =
     (if if_index < 0 \<or> length p < 28 then ret ()
      else if rd_be16 p 0 \<noteq> 1 \<or> rd_be16 p 2 \<noteq> 0x0800 \<or> p ! 4 \<noteq> 6 \<or> p ! 5 \<noteq> 4 then ret ()
      else
        let oper = rd_be16 p 6; sha = take 6 (drop 8 p); spa = rd_be32 p 14; tpa = rd_be32 p 24 in
        if oper = 1 then
          seq (arp_update spa if_index sha) (\<lambda>_ s.
            if if_addr (ifaces s ! nat if_index) = tpa then (Some (), snd (send_arp_reply if_index src_mac spa s)) else (Some (), s))
        else if oper = 2 then arp_update spa if_index sha
        else ret ())"

definition ipv4_header :: "nat \<Rightarrow> u16 \<Rightarrow> u8 \<Rightarrow> u32 \<Rightarrow> u32 \<Rightarrow> u8 list" where \<comment> \<open>total length, identification, protocol, addresses\<close>
  "ipv4_header tot_len ident proto src dst =
     (let h = [0x45, 0] @ Bytes.be16 (of_nat tot_len) @ Bytes.be16 ident @ Bytes.be16 0x4000 @ [64, proto] @ [0, 0]
              @ Bytes.be32 src @ Bytes.be32 dst
      in wr_be16 h 10 (checksum16 h))"

section \<open>TCP output\<close>

definition tcp_header :: "u16 \<Rightarrow> u16 \<Rightarrow> u32 \<Rightarrow> u32 \<Rightarrow> u16 \<Rightarrow> u16 \<Rightarrow> u8 list" where
  "tcp_header src_port dst_port sq ak flags window =
     Bytes.be16 src_port @ Bytes.be16 dst_port @ Bytes.be32 sq @ Bytes.be32 ak @ Bytes.be16 (push_bit 12 5 OR flags)
     @ Bytes.be16 window @ [0, 0] @ [0, 0]"

definition tcp_packet :: "u32 \<Rightarrow> u32 \<Rightarrow> u8 list \<Rightarrow> u8 list" where \<comment> \<open>with the checksum filled in\<close>
  "tcp_packet src dst p = wr_be16 p 16 (ipv4_l4_checksum src dst IP_PROTO_TCP p)"

definition tcp_send_segment :: "'d sender \<Rightarrow> nat \<Rightarrow> u16 \<Rightarrow> u32 \<Rightarrow> u32 \<Rightarrow> u8 list \<Rightarrow> bool \<Rightarrow> ('d net, bool) op" where
  "tcp_send_segment tx i flags sq ak payload retransmit =
     seq (gets (\<lambda>s. socks s i)) (\<lambda>k.
       if sk_proto k \<noteq> PROTO_TCP \<or> length payload > NET_MTU - 20 then ret False
       else
         let track_tx = (\<not> retransmit \<and> (flags AND (TCP_SYN OR TCP_FIN) \<noteq> 0 \<or> length payload > 0));
             pkt = tcp_packet (if sk_bind_ip k \<noteq> 0 then sk_bind_ip k else NET_LOOPBACK_IP) (sk_peer_ip k)
                     (tcp_header (sk_bind_port k) (sk_peer_port k) sq ak flags (of_nat (NET_TCP_BUF_MAX - rx_len k)) @ payload)
         in seq (if track_tx then
                   seq timer_ticks (\<lambda>t. modify (upd_sock i (\<lambda>k. k\<lparr>tx_seg := \<lparr>tx_valid = True, tx_flags = flags, tx_seq = sq,
                     tx_data = payload, tx_sent_tick = t, tx_retries = 0\<rparr>\<rparr>)))
                 else ret ()) (\<lambda>_.
            seq (tx IP_PROTO_TCP (sk_bind_ip k) (sk_peer_ip k) pkt) (\<lambda>ok.
              if \<not> ok then
                seq (if track_tx then modify (upd_sock i (\<lambda>k. k\<lparr>tx_seg := tx_zero\<rparr>)) else ret ()) (\<lambda>_. ret False)
              else ret True)))"

definition tcp_send_ack :: "'d sender \<Rightarrow> nat \<Rightarrow> ('d net, bool) op" where
  "tcp_send_ack tx i =
     seq (gets (\<lambda>s. socks s i)) (\<lambda>k.
       if sk_proto k \<noteq> PROTO_TCP then ret False
       else tcp_send_segment tx i TCP_ACK (snd_nxt k) (rcv_nxt k) [] True)"

definition set_state :: "nat \<Rightarrow> tcp_state \<Rightarrow> ('d net, unit) op" where
  "set_state i st = modify (upd_sock i (\<lambda>k. k\<lparr>t_state := st\<rparr>))"

definition tcp_enter_time_wait :: "nat \<Rightarrow> ('d net, unit) op" where
  "tcp_enter_time_wait i =
     seq (gets (\<lambda>s. socks s i)) (\<lambda>k.
       if sk_proto k \<noteq> PROTO_TCP then ret ()
       else seq timer_ticks (\<lambda>t. modify (upd_sock i (\<lambda>k. k\<lparr>t_state := TCP_TIME_WAIT, timewait_deadline := t + NET_TCP_TIMEWAIT_TICKS\<rparr>))))"

definition tcp_send_fin_now :: "'d sender \<Rightarrow> nat \<Rightarrow> ('d net, bool) op" where
  "tcp_send_fin_now tx i =
     seq (gets (\<lambda>s. socks s i)) (\<lambda>k.
       if sk_proto k \<noteq> PROTO_TCP then ret False
       else
         let sq = snd_nxt k in
         seq (tcp_send_segment tx i (TCP_ACK OR TCP_FIN) sq (rcv_nxt k) [] False) (\<lambda>ok.
           if \<not> ok then ret False
           else
             seq (modify (upd_sock i (\<lambda>k.
                    let k = k\<lparr>snd_nxt := sq + 1\<rparr> in
                    if t_state k = TCP_ESTABLISHED then k\<lparr>t_state := TCP_FIN_WAIT1\<rparr>
                    else if t_state k = TCP_CLOSE_WAIT then k\<lparr>t_state := TCP_LAST_ACK\<rparr> else k))) (\<lambda>_. ret True)))"

definition tcp_send_reply_raw :: "'d sender \<Rightarrow> u32 \<Rightarrow> u32 \<Rightarrow> u16 \<Rightarrow> u16 \<Rightarrow> u32 \<Rightarrow> u32 \<Rightarrow> u16 \<Rightarrow> ('d net, bool) op" where
  "tcp_send_reply_raw tx src dst src_port dst_port sq ak flags =
     tx IP_PROTO_TCP src dst (tcp_packet src dst (tcp_header src_port dst_port sq ak flags (of_nat NET_TCP_BUF_MAX)))"

definition tcp_send_rst_for_segment ::
  "'d sender \<Rightarrow> u32 \<Rightarrow> u32 \<Rightarrow> u16 \<Rightarrow> u16 \<Rightarrow> u16 \<Rightarrow> u32 \<Rightarrow> u32 \<Rightarrow> nat \<Rightarrow> ('d net, unit) op" where
  "tcp_send_rst_for_segment tx local_ip remote_ip local_port remote_port flags sq ack_seq payload_len =
     (if flags AND TCP_RST \<noteq> 0 then ret ()
      else if flags AND TCP_ACK \<noteq> 0 then
        seq (tcp_send_reply_raw tx local_ip remote_ip local_port remote_port ack_seq 0 TCP_RST) (\<lambda>_. ret ())
      else
        let ak = sq + of_nat payload_len; ak = (if flags AND TCP_SYN \<noteq> 0 then ak + 1 else ak);
            ak = (if flags AND TCP_FIN \<noteq> 0 then ak + 1 else ak)
        in seq (tcp_send_reply_raw tx local_ip remote_ip local_port remote_port 0 ak (TCP_RST OR TCP_ACK)) (\<lambda>_. ret ()))"

section \<open>TCP input\<close>

definition tcp_ack_advance :: "'d sender \<Rightarrow> nat \<Rightarrow> u32 \<Rightarrow> ('d net, bool) op" where
  "tcp_ack_advance tx i ack_seq =
     seq (gets (\<lambda>s. socks s i)) (\<lambda>k.
       if sk_proto k \<noteq> PROTO_TCP then ret False
       else if ack_seq = snd_una k then ret False
       else if tcp_seq_lt ack_seq (snd_una k) \<or> tcp_seq_gt ack_seq (snd_nxt k) then ret False
       else
         seq (modify (upd_sock i (\<lambda>k. k\<lparr>snd_una := ack_seq\<rparr>))) (\<lambda>_.
         seq (if tx_valid (tx_seg k) \<and> \<not> tcp_seq_lt ack_seq (tcp_tx_seg_end_seq k) then
                seq (modify (upd_sock i (\<lambda>k. k\<lparr>tx_seg := tx_zero\<rparr>))) (\<lambda>_.
                  if fin_pending k \<and> (t_state k = TCP_ESTABLISHED \<or> t_state k = TCP_CLOSE_WAIT) then
                    seq (tcp_send_fin_now tx i) (\<lambda>ok.
                      if ok then modify (upd_sock i (\<lambda>k. k\<lparr>fin_pending := False\<rparr>)) else ret ())
                  else ret ())
              else ret ()) (\<lambda>_. ret True)))"

definition tcp_on_rst :: "nat \<Rightarrow> 'd net \<Rightarrow> 'd net" where
  "tcp_on_rst i s =
     (let k = socks s i in
      if sk_proto k \<noteq> PROTO_TCP then s
      else
        let s1 = upd_sock i (\<lambda>k. (socket_set_error (if t_state k = TCP_SYN_SENT \<or> t_state k = TCP_SYN_RECV then 111 else 104) k)
                   \<lparr>t_error := True, rx_closed := True, t_state := TCP_CLOSED, tx_seg := tx_zero\<rparr>) s
        in if t_listener k \<noteq> None \<and> sk_refs k \<le> 1 then socket_reset i s1 else s1)"

definition process_tcp_listener :: "'d sender \<Rightarrow> nat \<Rightarrow> u32 \<Rightarrow> u16 \<Rightarrow> u32 \<Rightarrow> u32 \<Rightarrow> u16 \<Rightarrow> u32 \<Rightarrow> ('d net, unit) op" where
  "process_tcp_listener tx l src_ip src_port dst_ip ack_seq flags sq =
     seq (gets (\<lambda>s. socks s l)) (\<lambda>lk.
       if length (t_pending lk) \<ge> t_backlog lk then
         (if flags AND TCP_SYN \<noteq> 0
          then tcp_send_rst_for_segment tx dst_ip src_ip (sk_bind_port lk) src_port flags sq ack_seq 0 else ret ())
       else if flags AND TCP_SYN = 0 then ret ()
       else
         seq (lift (socket_alloc_internal PROTO_TCP)) (\<lambda>r.
           case r of
             None \<Rightarrow> ret ()
           | Some c \<Rightarrow>
               seq net_rand32 (\<lambda>iss.
               seq (modify (upd_sock c (\<lambda>k. k\<lparr>sk_bound := True, sk_bind_ip := (if sk_bind_ip lk \<noteq> 0 then sk_bind_ip lk else dst_ip),
                      sk_bind_port := sk_bind_port lk, sk_peer_ip := src_ip, sk_peer_port := src_port, t_state := TCP_SYN_RECV,
                      t_iss := iss, snd_una := iss, snd_nxt := iss + 1, t_irs := sq, rcv_nxt := sq + 1,
                      peer_wnd := of_nat NET_TCP_BUF_MAX\<rparr>))) (\<lambda>_.
               seq (lift (listener_queue_add l c)) (\<lambda>added.
                 if \<not> added then modify (socket_reset c)
                 else
                   seq (gets (\<lambda>s. socks s c)) (\<lambda>k.
                   seq (tcp_send_segment tx c (TCP_SYN OR TCP_ACK) (t_iss k) (rcv_nxt k) [] False) (\<lambda>_. ret ())))))))"

text \<open>The state change that an acceptable acknowledgement brings.\<close>

definition ack_transition :: "nat \<Rightarrow> u32 \<Rightarrow> ('d net, unit) op" where
  "ack_transition i ack_seq =
     seq (gets (\<lambda>s. socks s i)) (\<lambda>k.
       if ack_seq \<noteq> snd_nxt k then ret ()
       else if t_state k = TCP_SYN_RECV \<or> t_state k = TCP_SYN_SENT then set_state i TCP_ESTABLISHED
       else if t_state k = TCP_FIN_WAIT1 then (if rx_closed k then tcp_enter_time_wait i else set_state i TCP_FIN_WAIT2)
       else if t_state k = TCP_CLOSING then tcp_enter_time_wait i
       else if t_state k = TCP_LAST_ACK then modify (upd_sock i (\<lambda>k. k\<lparr>t_state := TCP_CLOSED, rx_closed := True\<rparr>))
       else ret ())"

text \<open>The payload: \<open>None\<close> to stop, or what is left of it and its sequence number for the \<^verbatim>\<open>FIN\<close>.\<close>

definition take_payload :: "'d sender \<Rightarrow> nat \<Rightarrow> u32 \<Rightarrow> u8 list \<Rightarrow> ('d net, (u32 \<times> nat) option) op" where
  "take_payload tx i sq0 payload0 =
     seq (gets (\<lambda>s. socks s i)) (\<lambda>k.
       if payload0 = [] then ret (Some (sq0, 0))
       else if rx_closed k then seq (tcp_send_ack tx i) (\<lambda>_. ret None)
       else
         let trim = rcv_nxt k - sq0 in
         if tcp_seq_lt sq0 (rcv_nxt k) \<and> unat trim \<ge> length payload0 then seq (tcp_send_ack tx i) (\<lambda>_. ret (Some (sq0, 0)))
         else
           let old = tcp_seq_lt sq0 (rcv_nxt k); payload = (if old then drop (unat trim) payload0 else payload0);
               sq = (if old then rcv_nxt k else sq0)
           in if sq = rcv_nxt k then
                seq (lift (\<lambda>s. case tcp_rx_write payload (socks s i) of (n, k1) \<Rightarrow> (n, upd_sock i (\<lambda>_. k1) s))) (\<lambda>wrote.
                seq (modify (upd_sock i (\<lambda>k. k\<lparr>rcv_nxt := rcv_nxt k + of_nat wrote\<rparr>))) (\<lambda>_.
                seq (tcp_send_ack tx i) (\<lambda>_. ret (Some (sq, length payload)))))
              else seq (tcp_send_ack tx i) (\<lambda>_. ret None))"

definition take_fin :: "'d sender \<Rightarrow> nat \<Rightarrow> u32 \<Rightarrow> ('d net, unit) op" where
  "take_fin tx i fin_seq =
     seq (gets (\<lambda>s. socks s i)) (\<lambda>k.
       if tcp_seq_lt fin_seq (rcv_nxt k) then
         seq (tcp_send_ack tx i) (\<lambda>_.
         seq (gets (\<lambda>s. t_state (socks s i))) (\<lambda>st. if st = TCP_TIME_WAIT then tcp_enter_time_wait i else ret ()))
       else if fin_seq = rcv_nxt k then
         seq (modify (upd_sock i (\<lambda>k. k\<lparr>rcv_nxt := rcv_nxt k + 1, rx_closed := True\<rparr>))) (\<lambda>_.
         seq (tcp_send_ack tx i) (\<lambda>_.
         seq (gets (\<lambda>s. socks s i)) (\<lambda>k.
           if t_state k = TCP_ESTABLISHED then set_state i TCP_CLOSE_WAIT
           else if t_state k = TCP_FIN_WAIT1 then (if snd_una k = snd_nxt k then tcp_enter_time_wait i else set_state i TCP_CLOSING)
           else if t_state k = TCP_FIN_WAIT2 \<or> t_state k = TCP_TIME_WAIT then tcp_enter_time_wait i
           else ret ())))
       else seq (tcp_send_ack tx i) (\<lambda>_. ret ()))"

definition process_tcp_established :: "'d sender \<Rightarrow> nat \<Rightarrow> u16 \<Rightarrow> u32 \<Rightarrow> u32 \<Rightarrow> u16 \<Rightarrow> u8 list \<Rightarrow> ('d net, unit) op" where
  "process_tcp_established tx i flags sq ack_seq window payload =
     seq (modify (upd_sock i (\<lambda>k. k\<lparr>peer_wnd := window\<rparr>))) (\<lambda>_.
       if flags AND TCP_RST \<noteq> 0 then modify (tcp_on_rst i)
       else
         seq (gets (\<lambda>s. socks s i)) (\<lambda>k.
           if flags AND TCP_ACK \<noteq> 0 \<and> (tcp_seq_lt ack_seq (snd_una k) \<or> tcp_seq_gt ack_seq (snd_nxt k))
           then seq (tcp_send_ack tx i) (\<lambda>_. ret ())
           else
             seq (if flags AND TCP_ACK \<noteq> 0
                  then seq (tcp_ack_advance tx i ack_seq) (\<lambda>adv. if adv then ack_transition i ack_seq else ret ()) else ret ()) (\<lambda>_.
             seq (take_payload tx i sq payload) (\<lambda>r.
               case r of
                 None \<Rightarrow> ret ()
               | Some (sq', n) \<Rightarrow> if flags AND TCP_FIN \<noteq> 0 then take_fin tx i (sq' + of_nat n) else ret ()))))"

definition process_tcp :: "'d sender \<Rightarrow> u32 \<Rightarrow> u32 \<Rightarrow> u8 list \<Rightarrow> ('d net, unit) op" where
  "process_tcp tx src_ip dst_ip p =
     (if length p < 20 then ret ()
      else
        let off_flags = rd_be16 p 12; hdr_len = unat (drop_bit 12 off_flags AND 0xF) * 4 in
        if hdr_len < 20 \<or> hdr_len > length p then ret ()
        else
          let flags = off_flags AND 0x01FF; src_port = rd_be16 p 0; dst_port = rd_be16 p 2; sq = rd_be32 p 4; ack_seq = rd_be32 p 8;
              win = rd_be16 p 14; pl = drop hdr_len p
          in seq (gets (tcp_find_socket dst_ip dst_port src_ip src_port)) (\<lambda>r.
               case r of
                 None \<Rightarrow> tcp_send_rst_for_segment tx dst_ip src_ip dst_port src_port flags sq ack_seq (length pl)
               | Some i \<Rightarrow>
                   seq (gets (\<lambda>s. socks s i)) (\<lambda>k.
                     if t_state k = TCP_LISTEN then process_tcp_listener tx i src_ip src_port dst_ip ack_seq flags sq
                     else if t_state k = TCP_SYN_SENT then
                       (if flags AND TCP_ACK \<noteq> 0 \<and> (tcp_seq_lt ack_seq (snd_una k) \<or> tcp_seq_gt ack_seq (snd_nxt k))
                        then tcp_send_rst_for_segment tx dst_ip src_ip dst_port src_port flags sq ack_seq (length pl)
                        else if flags AND (TCP_SYN OR TCP_ACK) = (TCP_SYN OR TCP_ACK) \<and> ack_seq = snd_nxt k then
                          seq (modify (upd_sock i (\<lambda>k. k\<lparr>t_irs := sq, rcv_nxt := sq + 1, peer_wnd := win\<rparr>))) (\<lambda>_.
                          seq (tcp_ack_advance tx i ack_seq) (\<lambda>_.
                          seq (set_state i TCP_ESTABLISHED) (\<lambda>_.
                          seq (tcp_send_ack tx i) (\<lambda>_. ret ()))))
                        else if flags AND TCP_RST \<noteq> 0 then modify (tcp_on_rst i)
                        else ret ())
                     else process_tcp_established tx i flags sq ack_seq win pl)))"

section \<open>UDP and IPv4 input\<close>

definition process_udp :: "u32 \<Rightarrow> u32 \<Rightarrow> u8 list \<Rightarrow> 'd net \<Rightarrow> 'd net" where
  "process_udp src_ip dst_ip p s =
     (if length p < 8 then s
      else
        let ulen = unat (rd_be16 p 4) in
        if ulen < 8 \<or> ulen > length p then s
        else
          let src_port = rd_be16 p 0; dst_port = rd_be16 p 2; data = take (ulen - 8) (drop 8 p) in
          fold (\<lambda>i s. let k = socks s i in
              if \<not> sk_used k \<or> sk_proto k \<noteq> PROTO_UDP \<or> \<not> sk_bound k then s
              else if sk_bind_port k \<noteq> dst_port then s
              else if sk_bind_ip k \<noteq> 0 \<and> sk_bind_ip k \<noteq> dst_ip then s
              else upd_sock i (\<lambda>k. snd (socket_udp_queue_push data src_ip src_port k)) s) [0..<NET_SOCK_MAX] s)"

definition echo_payload :: "u8 list" where "echo_payload = map (\<lambda>i. 65 + of_nat i) [0..<8]"

definition icmp_packet :: "u8 \<Rightarrow> u16 \<Rightarrow> u16 \<Rightarrow> u8 list" where
  "icmp_packet ty ident sq =
     (let p = [ty, 0] @ [0, 0] @ Bytes.be16 ident @ Bytes.be16 sq @ echo_payload in wr_be16 p 2 (checksum16 p))"

text \<open>\<open>again\<close> is the recursive call for the reply to an echo request.\<close>

definition process_ipv4_with ::
  "(int \<Rightarrow> u8 list option \<Rightarrow> u8 list \<Rightarrow> bool \<Rightarrow> ('d net, unit) op) \<Rightarrow> 'd sender \<Rightarrow> int \<Rightarrow> u8 list option \<Rightarrow> u8 list \<Rightarrow> bool \<Rightarrow> ('d net, unit) op" where
  "process_ipv4_with again tx if_index src_mac p local_inject =
     (if length p < 20 then ret ()
      else
        let ihl = unat (p ! 0 AND 0x0F) * 4 in
        if drop_bit 4 (p ! 0) \<noteq> 4 \<or> ihl < 20 \<or> length p < ihl then ret ()
        else
          let tot_len = unat (rd_be16 p 2) in
          if tot_len < ihl \<or> tot_len > length p then ret ()
          else
            let src_ip = rd_be32 p 12; dst_ip = rd_be32 p 16 in
            seq (gets (\<lambda>s. ip_is_any_local dst_ip s \<or> dst_ip = IP_BROADCAST \<and> if_index \<ge> 0 \<and> nat if_index < length (ifaces s)
                   \<and> if_up (ifaces s ! nat if_index) \<and> \<not> if_loopback (ifaces s ! nat if_index))) (\<lambda>mine.
              if \<not> mine then ret ()
              else
                seq (case src_mac of Some mac \<Rightarrow> if local_inject then ret () else arp_update src_ip if_index mac | None \<Rightarrow> ret ()) (\<lambda>_.
                let l4 = take (tot_len - ihl) (drop ihl p) in
                if p ! 9 = IP_PROTO_ICMP then
                  (if length l4 < 8 then ret ()
                   else
                     let ident = rd_be16 l4 4; sq = rd_be16 l4 6 in
                     if l4 ! 0 = 8 then again if_index None (ipv4_header 36 sq IP_PROTO_ICMP dst_ip src_ip @ icmp_packet 0 ident sq) True
                     else
                       seq (gets ping) (\<lambda>g.
                         if l4 ! 0 = 0 \<and> pw_active g \<and> ident = pw_id g \<and> sq = pw_seq g
                         then seq timer_ticks (\<lambda>t. modify (\<lambda>s. s\<lparr>ping := (ping s)\<lparr>pw_replied := True, pw_rx_tick := t\<rparr>\<rparr>))
                         else ret ()))
                else if p ! 9 = IP_PROTO_UDP then modify (process_udp src_ip dst_ip l4)
                else if p ! 9 = IP_PROTO_TCP then process_tcp tx src_ip dst_ip l4
                else ret ())))"

text \<open>The reply is not a request, so the recursion is one level deep.\<close>

definition process_ipv4 :: "'d sender \<Rightarrow> int \<Rightarrow> u8 list option \<Rightarrow> u8 list \<Rightarrow> bool \<Rightarrow> ('d net, unit) op" where
  "process_ipv4 tx = process_ipv4_with (process_ipv4_with (\<lambda>_ _ _ _. ret ()) tx) tx"

definition inject_local_ipv4 :: "'d sender \<Rightarrow> u32 \<Rightarrow> u32 \<Rightarrow> u8 \<Rightarrow> u8 list \<Rightarrow> ('d net, unit) op" where
  "inject_local_ipv4 tx src dst proto payload =
     (if length payload > NET_MTU then ret ()
      else seq net_rand32 (\<lambda>r.
        process_ipv4 tx 0 None (ipv4_header (20 + length payload) (ucast r) proto src dst @ payload) True))"

section \<open>Polling\<close>

fun collect_dev :: "nat \<Rightarrow> int \<Rightarrow> 'd net \<Rightarrow> 'd net" where
  "collect_dev 0 d s = s"
| "collect_dev (Suc budget) d s =
     (case netdev_recv d NET_FRAME_MAX s of ((n, b), s1) \<Rightarrow>
        if n \<le> 0 then s1
        else case rxq_push d (take (nat n) b) s1 of (ok, s2) \<Rightarrow>
          if \<not> ok then netdev_note_rx_drop d s2 else collect_dev budget d s2)"

definition net_collect_rx :: "nat \<Rightarrow> 'd net \<Rightarrow> 'd net" where
  "net_collect_rx budget s = fold (\<lambda>d. collect_dev budget (int d)) [0..<netdev_count s] s"

fun net_process_deferred :: "'d sender \<Rightarrow> nat \<Rightarrow> ('d net, unit) op" where
  "net_process_deferred tx 0 = ret ()"
| "net_process_deferred tx (Suc budget) =
     seq (lift rxq_pop) (\<lambda>r.
       case r of
         None \<Rightarrow> ret ()
       | Some it \<Rightarrow>
           seq (if \<not> ri_used it \<or> length (ri_frame it) < 14 then ret ()
                else
                  seq (gets (\<lambda>s. case find (\<lambda>i. if_dev_index (ifaces s ! i) = ri_dev it) [0..<length (ifaces s)] of
                                   None \<Rightarrow> -1 | Some i \<Rightarrow> int i)) (\<lambda>if_index.
                  let src = take 6 (drop 6 (ri_frame it)); et = rd_be16 (ri_frame it) 12; pl = drop 14 (ri_frame it) in
                  if et = 0x0806 then process_arp if_index src pl
                  else if et = 0x0800 then process_ipv4 tx if_index (Some src) pl False
                  else ret ())) (\<lambda>_. net_process_deferred tx budget))"

definition tick_socket :: "'d sender \<Rightarrow> u64 \<Rightarrow> nat \<Rightarrow> ('d net, unit) op" where
  "tick_socket tx now i =
     seq (gets (\<lambda>s. socks s i)) (\<lambda>k.
       if \<not> sk_used k \<or> sk_proto k \<noteq> PROTO_TCP then ret ()
       else if t_detached k \<and> (t_state k = TCP_CLOSED \<or> t_error k) then modify (socket_reset i)
       else if t_state k = TCP_TIME_WAIT \<and> timewait_deadline k \<noteq> 0 \<and> now \<ge> timewait_deadline k then modify (socket_reset i)
       else if \<not> tx_valid (tx_seg k) then ret ()
       else
         let shift = (if tx_retries (tx_seg k) > 3 then 3 else tx_retries (tx_seg k)); rto = push_bit shift NET_TCP_RTO_TICKS in
         if now - tx_sent_tick (tx_seg k) < rto then ret ()
         else if tx_retries (tx_seg k) \<ge> 6 then modify (\<lambda>s. tcp_on_rst i (upd_sock i (socket_set_error 110) s))
         else
           let flags = (if tx_flags (tx_seg k) AND (TCP_SYN OR TCP_FIN) \<noteq> 0 \<or> length (tx_data (tx_seg k)) > 0
                        then tx_flags (tx_seg k) OR TCP_ACK else tx_flags (tx_seg k))
           in seq (tcp_send_segment tx i flags (tx_seq (tx_seg k)) (rcv_nxt k) (tx_data (tx_seg k)) True) (\<lambda>ok.
                if \<not> ok then ret ()
                else modify (upd_sock i (\<lambda>k. k\<lparr>tx_seg := (tx_seg k)\<lparr>tx_sent_tick := now, tx_retries := tx_retries (tx_seg k) + 1\<rparr>\<rparr>))))"

definition tcp_tick :: "'d sender \<Rightarrow> u64 \<Rightarrow> ('d net, unit) op" where
  "tcp_tick tx now = for_each (tick_socket tx now) [0..<NET_SOCK_MAX]"

definition net_pump :: "'d sender \<Rightarrow> ('d net, unit) op" where
  "net_pump tx =
     seq (modify (\<lambda>s. net_collect_rx 8 (netdev_poll_all s))) (\<lambda>_.
     seq (net_process_deferred tx 32) (\<lambda>_.
     seq timer_ticks (tcp_tick tx)))"

section \<open>Output\<close>

text \<open>The waiting loop of \<^verbatim>\<open>resolve_arp\<close>, at most \<open>rounds\<close> of it.\<close>

fun resolve_loop :: "'d sender \<Rightarrow> nat \<Rightarrow> int \<Rightarrow> u32 \<Rightarrow> u64 \<Rightarrow> u64 \<Rightarrow> u64 \<Rightarrow> ('d net, u8 list option) op" where
  "resolve_loop tx 0 if_index ip_be t0 timeout last_req = fail"
| "resolve_loop tx (Suc rounds) if_index ip_be t0 timeout last_req =
     seq timer_ticks (\<lambda>t.
       if \<not> t - t0 < timeout then ret None
       else
         seq timer_ticks (\<lambda>now.
         let ask = (now = t0 \<or> now - last_req \<ge> 26) in
         seq (if ask then modify (\<lambda>s. snd (send_arp_request if_index ip_be s)) else ret ()) (\<lambda>_.
         seq (net_pump tx) (\<lambda>_.
         seq (gets (arp_mac ip_be if_index)) (\<lambda>r.
           if r \<noteq> None then ret r
           else resolve_loop tx rounds if_index ip_be t0 timeout (if ask then now else last_req))))))"

definition resolve_arp :: "'d sender \<Rightarrow> nat \<Rightarrow> int \<Rightarrow> u32 \<Rightarrow> u64 \<Rightarrow> ('d net, u8 list option) op" where
  "resolve_arp tx rounds if_index ip_be timeout =
     seq (gets (\<lambda>s. ip_be = 0 \<or> if_index < 0 \<or> nat if_index \<ge> length (ifaces s))) (\<lambda>bad.
       if bad then ret None
       else
         seq (gets (arp_mac ip_be if_index)) (\<lambda>r.
           if r \<noteq> None then ret r
           else seq timer_ticks (\<lambda>t0. resolve_loop tx rounds if_index ip_be t0 timeout 0)))"

text \<open>The end of \<^verbatim>\<open>send_ipv4_l4_ex\<close>: the packet goes to a device.\<close>

definition transmit :: "route_result \<Rightarrow> u8 list \<Rightarrow> 'd sender" where
  "transmit route dst_mac proto src dst payload =
     seq net_rand32 (\<lambda>ident.
     lift (\<lambda>s. send_ethernet (rr_dev_index route) (if_mac (ifaces s ! nat (rr_if_index route))) dst_mac 0x0800
       (ipv4_header (20 + length payload) (ucast ident) proto src dst @ payload) s))"

text \<open>\<open>fuel\<close> bounds the nesting, and the rounds of the waiting loop.\<close>

fun send_ipv4_l4_ex :: "nat \<Rightarrow> u8 \<Rightarrow> u32 \<Rightarrow> u32 \<Rightarrow> u8 list \<Rightarrow> bool \<Rightarrow> ('d net, bool) op" where
  "send_ipv4_l4_ex 0 proto src0 dst payload preserve_zero_src = fail"
| "send_ipv4_l4_ex (Suc fuel) proto src0 dst payload preserve_zero_src =
     (let tx = (\<lambda>proto src dst pl. send_ipv4_l4_ex fuel proto src dst pl False) in
      if length payload > NET_MTU then ret False
      else
        seq (gets (\<lambda>s. if dst = IP_BROADCAST then pick_broadcast_iface src0 s
                       else if rr_ok (route_lookup dst s) then Some (route_lookup dst s) else None)) (\<lambda>r.
          case r of
            None \<Rightarrow> ret False
          | Some route \<Rightarrow>
              let src = (if src0 = 0 \<and> \<not> preserve_zero_src then rr_src_ip route else src0) in
              if rr_local route then seq (inject_local_ipv4 tx src dst proto payload) (\<lambda>_. ret True)
              else
                seq (gets (\<lambda>s. rr_if_index route < 0 \<or> nat (rr_if_index route) \<ge> length (ifaces s))) (\<lambda>bad.
                  if bad then ret False
                  else
                    seq (if dst = IP_BROADCAST then ret (Some (replicate 6 0xFF))
                         else resolve_arp tx fuel (rr_if_index route) (rr_next_hop route) 200) (\<lambda>mac.
                      case mac of
                        None \<Rightarrow> ret False
                      | Some dst_mac \<Rightarrow> transmit route dst_mac proto src dst payload))))"

definition send_ipv4_l4 :: "nat \<Rightarrow> 'd sender" where
  "send_ipv4_l4 fuel proto src dst payload = send_ipv4_l4_ex fuel proto src dst payload False"

definition send_udp_ipv4 :: "nat \<Rightarrow> u32 \<Rightarrow> u32 \<Rightarrow> u16 \<Rightarrow> u16 \<Rightarrow> u8 list \<Rightarrow> ('d net, bool) op" where
  "send_udp_ipv4 fuel src dst dst_port src_port payload =
     (if length payload > NET_UDP_PAYLOAD_MAX then ret False
      else
        let p = Bytes.be16 src_port @ Bytes.be16 dst_port @ Bytes.be16 (of_nat (8 + length payload)) @ [0, 0] @ payload;
            c = ipv4_l4_checksum src dst IP_PROTO_UDP p
        in send_ipv4_l4_ex fuel IP_PROTO_UDP src dst (wr_be16 p 6 (if c = 0 then 0xFFFF else c)) (src = 0))"

end
