(* ===== verification/NetApi.thy ===== *)
theory NetApi
  imports NetStack
begin

text \<open>
  The interface of \<^verbatim>\<open>src/kernel/net.c\<close>: start and tick, the socket calls, and the text commands
  of \<^verbatim>\<open>/dev/net\<close>. Pointers that the callers pass are not null. Every call that may send takes the
  fuel of \<open>send_ipv4_l4_ex\<close>.
\<close>

section \<open>Start and tick\<close>

definition lit :: "string \<Rightarrow> u8 list" where "lit = map of_char" \<comment> \<open>a string literal\<close>

definition iface_init_loopback :: "'d net \<Rightarrow> 'd net" where
  "iface_init_loopback s =
     iface_refresh_routes (int (length (ifaces s)))
       (s\<lparr>ifaces := ifaces s @ [if_zero\<lparr>if_up := True, if_loopback := True, if_dev_index := -1, if_name := lit ''lo'',
            if_addr := NET_LOOPBACK_IP, if_mask := NET_LOOPBACK_MASK\<rparr>]\<rparr>)"

definition init_phys :: "nat \<Rightarrow> 'd net \<Rightarrow> 'd net" where \<comment> \<open>one round of the loop\<close>
  "init_phys dev s =
     (if length (ifaces s) \<ge> NET_IF_MAX then s
      else
        let iface = if_zero\<lparr>if_dev_index := int dev, if_name := lit ''eth'' @ [48 + of_nat dev],
              if_mac := (case netdev_get_mac (int dev) s of Some mac \<Rightarrow> mac | None \<Rightarrow> if_mac if_zero)\<rparr>;
            iface = (if dev = 0 then iface\<lparr>if_up := True, if_addr := 0x0A00020F, if_mask := 0xFFFFFF00, if_gw := 0x0A000202\<rparr> else iface)
        in iface_refresh_routes (int (length (ifaces s))) (s\<lparr>ifaces := ifaces s @ [iface]\<rparr>))"

definition iface_init_phys_all :: "'d net \<Rightarrow> 'd net" where
  "iface_init_phys_all s = fold init_phys [0..<netdev_count s] s"

text \<open>The operations of the two drivers, when they are ready.\<close>

definition net_init :: "'d netdev_ops option \<Rightarrow> 'd netdev_ops option \<Rightarrow> 'd net \<Rightarrow> 'd net" where
  "net_init rtl8125 rtl8139 s0 =
     (let s = s0\<lparr>net_ready_flag := False, ifaces := [], routes := (\<lambda>_. rt_zero), arp_tab := (\<lambda>_. ae_zero), ping := pw_zero, ping_seq := 0,
            next_ephemeral := NET_EPHEMERAL_BASE, resp := [], resp_off := 0, rxq_head := 0, rxq_tail := 0, rxq_count := 0,
            rxq_items := (\<lambda>_. ri_zero), socks := (\<lambda>_. sock_zero)\<rparr>;
          s = (case rtl8125 of Some ops \<Rightarrow> snd (netdev_register (lit ''rtl0'') ops s) | None \<Rightarrow> s);
          s = (case rtl8139 of Some ops \<Rightarrow> snd (netdev_register (lit ''rtl8139'') ops s) | None \<Rightarrow> s);
          s = iface_init_phys_all (iface_init_loopback s)
      in s\<lparr>net_ready_flag := (length (ifaces s) > 0)\<rparr>)"

definition net_tick :: "nat \<Rightarrow> u64 \<Rightarrow> ('d net, unit) op" where
  "net_tick fuel now_ticks = seq (modify (arp_age now_ticks)) (\<lambda>_. net_pump (send_ipv4_l4 fuel))"

section \<open>Echo requests\<close>

fun ping_loop :: "'d sender \<Rightarrow> nat \<Rightarrow> u64 \<Rightarrow> ('d net, u32 option) op" where \<comment> \<open>the round-trip time in ms\<close>
  "ping_loop tx 0 timeout = fail"
| "ping_loop tx (Suc rounds) timeout =
     seq timer_ticks (\<lambda>t.
     seq (gets (\<lambda>s. pw_tx_tick (ping s))) (\<lambda>t0.
       if \<not> t - t0 < timeout then seq (modify (\<lambda>s. s\<lparr>ping := (ping s)\<lparr>pw_active := False\<rparr>\<rparr>)) (\<lambda>_. ret None)
       else
         seq (net_pump tx) (\<lambda>_.
         seq (gets ping) (\<lambda>g.
           if pw_replied g then
             seq (modify (\<lambda>s. s\<lparr>ping := (ping s)\<lparr>pw_active := False\<rparr>\<rparr>)) (\<lambda>_.
               ret (Some (ucast (((pw_rx_tick g - pw_tx_tick g) * 1000) div TIMER_HZ))))
           else ping_loop tx rounds timeout))))"

definition net_ping4 :: "nat \<Rightarrow> u32 \<Rightarrow> u64 \<Rightarrow> ('d net, u32 option) op" where
  "net_ping4 fuel dst_ip_be timeout =
     seq (gets net_ready_flag) (\<lambda>ready.
       if \<not> ready \<or> dst_ip_be = 0 then ret None
       else
         seq timer_ticks (\<lambda>t.
         seq (modify (\<lambda>s. s\<lparr>ping_seq := ping_seq s + 1, ping := \<lparr>pw_active = True, pw_id = 0xF00D, pw_seq = ping_seq s + 1, pw_tx_tick = t,
                pw_rx_tick = 0, pw_replied = False\<rparr>\<rparr>)) (\<lambda>_.
         seq (gets ping_seq) (\<lambda>sq.
         seq (send_ipv4_l4 fuel IP_PROTO_ICMP 0 dst_ip_be (icmp_packet 8 0xF00D sq)) (\<lambda>ok.
           if \<not> ok then seq (modify (\<lambda>s. s\<lparr>ping := (ping s)\<lparr>pw_active := False\<rparr>\<rparr>)) (\<lambda>_. ret None)
           else ping_loop (send_ipv4_l4 fuel) fuel timeout)))))"

section \<open>Commands\<close>

definition resp_set :: "u8 list \<Rightarrow> 'd net \<Rightarrow> 'd net" where
  "resp_set t s = s\<lparr>resp := take (NET_RESP_MAX - 1) t, resp_off := 0\<rparr>"

definition hex_digit :: "u8 \<Rightarrow> u8" where "hex_digit v = (if v < 10 then 48 + v else 97 + (v - 10))"

definition mac_text :: "u8 list \<Rightarrow> u8 list" where
  "mac_text mac =
     fold (\<lambda>b t. let v = mac ! b; t = append_text 18 [hex_digit (drop_bit 4 v), hex_digit (v AND 0xF)] t in
             if b \<noteq> 5 then append_text 18 (lit '':'') t else t) [0..<6] []"

definition ip_text :: "u32 \<Rightarrow> u8 list" where "ip_text ip = (case ip_be_to_text ip 16 of Some t \<Rightarrow> t | None \<Rightarrow> [])" \<comment> \<open>16 byte buffer\<close>

abbreviation (input) app :: "u8 list list \<Rightarrow> u8 list \<Rightarrow> u8 list" where "app \<equiv> fold (append_text NET_RESP_MAX)"

definition format_iface :: "'d net \<Rightarrow> net_if \<Rightarrow> u8 list \<Rightarrow> u8 list" where
  "format_iface s iface out =
     (let out = app [if_name iface, lit '' '', ip_text (if_addr iface), lit '' '', ip_text (if_mask iface)] out;
          out = (if \<not> if_loopback iface then
                   let out = app [lit '' gw='', ip_text (if_gw iface), lit '' mac='', mac_text (if_mac iface), lit '' dev='',
                               (case netdev_get_name (if_dev_index iface) s of Some n \<Rightarrow> n | None \<Rightarrow> lit ''unknown'')] out
                   in case netdev_stats_snapshot (if_dev_index iface) s of
                        None \<Rightarrow> out
                      | Some st \<Rightarrow>
                          append_u32 NET_RESP_MAX (ucast (rx_drops st + tx_drops st)) (append_text NET_RESP_MAX (lit '' drop='')
                          (append_u32 NET_RESP_MAX (ucast (tx_packets st)) (append_text NET_RESP_MAX (lit '' txp='')
                          (append_u32 NET_RESP_MAX (ucast (rx_packets st)) (append_text NET_RESP_MAX (lit '' rxp='') out)))))
                 else append_text NET_RESP_MAX (lit '' loopback'') out)
      in append_text NET_RESP_MAX ((if if_up iface then lit '' up'' else lit '' down'') @ [10]) out)"

definition net_format_ifaces :: "'d net \<Rightarrow> u8 list" where
  "net_format_ifaces s = fold (format_iface s) (ifaces s) []"

definition net_format_routes :: "'d net \<Rightarrow> u8 list" where
  "net_format_routes s =
     fold (\<lambda>i out. let r = routes s i in
       if \<not> rt_used r \<or> rt_if_index r < 0 \<or> nat (rt_if_index r) \<ge> length (ifaces s) then out
       else
         let out = (if rt_prefix r = 0 \<and> rt_mask r = 0 then append_text NET_RESP_MAX (lit ''default'') out
                    else app [ip_text (rt_prefix r), lit '' '', ip_text (rt_mask r)] out)
         in app [lit '' '', ip_text (rt_gw r), lit '' '', if_name (ifaces s ! nat (rt_if_index r)), [10]] out) [0..<NET_ROUTE_MAX] []"

fun format_arp :: "nat list \<Rightarrow> u8 list \<Rightarrow> ('d net, u8 list) op" where
  "format_arp [] out = ret out"
| "format_arp (i # is) out =
     seq (gets (\<lambda>s. (arp_tab s i, ifaces s))) (\<lambda>(e, ifs).
       if \<not> ae_valid e \<or> ae_if_index e < 0 \<or> nat (ae_if_index e) \<ge> length ifs then format_arp is out
       else
         seq timer_ticks (\<lambda>t.
           let out = app [ip_text (ae_ip e), lit '' '', mac_text (ae_mac e), lit '' '', if_name (ifs ! nat (ae_if_index e)), lit '' age=''] out;
               out = append_u32 NET_RESP_MAX (ucast ((t - ae_tick e) div TIMER_HZ)) out
           in format_arp is (app [lit ''s'', [10]] out)))"

definition net_format_arp :: "('d net, u8 list) op" where "net_format_arp = format_arp [0..<NET_ARP_MAX] []"

definition net_ifconfig_set :: "u8 list \<Rightarrow> u32 \<Rightarrow> u32 \<Rightarrow> u32 \<Rightarrow> bool \<Rightarrow> 'd net \<Rightarrow> bool \<times> 'd net" where
  "net_ifconfig_set ifname ip_be mask_be gw_be up s =
     (case iface_lookup ifname s of
        None \<Rightarrow> (False, s)
      | Some i \<Rightarrow> (True, iface_refresh_routes (int i)
                     (s\<lparr>ifaces := (ifaces s)[i := (ifaces s ! i)\<lparr>if_addr := ip_be, if_mask := mask_be, if_gw := gw_be, if_up := up\<rparr>]\<rparr>)))"

definition net_ifconfig_updown :: "u8 list \<Rightarrow> bool \<Rightarrow> 'd net \<Rightarrow> bool \<times> 'd net" where
  "net_ifconfig_updown ifname up s =
     (case iface_lookup ifname s of
        None \<Rightarrow> (False, s)
      | Some i \<Rightarrow> (True, iface_refresh_routes (int i) (s\<lparr>ifaces := (ifaces s)[i := (ifaces s ! i)\<lparr>if_up := up\<rparr>]\<rparr>)))"

text \<open>The argument loops: at most \<open>n\<close> words, each cut to the 15 characters of its buffer.\<close>

fun split_args :: "nat \<Rightarrow> u8 list \<Rightarrow> u8 list list" where
  "split_args 0 p = []"
| "split_args (Suc n) p =
     (let p1 = dropWhile (\<lambda>c. c = 32) p in
      if p1 = [] then []
      else let w = takeWhile (\<lambda>c. c \<noteq> 32) p1 in take 15 w # split_args n (drop (length w) p1))"

definition answer :: "string \<Rightarrow> ('d net, unit) op" where "answer t = modify (resp_set (lit t @ [10]))" \<comment> \<open>the literal and its newline\<close>

definition cmd_ping :: "nat \<Rightarrow> u8 list \<Rightarrow> ('d net, unit) op" where
  "cmd_ping fuel arg =
     (case parse_ipv4_be arg of
        None \<Rightarrow> answer ''ping: bad ip''
      | Some ip \<Rightarrow>
          seq (net_ping4 fuel ip (TIMER_HZ * 2)) (\<lambda>r.
            modify (resp_set (case r of
              Some rtt \<Rightarrow> append_text NET_RESP_MAX (lit ''ms'' @ [10])
                            (append_u32 NET_RESP_MAX rtt (app [lit ''pong '', ip_text ip, lit '' rtt=''] []))
            | None \<Rightarrow> app [lit ''timeout '', ip_text ip, [10]] []))))"

definition cmd_ifconfig :: "u8 list \<Rightarrow> ('d net, unit) op" where
  "cmd_ifconfig rest =
     (let a = split_args 4 rest in
      if length a = 2 \<and> (a ! 1 = lit ''down'' \<or> a ! 1 = lit ''up'') then
        seq (lift (net_ifconfig_updown (a ! 0) (a ! 1 = lit ''up''))) (\<lambda>ok. if ok then answer ''ifconfig: ok'' else answer ''ifconfig: failed'')
      else if length a < 3 then answer ''usage: ifconfig <if> <ip> <mask> [gw] | ifconfig <if> up|down''
      else
        case (parse_ipv4_be (a ! 1), parse_ipv4_be (a ! 2)) of
          (Some ip, Some mk) \<Rightarrow>
            (case (if length a \<ge> 4 then parse_ipv4_be (a ! 3) else Some 0) of
               None \<Rightarrow> answer ''ifconfig: bad gateway''
             | Some gw \<Rightarrow>
                 seq (lift (net_ifconfig_set (a ! 0) ip mk gw True)) (\<lambda>ok. if ok then answer ''ifconfig: ok'' else answer ''ifconfig: failed''))
        | _ \<Rightarrow> answer ''ifconfig: bad address'')"

definition cmd_route_add :: "u8 list \<Rightarrow> ('d net, unit) op" where
  "cmd_route_add rest =
     seq (gets (\<lambda>s name. iface_lookup name s)) (\<lambda>lookup.
       if take 8 rest = lit ''default '' then
         (let a = split_args 2 (drop 8 rest) in
          case (if length a < 2 then None else Option.bind (lookup (a ! 1)) (\<lambda>i. map_option (\<lambda>gw. (i, gw)) (parse_ipv4_be (a ! 0)))) of
            None \<Rightarrow> answer ''usage: route add default <gw> <if>''
          | Some (i, gw) \<Rightarrow>
              seq (lift (route_add 0 0 gw (int i))) (\<lambda>ok. if ok then answer ''route: ok'' else answer ''usage: route add default <gw> <if>''))
       else
         (let a = split_args 4 rest in
          if length a < 4 then answer ''usage: route add <prefix> <mask> <gw> <if>''
          else case (lookup (a ! 3), parse_ipv4_be (a ! 0), parse_ipv4_be (a ! 1), parse_ipv4_be (a ! 2)) of
            (Some i, Some prefix, Some mk, Some gw) \<Rightarrow>
              seq (lift (route_add prefix mk gw (int i))) (\<lambda>ok. if ok then answer ''route: ok'' else answer ''route: failed'')
          | _ \<Rightarrow> answer ''route: failed''))"

definition cmd_route_del :: "u8 list \<Rightarrow> ('d net, unit) op" where
  "cmd_route_del rest =
     (if rest = lit ''default'' then
        seq (lift (route_del_default (-1))) (\<lambda>ok. if ok then answer ''route: ok'' else answer ''route: failed'')
      else
        let a = split_args 2 rest in
        if length a < 2 then answer ''usage: route del <prefix> <mask>''
        else case (parse_ipv4_be (a ! 0), parse_ipv4_be (a ! 1)) of
          (Some prefix, Some mk) \<Rightarrow> seq (lift (route_del prefix mk)) (\<lambda>ok. if ok then answer ''route: ok'' else answer ''route: failed'')
        | _ \<Rightarrow> answer ''route: failed'')"

definition cmd_route_get :: "u8 list \<Rightarrow> ('d net, unit) op" where
  "cmd_route_get rest =
     (case parse_ipv4_be rest of
        None \<Rightarrow> answer ''route: bad address''
      | Some dst \<Rightarrow>
          seq (gets (\<lambda>s. (route_lookup dst s, ifaces s))) (\<lambda>(r, ifs).
            if \<not> rr_ok r \<or> rr_if_index r < 0 \<or> nat (rr_if_index r) \<ge> length ifs then answer ''route: unreachable''
            else modify (resp_set (app [lit ''dst='', ip_text dst, lit '' via='', if rr_local r then lit ''local'' else ip_text (rr_next_hop r),
                   lit '' dev='', if_name (ifs ! nat (rr_if_index r)), lit '' src='', ip_text (rr_src_ip r), [10]] []))))"

definition trim_cmd :: "u8 list \<Rightarrow> u8 list" where \<comment> \<open>cmd as a string: up to the first 0 byte\<close>
  "trim_cmd buf = takeWhile (\<lambda>c. c \<noteq> 0) (rev (dropWhile (\<lambda>c. c \<in> {10, 13, 32}) (rev (take 127 buf))))"

definition net_dev_write :: "nat \<Rightarrow> u8 list \<Rightarrow> ('d net, int) op" where
  "net_dev_write fuel buf =
     (if buf = [] then ret (-1)
      else
        let cmd = trim_cmd buf in
        seq (if take 5 cmd = lit ''ping '' then cmd_ping fuel (drop 5 cmd)
             else if cmd = lit ''ifconfig'' then modify (\<lambda>s. resp_set (net_format_ifaces s) s)
             else if take 9 cmd = lit ''ifconfig '' then cmd_ifconfig (drop 9 cmd)
             else if cmd = lit ''route'' then modify (\<lambda>s. resp_set (net_format_routes s) s)
             else if take 10 cmd = lit ''route add '' then cmd_route_add (drop 10 cmd)
             else if take 10 cmd = lit ''route del '' then cmd_route_del (drop 10 cmd)
             else if take 10 cmd = lit ''route get '' then cmd_route_get (drop 10 cmd)
             else if cmd = lit ''arp'' then seq net_format_arp (\<lambda>t. modify (resp_set t))
             else if cmd = lit ''arp flush'' then seq (modify arp_flush) (\<lambda>_. answer ''arp: ok'')
             else answer ''usage: ping|ifconfig|route|arp'') (\<lambda>_. ret (int (length buf))))"

definition net_dev_read :: "nat \<Rightarrow> 'd net \<Rightarrow> (int \<times> u8 list) \<times> 'd net" where
  "net_dev_read len s =
     (if len = 0 then ((-1, []), s)
      else if resp_off s \<ge> length (resp s) then ((0, []), s)
      else
        let n = min (length (resp s) - resp_off s) len; off = resp_off s + n in
        ((int n, take n (drop (resp_off s) (resp s))),
         if off \<ge> length (resp s) then s\<lparr>resp := [], resp_off := 0\<rparr> else s\<lparr>resp_off := off\<rparr>))"

section \<open>Socket calls\<close>

definition net_socket_create :: "int \<Rightarrow> int \<Rightarrow> int \<Rightarrow> 'd net \<Rightarrow> (int \<times> nat option) \<times> 'd net" where
  "net_socket_create domain ty protocol s =
     (if domain \<noteq> 2 then ((-1, None), s)
      else
        let base_type = ty AND 0xFF;
            proto = (if base_type = 2 \<and> (protocol = 0 \<or> protocol = 17) then PROTO_UDP
                     else if base_type = 1 \<and> (protocol = 0 \<or> protocol = 6) then PROTO_TCP else PROTO_NONE)
        in if proto = PROTO_NONE then ((-1, None), s)
           else case socket_alloc_internal proto s of
             (None, s1) \<Rightarrow> ((-1, None), s1)
           | (Some i, s1) \<Rightarrow> ((0, Some i), if proto = PROTO_TCP then upd_sock i (\<lambda>k. k\<lparr>t_state := TCP_CLOSED\<rparr>) s1 else s1))"

definition net_socket_ref :: "nat \<Rightarrow> 'd net \<Rightarrow> 'd net" where
  "net_socket_ref i s =
     (if \<not> sk_used (socks s i) then s
      else if sk_refs (socks s i) < 0xFFFF then upd_sock i (\<lambda>k. k\<lparr>sk_refs := sk_refs k + 1\<rparr>) s else s)"

definition reset_hard :: "nat \<Rightarrow> ('d net, unit) op" where "reset_hard i = modify (\<lambda>s. socket_reset i (tcp_on_rst i s))"

definition net_socket_close :: "nat \<Rightarrow> nat \<Rightarrow> ('d net, unit) op" where
  "net_socket_close fuel i =
     seq (gets (\<lambda>s. socks s i)) (\<lambda>k.
       if \<not> sk_used k then ret ()
       else if sk_refs k > 1 then modify (upd_sock i (\<lambda>k. k\<lparr>sk_refs := sk_refs k - 1\<rparr>))
       else if sk_proto k = PROTO_TCP then
         seq (modify (upd_sock i (\<lambda>k. k\<lparr>sk_refs := 0\<rparr>))) (\<lambda>_.
           if t_state k \<in> {TCP_LISTEN, TCP_CLOSED, TCP_TIME_WAIT} \<or> t_error k then modify (socket_reset i)
           else
             seq (modify (upd_sock i (\<lambda>k. k\<lparr>t_detached := True, app_shut_rd := True, app_shut_wr := True\<rparr>))) (\<lambda>_.
               if t_state k = TCP_SYN_SENT \<or> t_state k = TCP_SYN_RECV then reset_hard i
               else if \<not> tx_valid (tx_seg k) \<and> (t_state k = TCP_ESTABLISHED \<or> t_state k = TCP_CLOSE_WAIT) then
                 seq (tcp_send_fin_now (send_ipv4_l4 fuel) i) (\<lambda>ok. if \<not> ok then reset_hard i else ret ())
               else if tx_valid (tx_seg k) then modify (upd_sock i (\<lambda>k. k\<lparr>fin_pending := True\<rparr>))
               else ret ()))
       else modify (socket_reset i))"

definition net_socket_bind :: "nat \<Rightarrow> u32 \<Rightarrow> u16 \<Rightarrow> ('d net, int) op" where
  "net_socket_bind i addr_be port_be =
     seq (gets id) (\<lambda>s.
       if \<not> sk_used (socks s i) then ret (-1)
       else if \<not> (addr_be = 0 \<or> ip_is_any_local addr_be s) then ret (-1)
       else
         let port_host = net_be16 port_be in
         seq (if port_host = 0 then socket_alloc_ephemeral (Some i) addr_be (sk_proto (socks s i))
              else ret (if socket_port_conflict port_host addr_be (sk_proto (socks s i)) (Some i) s then 0 else port_host)) (\<lambda>p.
           if p = 0 then ret (-1)
           else seq (modify (upd_sock i (\<lambda>k. k\<lparr>sk_bind_ip := addr_be, sk_bind_port := p, sk_bound := True\<rparr>))) (\<lambda>_. ret 0)))"

text \<open>A socket that is not bound gets a free port; \<open>False\<close>: there is none.\<close>

definition auto_bind :: "nat \<Rightarrow> u32 \<Rightarrow> ('d net, bool) op" where
  "auto_bind i bind_ip =
     seq (gets (\<lambda>s. socks s i)) (\<lambda>k.
       if sk_bound k then ret True
       else
         seq (socket_alloc_ephemeral (Some i) bind_ip (sk_proto k)) (\<lambda>eph.
           if eph = 0 then ret False
           else seq (modify (upd_sock i (\<lambda>k. k\<lparr>sk_bound := True, sk_bind_ip := bind_ip, sk_bind_port := eph\<rparr>))) (\<lambda>_. ret True)))"

definition net_socket_sendto :: "nat \<Rightarrow> nat \<Rightarrow> u8 list \<Rightarrow> u32 \<Rightarrow> u16 \<Rightarrow> ('d net, int) op" where
  "net_socket_sendto fuel i buf addr_be port_be =
     seq (gets (\<lambda>s. socks s i)) (\<lambda>k.
       if \<not> sk_used k \<or> sk_proto k \<noteq> PROTO_UDP \<or> length buf > NET_UDP_PAYLOAD_MAX then ret (-22)
       else
         let dst_port = net_be16 port_be in
         if dst_port = 0 then ret (-22)
         else
           seq (auto_bind i 0) (\<lambda>bound.
             if \<not> bound then ret (-105)
             else
               seq (gets (\<lambda>s. socks s i)) (\<lambda>k.
                 if addr_be = IP_BROADCAST \<and> \<not> sk_broadcast k then ret (-13)
                 else
                   let dhcp_broadcast = (sk_bind_ip k = 0 \<and> addr_be = IP_BROADCAST \<and> sk_bind_port k = 68 \<and> dst_port = 67) in
                   seq (gets (\<lambda>s. if sk_bind_ip k \<noteq> 0 then Some (sk_bind_ip k)
                                  else if dhcp_broadcast then Some 0
                                  else if addr_be = IP_BROADCAST then map_option rr_src_ip (pick_broadcast_iface 0 s)
                                  else if rr_ok (route_lookup addr_be s) then Some (rr_src_ip (route_lookup addr_be s)) else None)) (\<lambda>src.
                     case src of
                       None \<Rightarrow> ret (-101)
                     | Some src_ip \<Rightarrow>
                         seq (send_udp_ipv4 fuel src_ip addr_be dst_port (sk_bind_port k) buf) (\<lambda>ok.
                           ret (if ok then int (length buf) else -101))))))"

text \<open>The result, and the bytes, source address and port stored.\<close>

definition net_socket_recvfrom :: "nat \<Rightarrow> nat \<Rightarrow> bool \<Rightarrow> 'd net \<Rightarrow> (int \<times> (u8 list \<times> u32 \<times> u16) option) \<times> 'd net" where
  "net_socket_recvfrom i len nonblock s =
     (let k = socks s i in
      if \<not> sk_used k \<or> sk_proto k \<noteq> PROTO_UDP then ((-1, None), s)
      else case socket_udp_queue_pop len k of
        (None, _) \<Rightarrow> ((if nonblock then -11 else -2, None), s)
      | (Some (bs, ip, port), k1) \<Rightarrow> ((int (length bs), Some (bs, ip, net_be16 port)), upd_sock i (\<lambda>_. k1) s))"

definition net_socket_connect :: "nat \<Rightarrow> nat \<Rightarrow> u32 \<Rightarrow> u16 \<Rightarrow> bool \<Rightarrow> ('d net, int) op" where
  "net_socket_connect fuel i addr_be port_be nonblock =
     seq (gets id) (\<lambda>s.
       let k = socks s i; dst_port = net_be16 port_be in
       if \<not> sk_used k \<or> sk_proto k \<noteq> PROTO_TCP then ret (-22)
       else if dst_port = 0 then ret (-22)
       else if \<not> ip_is_any_local addr_be s \<and> \<not> rr_ok (route_lookup addr_be s) then ret (-101)
       else if t_state k = TCP_ESTABLISHED \<or> t_state k = TCP_CLOSE_WAIT then ret 0
       else if t_error k \<or> t_state k = TCP_CLOSED \<and> sk_peer_port k \<noteq> 0 then ret (- socket_error_or k 111)
       else if t_state k = TCP_SYN_SENT \<or> t_state k = TCP_SYN_RECV then
         seq (if \<not> nonblock then net_pump (send_ipv4_l4 fuel) else ret ()) (\<lambda>_.
         seq (gets (\<lambda>s. socks s i)) (\<lambda>k.
           ret (if \<not> nonblock \<and> (t_state k = TCP_ESTABLISHED \<or> t_state k = TCP_CLOSE_WAIT) then 0
                else if t_error k then - socket_error_or k 111
                else if nonblock then -114 else -2)))
       else if t_state k \<noteq> TCP_CLOSED then ret (-106)
       else
         seq (auto_bind i (rr_src_ip (route_lookup addr_be s))) (\<lambda>bound.
           if \<not> bound then ret (-105)
           else
             seq net_rand32 (\<lambda>iss.
             seq (modify (upd_sock i (\<lambda>k. k\<lparr>sk_last_error := 0, t_error := False, rx_closed := False, sk_peer_ip := addr_be, sk_peer_port := dst_port,
                    t_state := TCP_SYN_SENT, t_iss := iss, snd_una := iss, snd_nxt := iss + 1, rcv_nxt := 0,
                    peer_wnd := of_nat NET_TCP_BUF_MAX\<rparr>))) (\<lambda>_.
             seq (tcp_send_segment (send_ipv4_l4 fuel) i TCP_SYN iss 0 [] False) (\<lambda>ok.
               if \<not> ok then
                 seq (modify (\<lambda>s. tcp_on_rst i (upd_sock i (socket_set_error 101) s))) (\<lambda>_.
                 seq (gets (\<lambda>s. socks s i)) (\<lambda>k. ret (- socket_error_or k 101)))
               else ret (if nonblock then -115 else -2))))))"

definition net_socket_listen :: "nat \<Rightarrow> int \<Rightarrow> ('d net, int) op" where
  "net_socket_listen i backlog =
     seq (gets (\<lambda>s. socks s i)) (\<lambda>k.
       if \<not> sk_used k \<or> sk_proto k \<noteq> PROTO_TCP then ret (-1)
       else
         seq (auto_bind i 0) (\<lambda>bound.
           if \<not> bound then ret (-1)
           else
             let b = (if backlog < 1 then 1 else backlog); b = (if b > int NET_TCP_ACCEPTQ then int NET_TCP_ACCEPTQ else b) in
             seq (modify (upd_sock i (\<lambda>k. k\<lparr>t_state := TCP_LISTEN, t_backlog := nat b\<rparr>))) (\<lambda>_. ret 0)))"

text \<open>The result, the new socket, and the address and port of its peer.\<close>

definition net_socket_accept :: "nat \<Rightarrow> nat \<Rightarrow> bool \<Rightarrow> ('d net, int \<times> (nat \<times> u32 \<times> u16) option) op" where
  "net_socket_accept fuel i nonblock =
     seq (gets (\<lambda>s. socks s i)) (\<lambda>k.
       if \<not> sk_used k \<or> sk_proto k \<noteq> PROTO_TCP \<or> t_state k \<noteq> TCP_LISTEN then ret (-1, None)
       else
         seq (lift (listener_queue_take_established i)) (\<lambda>c.
         seq (if c = None \<and> \<not> nonblock then seq (net_pump (send_ipv4_l4 fuel)) (\<lambda>_. lift (listener_queue_take_established i)) else ret c) (\<lambda>c.
           case c of
             None \<Rightarrow> ret (if nonblock then -11 else -2, None)
           | Some child \<Rightarrow> seq (gets (\<lambda>s. socks s child)) (\<lambda>ck. ret (0, Some (child, sk_peer_ip ck, net_be16 (sk_peer_port ck)))))))"

definition net_socket_getsockname :: "nat \<Rightarrow> 'd net \<Rightarrow> int \<times> (u32 \<times> u16) option" where
  "net_socket_getsockname i s =
     (let k = socks s i in
      if \<not> sk_used k \<or> \<not> sk_bound k then (-1, None) else (0, Some (sk_bind_ip k, net_be16 (sk_bind_port k))))"

definition net_socket_getpeername :: "nat \<Rightarrow> 'd net \<Rightarrow> int \<times> (u32 \<times> u16) option" where
  "net_socket_getpeername i s =
     (let k = socks s i in
      if \<not> sk_used k \<or> sk_proto k \<noteq> PROTO_TCP \<or> sk_peer_port k = 0 then (-107, None)
      else if t_state k = TCP_LISTEN \<or> t_state k = TCP_CLOSED then (-107, None)
      else (0, Some (sk_peer_ip k, net_be16 (sk_peer_port k))))"

definition net_socket_shutdown :: "nat \<Rightarrow> nat \<Rightarrow> int \<Rightarrow> ('d net, int) op" where
  "net_socket_shutdown fuel i how =
     seq (gets (\<lambda>s. socks s i)) (\<lambda>k.
       if \<not> sk_used k \<or> sk_proto k \<noteq> PROTO_TCP then ret (-22)
       else if \<not> (how = 0 \<or> how = 1 \<or> how = 2) then ret (-22)
       else if t_state k = TCP_LISTEN \<or> t_state k = TCP_CLOSED \<and> \<not> t_error k \<and> sk_peer_port k = 0 then ret (-107)
       else
         seq (if how = 0 \<or> how = 2 then modify (upd_sock i (\<lambda>k. k\<lparr>app_shut_rd := True, rx_len := 0, rx_head := 0, rx_tail := 0\<rparr>)) else ret ()) (\<lambda>_.
         seq (if how = 1 \<or> how = 2 then
                seq (modify (upd_sock i (\<lambda>k. k\<lparr>app_shut_wr := True\<rparr>))) (\<lambda>_.
                  if tx_valid (tx_seg k) then modify (upd_sock i (\<lambda>k. k\<lparr>fin_pending := True\<rparr>))
                  else if t_state k = TCP_ESTABLISHED \<or> t_state k = TCP_CLOSE_WAIT then
                    seq (tcp_send_fin_now (send_ipv4_l4 fuel) i) (\<lambda>_. ret ())
                  else ret ())
              else ret ()) (\<lambda>_. ret 0)))"

definition sock_rx_read :: "nat \<Rightarrow> nat \<Rightarrow> ('d net, int \<times> u8 list) op" where
  "sock_rx_read i len =
     lift (\<lambda>s. case tcp_rx_read len (socks s i) of (bs, k1) \<Rightarrow> ((int (length bs), bs), upd_sock i (\<lambda>_. k1) s))"

definition net_socket_read :: "nat \<Rightarrow> nat \<Rightarrow> nat \<Rightarrow> bool \<Rightarrow> ('d net, int \<times> u8 list) op" where
  "net_socket_read fuel i len nonblock =
     seq (gets (\<lambda>s. socks s i)) (\<lambda>k.
       if \<not> sk_used k \<or> sk_proto k \<noteq> PROTO_TCP then ret (-22, [])
       else if app_shut_rd k then ret (0, [])
       else if rx_len k = 0 then
         seq (if \<not> nonblock then net_pump (send_ipv4_l4 fuel) else ret ()) (\<lambda>_.
         seq (gets (\<lambda>s. socks s i)) (\<lambda>k.
           if t_error k then ret (- socket_error_or k 104, [])
           else if rx_closed k \<or> t_state k = TCP_CLOSED then ret (0, [])
           else if rx_len k > 0 then sock_rx_read i len
           else ret (if nonblock then -11 else -2, [])))
       else sock_rx_read i len)"

text \<open>\<open>tries\<close> bounds the calls of \<^verbatim>\<open>net_socket_write\<close> to itself.\<close>

fun write_tries :: "nat \<Rightarrow> nat \<Rightarrow> nat \<Rightarrow> u8 list \<Rightarrow> bool \<Rightarrow> ('d net, int) op" where
  "write_tries 0 fuel i buf nonblock = fail"
| "write_tries (Suc tries) fuel i buf nonblock =
     seq (gets (\<lambda>s. socks s i)) (\<lambda>k.
       if \<not> sk_used k \<or> sk_proto k \<noteq> PROTO_TCP then ret (if buf = [] then 0 else -22)
       else if t_error k then ret (- socket_error_or k 32)
       else if app_shut_wr k then ret (-32)
       else if \<not> (t_state k = TCP_ESTABLISHED \<or> t_state k = TCP_CLOSE_WAIT) then ret (-107)
       else if tx_valid (tx_seg k) then
         (if nonblock then ret (-11)
          else
            seq (net_pump (send_ipv4_l4 fuel)) (\<lambda>_.
            seq (gets (\<lambda>s. socks s i)) (\<lambda>k.
              if \<not> tx_valid (tx_seg k) then write_tries tries fuel i buf nonblock else ret (-2))))
       else if peer_wnd k = 0 then
         (if nonblock then ret (-11)
          else
            seq (net_pump (send_ipv4_l4 fuel)) (\<lambda>_.
            seq (gets (\<lambda>s. socks s i)) (\<lambda>k.
              if t_error k then ret (- socket_error_or k 104)
              else if peer_wnd k \<noteq> 0 then write_tries tries fuel i buf nonblock else ret (-2))))
       else
         let chunk = min (min (length buf) (NET_MTU - 20)) (unat (peer_wnd k)) in
         if chunk = 0 then ret (if nonblock then -11 else -2)
         else
           seq (tcp_send_segment (send_ipv4_l4 fuel) i (TCP_ACK OR TCP_PSH) (snd_nxt k) (rcv_nxt k) (take chunk buf) False) (\<lambda>ok.
             if \<not> ok then ret (-101)
             else seq (modify (upd_sock i (\<lambda>k. k\<lparr>snd_nxt := snd_nxt k + of_nat chunk\<rparr>))) (\<lambda>_. ret (int chunk))))"

definition net_socket_write :: "nat \<Rightarrow> nat \<Rightarrow> u8 list \<Rightarrow> bool \<Rightarrow> ('d net, int) op" where
  "net_socket_write fuel i buf nonblock = write_tries fuel fuel i buf nonblock"

definition net_socket_setsockopt :: "nat \<Rightarrow> int \<Rightarrow> int \<Rightarrow> int \<Rightarrow> nat \<Rightarrow> 'd net \<Rightarrow> int \<times> 'd net" where
  "net_socket_setsockopt i level optname v optlen s =
     (if \<not> sk_used (socks s i) \<or> optlen < 4 then (-22, s)
      else if level \<noteq> 1 then (-95, s)
      else if optname = 2 then (0, upd_sock i (\<lambda>k. k\<lparr>sk_reuseaddr := (v \<noteq> 0)\<rparr>) s)
      else if optname = 6 then (0, upd_sock i (\<lambda>k. k\<lparr>sk_broadcast := (v \<noteq> 0)\<rparr>) s)
      else (-95, s))"

definition net_socket_getsockopt :: "nat \<Rightarrow> int \<Rightarrow> int \<Rightarrow> nat \<Rightarrow> 'd net \<Rightarrow> (int \<times> int option) \<times> 'd net" where
  "net_socket_getsockopt i level optname optlen s =
     (if \<not> sk_used (socks s i) \<or> optlen < 4 then ((-22, None), s)
      else if level \<noteq> 1 then ((-95, None), s)
      else if optname = 4 then (case socket_take_error i s of (v, s1) \<Rightarrow> ((0, Some v), s1))
      else if optname = 2 then ((0, Some (if sk_reuseaddr (socks s i) then 1 else 0)), s)
      else if optname = 6 then ((0, Some (if sk_broadcast (socks s i) then 1 else 0)), s)
      else ((-95, None), s))"

abbreviation (input) POLLIN :: u16 where "POLLIN \<equiv> 1"
abbreviation (input) POLLOUT :: u16 where "POLLOUT \<equiv> 4"
abbreviation (input) POLLERR :: u16 where "POLLERR \<equiv> 8"
abbreviation (input) POLLHUP :: u16 where "POLLHUP \<equiv> 16"

definition net_socket_poll_revents :: "nat \<Rightarrow> u16 \<Rightarrow> 'd net \<Rightarrow> u16 \<times> 'd net" where
  "net_socket_poll_revents i events s =
     (let k = socks s i; wants_in = (events AND POLLIN \<noteq> 0); wants_out = (events AND POLLOUT \<noteq> 0) in
      if \<not> sk_used k then (POLLERR, s)
      else if sk_proto k = PROTO_UDP then
        ((if wants_in \<and> q_count k > 0 then POLLIN else 0) OR (if wants_out then POLLOUT else 0), s)
      else if sk_proto k \<noteq> PROTO_TCP then (POLLERR, s)
      else
        let re = (if sk_last_error k \<noteq> 0 then POLLERR OR (if wants_out then POLLOUT else 0) else 0) OR (if t_error k then POLLHUP else 0) in
        if t_state k = TCP_LISTEN then
          (if wants_in then (case listener_queue_has_established i s of (has, s1) \<Rightarrow> (re OR (if has then POLLIN else 0), s1)) else (re, s))
        else
          (re OR (if wants_in \<and> (rx_len k > 0 \<or> rx_closed k \<or> t_state k = TCP_CLOSED) then POLLIN else 0)
              OR (if wants_out \<and> t_state k = TCP_SYN_SENT \<and> t_error k then POLLOUT else 0)
              OR (if wants_out \<and> (t_state k = TCP_ESTABLISHED \<or> t_state k = TCP_CLOSE_WAIT) \<and> \<not> tx_valid (tx_seg k) \<and> \<not> app_shut_wr k
                    \<and> peer_wnd k \<noteq> 0 then POLLOUT else 0)
              OR (if rx_closed k \<or> t_state k = TCP_CLOSED then POLLHUP else 0), s))"

end
