(* ===== verification/NetQueues.thy ===== *)
theory NetQueues
  imports NetSock
begin

text \<open>
  What the queues and the port allocator of \<open>NetSock\<close> promise: the receive buffer of a TCP socket is a bounded byte
  channel, the datagram queue and the frame queue are bounded queues, and a port is always found.
\<close>

section \<open>Receive buffers\<close>

definition rx_ok :: "net_socket \<Rightarrow> bool" where
  "rx_ok k \<longleftrightarrow> rx_len k \<le> NET_TCP_BUF_MAX \<and> rx_head k < NET_TCP_BUF_MAX \<and> rx_tail k = (rx_head k + rx_len k) mod NET_TCP_BUF_MAX"

definition rx_contents :: "net_socket \<Rightarrow> u8 list" where
  "rx_contents k = ring_list NET_TCP_BUF_MAX (rx_buf k) (rx_head k) (rx_len k)"

lemma rx_write_loop_spec:
  assumes "n + length bs \<le> NET_TCP_BUF_MAX" "rx_tail k = (rx_head k + n) mod NET_TCP_BUF_MAX"
  shows "\<exists>b. rx_write_loop bs k = k\<lparr>rx_buf := b, rx_tail := (rx_head k + n + length bs) mod NET_TCP_BUF_MAX\<rparr>
    \<and> ring_list NET_TCP_BUF_MAX b (rx_head k) (n + length bs) = ring_list NET_TCP_BUF_MAX (rx_buf k) (rx_head k) n @ bs"
  using assms
proof (induction bs arbitrary: k n)
  case Nil
  have "k = k\<lparr>rx_buf := rx_buf k, rx_tail := rx_tail k\<rparr>" by simp
  then show ?case using Nil by (metis add.right_neutral append_Nil2 list.size(3) rx_write_loop.simps(1))
next
  case (Cons b bs)
  let ?k = "k\<lparr>rx_buf := (rx_buf k)(rx_tail k := b), rx_tail := (rx_tail k + 1) mod NET_TCP_BUF_MAX\<rparr>"
  have t: "rx_tail ?k = (rx_head ?k + Suc n) mod NET_TCP_BUF_MAX" using Cons.prems(2) by (simp add: mod_simps)
  have "n < NET_TCP_BUF_MAX" using Cons.prems(1) by simp
  from ring_list_store [OF this, of "rx_buf k" "rx_head k" b]
  have r: "ring_list NET_TCP_BUF_MAX (rx_buf ?k) (rx_head ?k) (Suc n) = ring_list NET_TCP_BUF_MAX (rx_buf k) (rx_head k) n @ [b]"
    using Cons.prems(2) by simp
  have le: "Suc n + length bs \<le> NET_TCP_BUF_MAX" using Cons.prems(1) by simp
  obtain d where "rx_write_loop bs ?k = ?k\<lparr>rx_buf := d, rx_tail := (rx_head ?k + Suc n + length bs) mod NET_TCP_BUF_MAX\<rparr>"
    "ring_list NET_TCP_BUF_MAX d (rx_head ?k) (Suc n + length bs) = ring_list NET_TCP_BUF_MAX (rx_buf ?k) (rx_head ?k) (Suc n) @ bs"
    using Cons.IH [OF le t] by blast
  then show ?case using r by auto
qed

lemma rx_write:
  assumes "rx_ok k" "n = min (length bs) (NET_TCP_BUF_MAX - rx_len k)"
  shows "\<exists>b t. tcp_rx_write bs k = (n, k\<lparr>rx_buf := b, rx_tail := t, rx_len := rx_len k + n\<rparr>)
    \<and> rx_ok (k\<lparr>rx_buf := b, rx_tail := t, rx_len := rx_len k + n\<rparr>)
    \<and> rx_contents (k\<lparr>rx_buf := b, rx_tail := t, rx_len := rx_len k + n\<rparr>) = rx_contents k @ take n bs"
proof (cases "bs = []")
  case True
  then show ?thesis using assms
    by (intro exI [of _ "rx_buf k"] exI [of _ "rx_tail k"]) (simp add: tcp_rx_write_def)
next
  case False
  have len: "rx_len k + length (take n bs) \<le> NET_TCP_BUF_MAX" using assms by (auto simp: rx_ok_def)
  have "n = (if length bs > NET_TCP_BUF_MAX - rx_len k then NET_TCP_BUF_MAX - rx_len k else length bs)" using assms(2) by auto
  moreover obtain b where "rx_write_loop (take n bs) k = k\<lparr>rx_buf := b, rx_tail := (rx_head k + rx_len k + length (take n bs)) mod NET_TCP_BUF_MAX\<rparr>"
    "ring_list NET_TCP_BUF_MAX b (rx_head k) (rx_len k + length (take n bs)) = rx_contents k @ take n bs"
    unfolding rx_contents_def using rx_write_loop_spec [of "rx_len k" "take n bs" k] len assms(1) unfolding rx_ok_def by blast
  moreover have "length (take n bs) = n" "rx_len k + n \<le> NET_TCP_BUF_MAX" using assms by (auto simp: rx_ok_def)
  ultimately show ?thesis using False assms(1)
    by (intro exI [of _ b] exI [of _ "(rx_head k + rx_len k + n) mod NET_TCP_BUF_MAX"])
      (simp add: tcp_rx_write_def Let_def rx_ok_def rx_contents_def add.assoc)
qed

lemma rx_read_loop_spec:
  assumes "rx_head k < NET_TCP_BUF_MAX"
  shows "rx_read_loop n k = (ring_list NET_TCP_BUF_MAX (rx_buf k) (rx_head k) n, k\<lparr>rx_head := (rx_head k + n) mod NET_TCP_BUF_MAX\<rparr>)"
  using assms
proof (induction n arbitrary: k)
  case (Suc n)
  have "(Suc (rx_head k) mod NET_TCP_BUF_MAX + n) mod NET_TCP_BUF_MAX = Suc (rx_head k + n) mod NET_TCP_BUF_MAX" by (simp add: mod_simps)
  then show ?case using Suc.IH [of "k\<lparr>rx_head := (rx_head k + 1) mod NET_TCP_BUF_MAX\<rparr>"] Suc.prems
    by (simp add: ring_list_head)
qed simp

lemma rx_read:
  assumes "rx_ok k"
  shows "\<exists>h. tcp_rx_read n k = (take n (rx_contents k), k\<lparr>rx_head := h, rx_len := rx_len k - n\<rparr>)
    \<and> rx_ok (k\<lparr>rx_head := h, rx_len := rx_len k - n\<rparr>) \<and> rx_contents (k\<lparr>rx_head := h, rx_len := rx_len k - n\<rparr>) = drop n (rx_contents k)"
proof (cases "n = 0")
  case True
  then show ?thesis using assms by (intro exI [of _ "rx_head k"]) (simp add: tcp_rx_read_def)
next
  case False
  let ?m = "min n (rx_len k)" and ?r = "ring_list NET_TCP_BUF_MAX (rx_buf k)"
  have m: "(if n > rx_len k then rx_len k else n) = ?m" "rx_len k - ?m = rx_len k - n" by auto
  have h: "rx_head k < NET_TCP_BUF_MAX" using assms by (simp add: rx_ok_def)
  have t: "?r (rx_head k) ?m = take n (?r (rx_head k) (rx_len k))"
    by (rule nth_equalityI) (auto simp: ring_list_def)
  have d: "?r ((rx_head k + ?m) mod NET_TCP_BUF_MAX) (rx_len k - n) = drop n (?r (rx_head k) (rx_len k))"
    using ring_list_drop [of NET_TCP_BUF_MAX "rx_head k" ?m "rx_len k" "rx_buf k"] h m(2) by (auto simp: min_def split: if_splits)
  have "((rx_head k + ?m) mod NET_TCP_BUF_MAX + (rx_len k - n)) mod NET_TCP_BUF_MAX = (rx_head k + rx_len k) mod NET_TCP_BUF_MAX"
    by (simp add: mod_simps) (simp add: min_def)
  moreover have "rx_len k - n \<le> NET_TCP_BUF_MAX" using assms unfolding rx_ok_def by linarith
  ultimately show ?thesis using False assms rx_read_loop_spec [OF h, of ?m] t d m
    by (intro exI [of _ "(rx_head k + ?m) mod NET_TCP_BUF_MAX"]) (simp add: tcp_rx_read_def Let_def rx_ok_def rx_contents_def)
qed

interpretation tcp_rx: byte_channel NET_TCP_BUF_MAX tcp_rx_write tcp_rx_read rx_contents rx_ok
proof
  fix k bs n assume ok: "rx_ok k"
  show "length (rx_contents k) \<le> NET_TCP_BUF_MAX" using ok by (simp add: rx_contents_def rx_ok_def)
  have l: "length (rx_contents k) = rx_len k" by (simp add: rx_contents_def)
  obtain b t where w: "tcp_rx_write bs k = (min (length bs) (NET_TCP_BUF_MAX - rx_len k), k\<lparr>rx_buf := b, rx_tail := t, rx_len := rx_len k + min (length bs) (NET_TCP_BUF_MAX - rx_len k)\<rparr>)"
    "rx_ok (snd (tcp_rx_write bs k))" "rx_contents (snd (tcp_rx_write bs k)) = rx_contents k @ take (fst (tcp_rx_write bs k)) bs"
    using rx_write [OF ok refl, of bs] by auto
  show "rx_ok (snd (tcp_rx_write bs k))" by (rule w(2))
  show "fst (tcp_rx_write bs k) = min (length bs) (NET_TCP_BUF_MAX - length (rx_contents k))" using w(1) l by simp
  show "rx_contents (snd (tcp_rx_write bs k)) = rx_contents k @ take (fst (tcp_rx_write bs k)) bs" by (rule w(3))
  show "rx_ok (snd (tcp_rx_read n k))" "fst (tcp_rx_read n k) = take n (rx_contents k)" "rx_contents (snd (tcp_rx_read n k)) = drop n (rx_contents k)"
    using rx_read [OF ok, of n] by auto
qed

text \<open>
  C32. The receive buffer of a TCP socket is a bounded byte queue: for any interleaving of \<^verbatim>\<open>tcp_rx_write\<close> and
  \<^verbatim>\<open>tcp_rx_read\<close>, the bytes that were in the buffer followed by the bytes accepted are exactly the bytes delivered followed by the bytes
  still in it, and the ring indices stay consistent.
\<close>

theorem tcp_rx_fifo:
  "rx_ok k \<Longrightarrow> chan_run tcp_rx_write tcp_rx_read ops k = (k', acc, del)
    \<Longrightarrow> rx_ok k' \<and> rx_contents k @ acc = del @ rx_contents k'"
  by (rule tcp_rx.run_fifo)

theorem tcp_rx_fifo_witness:
  "rx_ok sock_zero \<and> (\<exists>k'. chan_run tcp_rx_write tcp_rx_read [ChanWrite [1, 2, 3], ChanRead 2] sock_zero = (k', [1, 2, 3], [1, 2])
     \<and> rx_contents sock_zero @ [1, 2, 3] = [1, 2] @ rx_contents k')"
proof -
  have k: "rx_ok sock_zero" by (simp add: rx_ok_def sock_zero_def)
  obtain k' where r: "chan_run tcp_rx_write tcp_rx_read [ChanWrite [1, 2, 3], ChanRead 2] sock_zero = (k', [1, 2, 3], [1, 2])"
    by (simp add: tcp_rx_write_def tcp_rx_read_def sock_zero_def numeral_2_eq_2)
  show ?thesis using k r tcp_rx_fifo [OF k r] by blast
qed

section \<open>Ephemeral ports\<close>

text \<open>The \<open>j\<close>th port the search tries, when it starts at \<open>a\<close> after the first one.\<close>

definition eph_port :: "nat \<Rightarrow> nat \<Rightarrow> u16" where "eph_port a j = of_nat (49152 + (a + j) mod 16384)"

lemma unat_eph_port [simp]: "unat (eph_port a j) = 49152 + (a + j) mod 16384"
proof -
  have "(a + j) mod 16384 < 16384" by simp
  then have "49152 + (a + j) mod 16384 < 2 ^ LENGTH(16)" by simp
  then show ?thesis unfolding eph_port_def by (rule unat_of_nat_small)
qed

lemma eph_next_port: "eph_next (eph_port a j) = eph_port a (Suc j)"
proof (cases "(a + j) mod 16384 = 16383")
  case True
  then have "eph_port a j = 65535" by (simp add: eph_port_def)
  moreover have "(a + Suc j) mod 16384 = 0" using True by (simp add: mod_Suc)
  ultimately show ?thesis by (simp add: eph_next_def eph_port_def)
next
  case False
  then have "unat (eph_port a j) \<noteq> unat (65535 :: u16)" by simp
  then have "eph_port a j \<noteq> 65535" by (metis unat_eph_port)
  moreover have "(a + Suc j) mod 16384 = Suc ((a + j) mod 16384)" using False by (simp add: mod_Suc)
  ultimately show ?thesis by (simp add: eph_next_def eph_port_def)
qed

lemma eph_search_spec:
  assumes "a < 16384" "m \<le> 16383"
  shows "eph_search c (eph_port a 0) (eph_port a (16383 - m))
    = Some (case find (\<lambda>j. \<not> c (eph_port a j)) [16383 - m..<16384] of None \<Rightarrow> 0 | Some j \<Rightarrow> eph_port a j)"
  using assms(2)
proof (induction m)
  case 0
  have "eph_port a 16384 = eph_port a 0" by (simp add: eph_port_def)
  then show ?case by (subst eph_search.simps) (simp add: eph_next_port)
next
  case (Suc m)
  define j where "j = 16383 - Suc m"
  have j: "Suc j = 16383 - m" "j < 16384" "0 < Suc j" "Suc j < 16384" using Suc.prems by (auto simp: j_def)
  have "(a + Suc j) mod 16384 \<noteq> a mod 16384" using ring_index_distinct [of 0 "Suc j" 16384 a] j by auto
  then have "unat (eph_port a (Suc j)) \<noteq> unat (eph_port a 0)" by simp
  then have "eph_port a (Suc j) \<noteq> eph_port a 0" by metis
  moreover have "[j..<16384] = j # [Suc j..<16384]" using j(2) by (rule upt_conv_Cons)
  ultimately show ?case unfolding j_def [symmetric] using Suc.IH Suc.prems j(1)
    by (subst eph_search.simps) (simp add: eph_next_port Let_def)
qed

lemma eph_port_inj: "inj_on (eph_port a) {0..<33}"
proof (rule linorder_inj_onI')
  fix i j :: nat assume "i \<in> {0..<33}" "j \<in> {0..<33}" "i < j"
  then have "(a + i) mod 16384 \<noteq> (a + j) mod 16384" using ring_index_distinct [of i j 16384 a] by auto
  then show "eph_port a i \<noteq> eph_port a j" by (metis add_left_cancel unat_eph_port)
qed

lemma some_port_free: "\<exists>j<33. \<not> socket_port_conflict (eph_port a j) ip proto skip s"
proof (rule ccontr)
  assume "\<not> ?thesis"
  then have c: "socket_port_conflict (eph_port a j) ip proto skip s" if "j < 33" for j using that by blast
  have "eph_port a j \<in> (\<lambda>i. sk_bind_port (socks s i)) ` {0..<NET_SOCK_MAX}" if lt: "j < 33" for j
  proof -
    obtain i where "i < NET_SOCK_MAX" "port_clash (eph_port a j) ip proto skip s i"
      using c [OF lt] by (auto simp: socket_port_conflict_def list_ex_iff)
    then have "i \<in> {0..<NET_SOCK_MAX}" "eph_port a j = sk_bind_port (socks s i)" by (simp_all add: port_clash_def Let_def)
    then show ?thesis by (rule rev_image_eqI)
  qed
  then have "eph_port a ` {0..<33} \<subseteq> (\<lambda>i. sk_bind_port (socks s i)) ` {0..<NET_SOCK_MAX}" by auto
  from card_mono [OF _ this] have "card (eph_port a ` {0..<33}) \<le> 32"
    using card_image_le [of "{0..<NET_SOCK_MAX}" "\<lambda>i. sk_bind_port (socks s i)"] by simp
  then show False using card_image [OF eph_port_inj [of a]] by simp
qed

text \<open>
  C30. The search for a free port always ends and always finds one: \<^verbatim>\<open>socket_alloc_ephemeral\<close> returns a port of the
  ephemeral range that does not conflict, whatever the socket table holds, and the next search starts after it.
\<close>

theorem alloc_ephemeral_returns:
  "\<exists>p. socket_alloc_ephemeral skip ip proto s = (Some p, s\<lparr>next_ephemeral := eph_next p\<rparr>)
     \<and> NET_EPHEMERAL_BASE \<le> p \<and> \<not> socket_port_conflict p ip proto skip s"
proof -
  let ?c = "\<lambda>p. socket_port_conflict p ip proto skip s"
  define start where "start = (if next_ephemeral s < NET_EPHEMERAL_BASE \<or> next_ephemeral s > NET_EPHEMERAL_LAST then NET_EPHEMERAL_BASE else next_ephemeral s)"
  define a where "a = unat start - 49152"
  have b: "49152 \<le> unat start" by (auto simp: start_def not_less word_le_nat_alt)
  moreover have "unat start < 65536" using unsigned_less [where ?'a = nat and ?'b = 16, of start] by simp
  ultimately have a: "a < 16384" by (simp add: a_def)
  have "49152 + (a + 0) mod 16384 = unat start" using a b by (simp add: a_def)
  then have st: "start = eph_port a 0" by (simp add: eph_port_def)
  obtain j where "j < 33" "\<not> ?c (eph_port a j)" using some_port_free by blast
  moreover from this have "j \<in> set [0..<16384]" by simp
  ultimately have "find (\<lambda>j. \<not> ?c (eph_port a j)) [0..<16384] \<noteq> None" by (metis (no_types, lifting) find_None_iff)
  then obtain i where i: "find (\<lambda>j. \<not> ?c (eph_port a j)) [0..<16384] = Some i" by blast
  then have free: "\<not> ?c (eph_port a i)" by (auto simp: find_Some_iff)
  have "eph_search ?c start start = Some (eph_port a i)" using eph_search_spec [OF a order_refl, of ?c] i st by simp
  moreover have "NET_EPHEMERAL_BASE \<le> eph_port a i" by (simp add: word_le_nat_alt)
  moreover from this have "eph_port a i \<noteq> 0" by auto
  ultimately have "socket_alloc_ephemeral skip ip proto s = (Some (eph_port a i), s\<lparr>next_ephemeral := eph_next (eph_port a i)\<rparr>)"
    by (simp add: socket_alloc_ephemeral_def Let_def start_def [symmetric])
  with free \<open>NET_EPHEMERAL_BASE \<le> eph_port a i\<close> show ?thesis by blast
qed

section \<open>Bounded queues\<close>

datatype 'x queue_op = Push 'x | Pop

fun queue_run :: "('x \<Rightarrow> 's \<Rightarrow> bool \<times> 's) \<Rightarrow> ('s \<Rightarrow> 'x option \<times> 's) \<Rightarrow> 'x queue_op list \<Rightarrow> 's \<Rightarrow> 's \<times> 'x list \<times> 'x list" where
  "queue_run push pop [] s = (s, [], [])"
| "queue_run push pop (Push x # ops) s =
     (case push x s of (ok, s1) \<Rightarrow> case queue_run push pop ops s1 of (s2, acc, del) \<Rightarrow> (s2, if ok then x # acc else acc, del))"
| "queue_run push pop (Pop # ops) s =
     (case pop s of (r, s1) \<Rightarrow> case queue_run push pop ops s1 of (s2, acc, del) \<Rightarrow>
        (s2, acc, case r of Some x \<Rightarrow> x # del | None \<Rightarrow> del))"

locale bounded_queue =
  fixes cap :: nat
    and fits :: "'x \<Rightarrow> bool"
    and push :: "'x \<Rightarrow> 's \<Rightarrow> bool \<times> 's"
    and pop :: "'s \<Rightarrow> 'x option \<times> 's"
    and items :: "'s \<Rightarrow> 'x list"
    and ok :: "'s \<Rightarrow> bool"
  assumes push_ok: "ok s \<Longrightarrow> ok (snd (push x s))"
    and push_result: "ok s \<Longrightarrow> fst (push x s) \<longleftrightarrow> fits x \<and> length (items s) < cap"
    and push_items: "ok s \<Longrightarrow> items (snd (push x s)) = (if fst (push x s) then items s @ [x] else items s)"
    and pop_ok: "ok s \<Longrightarrow> ok (snd (pop s))"
    and pop_items: "ok s \<Longrightarrow> items s = (case fst (pop s) of Some x \<Rightarrow> x # items (snd (pop s)) | None \<Rightarrow> [])"
    and pop_none: "ok s \<Longrightarrow> fst (pop s) = None \<Longrightarrow> items (snd (pop s)) = []"
begin

lemma run_in_order:
  assumes "ok s" "queue_run push pop ops s = (s', acc, del)"
  shows "ok s' \<and> items s @ acc = del @ items s'"
  using assms
proof (induction ops arbitrary: s acc del)
  case (Cons op ops)
  show ?case
  proof (cases op)
    case (Push x)
    obtain a where r: "queue_run push pop ops (snd (push x s)) = (s', a, del)" and "acc = (if fst (push x s) then x # a else a)"
      using Cons.prems(2) Push by (auto split: prod.splits)
    then show ?thesis using Cons.IH [OF push_ok [OF Cons.prems(1)] r] push_items [OF Cons.prems(1), of x] by (auto split: if_splits)
  next
    case Pop
    obtain d where r: "queue_run push pop ops (snd (pop s)) = (s', acc, d)"
        and "del = (case fst (pop s) of Some x \<Rightarrow> x # d | None \<Rightarrow> d)"
      using Cons.prems(2) Pop by (auto split: prod.splits)
    then show ?thesis
      using Cons.IH [OF pop_ok [OF Cons.prems(1)] r] pop_items [OF Cons.prems(1)] pop_none [OF Cons.prems(1)]
      by (auto split: option.splits)
  qed
qed simp

end

lemma ring_list_skip:
  assumes "start < cap" "n < cap"
  shows "ring_list cap (d(start := x)) ((start + 1) mod cap) n = ring_list cap d ((start + 1) mod cap) n"
proof -
  have "((start + 1) mod cap + i) mod cap \<noteq> start" if "i < n" for i
    using ring_index_distinct [of 0 "i + 1" cap start] assms that by (simp add: mod_simps)
  then show ?thesis by (auto simp: ring_list_def)
qed

section \<open>Datagrams\<close>

type_synonym datagram = "u8 list \<times> u32 \<times> u16"

definition udp_push :: "datagram \<Rightarrow> net_socket \<Rightarrow> bool \<times> net_socket" where
  "udp_push x k = (case x of (d, ip, port) \<Rightarrow> socket_udp_queue_push d ip port k)"

definition udp_ok :: "net_socket \<Rightarrow> bool" where
  "udp_ok k \<longleftrightarrow> q_head k < NET_SOCK_RXQ \<and> q_count k \<le> NET_SOCK_RXQ \<and> q_tail k = (q_head k + q_count k) mod NET_SOCK_RXQ
     \<and> (\<forall>i < NET_SOCK_RXQ. length (ui_data (rxq k i)) \<le> NET_UDP_PAYLOAD_MAX)"

definition udp_items :: "net_socket \<Rightarrow> datagram list" where
  "udp_items k = map (\<lambda>it. (ui_data it, ui_src_ip it, ui_src_port it)) (ring_list NET_SOCK_RXQ (rxq k) (q_head k) (q_count k))"

interpretation udp_queue: bounded_queue NET_SOCK_RXQ "\<lambda>x. length (fst x) \<le> NET_UDP_PAYLOAD_MAX" udp_push
  "socket_udp_queue_pop NET_UDP_PAYLOAD_MAX" udp_items udp_ok
proof
  fix k and x :: datagram assume ok: "udp_ok k"
  obtain d ip port where x: "x = (d, ip, port)" by (cases x)
  show "udp_ok (snd (udp_push x k))"
    using ok by (simp add: x udp_push_def socket_udp_queue_push_def udp_ok_def mod_simps)
  show r: "fst (udp_push x k) \<longleftrightarrow> length (fst x) \<le> NET_UDP_PAYLOAD_MAX \<and> length (udp_items k) < NET_SOCK_RXQ"
    by (auto simp: x udp_push_def socket_udp_queue_push_def udp_items_def)
  show "udp_items (snd (udp_push x k)) = (if fst (udp_push x k) then udp_items k @ [x] else udp_items k)"
    using ok ring_list_store [of "q_count k" NET_SOCK_RXQ "rxq k" "q_head k"]
    by (simp add: x udp_push_def socket_udp_queue_push_def udp_items_def udp_ok_def)
next
  fix k assume ok: "udp_ok k"
  let ?p = "socket_udp_queue_pop NET_UDP_PAYLOAD_MAX k"
  show "udp_ok (snd ?p)" using ok by (cases "q_count k") (auto simp: socket_udp_queue_pop_def udp_ok_def Let_def mod_simps)
  show "udp_items k = (case fst ?p of Some x \<Rightarrow> x # udp_items (snd ?p) | None \<Rightarrow> [])"
    using ok ring_list_head [of NET_SOCK_RXQ "q_head k" "rxq k" "q_count k - 1"]
    by (auto simp: socket_udp_queue_pop_def udp_items_def udp_ok_def Let_def)
  show "fst ?p = None \<Longrightarrow> udp_items (snd ?p) = []" by (auto simp: socket_udp_queue_pop_def udp_items_def Let_def split: if_splits)
qed

text \<open>
  C33. A UDP socket delivers datagrams whole and in the order in which they were accepted, each with its source: for any
  interleaving of arrivals and of reads with a buffer of the maximal size, what was queued followed by what was accepted is
  what was delivered followed by what is still queued.
\<close>

theorem udp_in_order:
  "udp_ok k \<Longrightarrow> queue_run udp_push (socket_udp_queue_pop NET_UDP_PAYLOAD_MAX) ops k = (k', acc, del)
    \<Longrightarrow> udp_ok k' \<and> udp_items k @ acc = del @ udp_items k'"
  by (rule udp_queue.run_in_order)

theorem udp_in_order_witness:
  "udp_ok sock_zero \<and> (\<exists>k'. queue_run udp_push (socket_udp_queue_pop NET_UDP_PAYLOAD_MAX)
       [Push ([1], 7, 9), Push ([2, 3], 8, 9), Pop] sock_zero = (k', [([1], 7, 9), ([2, 3], 8, 9)], [([1], 7, 9)])
     \<and> udp_items k' = [([2, 3], 8, 9)])"
proof -
  have k: "udp_ok sock_zero" by (simp add: udp_ok_def sock_zero_def ui_zero_def)
  obtain k' where r: "queue_run udp_push (socket_udp_queue_pop NET_UDP_PAYLOAD_MAX)
      [Push ([1], 7, 9), Push ([2, 3], 8, 9), Pop] sock_zero = (k', [([1], 7, 9), ([2, 3], 8, 9)], [([1], 7, 9)])"
    by (simp add: udp_push_def socket_udp_queue_push_def socket_udp_queue_pop_def sock_zero_def Let_def)
  have "udp_items sock_zero = []" by (simp add: udp_items_def sock_zero_def)
  then show ?thesis using k r udp_in_order [OF k r] by auto
qed

section \<open>Received frames\<close>

definition frame_push :: "int \<times> u8 list \<Rightarrow> 'd net \<Rightarrow> bool \<times> 'd net" where "frame_push x s = rxq_push (fst x) (snd x) s"

definition frame_pop :: "'d net \<Rightarrow> (int \<times> u8 list) option \<times> 'd net" where
  "frame_pop s = (case rxq_pop s of (r, s1) \<Rightarrow> (map_option (\<lambda>it. (ri_dev it, ri_frame it)) r, s1))"

definition frames_ok :: "'d net \<Rightarrow> bool" where
  "frames_ok s \<longleftrightarrow> rxq_head s < NET_RXQ_MAX \<and> rxq_count s \<le> NET_RXQ_MAX \<and> rxq_tail s = (rxq_head s + rxq_count s) mod NET_RXQ_MAX
     \<and> (\<forall>i < NET_RXQ_MAX. length (ri_frame (rxq_items s i)) \<le> NET_FRAME_MAX)"

definition frames :: "'d net \<Rightarrow> (int \<times> u8 list) list" where
  "frames s = map (\<lambda>it. (ri_dev it, ri_frame it)) (ring_list NET_RXQ_MAX (rxq_items s) (rxq_head s) (rxq_count s))"

interpretation frame_queue: bounded_queue NET_RXQ_MAX "\<lambda>x. length (snd x) \<le> NET_FRAME_MAX" frame_push frame_pop frames frames_ok
proof
  fix s :: "'d net" and x assume ok: "frames_ok s"
  show "frames_ok (snd (frame_push x s))" using ok by (simp add: frame_push_def rxq_push_def frames_ok_def mod_simps)
  show r: "fst (frame_push x s) \<longleftrightarrow> length (snd x) \<le> NET_FRAME_MAX \<and> length (frames s) < NET_RXQ_MAX"
    by (auto simp: frame_push_def rxq_push_def frames_def)
  show "frames (snd (frame_push x s)) = (if fst (frame_push x s) then frames s @ [x] else frames s)"
    using ok ring_list_store [of "rxq_count s" NET_RXQ_MAX "rxq_items s" "rxq_head s"]
    by (cases x) (simp add: frame_push_def rxq_push_def frames_def frames_ok_def)
next
  fix s :: "'d net" assume ok: "frames_ok s"
  show "frames_ok (snd (frame_pop s))" using ok by (cases "rxq_count s") (auto simp: frame_pop_def rxq_pop_def frames_ok_def Let_def mod_simps ri_zero_def)
  show "frames s = (case fst (frame_pop s) of Some x \<Rightarrow> x # frames (snd (frame_pop s)) | None \<Rightarrow> [])"
    using ok ring_list_head [of NET_RXQ_MAX "rxq_head s" "rxq_items s" "rxq_count s - 1"]
      ring_list_skip [of "rxq_head s" NET_RXQ_MAX "rxq_count s - 1" "rxq_items s" ri_zero]
    by (auto simp: frame_pop_def rxq_pop_def frames_def frames_ok_def)
  show "fst (frame_pop s) = None \<Longrightarrow> frames (snd (frame_pop s)) = []" by (auto simp: frame_pop_def rxq_pop_def frames_def split: if_splits)
qed

end
