(* ===== verification/NetProps.thy ===== *)
theory NetProps
  imports NetApi NetQueues
begin

text \<open>
  Addresses, routes, checksums and replies: what the code of \<open>NetText\<close>, \<open>NetTables\<close> and \<open>NetStack\<close> computes.
\<close>

section \<open>Addresses\<close>

text \<open>
  C35. An IPv4 address that \<^verbatim>\<open>ip_be_to_text\<close> prints fits a buffer of 16 bytes and is read back by \<^verbatim>\<open>parse_ipv4_be\<close> as the same
  address.
\<close>

theorem ip_text_roundtrip: "n \<ge> 16 \<Longrightarrow> \<exists>t. ip_be_to_text ip n = Some t \<and> length t \<le> 15 \<and> parse_ipv4_be t = Some ip"
  by (rule text_roundtrip)

theorem ip_text_roundtrip_witness:
  "\<exists>t. ip_be_to_text 0x0A00020F 16 = Some t \<and> length t \<le> 15 \<and> parse_ipv4_be t = Some 0x0A00020F"
  by (rule ip_text_roundtrip) simp

section \<open>Routes\<close>

lemma mask_prefix_len_net_mask:
  assumes "n \<le> 32" shows "mask_prefix_len (push_bit (32 - n) (mask n)) = of_nat n"
  using assms
proof (induction n)
  case 0
  then show ?case by (subst mask_prefix_len.simps) simp
next
  case (Suc n)
  let ?m = "push_bit (32 - Suc n) (mask (Suc n)) :: u32"
  have "bit ?m 31" using Suc.prems by (auto simp: bit_simps)
  then have "?m AND 0x80000000 \<noteq> 0" using and_exp_eq_0_iff_not_bit [of ?m 31] by simp
  moreover have "push_bit 1 ?m = push_bit (32 - n) (mask n)"
  proof -
    have "push_bit 1 ?m = push_bit (32 - n) (mask (Suc n))" using Suc.prems push_bit_push_bit [of 1 "32 - Suc n" "mask (Suc n) :: u32"]
      by (simp only: add.commute [of 1] Suc_diff_Suc [of n 32] Suc_eq_plus1 [symmetric])
    also have "\<dots> = push_bit (32 - n) (mask n)" using Suc.prems by (intro bit_word_eqI) (auto simp: bit_simps)
    finally show ?thesis .
  qed
  ultimately show ?case using Suc.IH Suc.prems by (subst mask_prefix_len.simps) simp
qed


section \<open>Checksums\<close>

lemma wr_be16_append: "length a \<le> n \<Longrightarrow> wr_be16 (a @ p) n v = a @ wr_be16 p (n - length a) v"
  by (simp add: wr_be16_def put_at_def Suc_diff_le)

lemma length_tcp_header [simp]: "length (tcp_header sp dp sq ak flags win) = 20" by (simp add: tcp_header_def be16_def be32_def)

text \<open>
  C34. The checksum that \<^verbatim>\<open>tcp_send_segment\<close> stores is the one a receiver verifies: the one's complement sum over the pseudo
  header and the segment is 0, for every segment that fits in a packet.
\<close>

theorem tcp_packet_verifies:
  assumes "length payload \<le> NET_MTU - 20"
  shows "checksum16 (pseudo_header src dst IP_PROTO_TCP (20 + length payload)
           @ tcp_packet src dst (tcp_header sp dp sq ak flags win @ payload)) = 0"
proof -
  let ?p = "tcp_header sp dp sq ak flags win @ payload"
  let ?h = "pseudo_header src dst IP_PROTO_TCP (length ?p)"
  have l: "length ?h = 12" by (simp add: pseudo_header_def)
  have "?h @ tcp_packet src dst ?p = wr_be16 (?h @ ?p) 28 (checksum16 (?h @ ?p))"
    using l by (simp add: tcp_packet_def l4_checksum_eq wr_be16_append)
  moreover have "checksum16 (wr_be16 (?h @ ?p) 28 (checksum16 (?h @ ?p))) = 0"
    using assms l by (intro checksum_inserted) (auto simp: nth_append tcp_header_def be16_def be32_def)
  ultimately show ?thesis by simp
qed

theorem tcp_packet_verifies_witness:
  "checksum16 (pseudo_header 0x7F000001 0x7F000001 IP_PROTO_TCP (20 + length [1 :: u8, 2, 3])
     @ tcp_packet 0x7F000001 0x7F000001 (tcp_header 80 49152 5 7 TCP_ACK 2048 @ [1, 2, 3])) = 0"
  by (rule tcp_packet_verifies) simp

section \<open>Replies\<close>

lemma reply_fields:
  fixes sq ident :: u16 and src dst :: u32
  defines "p \<equiv> ipv4_header 36 sq IP_PROTO_ICMP dst src @ icmp_packet 0 ident sq"
  shows "p ! 0 = 0x45" "rd_be16 p 2 = 36" "drop 20 p ! 0 = 0" "p ! 9 = IP_PROTO_ICMP" "length p = 36"
  by (simp_all add: p_def ipv4_header_def icmp_packet_def echo_payload_def wr_be16_def put_at_def be16_def be32_def rd_be16_def Let_def
      nth_append upt_rec)


section \<open>A machine with one network card\<close>

definition quiet_ops :: "unit netdev_ops" where \<comment> \<open>a card that sends everything and receives nothing\<close>
  "quiet_ops = \<lparr>op_poll = None, op_recv = (\<lambda>_ d. ((0, []), d)), op_send = (\<lambda>_ d. (True, d)), op_mac = (\<lambda>_. Some [2, 0, 0, 0, 0, 1])\<rparr>"

definition net_boot :: "unit net" where \<comment> \<open>the static variables before \<^verbatim>\<open>net_init\<close>\<close>
  "net_boot = \<lparr>net_ready_flag = False, ifaces = [], routes = (\<lambda>_. rt_zero), arp_tab = (\<lambda>_. ae_zero), ping = pw_zero, ping_seq = 0,
     next_ephemeral = 0, resp = [], resp_off = 0, rxq_items = (\<lambda>_. ri_zero), rxq_head = 0, rxq_tail = 0, rxq_count = 0,
     socks = (\<lambda>_. sock_zero), rand_seed = 0x5A17D3C4B8E91F23,
     netdevs = (\<lambda>_. \<lparr>nd_used = False, nd_name = [], nd_ops = quiet_ops, nd_stats = stats_zero\<rparr>), hw = (), clock = of_nat, clock_reads = 0\<rparr>"

definition net_example :: "unit net" where "net_example = net_init (Some quiet_ops) None net_boot"

lemmas net_example_defs = net_example_def net_init_def netdev_register_def iface_init_phys_all_def iface_init_loopback_def init_phys_def
  iface_refresh_routes_def routes_clear_for_iface_def route_add_def netdev_count_def netdev_get_mac_def dev_slot_def net_boot_def quiet_ops_def
  rt_zero_def if_zero_def

lemma net_example_ifaces:
  "ifaces net_example = [
     \<lparr>if_up = True, if_loopback = True, if_dev_index = -1, if_name = lit ''lo'', if_addr = 0x7F000001, if_mask = 0xFF000000, if_gw = 0,
      if_mac = replicate 6 0\<rparr>,
     \<lparr>if_up = True, if_loopback = False, if_dev_index = 0, if_name = lit ''eth'' @ [48], if_addr = 0x0A00020F, if_mask = 0xFFFFFF00,
      if_gw = 0x0A000202, if_mac = [2, 0, 0, 0, 0, 1]\<rparr>]"
  by (simp add: net_example_defs upt_rec Let_def)

lemma net_example_default: "routes net_example 2 = \<lparr>rt_used = True, rt_prefix = 0, rt_mask = 0, rt_gw = 0x0A000202, rt_if_index = 1\<rparr>"
  by (simp add: net_example_defs upt_rec Let_def)


end
