(* ===== verification/NetSafe.thy ===== *)
theory NetSafe
  imports NetProps
begin

text \<open>
  The bounds of the network stack: whatever the cards deliver and whatever the callers do, every queue stays within its array, every
  stored datagram, frame and segment within its buffer, and every index of the socket table in range.
\<close>

definition sock_wf :: "net_socket \<Rightarrow> bool" where
  "sock_wf k \<longleftrightarrow> rx_ok k \<and> udp_ok k \<and> t_backlog k \<le> NET_TCP_ACCEPTQ \<and> length (t_pending k) \<le> NET_TCP_ACCEPTQ
     \<and> (\<forall>c \<in> set (t_pending k). c < NET_SOCK_MAX) \<and> (\<forall>l. t_listener k = Some l \<longrightarrow> l < NET_SOCK_MAX)
     \<and> length (tx_data (tx_seg k)) \<le> NET_MTU - 20"

definition net_wf :: "'d net \<Rightarrow> bool" where
  "net_wf s \<longleftrightarrow> (\<forall>i < NET_SOCK_MAX. sock_wf (socks s i)) \<and> frames_ok s \<and> length (ifaces s) \<le> NET_IF_MAX
     \<and> length (resp s) < NET_RESP_MAX \<and> resp_off s \<le> length (resp s)"

lemma sock_wf_fields [simp]:
  "sock_wf (k\<lparr>sk_used := a\<rparr>) = sock_wf k" "sock_wf (k\<lparr>sk_refs := b\<rparr>) = sock_wf k" "sock_wf (k\<lparr>sk_proto := c\<rparr>) = sock_wf k"
  "sock_wf (k\<lparr>sk_reuseaddr := d\<rparr>) = sock_wf k" "sock_wf (k\<lparr>sk_broadcast := e\<rparr>) = sock_wf k" "sock_wf (k\<lparr>sk_bound := f\<rparr>) = sock_wf k"
  "sock_wf (k\<lparr>sk_last_error := g\<rparr>) = sock_wf k" "sock_wf (k\<lparr>sk_bind_ip := h\<rparr>) = sock_wf k" "sock_wf (k\<lparr>sk_bind_port := i\<rparr>) = sock_wf k"
  "sock_wf (k\<lparr>sk_peer_ip := j\<rparr>) = sock_wf k" "sock_wf (k\<lparr>sk_peer_port := l\<rparr>) = sock_wf k" "sock_wf (k\<lparr>t_state := m\<rparr>) = sock_wf k"
  "sock_wf (k\<lparr>t_iss := n\<rparr>) = sock_wf k" "sock_wf (k\<lparr>snd_una := n\<rparr>) = sock_wf k" "sock_wf (k\<lparr>snd_nxt := n\<rparr>) = sock_wf k"
  "sock_wf (k\<lparr>t_irs := n\<rparr>) = sock_wf k" "sock_wf (k\<lparr>rcv_nxt := n\<rparr>) = sock_wf k" "sock_wf (k\<lparr>peer_wnd := p\<rparr>) = sock_wf k"
  "sock_wf (k\<lparr>rx_closed := a\<rparr>) = sock_wf k" "sock_wf (k\<lparr>app_shut_rd := a\<rparr>) = sock_wf k" "sock_wf (k\<lparr>app_shut_wr := a\<rparr>) = sock_wf k"
  "sock_wf (k\<lparr>fin_pending := a\<rparr>) = sock_wf k" "sock_wf (k\<lparr>t_detached := a\<rparr>) = sock_wf k" "sock_wf (k\<lparr>t_error := a\<rparr>) = sock_wf k"
  "sock_wf (k\<lparr>timewait_deadline := t\<rparr>) = sock_wf k"
  by (simp_all add: sock_wf_def rx_ok_def udp_ok_def)

lemma sock_wf_tx: "sock_wf k \<Longrightarrow> length (tx_data x) \<le> NET_MTU - 20 \<Longrightarrow> sock_wf (k\<lparr>tx_seg := x\<rparr>)"
  by (simp add: sock_wf_def rx_ok_def udp_ok_def)

lemma sock_wf_retry [simp]: "sock_wf k \<Longrightarrow> sock_wf (k\<lparr>tx_seg := (tx_seg k)\<lparr>tx_sent_tick := a, tx_retries := b\<rparr>\<rparr>)"
  by (simp add: sock_wf_def rx_ok_def udp_ok_def)

lemma sock_wf_zero [simp]: "sock_wf sock_zero"
  by (simp add: sock_wf_def rx_ok_def udp_ok_def sock_zero_def ui_zero_def tx_zero_def)

lemma wf_upd [simp, intro]:
  "net_wf s \<Longrightarrow> (i < NET_SOCK_MAX \<Longrightarrow> sock_wf (socks s i) \<Longrightarrow> sock_wf (f (socks s i))) \<Longrightarrow> net_wf (upd_sock i f s)"
  by (auto simp: net_wf_def upd_sock_def frames_ok_def)

lemma wf_sock: "net_wf s \<Longrightarrow> i < NET_SOCK_MAX \<Longrightarrow> sock_wf (socks s i)" by (simp add: net_wf_def)

lemma wf_rest [simp]:
  "net_wf (s\<lparr>clock_reads := a\<rparr>) = net_wf s" "net_wf (s\<lparr>rand_seed := b\<rparr>) = net_wf s" "net_wf (s\<lparr>arp_tab := c\<rparr>) = net_wf s"
  "net_wf (s\<lparr>ping := d\<rparr>) = net_wf s" "net_wf (s\<lparr>ping_seq := e\<rparr>) = net_wf s" "net_wf (s\<lparr>next_ephemeral := f\<rparr>) = net_wf s"
  "net_wf (s\<lparr>routes := g\<rparr>) = net_wf s" "net_wf (s\<lparr>hw := h\<rparr>) = net_wf s" "net_wf (s\<lparr>netdevs := i\<rparr>) = net_wf s"
  "net_wf (s\<lparr>net_ready_flag := j\<rparr>) = net_wf s"
  by (simp_all add: net_wf_def frames_ok_def)

lemma wf_fold: "(\<And>i s. net_wf s \<Longrightarrow> net_wf (f i s)) \<Longrightarrow> net_wf s \<Longrightarrow> net_wf (fold f is s)"
  by (induction "is" arbitrary: s) auto

section \<open>Operations\<close>

lemma preserves_lift [pres]: "(\<And>s. I s \<Longrightarrow> I (snd (f s))) \<Longrightarrow> preserves I (lift f)"
  by (auto simp: preserves_def lift_apply)

lemma preserves_gets_seq:
  "(\<And>s. I s \<Longrightarrow> P (f s)) \<Longrightarrow> (\<And>x. P x \<Longrightarrow> preserves I (g x)) \<Longrightarrow> preserves I (seq (gets f) g)"
  by (auto simp: preserves_def op_simps)

lemma preserves_lift_seq:
  "(\<And>s. I s \<Longrightarrow> P (fst (f s)) \<and> I (snd (f s))) \<Longrightarrow> (\<And>x. P x \<Longrightarrow> preserves I (g x)) \<Longrightarrow> preserves I (seq (lift f) g)"
  by (auto simp: preserves_def seq_def lift_def split: prod.splits) (metis fst_conv snd_conv)

lemma preserves_gets_now: "(\<And>s. I s \<Longrightarrow> I (snd (g (f s) s))) \<Longrightarrow> preserves I (seq (gets f) g)"
  by (simp add: preserves_def op_simps)

lemma preserves_prod [pres]: "(\<And>a b. x = (a, b) \<Longrightarrow> preserves I (f a b)) \<Longrightarrow> preserves I (case x of (a, b) \<Rightarrow> f a b)"
  by (cases x) simp

lemma preserves_snd: "preserves I m \<Longrightarrow> I s \<Longrightarrow> I (snd (m s))" by (simp add: preserves_def)

lemma ticks_pres [pres]: "preserves net_wf timer_ticks" by (simp add: preserves_def timer_ticks_def)

lemma rand_pres [pres]: "preserves net_wf net_rand32"
  unfolding net_rand32_def by (intro pres) (auto simp: preserves_def Let_def)

lemma arp_update_pres [pres]: "preserves net_wf (arp_update ip i mac)" unfolding arp_update_def by (intro pres) simp

lemma wf_devices [simp]:
  "net_wf s \<Longrightarrow> net_wf (upd_stats i f s)" "net_wf s \<Longrightarrow> net_wf (netdev_note_rx_drop j s)"
  "net_wf s \<Longrightarrow> net_wf (snd (netdev_recv j n s))" "net_wf s \<Longrightarrow> net_wf (snd (netdev_send j b s))"
  by (simp_all add: upd_stats_def netdev_note_rx_drop_def netdev_recv_def netdev_send_def Let_def split: option.splits prod.splits)

lemma wf_poll_all [simp]: "net_wf s \<Longrightarrow> net_wf (netdev_poll_all s)"
proof -
  have "net_wf s \<Longrightarrow> net_wf (fold (\<lambda>i s. if \<not> nd_used (netdevs s i) then s
      else case op_poll (nd_ops (netdevs s i)) of None \<Rightarrow> s | Some p \<Rightarrow> s\<lparr>hw := p (hw s)\<rparr>) is s)" for "is" and s :: "'d net"
    by (induction "is" arbitrary: s) (auto split: option.splits)
  then show "net_wf s \<Longrightarrow> net_wf (netdev_poll_all s)" by (simp add: netdev_poll_all_def)
qed

lemma wf_ethernet [simp]: "net_wf s \<Longrightarrow> net_wf (snd (send_ethernet d a b t p s))" by (simp add: send_ethernet_def)

lemma wf_arp_send [simp]:
  "net_wf s \<Longrightarrow> net_wf (snd (send_arp_request i ip s))" "net_wf s \<Longrightarrow> net_wf (snd (send_arp_reply i mac ip s))"
  by (simp_all add: send_arp_request_def send_arp_reply_def Let_def)

lemma process_arp_pres [pres]: "preserves net_wf (process_arp i mac p)"
  unfolding process_arp_def Let_def by (intro pres) (auto simp: preserves_def)

section \<open>Socket table\<close>

lemma drop_nth_subset: "set (drop_nth i xs) \<subseteq> set xs" "length (drop_nth i xs) \<le> length xs"
  by (auto simp: drop_nth_def dest: in_set_takeD in_set_dropD)

lemma sock_wf_drop [simp]: "sock_wf k \<Longrightarrow> sock_wf (k\<lparr>t_pending := drop_nth i (t_pending k)\<rparr>)"
  using drop_nth_subset [of i "t_pending k"] by (auto simp: sock_wf_def rx_ok_def udp_ok_def)

lemma sock_wf_listener [simp]: "sock_wf k \<Longrightarrow> (\<forall>l. x = Some l \<longrightarrow> l < NET_SOCK_MAX) \<Longrightarrow> sock_wf (k\<lparr>t_listener := x\<rparr>)"
  by (simp add: sock_wf_def rx_ok_def udp_ok_def)

lemma wf_prune [simp]: "net_wf s \<Longrightarrow> net_wf (listener_queue_prune l s)"
proof -
  have "net_wf s \<Longrightarrow> net_wf (prune_loop l i s)" for i and s :: "'d net"
    by (induction l i s rule: prune_loop.induct) (subst prune_loop.simps, auto simp: Let_def)
  then show "net_wf s \<Longrightarrow> net_wf (listener_queue_prune l s)" by (simp add: listener_queue_prune_def)
qed

lemma wf_queue_add:
  assumes "net_wf s" "l < NET_SOCK_MAX" "c < NET_SOCK_MAX" shows "net_wf (snd (listener_queue_add l c s))"
proof -
  have "sock_wf k \<Longrightarrow> length (t_pending k) < NET_TCP_ACCEPTQ \<Longrightarrow> sock_wf (k\<lparr>t_pending := t_pending k @ [c]\<rparr>)" for k
    using assms(3) by (auto simp: sock_wf_def rx_ok_def udp_ok_def)
  then show ?thesis using assms by (auto simp: listener_queue_add_def Let_def not_le)
qed

lemma wf_queue [simp]:
  "net_wf s \<Longrightarrow> net_wf (listener_queue_remove l c s)" "net_wf s \<Longrightarrow> net_wf (snd (listener_queue_take_established l s))"
  "net_wf s \<Longrightarrow> net_wf (snd (listener_queue_has_established l s))"
  by (auto simp: listener_queue_remove_def listener_queue_take_established_def listener_queue_has_established_def Let_def split: option.splits)

lemma wf_alloc: "net_wf s \<Longrightarrow> pred_option (\<lambda>i. i < NET_SOCK_MAX) (fst (socket_alloc_internal p s)) \<and> net_wf (snd (socket_alloc_internal p s))"
proof -
  assume w: "net_wf s"
  have "net_wf (s\<lparr>socks := (socks s)(i := x)\<rparr>)" if "sock_wf x" for i x
    using wf_upd [OF w, of i "\<lambda>_. x"] that by (simp add: upd_sock_def)
  then show ?thesis using w by (auto simp: socket_alloc_internal_def find_Some_iff split: option.splits)
qed

lemma wf_reset [simp]: "net_wf s \<Longrightarrow> net_wf (socket_reset i s)"
proof -
  have c: "net_wf s \<Longrightarrow> net_wf (clear_children cs s)" for cs and s :: "'d net"
  proof -
    have "net_wf s \<Longrightarrow> net_wf (fold (\<lambda>c. upd_sock c (\<lambda>_. sock_zero)) cs s)" for cs and s :: "'d net"
      by (induction cs arbitrary: s) auto
    then show "net_wf s \<Longrightarrow> net_wf (clear_children cs s)" by (simp add: clear_children_def)
  qed
  show "net_wf s \<Longrightarrow> net_wf (socket_reset i s)" by (auto simp: socket_reset_def Let_def c split: option.splits)
qed

lemma sock_wf_error [simp]: "sock_wf (socket_set_error e k) = sock_wf k" by (simp add: socket_set_error_def)

lemma wf_on_rst [simp]: "net_wf s \<Longrightarrow> net_wf (tcp_on_rst i s)"
  by (auto simp: tcp_on_rst_def Let_def sock_wf_tx tx_zero_def)

lemma sock_wf_push [simp]: "sock_wf k \<Longrightarrow> sock_wf (snd (socket_udp_queue_push d ip port k))"
proof -
  assume k: "sock_wf k"
  then have "udp_ok (snd (socket_udp_queue_push d ip port k))"
    using udp_queue.push_ok [of k "(d, ip, port)"] by (simp add: sock_wf_def udp_push_def)
  then show ?thesis using k by (auto simp: sock_wf_def rx_ok_def socket_udp_queue_push_def)
qed

lemma wf_udp [simp]: "net_wf s \<Longrightarrow> net_wf (process_udp src dst p s)"
proof -
  assume w: "net_wf s"
  show ?thesis unfolding process_udp_def Let_def using w by (auto intro!: wf_fold)
qed

lemma sock_wf_rx: "sock_wf k \<Longrightarrow> sock_wf (snd (tcp_rx_write bs k)) \<and> sock_wf (snd (tcp_rx_read n k))"
proof -
  assume k: "sock_wf k"
  then have ok: "rx_ok k" by (simp add: sock_wf_def)
  have "rx_ok (snd (tcp_rx_write bs k))" "rx_ok (snd (tcp_rx_read n k))" using tcp_rx.write_ok [OF ok] tcp_rx.read_ok [OF ok] by auto
  moreover obtain b t m where "snd (tcp_rx_write bs k) = k\<lparr>rx_buf := b, rx_tail := t, rx_len := m\<rparr>" using rx_write [OF ok refl, of bs] by auto
  moreover obtain h m where "snd (tcp_rx_read n k) = k\<lparr>rx_head := h, rx_len := m\<rparr>" using rx_read [OF ok, of n] by auto
  ultimately show ?thesis using k by (simp add: sock_wf_def udp_ok_def)
qed

lemma wf_rx:
  "net_wf s \<Longrightarrow> tcp_rx_write bs (socks s i) = (m, k) \<Longrightarrow> net_wf (upd_sock i (\<lambda>_. k) s)"
  "net_wf s \<Longrightarrow> tcp_rx_read n (socks s i) = (cs, k) \<Longrightarrow> net_wf (upd_sock i (\<lambda>_. k) s)"
  using sock_wf_rx [of "socks s i" bs n] by (auto simp: wf_sock)

lemma alloc_seq [pres]:
  "(\<And>x. pred_option (\<lambda>i. i < NET_SOCK_MAX) x \<Longrightarrow> preserves net_wf (g x)) \<Longrightarrow> preserves net_wf (seq (lift (socket_alloc_internal p)) g)"
  by (rule preserves_lift_seq [where P = "pred_option (\<lambda>i. i < NET_SOCK_MAX)"]) (rule wf_alloc)

lemma find_socket_seq [pres]:
  "(\<And>x. pred_option (\<lambda>i. i < NET_SOCK_MAX) x \<Longrightarrow> preserves net_wf (g x)) \<Longrightarrow> preserves net_wf (seq (gets (tcp_find_socket a b c d)) g)"
  by (rule preserves_gets_seq [where P = "pred_option (\<lambda>i. i < NET_SOCK_MAX)"])
    (auto simp: tcp_find_socket_def tcp_find_listener_def find_Some_iff Let_def pred_option_def split: option.splits)

lemma wf_rxq_push [simp]: "net_wf s \<Longrightarrow> net_wf (snd (rxq_push d f s))"
  using frame_queue.push_ok [of s "(d, f)"] by (auto simp: net_wf_def frame_push_def rxq_push_def)

lemma wf_collect_dev: "net_wf s \<Longrightarrow> net_wf (collect_dev m d s)"
proof (induction m arbitrary: s)
  case (Suc m)
  obtain n b s1 where r: "netdev_recv d NET_FRAME_MAX s = ((n, b), s1)" by (metis surj_pair)
  obtain ok s2 where q: "rxq_push d (take (nat n) b) s1 = (ok, s2)" by (metis surj_pair)
  have "net_wf s1" using wf_devices(3) [OF Suc.prems, of d NET_FRAME_MAX] r by simp
  moreover from this have "net_wf s2" using wf_rxq_push [of s1 d "take (nat n) b"] q by simp
  ultimately show ?case using Suc.IH by (simp add: r q)
qed simp

lemma wf_collect: "net_wf s \<Longrightarrow> net_wf (net_collect_rx n s)"
  unfolding net_collect_rx_def by (intro wf_fold wf_collect_dev)

section \<open>Handlers\<close>

text \<open>What the handlers rely on in the function that sends.\<close>

locale safe_sender =
  fixes tx :: "'d sender"
  assumes tx_pres [pres]: "preserves net_wf (tx proto src dst p)"
begin

lemma segment_pres [pres]: "preserves net_wf (tcp_send_segment tx i flags sq ak payload re)"
  unfolding tcp_send_segment_def Let_def by (intro pres) (auto simp: sock_wf_tx tx_zero_def)

lemma ack_pres [pres]: "preserves net_wf (tcp_send_ack tx i)" unfolding tcp_send_ack_def by (intro pres)

lemma set_state_pres [pres]: "preserves net_wf (set_state i st)" unfolding set_state_def by (intro pres) auto

lemma time_wait_pres [pres]: "preserves net_wf (tcp_enter_time_wait i)" unfolding tcp_enter_time_wait_def by (intro pres) auto

lemma fin_pres [pres]: "preserves net_wf (tcp_send_fin_now tx i)" unfolding tcp_send_fin_now_def Let_def by (intro pres) auto

lemma rst_pres [pres]: "preserves net_wf (tcp_send_rst_for_segment tx a b c d fl sq ak n)"
  unfolding tcp_send_rst_for_segment_def tcp_send_reply_raw_def Let_def by (intro pres)

lemma ack_advance_pres [pres]: "preserves net_wf (tcp_ack_advance tx i ak)"
  unfolding tcp_ack_advance_def by (intro pres) (auto simp: sock_wf_tx tx_zero_def)

lemma listener_pres: "l < NET_SOCK_MAX \<Longrightarrow> preserves net_wf (process_tcp_listener tx l a b c ak fl sq)"
  unfolding process_tcp_listener_def
  by (intro pres alloc_seq) (auto intro!: wf_queue_add)

lemma transition_pres [pres]: "preserves net_wf (ack_transition i ak)" unfolding ack_transition_def by (intro pres) auto

lemma payload_pres [pres]: "preserves net_wf (take_payload tx i sq p)"
  unfolding take_payload_def Let_def by (intro pres) (auto simp: wf_rx split: prod.splits)

lemma take_fin_pres [pres]: "preserves net_wf (take_fin tx i q)" unfolding take_fin_def by (intro pres) auto

lemma established_pres [pres]: "preserves net_wf (process_tcp_established tx i fl sq ak win p)"
  unfolding process_tcp_established_def by (intro pres) (auto intro!: pres split: option.splits)

lemma tcp_pres [pres]: "preserves net_wf (process_tcp tx a b p)"
  unfolding process_tcp_def Let_def by (intro pres find_socket_seq listener_pres) auto

lemma ipv4_with_pres: "(\<And>a b c d. preserves net_wf (again a b c d)) \<Longrightarrow> preserves net_wf (process_ipv4_with again tx i mac p loc)"
  unfolding process_ipv4_with_def Let_def by (intro pres) auto

lemma ipv4_pres [pres]: "preserves net_wf (process_ipv4 tx i mac p loc)"
  unfolding process_ipv4_def by (intro ipv4_with_pres pres)

lemma inject_pres [pres]: "preserves net_wf (inject_local_ipv4 tx a b c p)" unfolding inject_local_ipv4_def by (intro pres)

lemma deferred_pres [pres]: "preserves net_wf (net_process_deferred tx n)"
proof (induction n)
  case (Suc n)
  have "net_wf s \<Longrightarrow> net_wf (snd (rxq_pop s))" for s :: "'d net"
    using frame_queue.pop_ok [of s] by (auto simp: net_wf_def frame_pop_def rxq_pop_def)
  then show ?case using Suc by (auto intro!: pres simp: Let_def split: option.splits)
qed (simp add: pres)

lemma tick_pres [pres]: "preserves net_wf (tick_socket tx now i)"
  unfolding tick_socket_def Let_def by (intro pres) auto

lemma tcp_tick_pres [pres]: "preserves net_wf (tcp_tick tx now)" unfolding tcp_tick_def by (intro pres)

lemma pump_pres [pres]: "preserves net_wf (net_pump tx)"
  unfolding net_pump_def by (intro pres) (simp add: wf_collect)

lemma resolve_loop_pres: "preserves net_wf (resolve_loop tx n i ip t0 tmo l)"
proof (induction n arbitrary: l)
  case (Suc n)
  then show ?case by (auto intro!: pres simp: Let_def)
qed (simp add: pres)

lemma resolve_pres [pres]: "preserves net_wf (resolve_arp tx n i ip tmo)"
  unfolding resolve_arp_def by (intro pres resolve_loop_pres)

end

section \<open>Sending\<close>

lemma transmit_pres [pres]: "preserves net_wf (transmit r mac proto src dst p)" unfolding transmit_def by (intro pres) simp

lemma send_ex_pres: "preserves net_wf (send_ipv4_l4_ex fuel proto src dst p z :: ('d net, bool) op)"
proof (induction fuel arbitrary: proto src dst p z)
  case (Suc fuel)
  let ?tx = "(\<lambda>proto src dst pl. send_ipv4_l4_ex fuel proto src dst pl False) :: 'd sender"
  have s: "safe_sender ?tx" by (intro safe_sender.intro Suc.IH)
  show ?case unfolding send_ipv4_l4_ex.simps Let_def
    by (intro pres safe_sender.inject_pres [OF s] safe_sender.resolve_pres [OF s])
qed (simp add: pres)

interpretation ip: safe_sender "send_ipv4_l4 fuel" for fuel
  by unfold_locales (simp add: send_ipv4_l4_def send_ex_pres)

lemma send_udp_pres [pres]: "preserves net_wf (send_udp_ipv4 fuel a b c d p)"
  unfolding send_udp_ipv4_def Let_def by (intro pres send_ex_pres)

section \<open>Calls\<close>

lemma wf_ifaces: "net_wf s \<Longrightarrow> length xs \<le> NET_IF_MAX \<Longrightarrow> net_wf (s\<lparr>ifaces := xs\<rparr>)" by (simp add: net_wf_def frames_ok_def)

lemma wf_ifaces_le: "net_wf s \<Longrightarrow> length (ifaces s) \<le> NET_IF_MAX" by (simp add: net_wf_def)

lemma wf_route_ops [simp]:
  "net_wf s \<Longrightarrow> net_wf (snd (route_add a b c d s))" "net_wf s \<Longrightarrow> net_wf (snd (route_del a b s))" "net_wf s \<Longrightarrow> net_wf (snd (route_del_default i s))"
  "net_wf s \<Longrightarrow> net_wf (arp_flush s)" "net_wf s \<Longrightarrow> net_wf (arp_age now s)" "net_wf s \<Longrightarrow> net_wf (routes_clear_for_iface i s)"
  by (simp_all add: route_add_def route_del_def route_del_default_def arp_flush_def arp_age_def routes_clear_for_iface_def split: option.splits)

lemma wf_routes [simp]: "net_wf s \<Longrightarrow> net_wf (iface_refresh_routes i s)" by (simp add: iface_refresh_routes_def Let_def)

lemma wf_resp [simp]: "net_wf s \<Longrightarrow> net_wf (resp_set t s)" by (auto simp: resp_set_def net_wf_def frames_ok_def)

lemma wf_ifconfig [simp]:
  "net_wf s \<Longrightarrow> net_wf (snd (net_ifconfig_set n a b c d s))" "net_wf s \<Longrightarrow> net_wf (snd (net_ifconfig_updown n d s))"
  using wf_ifaces_le [of s] by (auto simp: net_ifconfig_set_def net_ifconfig_updown_def intro!: wf_routes wf_ifaces split: option.splits)

lemma wf_init_phys: "net_wf s \<Longrightarrow> net_wf (init_phys d s)" by (auto simp: init_phys_def Let_def wf_ifaces)

lemma wf_net_init: "net_wf (net_init a b s)"
proof -
  have r: "net_wf s \<Longrightarrow> net_wf (snd (netdev_register n ops s))" for n ops and s :: "'a net"
    by (auto simp: netdev_register_def split: option.splits)
  have i: "ifaces (snd (netdev_register n ops s)) = ifaces s" for n ops and s :: "'a net"
    by (auto simp: netdev_register_def split: option.splits)
  have l: "net_wf s \<Longrightarrow> ifaces s = [] \<Longrightarrow> net_wf (iface_init_loopback s)" for s :: "'a net"
    by (simp add: iface_init_loopback_def wf_ifaces)
  show ?thesis unfolding net_init_def Let_def iface_init_phys_all_def
    by (auto intro!: wf_fold wf_init_phys l r simp: i split: option.splits) (auto simp: net_wf_def frames_ok_def ri_zero_def)
qed

lemma alloc_ephemeral_pres [pres]: "preserves net_wf (socket_alloc_ephemeral k ip proto)"
  by (auto simp: preserves_def socket_alloc_ephemeral_def Let_def split: option.splits)

lemma format_arp_pres [pres]: "preserves net_wf (format_arp is out)"
  by (induction "is" arbitrary: out) (auto intro!: pres simp: Let_def split: prod.splits)

lemma ping_loop_pres [pres]: "preserves net_wf (ping_loop (send_ipv4_l4 fuel) n tmo)"
  by (induction n) (auto intro!: pres ip.pump_pres)

lemma write_pres [pres]: "preserves net_wf (write_tries n fuel i buf nb)"
  by (induction n) (auto intro!: pres ip.pump_pres ip.segment_pres simp: Let_def)

lemma auto_bind_pres [pres]: "preserves net_wf (auto_bind i ip)" unfolding auto_bind_def by (intro pres) auto

lemma calls_pres:
  "preserves net_wf (net_tick fuel now)" "preserves net_wf (net_socket_close fuel i)" "preserves net_wf (net_socket_bind i a p)"
  "preserves net_wf (net_socket_sendto fuel i buf a p)" "preserves net_wf (net_socket_connect fuel i a p nb)" "preserves net_wf (net_socket_listen i bl)"
  "preserves net_wf (net_socket_accept fuel i nb)" "preserves net_wf (net_socket_shutdown fuel i how)" "preserves net_wf (net_socket_read fuel i n nb)"
  "preserves net_wf (net_socket_write fuel i buf nb)"
proof -
  show "preserves net_wf (net_tick fuel now)" unfolding net_tick_def by (intro pres ip.pump_pres) auto
  show "preserves net_wf (net_socket_close fuel i)" unfolding net_socket_close_def reset_hard_def by (intro pres ip.fin_pres) auto
  show "preserves net_wf (net_socket_bind i a p)" unfolding net_socket_bind_def Let_def by (intro pres) auto
  show "preserves net_wf (net_socket_sendto fuel i buf a p)" unfolding net_socket_sendto_def Let_def by (intro pres)
  show "preserves net_wf (net_socket_connect fuel i a p nb)"
    unfolding net_socket_connect_def Let_def by (intro pres ip.pump_pres ip.segment_pres) auto
  show "preserves net_wf (net_socket_listen i bl)"
    unfolding net_socket_listen_def Let_def by (intro pres) (auto simp: sock_wf_def rx_ok_def udp_ok_def)
  show "preserves net_wf (net_socket_accept fuel i nb)" unfolding net_socket_accept_def by (intro pres ip.pump_pres) auto
  show "preserves net_wf (net_socket_shutdown fuel i how)"
    unfolding net_socket_shutdown_def by (intro pres ip.fin_pres) (auto simp: sock_wf_def rx_ok_def udp_ok_def)
  show "preserves net_wf (net_socket_read fuel i n nb)"
    unfolding net_socket_read_def sock_rx_read_def by (intro pres ip.pump_pres) (auto simp: wf_rx split: prod.splits)
  show "preserves net_wf (net_socket_write fuel i buf nb)" unfolding net_socket_write_def by (intro pres)
qed

lemma dev_write_pres: "preserves net_wf (net_dev_write fuel buf)"
proof -
  have a: "preserves net_wf (answer t)" for t unfolding answer_def by (intro pres) simp
  note [pres] = a
  have "preserves net_wf (net_ping4 fuel ip tmo)" for ip tmo unfolding net_ping4_def by (intro pres ip.tx_pres) auto
  then have "preserves net_wf (cmd_ping fuel arg)" for arg unfolding cmd_ping_def by (intro pres) auto
  moreover have "preserves net_wf (cmd_ifconfig arg)" for arg
    unfolding cmd_ifconfig_def Let_def by (intro pres) (auto intro!: pres split: option.splits)
  moreover have "preserves net_wf (cmd_route_add arg)" for arg
    unfolding cmd_route_add_def Let_def by (intro pres) (auto intro!: pres split: option.splits)
  moreover have "preserves net_wf (cmd_route_del arg)" for arg
    unfolding cmd_route_del_def Let_def by (intro pres) (auto intro!: pres split: option.splits)
  moreover have "preserves net_wf (cmd_route_get arg)" for arg
    unfolding cmd_route_get_def by (intro pres) (auto intro!: pres)
  ultimately show ?thesis unfolding net_dev_write_def net_format_arp_def Let_def by (intro pres) auto
qed

lemma wf_calls:
  "net_wf s \<Longrightarrow> net_wf (snd (net_socket_create d ty p s))" "net_wf s \<Longrightarrow> net_wf (net_socket_ref i s)"
  "net_wf s \<Longrightarrow> net_wf (snd (net_socket_recvfrom i n nb s))" "net_wf s \<Longrightarrow> net_wf (snd (net_socket_setsockopt i lv nm v ol s))"
  "net_wf s \<Longrightarrow> net_wf (snd (net_socket_getsockopt i lv nm ol s))" "net_wf s \<Longrightarrow> net_wf (snd (net_socket_poll_revents i ev s))"
  "net_wf s \<Longrightarrow> net_wf (snd (net_dev_read n s))"
proof -
  assume w: "net_wf s"
  show "net_wf (snd (net_socket_create d ty p s))" using wf_alloc [OF w, of PROTO_UDP] wf_alloc [OF w, of PROTO_TCP]
    by (auto simp: net_socket_create_def Let_def w split: prod.splits option.splits)
  show "net_wf (net_socket_ref i s)" using w by (auto simp: net_socket_ref_def)
  have "sock_wf k \<Longrightarrow> sock_wf (snd (socket_udp_queue_pop n k))" for k
    by (cases "q_count k") (auto simp: sock_wf_def rx_ok_def udp_ok_def socket_udp_queue_pop_def Let_def mod_simps)
  from this [of "socks s i"] show "net_wf (snd (net_socket_recvfrom i n nb s))"
    using w by (auto simp: net_socket_recvfrom_def Let_def wf_sock split: prod.splits option.splits)
  show "net_wf (snd (net_socket_setsockopt i lv nm v ol s))" using w by (auto simp: net_socket_setsockopt_def)
  show "net_wf (snd (net_socket_getsockopt i lv nm ol s))" using w by (auto simp: net_socket_getsockopt_def socket_take_error_def)
  obtain has s1 where h: "listener_queue_has_established i s = (has, s1)" by (metis surj_pair)
  have "net_wf s1" using wf_queue(3) [OF w, of i] unfolding h by simp
  then show "net_wf (snd (net_socket_poll_revents i ev s))" by (simp add: net_socket_poll_revents_def Let_def w h)
  show "net_wf (snd (net_dev_read n s))" using w by (auto simp: net_dev_read_def Let_def net_wf_def frames_ok_def)
qed

section \<open>Runs\<close>

text \<open>Any sequence of calls after \<^verbatim>\<open>net_init\<close>, with any arguments, on any hardware.\<close>

inductive net_reachable :: "'d net \<Rightarrow> bool" where
  start: "net_reachable (net_init rtl8125 rtl8139 s)"
| call_tick: "net_reachable s \<Longrightarrow> net_reachable (snd (net_tick fuel now s))"
| call_create: "net_reachable s \<Longrightarrow> net_reachable (snd (net_socket_create d ty p s))"
| call_ref: "net_reachable s \<Longrightarrow> net_reachable (net_socket_ref i s)"
| call_close: "net_reachable s \<Longrightarrow> net_reachable (snd (net_socket_close fuel i s))"
| call_bind: "net_reachable s \<Longrightarrow> net_reachable (snd (net_socket_bind i a port s))"
| call_sendto: "net_reachable s \<Longrightarrow> net_reachable (snd (net_socket_sendto fuel i buf a port s))"
| call_recvfrom: "net_reachable s \<Longrightarrow> net_reachable (snd (net_socket_recvfrom i n nb s))"
| call_connect: "net_reachable s \<Longrightarrow> net_reachable (snd (net_socket_connect fuel i a port nb s))"
| call_listen: "net_reachable s \<Longrightarrow> net_reachable (snd (net_socket_listen i backlog s))"
| call_accept: "net_reachable s \<Longrightarrow> net_reachable (snd (net_socket_accept fuel i nb s))"
| call_shutdown: "net_reachable s \<Longrightarrow> net_reachable (snd (net_socket_shutdown fuel i how s))"
| call_read: "net_reachable s \<Longrightarrow> net_reachable (snd (net_socket_read fuel i n nb s))"
| call_write: "net_reachable s \<Longrightarrow> net_reachable (snd (net_socket_write fuel i buf nb s))"
| call_setsockopt: "net_reachable s \<Longrightarrow> net_reachable (snd (net_socket_setsockopt i lv nm v ol s))"
| call_getsockopt: "net_reachable s \<Longrightarrow> net_reachable (snd (net_socket_getsockopt i lv nm ol s))"
| call_poll: "net_reachable s \<Longrightarrow> net_reachable (snd (net_socket_poll_revents i ev s))"
| call_dev_write: "net_reachable s \<Longrightarrow> net_reachable (snd (net_dev_write fuel buf s))"
| call_dev_read: "net_reachable s \<Longrightarrow> net_reachable (snd (net_dev_read n s))"

text \<open>
  C29. The network stack never leaves its buffers: in every state that any sequence of ticks, socket calls and commands can reach,
  with any traffic, the receive rings, datagram queues, accept queues and the frame queue are within their arrays and consistent, every stored
  datagram, frame and unacknowledged segment fits its buffer, every socket index is in range, and the reply text fits.
\<close>

theorem net_stack_bounds: "net_reachable s \<Longrightarrow> net_wf s"
proof (induction rule: net_reachable.induct)
  case (start a b s)
  show ?case by (rule wf_net_init)
qed (simp_all add: calls_pres [THEN preserves_snd] dev_write_pres [THEN preserves_snd] wf_calls)

theorem net_stack_bounds_witness:
  "net_reachable (snd (net_socket_bind 0 0 0 (snd (net_socket_create 2 1 0 net_example))))
   \<and> net_wf (snd (net_socket_bind 0 0 0 (snd (net_socket_create 2 1 0 net_example))))"
proof -
  have "net_reachable (snd (net_socket_bind 0 0 0 (snd (net_socket_create 2 1 0 net_example))))"
    unfolding net_example_def by (intro net_reachable.intros)
  then show ?thesis using net_stack_bounds by blast
qed

end
