(* ===== verification/NetStream.thy ===== *)
theory NetStream
  imports NetSafe
begin

text \<open>
  The byte stream a TCP socket delivers, and what happens to a \<^verbatim>\<open>FIN\<close> behind data that was received before.
\<close>

lemma seq_lift: "seq (lift f) g s = g (fst (f s)) (snd (f s))" by (simp add: seq_def lift_def split: prod.splits)

section \<open>What sending leaves alone\<close>

type_synonym rx_state = "(nat \<Rightarrow> u8) \<times> nat \<times> nat \<times> nat \<times> u32 \<times> bool"

definition rx_view :: "net_socket \<Rightarrow> rx_state" where
  "rx_view k = (rx_buf k, rx_head k, rx_tail k, rx_len k, rcv_nxt k, rx_closed k)"

text \<open>A sender that does not touch the receiving side of socket \<open>i\<close>.\<close>

locale deaf_sender =
  fixes tx :: "'d sender" and i :: nat
  assumes tx_view: "rx_view (socks (snd (tx proto src dst p s)) i) = rx_view (socks s i)"
begin

abbreviation same :: "rx_state \<Rightarrow> 'd net \<Rightarrow> bool" where "same v s \<equiv> rx_view (socks s i) = v"

lemma same_upd: "(\<And>k. rx_view (f k) = rx_view k) \<Longrightarrow> same v s \<Longrightarrow> same v (upd_sock j f s)" by (auto simp: upd_sock_def)

lemma same_tx [pres]: "preserves (same v) (tx proto src dst p)" by (simp add: preserves_def tx_view)

lemma same_ticks [pres]: "preserves (same v) timer_ticks" by (simp add: preserves_def timer_ticks_def)

lemma same_segment [pres]: "preserves (same v) (tcp_send_segment tx j flags sq ak payload re)"
  unfolding tcp_send_segment_def Let_def by (intro pres same_upd) (simp_all add: rx_view_def)

lemma same_ack [pres]: "preserves (same v) (tcp_send_ack tx j)" unfolding tcp_send_ack_def by (intro pres)

lemma same_fin [pres]: "preserves (same v) (tcp_send_fin_now tx j)"
  unfolding tcp_send_fin_now_def Let_def by (intro pres same_upd) (simp_all add: rx_view_def)

lemma same_ack_advance [pres]: "preserves (same v) (tcp_ack_advance tx j ak)"
  unfolding tcp_ack_advance_def by (intro pres same_upd) (simp_all add: rx_view_def)

lemma same_state [pres]: "preserves (same v) (set_state j st)"
  unfolding set_state_def by (intro pres same_upd) (simp_all add: rx_view_def)

lemma same_time_wait [pres]: "preserves (same v) (tcp_enter_time_wait j)"
  unfolding tcp_enter_time_wait_def by (intro pres same_upd) (simp_all add: rx_view_def)

end

section \<open>The stream\<close>

text \<open>\<open>str\<close> gives the byte of the peer's stream at a sequence number. What was delivered and what is in the buffer is the
  stream from \<open>r0\<close> on, up to the next sequence number expected.\<close>

definition in_order :: "(u32 \<Rightarrow> u8) \<Rightarrow> u32 \<Rightarrow> u8 list \<Rightarrow> net_socket \<Rightarrow> bool" where
  "in_order str r0 del k \<longleftrightarrow> rx_ok k
     \<and> (\<exists>n. del @ rx_contents k = map (\<lambda>j. str (r0 + of_nat j)) [0..<n] \<and> (rx_closed k \<or> rcv_nxt k = r0 + of_nat n))"

lemma in_order_view: "rx_view k = rx_view k' \<Longrightarrow> in_order str r0 del k = in_order str r0 del k'"
  by (simp add: rx_view_def in_order_def rx_ok_def rx_contents_def)

lemma in_order_closed: "in_order str r0 del k \<Longrightarrow> in_order str r0 del (k\<lparr>rcv_nxt := q, rx_closed := True\<rparr>)"
  by (auto simp: in_order_def rx_ok_def rx_contents_def)

lemma in_order_shut: "in_order str r0 del k \<Longrightarrow> in_order str r0 del (k\<lparr>t_state := st, rx_closed := True\<rparr>)"
  by (auto simp: in_order_def rx_ok_def rx_contents_def)

lemma in_order_wnd [simp]: "in_order str r0 del (k\<lparr>peer_wnd := w\<rparr>) = in_order str r0 del k"
  by (rule in_order_view) (simp add: rx_view_def)

lemma in_order_write:
  assumes k: "in_order str r0 del k" "\<not> rx_closed k" and p: "\<forall>j < length p. p ! j = str (rcv_nxt k + of_nat j)"
  shows "in_order str r0 del ((snd (tcp_rx_write p k))\<lparr>rcv_nxt := rcv_nxt (snd (tcp_rx_write p k)) + of_nat (fst (tcp_rx_write p k))\<rparr>)"
proof -
  obtain n where n: "rx_ok k" "del @ rx_contents k = map (\<lambda>j. str (r0 + of_nat j)) [0..<n]" "rcv_nxt k = r0 + of_nat n"
    using k by (auto simp: in_order_def)
  define m where "m = min (length p) (NET_TCP_BUF_MAX - rx_len k)"
  obtain b t where w: "tcp_rx_write p k = (m, k\<lparr>rx_buf := b, rx_tail := t, rx_len := rx_len k + m\<rparr>)"
    "rx_ok (k\<lparr>rx_buf := b, rx_tail := t, rx_len := rx_len k + m\<rparr>)"
    "rx_contents (k\<lparr>rx_buf := b, rx_tail := t, rx_len := rx_len k + m\<rparr>) = rx_contents k @ take m p"
    using rx_write [OF n(1) m_def] by blast
  have "take m p = map (\<lambda>j. str (r0 + of_nat j)) [n..<n + m]"
    using p n(3) by (intro nth_equalityI) (auto simp: m_def add.assoc)
  then have "del @ rx_contents k @ take m p = map (\<lambda>j. str (r0 + of_nat j)) [0..<n + m]"
    using n(2) upt_add_eq_append [of 0 n m] by (metis append.assoc le0 map_append)
  then show ?thesis using w k(2) n(3) unfolding in_order_def w(1) fst_conv snd_conv
    by (auto simp: rx_ok_def rx_contents_def intro!: exI [of _ "n + m"])
qed

lemma in_order_read: "in_order str r0 del k \<Longrightarrow> tcp_rx_read n k = (bs, k') \<Longrightarrow> in_order str r0 (del @ bs) k'"
proof -
  assume k: "in_order str r0 del k" and r: "tcp_rx_read n k = (bs, k')"
  then have ok: "rx_ok k" by (simp add: in_order_def)
  obtain h where "tcp_rx_read n k = (take n (rx_contents k), k\<lparr>rx_head := h, rx_len := rx_len k - n\<rparr>)"
    "rx_ok (k\<lparr>rx_head := h, rx_len := rx_len k - n\<rparr>)" "rx_contents (k\<lparr>rx_head := h, rx_len := rx_len k - n\<rparr>) = drop n (rx_contents k)"
    using rx_read [OF ok, of n] by blast
  then show ?thesis using k r by (auto simp: in_order_def)
qed

context deaf_sender
begin

abbreviation ordered :: "(u32 \<Rightarrow> u8) \<Rightarrow> u32 \<Rightarrow> u8 list \<Rightarrow> 'd net \<Rightarrow> bool" where "ordered str r0 del s \<equiv> in_order str r0 del (socks s i)"

lemma ordered_same: "(\<And>v. preserves (same v) m) \<Longrightarrow> preserves (ordered str r0 del) m"
proof (unfold preserves_def, intro allI impI)
  fix s assume m: "\<And>v. \<forall>s. same v s \<longrightarrow> same v (snd (m s))" and o: "ordered str r0 del s"
  have "same (rx_view (socks s i)) (snd (m s))" using m by blast
  from in_order_view [OF this] o show "ordered str r0 del (snd (m s))" by simp
qed

lemma ordered_upd: "ordered str r0 del s \<Longrightarrow> (in_order str r0 del (socks s i) \<Longrightarrow> in_order str r0 del (f (socks s i))) \<Longrightarrow> ordered str r0 del (upd_sock i f s)"
  by (simp add: upd_sock_def)

lemma ordered_transition: "preserves (ordered str r0 del) (ack_transition i ak)"
  unfolding ack_transition_def
  by (intro pres ordered_same [OF same_state] ordered_same [OF same_time_wait] ordered_upd) (auto intro: in_order_shut)

lemma ordered_payload:
  assumes p: "\<forall>j < length p. p ! j = str (sq + of_nat j)"
  shows "preserves (ordered str r0 del) (take_payload tx i sq p)"
  unfolding take_payload_def
proof (rule preserves_gets_now)
  fix s :: "'d net" assume s: "ordered str r0 del s"
  let ?k = "socks s i"
  note ack = ordered_same [OF same_ack, THEN preserves_snd]
  have acks: "ordered str r0 del (snd (seq (tcp_send_ack tx i) (\<lambda>_. ret x) s1))" if "ordered str r0 del s1" for s1 and x :: "(u32 \<times> nat) option"
    by (rule preserves_snd [OF preserves_seq [OF ordered_same [OF same_ack] preserves_ret] that])
  define old where "old = tcp_seq_lt sq (rcv_nxt ?k)"
  define q where "q = (if old then drop (unat (rcv_nxt ?k - sq)) p else p)"
  have w: "ordered str r0 del (upd_sock i (\<lambda>k. k\<lparr>rcv_nxt := rcv_nxt k + of_nat (fst (tcp_rx_write q ?k))\<rparr>) (upd_sock i (\<lambda>_. snd (tcp_rx_write q ?k)) s))"
    if "\<not> rx_closed ?k" "(if old then rcv_nxt ?k else sq) = rcv_nxt ?k"
  proof -
    have "\<forall>j < length q. q ! j = str (rcv_nxt ?k + of_nat j)" using p that(2) by (auto simp: q_def)
    from in_order_write [OF s that(1) this] show ?thesis by (simp add: upd_sock_def)
  qed
  show "ordered str r0 del (snd ((\<lambda>k. if p = [] then ret (Some (sq, 0)) else if rx_closed k then seq (tcp_send_ack tx i) (\<lambda>_. ret None)
       else let trim = rcv_nxt k - sq in
         if tcp_seq_lt sq (rcv_nxt k) \<and> unat trim \<ge> length p then seq (tcp_send_ack tx i) (\<lambda>_. ret (Some (sq, 0)))
         else let old = tcp_seq_lt sq (rcv_nxt k); payload = (if old then drop (unat trim) p else p); sq' = (if old then rcv_nxt k else sq)
           in if sq' = rcv_nxt k then
                seq (lift (\<lambda>s. case tcp_rx_write payload (socks s i) of (n, k1) \<Rightarrow> (n, upd_sock i (\<lambda>_. k1) s))) (\<lambda>wrote.
                seq (modify (upd_sock i (\<lambda>k. k\<lparr>rcv_nxt := rcv_nxt k + of_nat wrote\<rparr>))) (\<lambda>_.
                seq (tcp_send_ack tx i) (\<lambda>_. ret (Some (sq', length payload)))))
              else seq (tcp_send_ack tx i) (\<lambda>_. ret None)) ?k s))"
    using s w acks by (auto simp: Let_def old_def q_def seq_lift op_simps split: prod.splits)
qed

lemma ordered_fin: "preserves (ordered str r0 del) (take_fin tx i q)"
  unfolding take_fin_def
  by (intro pres ordered_same [OF same_state] ordered_same [OF same_time_wait] ordered_same [OF same_ack] ordered_upd)
    (auto intro: in_order_closed)

lemma ordered_established:
  assumes "flags AND TCP_RST = 0" "\<forall>j < length p. p ! j = str (sq + of_nat j)"
  shows "preserves (ordered str r0 del) (process_tcp_established tx i flags sq ak win p)"
  unfolding process_tcp_established_def
  by (intro pres ordered_same [OF same_ack] ordered_same [OF same_ack_advance] ordered_transition ordered_payload [OF assms(2)] ordered_fin
      ordered_upd) (use assms(1) in auto)

end

section \<open>Sending to the network\<close>

lemma socks_devices [simp]: "socks (snd (netdev_send j b s)) = socks s"
  by (simp add: netdev_send_def upd_stats_def Let_def split: option.splits prod.splits)

lemma socks_transmit: "socks (snd (transmit r mac proto src dst p s)) = socks s"
proof -
  have "preserves (\<lambda>s. socks s = k) (transmit r mac proto src dst p :: ('a net, bool) op)" for k
    unfolding transmit_def net_rand32_def by (intro pres) (auto simp: timer_ticks_def preserves_def Let_def send_ethernet_def)
  from preserves_snd [OF this] show ?thesis by blast
qed

interpretation wire: deaf_sender "transmit r mac" i for r mac i
  by unfold_locales (simp add: socks_transmit)

section \<open>Runs\<close>

datatype rx_event = Segment u16 u32 u32 u16 "u8 list" | Read nat \<comment> \<open>flags, sequence number, acknowledgement, window, payload\<close>

fun rx_run :: "'d sender \<Rightarrow> nat \<Rightarrow> rx_event list \<Rightarrow> 'd net \<Rightarrow> u8 list \<times> 'd net" where \<comment> \<open>the bytes read\<close>
  "rx_run tx i [] s = ([], s)"
| "rx_run tx i (Segment flags sq ak win p # es) s = rx_run tx i es (snd (process_tcp_established tx i flags sq ak win p s))"
| "rx_run tx i (Read n # es) s =
     (case tcp_rx_read n (socks s i) of (bs, k) \<Rightarrow> case rx_run tx i es (upd_sock i (\<lambda>_. k) s) of (ds, s1) \<Rightarrow> (bs @ ds, s1))"

fun from_stream :: "(u32 \<Rightarrow> u8) \<Rightarrow> rx_event \<Rightarrow> bool" where
  "from_stream str (Segment flags sq ak win p) \<longleftrightarrow> flags AND TCP_RST = 0 \<and> (\<forall>j < length p. p ! j = str (sq + of_nat j))"
| "from_stream str (Read n) \<longleftrightarrow> True"

context deaf_sender
begin

lemma run_ordered:
  "ordered str r0 del s \<Longrightarrow> \<forall>e \<in> set es. from_stream str e \<Longrightarrow> rx_run tx i es s = (ds, s') \<Longrightarrow> ordered str r0 (del @ ds) s'"
proof (induction es arbitrary: s del ds)
  case (Cons e es)
  show ?case
  proof (cases e)
    case (Segment flags sq ak win p)
    have "ordered str r0 del (snd (process_tcp_established tx i flags sq ak win p s))"
      using Cons.prems(1,2) Segment by (intro preserves_snd [OF ordered_established]) auto
    from Cons.IH [OF this] show ?thesis using Cons.prems Segment by simp
  next
    case (Read n)
    obtain bs k where r: "tcp_rx_read n (socks s i) = (bs, k)" by (metis surj_pair)
    obtain cs where cs: "rx_run tx i es (upd_sock i (\<lambda>_. k) s) = (cs, s')" "ds = bs @ cs"
      using Cons.prems(3) Read r by (auto split: prod.splits)
    have "ordered str r0 (del @ bs) (upd_sock i (\<lambda>_. k) s)" using in_order_read [OF Cons.prems(1) r] by (simp add: upd_sock_def)
    from Cons.IH [OF this _ cs(1)] show ?thesis using Cons.prems(2) cs(2) by simp
  qed
qed simp

end

text \<open>
  C28. A TCP connection delivers the peer's byte stream: let every segment that arrives carry bytes of the stream \<open>str\<close> at its
  sequence number, in any order, with any overlap, duplication, gap or loss, and let the application read at any time. If sending
  does not touch the receiving side of the socket (as when the packet goes to a device), then the bytes the
  application has read are the bytes of the stream from the first expected sequence number on, in order and without gap or repetition.
\<close>

theorem tcp_delivers_stream:
  assumes tx: "\<And>proto src dst p s. rx_view (socks (snd (tx proto src dst p s)) i) = rx_view (socks s i)"
    and str: "\<forall>e \<in> set es. from_stream str e"
    and start: "rx_ok (socks s i)" "rx_contents (socks s i) = []"
    and run: "rx_run tx i es s = (ds, s')"
  shows "ds = map (\<lambda>j. str (rcv_nxt (socks s i) + of_nat j)) [0..<length ds]"
proof -
  have d: "deaf_sender tx i" using tx by unfold_locales
  let ?r = "rcv_nxt (socks s i)"
  have "in_order str ?r [] (socks s i)" using start by (auto simp: in_order_def intro!: exI [of _ 0])
  from deaf_sender.run_ordered [OF d this str run]
  obtain n where n: "ds @ rx_contents (socks s' i) = map (\<lambda>j. str (?r + of_nat j)) [0..<n]" by (auto simp: in_order_def)
  then have "length ds + length (rx_contents (socks s' i)) = n" by (metis length_append length_map length_upt diff_zero)
  moreover have "ds = take (length ds) (map (\<lambda>j. str (?r + of_nat j)) [0..<n])" using n by (metis append_eq_conv_conj)
  ultimately show ?thesis by (simp add: take_map take_upt)
qed

section \<open>A connection\<close>

definition conn_example :: "unit net" where \<comment> \<open>socket 0 is connected and expects sequence number 100\<close>
  "conn_example = upd_sock 0 (\<lambda>k. k\<lparr>sk_used := True, sk_proto := PROTO_TCP, sk_bound := True, t_state := TCP_ESTABLISHED, rcv_nxt := 100\<rparr>) net_boot"

lemma conn_example_sock: "socks conn_example 0 = sock_zero\<lparr>sk_used := True, sk_proto := PROTO_TCP, sk_bound := True, t_state := TCP_ESTABLISHED, rcv_nxt := 100\<rparr>"
  by (simp add: conn_example_def upd_sock_def net_boot_def)

theorem tcp_delivers_stream_witness:
  "\<exists>ds s'. rx_run (transmit rr_zero [2, 0, 0, 0, 0, 9]) 0
       [Segment TCP_ACK 102 0 512 [102], Segment TCP_ACK 100 0 512 [100, 101], Read 1, Segment TCP_ACK 101 0 512 [101, 102], Read 5] conn_example = (ds, s')
     \<and> ds = map (\<lambda>j. ucast ((100 :: u32) + of_nat j)) [0..<length ds]"
proof -
  let ?es = "[Segment TCP_ACK 102 0 512 [102], Segment TCP_ACK 100 0 512 [100, 101], Read 1, Segment TCP_ACK 101 0 512 [101, 102], Read 5]"
  have e: "\<forall>e \<in> set ?es. from_stream ucast e" by (simp add: All_less_Suc)
  obtain ds s' where r: "rx_run (transmit rr_zero [2, 0, 0, 0, 0, 9]) 0 ?es conn_example = (ds, s')" by (metis surj_pair)
  have "rcv_nxt (socks conn_example 0) = 100" by (simp add: conn_example_sock)
  moreover have "ds = map (\<lambda>j. ucast (rcv_nxt (socks conn_example 0) + of_nat j)) [0..<length ds]"
    by (rule tcp_delivers_stream [OF _ e _ _ r]) (simp_all add: socks_transmit rx_ok_def rx_contents_def conn_example_sock sock_zero_def)
  ultimately show ?thesis using r by auto
qed

section \<open>A FIN behind old data\<close>

context deaf_sender
begin

lemma old_fin: "tcp_seq_lt q r \<Longrightarrow> preserves (same (b, h, t, l, r, c)) (take_fin tx i q)"
  unfolding take_fin_def
proof (rule preserves_gets_now)
  fix s assume lt: "tcp_seq_lt q r" and s: "same (b, h, t, l, r, c) s"
  have r: "rcv_nxt (socks s i) = r" using s by (simp add: rx_view_def)
  have "preserves (same (b, h, t, l, r, c)) (seq (tcp_send_ack tx i)
    (\<lambda>_. seq (gets (\<lambda>s. t_state (socks s i))) (\<lambda>st. if st = TCP_TIME_WAIT then tcp_enter_time_wait i else ret ())))" by (intro pres)
  from preserves_snd [OF this s] lt show "same (b, h, t, l, r, c) (snd ((if tcp_seq_lt q (rcv_nxt (socks s i)) then
         seq (tcp_send_ack tx i) (\<lambda>_.
         seq (gets (\<lambda>s. t_state (socks s i))) (\<lambda>st. if st = TCP_TIME_WAIT then tcp_enter_time_wait i else ret ()))
       else if q = rcv_nxt (socks s i) then
         seq (modify (upd_sock i (\<lambda>k. k\<lparr>rcv_nxt := rcv_nxt k + 1, rx_closed := True\<rparr>))) (\<lambda>_.
         seq (tcp_send_ack tx i) (\<lambda>_.
         seq (gets (\<lambda>s. socks s i)) (\<lambda>k.
           if t_state k = TCP_ESTABLISHED then set_state i TCP_CLOSE_WAIT
           else if t_state k = TCP_FIN_WAIT1 then (if snd_una k = snd_nxt k then tcp_enter_time_wait i else set_state i TCP_CLOSING)
           else if t_state k = TCP_FIN_WAIT2 \<or> t_state k = TCP_TIME_WAIT then tcp_enter_time_wait i
           else ret ())))
       else seq (tcp_send_ack tx i) (\<lambda>_. ret ())) s))" unfolding r by simp
qed

lemma old_segment:
  assumes "snd_una (socks s i) = ak" "flags AND TCP_RST = 0" "\<not> rx_closed (socks s i)" "p \<noteq> []" "tcp_seq_lt sq (rcv_nxt (socks s i))"
    "unat (rcv_nxt (socks s i) - sq) \<ge> length p"
  shows "same (rx_view (socks s i)) (snd (process_tcp_established tx i flags sq ak win p s))"
proof -
  define s1 where "s1 = upd_sock i (\<lambda>k. k\<lparr>peer_wnd := win\<rparr>) s"
  let ?v = "rx_view (socks s i)"
  have s1: "same ?v s1" "snd_una (socks s1 i) = ak" "rx_closed (socks s1 i) = rx_closed (socks s i)" "rcv_nxt (socks s1 i) = rcv_nxt (socks s i)"
    using assms(1) by (simp_all add: s1_def upd_sock_def rx_view_def)
  have adv: "tcp_ack_advance tx i ak s1 = (Some False, s1)" using s1(2) by (simp add: tcp_ack_advance_def op_simps)
  have pay: "take_payload tx i sq p s1 = seq (tcp_send_ack tx i) (\<lambda>_. ret (Some (sq, 0))) s1"
    using assms s1 by (simp add: take_payload_def op_simps Let_def)
  let ?rest = "seq (take_payload tx i sq p) (\<lambda>r. case r of None \<Rightarrow> ret ()
    | Some (sq', n) \<Rightarrow> if flags AND TCP_FIN \<noteq> 0 then take_fin tx i (sq' + of_nat n) else ret ())"
  have fin: "preserves (same ?v) (take_fin tx i sq)" using old_fin [OF assms(5)] by (simp add: rx_view_def)
  have "snd (?rest s1) = snd (seq (tcp_send_ack tx i) (\<lambda>_. if flags AND TCP_FIN \<noteq> 0 then take_fin tx i sq else ret ()) s1)"
    by (simp add: seq_def pay ret_def split: prod.splits option.splits)
  also have "same ?v \<dots>" by (rule preserves_snd [where I = "same ?v", OF _ s1(1)]) (intro pres fin)
  finally have rest: "same ?v (snd (?rest s1))" .
  have ack: "same ?v (snd (seq (tcp_send_ack tx i) (\<lambda>_. ret ()) s1))" by (rule preserves_snd [where I = "same ?v", OF _ s1(1)]) (intro pres)
  have "seq (tcp_ack_advance tx i ak) (\<lambda>adv. if adv then ack_transition i ak else ret ()) s1 = (Some (), s1)" using adv by (simp add: seq_def ret_def)
  then have "snd (process_tcp_established tx i flags sq ak win p s)
      = (if flags AND TCP_ACK \<noteq> 0 \<and> (tcp_seq_lt ak (snd_una (socks s1 i)) \<or> tcp_seq_gt ak (snd_nxt (socks s1 i)))
         then snd (seq (tcp_send_ack tx i) (\<lambda>_. ret ()) s1) else snd (?rest s1))"
    using assms(2) by (simp add: process_tcp_established_def op_simps s1_def [symmetric]) (simp add: seq_def)
  then show ?thesis using ack rest by simp
qed

end

lemma old_sequence:
  fixes sq :: u32
  assumes "n \<noteq> 0" "n < 2 ^ 31"
  shows "tcp_seq_lt sq (sq + of_nat n)" "unat (sq + of_nat n - sq) = n"
proof -
  show "unat (sq + of_nat n - sq) = n" using assms by (simp add: unat_of_nat)
  have "(- of_nat n :: u32) = of_nat (2 ^ 32 - n)" using assms by (simp add: of_nat_diff)
  moreover have "unat (of_nat (2 ^ 32 - n) :: u32) = 2 ^ 32 - n" using assms by (intro unat_of_nat_small) simp
  ultimately have "unat (- of_nat n :: u32) = 2 ^ 32 - n" by metis
  then have "2 ^ 31 \<le> unat (- of_nat n :: u32)" using assms(2) by simp
  then have "(- of_nat n :: u32) AND 0x80000000 \<noteq> 0" by (simp only: top_bit)
  then have "bit (- of_nat n :: u32) 31" using and_exp_eq_0_iff_not_bit [of "- of_nat n :: u32" 31] by simp
  then have "sint (- of_nat n :: u32) < 0" using bit_last_iff [of "- of_nat n :: u32"] by simp
  then show "tcp_seq_lt sq (sq + of_nat n)" by (simp add: tcp_seq_lt_def)
qed



end
