(* ===== verification/Spec2Isabelle.thy ===== *)
theory Spec2Isabelle
  imports Pmm Pipe Ext4ExtentMap Jbd2Ring Jbd2Codec FsInit NetStream
begin

text \<open>
  FuriOS is a kernel for 64-bit ARM with its user programs. This library models the part of the kernel (\<^verbatim>\<open>src/kernel\<close>) that does
  not touch the machine directly: memory and pipes, the path of a file from a system call down to the sectors of a
  disk, and the network stack from a socket down to the frames of a card.

  \<^bold>\<open>The parts and how they interact.\<close> A call on a path or an open file enters the file layer (\<^verbatim>\<open>fs.c\<close>), which keeps a file system in
  memory and passes calls on a mounted file system to the ext4 driver (\<^verbatim>\<open>ext4.c\<close>), each inside a transaction. Contents of
  files and of raw devices go through the page cache (\<^verbatim>\<open>pagecache.c\<close>), whose pages come from the page allocator (\<^verbatim>\<open>pmm.c\<close>). The
  ext4 driver reads and writes bytes of the partition, directly or through one of its two journals, and the block
  cache (\<^verbatim>\<open>block_cache.c\<close>) turns these into accesses to sectors by one of three disk drivers. The network stack (\<^verbatim>\<open>net.c\<close>,
  \<^verbatim>\<open>netdev.c\<close>) has its own state: devices, interfaces, routes, resolved addresses and sockets.

  \<^bold>\<open>Conventions.\<close> Machine integers are words of their width; arrays are lists, or functions on their index where the code
  only ever changes single elements; a pointer to an element is its index. A struct is a record, the static variables
  of a file are a record too. A function that can fail returns an option with the state it leaves (\<open>op\<close> in \<open>StateOps\<close>): a
  failed call may have changed the state. A C string is the list of its bytes before the terminator. Messages on the
  console are left out.

  \<^bold>\<open>Base.\<close> \<open>Prelude\<close>: integer types, constants, shared lemmas. \<open>StateOps\<close>: operations that can fail, rules for what they preserve
  and when they succeed. \<open>Bytes\<close>: the accessors of on-disk integers and the CRC-32C. \<open>Channel\<close>: the contract of a bounded
  byte channel, a locale with interpretations in \<open>Pipe\<close> and \<open>NetQueues\<close>.

  \<^bold>\<open>Memory and pipes.\<close> \<open>Pmm\<close> is \<^verbatim>\<open>pmm.c\<close>, with the RAM it clears: an allocated page was held by nobody and is cleared, a freed
  page is found again, pages handed out are distinct, the bump allocator does not overlap. \<open>Pipe\<close> is \<^verbatim>\<open>pipe.c\<close>: every table
  reachable from boot is well formed, and a pipe delivers what was written, in order.

  \<^bold>\<open>Disks.\<close> \<open>Drivers\<close>: the numbering of disks and the interface of the disk drivers, a parameter; \<open>driver_ok\<close> states what the kernel
  relies on. \<open>BlockCache\<close> is \<^verbatim>\<open>block_cache.c\<close>; \<open>SectorStore\<close> is the contract it offers, a locale it interprets: reads return what was
  written, a flush makes it durable, whatever lines are evicted in between.

  \<^bold>\<open>The ext4 driver\<close> (\<^verbatim>\<open>ext4.c\<close>). \<open>Ext4State\<close>: its state and raw access. \<open>Ext4Disk\<close>: bytes inside and outside transactions, and the
  redo log. \<open>Ext4Map\<close>: group descriptors, inodes, block maps. \<open>Ext4Jbd2\<close>, \<open>Ext4Replay\<close>, \<open>Ext4Tx\<close>: the JBD2 journal, its recovery,
  transactions. \<open>Ext4Alloc\<close>: bitmaps and allocators. \<open>Ext4File\<close>, \<open>Ext4Dir\<close>: reading files, directory entries. \<open>Ext4Blocks\<close>, \<open>Ext4Extents\<close>:
  changing the block map of a file, with pointers or with extents. \<open>Ext4Node\<close>, \<open>Ext4Ops\<close>: the inode cache, lookup, and the
  operations on files and directories, mounting. The properties: \<open>RedoLog\<close> shows that a transaction of the redo log
  takes effect as a whole or not at all, recovery included. \<open>Jbd2View\<close> shows that reads inside a JBD2 transaction see its
  writes, that checkpointing is invisible and that a sync is durable and completes. \<open>Jbd2Ring\<close> and \<open>Jbd2Codec\<close> are about the
  journal's ring and formats. \<open>Ext4Good\<close>, \<open>Ext4Layout\<close> and \<open>Ext4Store\<close> hold shared lemmas and the contract \<open>disk_bytes\<close> of byte access;
  \<open>Ext4Modes\<close> interprets it for direct access, for the redo log and for JBD2, so that the allocator is shown correct in
  all three modes at once. \<open>Ext4DirMap\<close> shows that adding and removing entries of a directory refine updates of a finite
  map; \<open>Ext4ExtentMap\<close> that assigning a block changes the map of a file at exactly one place.

  \<^bold>\<open>The file layer.\<close> \<open>Inodes\<close>: the state of the file layer and the table of the page cache; what other parts of the kernel do is
  the record \<open>env\<close>. \<open>PageCache\<close> is the rest of \<^verbatim>\<open>pagecache.c\<close>. \<open>Memfs\<close>: inodes, directories, files and devices in memory, partitions
  and hot plugging; \<open>Vfs\<close>: looking up paths and all calls of \<^verbatim>\<open>fs.c\<close> but formatting and checking; \<open>FsInit\<close>: the file system at boot.

  \<^bold>\<open>The network stack.\<close> \<open>NetText\<close>: addresses, byte order, checksums. \<open>NetState\<close>, \<open>NetTables\<close>: devices, interfaces, routes, address
  resolution. \<open>NetSock\<close>: sockets and their queues. \<open>NetStack\<close>: packets and the TCP state machine. \<open>NetApi\<close>: the socket calls and the
  commands of \<^verbatim>\<open>/dev/net0\<close>. \<open>NetQueues\<close> and \<open>NetProps\<close> show what the queues, the port allocator, routing, checksums and the printing of
  addresses do; \<open>NetSafe\<close> that no queue or buffer is ever overrun, for any sequence of calls and any traffic;
  \<open>NetStream\<close> that a TCP socket delivers the peer's byte stream, whatever happens to the segments.

  \<^bold>\<open>Bounds and fuel.\<close> Loops over arrays are recursions over their indices. Where the code's recursion is not bounded by its
  data, fuel bounds it: 65536 levels of an extent tree (the depth field has 16 bits; on a cyclic tree the code would
  not return), the size of a directory divided by the smallest record for its entries, nine nested lookups of paths
  (the driver refuses more than eight nested links), the number of inodes for a chain of parents. In \<open>NetStack\<close> the depth to
  which a packet to a local address is processed inside the call that sends it is an argument; the theorems hold for every value of
  it, and an operation that runs out of it fails.

  \<^bold>\<open>Not modelled.\<close> Formatting and checking an ext4 image (\<^verbatim>\<open>fs_mkfs_ext4\<close> and \<^verbatim>\<open>fs_fsck_ext4\<close> of \<^verbatim>\<open>fs.c\<close>). Tasks, system calls, page tables and
  exceptions (\<^verbatim>\<open>task.c\<close>, \<^verbatim>\<open>syscall.c\<close>, \<^verbatim>\<open>mmu.c\<close>, \<^verbatim>\<open>trap.c\<close>, \<^verbatim>\<open>user_copy.c\<close>, the assembly files): they work on registers and page tables of
  the processor. The interrupt controller, the timer, the console and the drivers of disks and network cards: they
  are accesses to device registers; what the modelled code calls of them is a parameter. The user programs, the
  dynamic linker and the compiler, which run above the system calls.
\<close>

end
